(* ===== verification/Prelude.thy ===== *)
theory Prelude
  imports Main "HOL-Library.AList"
begin

text \<open>
  What every component shares: the exceptions of the program as a datatype, results
  that are an exception or a value, actions that thread a state through code that may
  raise, dictionaries as association lists and the JSON values that the datastore keeps.

  An action returns the state also when it raises: a Python exception does not undo the
  assignments that were executed before it.
\<close>

named_theorems act_simps \<open>unfolding of actions\<close>
named_theorems dict_simps \<open>lookup after update and delete of dictionaries\<close>

subsection \<open>Exceptions\<close>

text \<open>
  One constructor per exception class that the modelled code raises, with the arguments
  the code gives it. \<open>Error_of\<close> is the \<^verbatim>\<open>Error(str(e))\<close> that
  \<^verbatim>\<open>wrap_exception\<close> raises in place of an exception that is no nova \<^verbatim>\<open>Error\<close>.
\<close>

datatype exc =
    Error string
  | Error_of exc
  | ApiError string string
  | NotFound string
  | NotAuthorized
  | NoMoreAddresses
  | AddressNotAllocated string
  | AddressAlreadyAssociated
  | AddressNotAssociated
  | NotValidNetworkSize
  | UserError string string
  | InvalidKeyPair string string
  | NO_SUCH_OBJECT
  | HTTPError int
  | KeyError
  | IndexError
  | TypeError
  | ValueError
  | NameError
  | AttributeError
  | IOError
  | OSError
  | PyException string

text \<open>The subclasses of \<^verbatim>\<open>nova.exception.Error\<close>.\<close>

fun is_nova_error :: "exc \<Rightarrow> bool" where
  "is_nova_error (Error m) = True"
| "is_nova_error (Error_of e) = True"
| "is_nova_error (ApiError m c) = True"
| "is_nova_error (NotFound m) = True"
| "is_nova_error NotAuthorized = True"
| "is_nova_error NoMoreAddresses = True"
| "is_nova_error (AddressNotAllocated m) = True"
| "is_nova_error AddressAlreadyAssociated = True"
| "is_nova_error AddressNotAssociated = True"
| "is_nova_error NotValidNetworkSize = True"
| "is_nova_error (UserError m c) = True"
| "is_nova_error (InvalidKeyPair m c) = True"
| "is_nova_error _ = False"

subsection \<open>Results and actions\<close>

type_synonym 'a res = "exc + 'a"

type_synonym ('s, 'a) act = "'s \<Rightarrow> 'a res \<times> 's"

fun bindR :: "'a res \<Rightarrow> ('a \<Rightarrow> 'b res) \<Rightarrow> 'b res" where
  "bindR (Inl e) f = Inl e"
| "bindR (Inr x) f = f x"

definition retS :: "'a \<Rightarrow> ('s, 'a) act" where
  "retS x = (\<lambda>s. (Inr x, s))"

definition raiseS :: "exc \<Rightarrow> ('s, 'a) act" where
  "raiseS e = (\<lambda>s. (Inl e, s))"

definition bindS :: "('s, 'a) act \<Rightarrow> ('a \<Rightarrow> ('s, 'b) act) \<Rightarrow> ('s, 'b) act" where
  "bindS m f = (\<lambda>s. case m s of (Inl e, s') \<Rightarrow> (Inl e, s') | (Inr x, s') \<Rightarrow> f x s')"

definition liftR :: "'a res \<Rightarrow> ('s, 'a) act" where
  "liftR r = (\<lambda>s. (r, s))"

text \<open>\<^verbatim>\<open>try: m / except: h\<close>, with every exception caught.\<close>

definition catchS :: "('s, 'a) act \<Rightarrow> ('s, 'a) act \<Rightarrow> ('s, 'a) act" where
  "catchS m h = (\<lambda>s. case m s of (Inl e, s') \<Rightarrow> h s' | (Inr x, s') \<Rightarrow> (Inr x, s'))"

text \<open>\<^verbatim>\<open>try: m / finally: f\<close>; an exception of the second part replaces the
  outcome of the first.\<close>

definition finallyS :: "('s, 'a) act \<Rightarrow> ('s, unit) act \<Rightarrow> ('s, 'a) act" where
  "finallyS m f = (\<lambda>s. let (r, s') = m s; (r', s'') = f s' in
     (case r' of Inl e \<Rightarrow> (Inl e, s'') | Inr _ \<Rightarrow> (r, s'')))"

text \<open>\<^verbatim>\<open>nova.exception.wrap_exception\<close>.\<close>

definition wrap_exception :: "('s, 'a) act \<Rightarrow> ('s, 'a) act" where
  "wrap_exception f = (\<lambda>s. case f s of
      (Inl e, s') \<Rightarrow> (Inl (if is_nova_error e then e else Error_of e), s')
    | (Inr x, s') \<Rightarrow> (Inr x, s'))"

lemma bindS_eqs [simp, act_simps]:
  "bindS (retS x) f = f x"
  "bindS (raiseS e) f = raiseS e"
  "bindS (liftR (Inl e)) f = raiseS e"
  "bindS (liftR (Inr x)) f = f x"
  by (simp_all add: bindS_def retS_def raiseS_def liftR_def)

lemma act_apply [simp, act_simps]:
  "retS x s = (Inr x, s)" "raiseS e s = (Inl e, s)" "liftR r s = (r, s)"
  by (simp_all add: retS_def raiseS_def liftR_def)

lemma bindS_apply [act_simps]:
  "m s = (Inl e, s') \<Longrightarrow> bindS m f s = (Inl e, s')"
  "m s = (Inr x, s') \<Longrightarrow> bindS m f s = f x s'"
  by (simp_all add: bindS_def)

lemma bindS_Inr:
  "bindS m f s = (Inr y, t) \<longleftrightarrow> (\<exists>x s'. m s = (Inr x, s') \<and> f x s' = (Inr y, t))"
  by (auto simp: bindS_def split: prod.splits sum.splits)

lemma bindS_Inl:
  "bindS m f s = (Inl e, t) \<longleftrightarrow>
     m s = (Inl e, t) \<or> (\<exists>x s'. m s = (Inr x, s') \<and> f x s' = (Inl e, t))"
  by (auto simp: bindS_def split: prod.splits sum.splits)

lemma bindR_Inr [simp]: "bindR m f = Inr y \<longleftrightarrow> (\<exists>x. m = Inr x \<and> f x = Inr y)"
  by (cases m) auto

lemma wrap_exception_Inr:
  "wrap_exception f s = (Inr x, t) \<longleftrightarrow> f s = (Inr x, t)"
  by (auto simp: wrap_exception_def split: prod.splits sum.splits)

lemma wrap_exception_raises_nova:
  "wrap_exception f s = (Inl e, t) \<Longrightarrow> is_nova_error e"
  by (auto simp: wrap_exception_def split: prod.splits sum.splits if_splits)

lemma wrap_exception_state: "snd (wrap_exception f s) = snd (f s)"
  by (auto simp: wrap_exception_def split: prod.splits sum.splits)

subsection \<open>Loops over a list\<close>

text \<open>\<^verbatim>\<open>for x in xs: f(x)\<close>; the first exception leaves the loop.\<close>

fun forS :: "'a list \<Rightarrow> ('a \<Rightarrow> ('s, unit) act) \<Rightarrow> ('s, unit) act" where
  "forS [] f = retS ()"
| "forS (x # xs) f = bindS (f x) (\<lambda>_. forS xs f)"

lemma forS_append: "forS (xs @ ys) f = bindS (forS xs f) (\<lambda>_. forS ys f)"
  by (induction xs) (auto simp: bindS_def fun_eq_iff split: prod.splits sum.splits)

lemma forS_invariant:
  assumes "\<And>x s. x \<in> set xs \<Longrightarrow> P s \<Longrightarrow> P (snd (f x s))" and "P s"
  shows "P (snd (forS xs f s))"
  using assms
proof (induction xs arbitrary: s)
  case Nil
  then show ?case by simp
next
  case (Cons x xs)
  have "P (snd (f x s))" using Cons.prems by simp
  then show ?case
    using Cons.IH [of "snd (f x s)"] Cons.prems(1)
    by (auto simp: bindS_def split: prod.splits sum.splits)
qed

subsection \<open>Dictionaries\<close>

text \<open>
  A Python dictionary is an association list with distinct keys. The order of the list
  is the order in which iteration visits the entries; Python leaves that order open, and
  no property below depends on it. Assignment replaces the entry of a key or adds one.
\<close>

type_synonym ('k, 'v) dict = "('k \<times> 'v) list"

abbreviation has_key :: "('k, 'v) dict \<Rightarrow> 'k \<Rightarrow> bool" where
  "has_key d k \<equiv> map_of d k \<noteq> None"

abbreviation keys :: "('k, 'v) dict \<Rightarrow> 'k list" where
  "keys d \<equiv> map fst d"

abbreviation vals :: "('k, 'v) dict \<Rightarrow> 'v list" where
  "vals d \<equiv> map snd d"

definition dget :: "('k, 'v) dict \<Rightarrow> 'k \<Rightarrow> 'v res" where
  "dget d k = (case map_of d k of None \<Rightarrow> Inl KeyError | Some v \<Rightarrow> Inr v)"

abbreviation dput :: "'k \<Rightarrow> 'v \<Rightarrow> ('k, 'v) dict \<Rightarrow> ('k, 'v) dict" where
  "dput \<equiv> AList.update"

abbreviation ddel :: "'k \<Rightarrow> ('k, 'v) dict \<Rightarrow> ('k, 'v) dict" where
  "ddel \<equiv> AList.delete"

lemma map_of_dput [simp, dict_simps]:
  "map_of (dput k v d) k' = (if k' = k then Some v else map_of d k')"
  by (simp add: update_conv')

lemma map_of_ddel [simp, dict_simps]:
  "map_of (ddel k d) k' = (if k' = k then None else map_of d k')"
  by (simp add: delete_conv')

lemma map_of_fold_ddel:
  "map_of (fold (\<lambda>k. ddel (f k)) ks d) x = (if x \<in> f ` set ks then None else map_of d x)"
  by (induction ks arbitrary: d) auto

lemma map_of_fold_ddel_keys: "map_of (fold ddel ks d) i = (if i \<in> set ks then None else map_of d i)"
  using map_of_fold_ddel [of "\<lambda>k. k" ks d i] by (simp only: image_ident)

lemma distinct_dput [simp, intro]:
  "distinct (keys d) \<Longrightarrow> distinct (keys (dput k v d))"
  by (simp add: distinct_update)

lemma distinct_ddel [simp, intro]:
  "distinct (keys d) \<Longrightarrow> distinct (keys (ddel k d))"
  by (simp add: distinct_delete)

lemma dget_simps [simp, dict_simps]:
  "dget (dput k v d) k = Inr v"
  "k' \<noteq> k \<Longrightarrow> dget (dput k v d) k' = dget d k'"
  "map_of d k = Some v \<Longrightarrow> dget d k = Inr v"
  "map_of d k = None \<Longrightarrow> dget d k = Inl KeyError"
  by (simp_all add: dget_def)

lemma has_key_iff [dict_simps]: "has_key d k \<longleftrightarrow> k \<in> set (keys d)"
  by (simp add: map_of_eq_None_iff)

lemma keys_dput [simp]: "set (keys (dput k v d)) = insert k (set (keys d))"
  by (induction d) auto

lemma keys_ddel [simp]: "set (keys (ddel k d)) = set (keys d) - {k}"
  by (simp add: delete_keys)

lemma keys_image [simp]:
  "fst ` set (dput k v d) = insert k (fst ` set d)" "fst ` set (ddel k d) = fst ` set d - {k}"
  using keys_dput [of k v d] keys_ddel [of k d] by (simp_all only: set_map)

lemma length_dput:
  "length (dput k v d) = (if k \<in> set (keys d) then length d else Suc (length d))"
  by (induction d) auto

lemma in_set_dput: "x \<in> set (dput k v d) \<Longrightarrow> x = (k, v) \<or> x \<in> set d"
  by (induction d) (auto split: if_splits)

lemma in_vals_iff:
  "distinct (keys d) \<Longrightarrow> v \<in> set (vals d) \<longleftrightarrow> (\<exists>k. map_of d k = Some v)"
  by (force simp: image_iff)

lemma filter_key_distinct:
  "distinct (keys d) \<Longrightarrow>
   filter (\<lambda>(k', v). k' = k \<and> P v) d =
   (case map_of d k of None \<Rightarrow> [] | Some v \<Rightarrow> if P v then [(k, v)] else [])"
proof (induction d)
  case (Cons x d)
  obtain a b where x: "x = (a, b)" by fastforce
  have none: "filter (\<lambda>(k', v). k' = a \<and> P v) d = []"
    using Cons.prems x by (force simp: filter_empty_conv)
  show ?case
  proof (cases "k = a")
    case True
    then show ?thesis using none x by simp
  next
    case False
    then show ?thesis using Cons x by auto
  qed
qed simp

lemma fold_dput_distinct:
  assumes "distinct (keys a @ keys b)"
  shows "fold (\<lambda>(k, v). dput k v) b a = a @ b"
  using assms
proof (induction b arbitrary: a)
  case (Cons x b)
  obtain k v where x: "x = (k, v)" by fastforce
  have "dput k v a = a @ [(k, v)]"
    using Cons.prems x by (induction a) auto
  then show ?case using Cons.IH [of "a @ [(k, v)]"] Cons.prems x by auto
qed simp

subsection \<open>JSON values\<close>

text \<open>What \<^verbatim>\<open>anyjson\<close> can write and read back.\<close>

datatype json =
    JNull
  | JBool bool
  | JInt int
  | JStr string
  | JList "json list"
  | JDict "(string \<times> json) list"

type_synonym attributes = "(string, json) dict"

text \<open>Python's truth value, as \<^verbatim>\<open>if not KEEPER['vlans']\<close> reads it.\<close>

fun truthy :: "json \<Rightarrow> bool" where
  "truthy JNull = False"
| "truthy (JBool b) = b"
| "truthy (JInt i) = (i \<noteq> 0)"
| "truthy (JStr s) = (s \<noteq> [])"
| "truthy (JList l) = (l \<noteq> [])"
| "truthy (JDict d) = (d \<noteq> [])"

text \<open>\<^verbatim>\<open>v[key]\<close> on a JSON value: only a dictionary has string keys.\<close>

fun jget :: "json \<Rightarrow> string \<Rightarrow> json res" where
  "jget (JDict d) k = dget d k"
| "jget _ k = Inl TypeError"

fun jstr :: "json \<Rightarrow> string res" where
  "jstr (JStr s) = Inr s"
| "jstr _ = Inl TypeError"

fun jint :: "json \<Rightarrow> int res" where
  "jint (JInt i) = Inr i"
| "jint _ = Inl TypeError"

fun jdict :: "json \<Rightarrow> (string, json) dict res" where
  "jdict (JDict d) = Inr d"
| "jdict _ = Inl TypeError"

fun jlist :: "json \<Rightarrow> json list res" where
  "jlist (JList l) = Inr l"
| "jlist _ = Inl TypeError"

text \<open>A string or \<^verbatim>\<open>None\<close>.\<close>

fun jopt :: "json \<Rightarrow> string option res" where
  "jopt (JStr s) = Inr (Some s)"
| "jopt JNull = Inr None"
| "jopt _ = Inl TypeError"

definition opt_json :: "string option \<Rightarrow> json" where
  "opt_json x = (case x of None \<Rightarrow> JNull | Some s \<Rightarrow> JStr s)"

lemma jopt_opt_json [simp]: "jopt (opt_json x) = Inr x"
  by (cases x) (simp_all add: opt_json_def)

text \<open>A list of results, the first exception first.\<close>

fun mapR :: "('a \<Rightarrow> 'b res) \<Rightarrow> 'a list \<Rightarrow> 'b list res" where
  "mapR f [] = Inr []"
| "mapR f (x # xs) = bindR (f x) (\<lambda>y. bindR (mapR f xs) (\<lambda>ys. Inr (y # ys)))"

lemma mapR_map: "(\<And>x. x \<in> set xs \<Longrightarrow> f (g x) = Inr (h x)) \<Longrightarrow> mapR f (map g xs) = Inr (map h xs)"
  by (induction xs) auto

lemma mapR_id: "(\<And>x. x \<in> set xs \<Longrightarrow> f (g x) = Inr x) \<Longrightarrow> mapR f (map g xs) = Inr xs"
  using mapR_map [of xs f g "\<lambda>x. x"] by simp

end
