(* ===== verification/PyStr.thy ===== *)
theory PyStr
  imports Prelude
begin

text \<open>
  The string operations of Python that the modelled code uses: splitting, joining,
  prefixes, case, and decimal numerals, with the round trips between them.
\<close>

subsection \<open>Split and join\<close>

text \<open>\<^verbatim>\<open>s.split(c)\<close> for a one-character separator.\<close>

fun py_split :: "char \<Rightarrow> string \<Rightarrow> string list" where
  "py_split c [] = [[]]"
| "py_split c (x # xs) =
     (if x = c then [] # py_split c xs
      else (case py_split c xs of [] \<Rightarrow> [[x]] | y # ys \<Rightarrow> (x # y) # ys))"

text \<open>\<^verbatim>\<open>sep.join(xs)\<close>.\<close>

fun py_join :: "string \<Rightarrow> string list \<Rightarrow> string" where
  "py_join sep [] = []"
| "py_join sep [x] = x"
| "py_join sep (x # y # ys) = x @ sep @ py_join sep (y # ys)"

lemma py_split_nonempty [simp]: "py_split c s \<noteq> []"
  by (induction s) (auto split: list.splits)

lemma py_split_no_sep: "c \<notin> set s \<Longrightarrow> py_split c s = [s]"
  by (induction s) auto

lemma py_split_append_sep:
  "c \<notin> set s \<Longrightarrow> py_split c (s @ c # t) = s # py_split c t"
  by (induction s) auto

lemma py_split_append: "py_split c (s @ c # t) = py_split c s @ py_split c t"
proof (induction s)
  case (Cons x s)
  then show ?case by (cases "py_split c s") simp_all
qed simp

lemma py_split_join:
  assumes "xs \<noteq> []" and "\<And>x. x \<in> set xs \<Longrightarrow> c \<notin> set x"
  shows "py_split c (py_join [c] xs) = xs"
  using assms
proof (induction "[c]" xs rule: py_join.induct)
  case (3 x y ys)
  then show ?case by (simp add: py_split_append_sep)
qed (auto simp: py_split_no_sep)

lemma py_join_split: "py_join [c] (py_split c s) = s"
proof (induction s)
  case (Cons x xs)
  show ?case
  proof (cases "py_split c xs")
    case (Cons y ys)
    then show ?thesis using Cons.IH by (cases ys) auto
  qed simp
qed simp

lemma py_split_pieces: "x \<in> set (py_split c s) \<Longrightarrow> c \<notin> set x"
  by (induction s arbitrary: x) (auto split: if_splits list.splits)

lemma set_py_join: "set (py_join sep xs) \<subseteq> set sep \<union> \<Union> (set ` set xs)"
  by (induction sep xs rule: py_join.induct) auto

subsection \<open>Prefixes, slices, case\<close>

text \<open>\<^verbatim>\<open>s.startswith(p)\<close>.\<close>

fun startswith :: "string \<Rightarrow> string \<Rightarrow> bool" where
  "startswith s [] = True"
| "startswith [] (p # ps) = False"
| "startswith (c # s) (p # ps) = (c = p \<and> startswith s ps)"

lemma startswith_iff: "startswith s p \<longleftrightarrow> (\<exists>t. s = p @ t)"
  by (induction s p rule: startswith.induct) auto

lemma startswith_append [simp]: "startswith (p @ t) p"
  by (simp add: startswith_iff)

text \<open>\<^verbatim>\<open>p in s\<close> for strings.\<close>

fun py_contains :: "string \<Rightarrow> string \<Rightarrow> bool" where
  "py_contains [] p \<longleftrightarrow> p = []"
| "py_contains (c # s) p \<longleftrightarrow> startswith (c # s) p \<or> py_contains s p"

lemma py_contains_iff: "py_contains s p \<longleftrightarrow> (\<exists>u v. s = u @ p @ v)"
proof (induction s)
  case (Cons c s)
  have "(\<exists>u v. c # s = u @ p @ v) \<longleftrightarrow> (\<exists>v. c # s = p @ v) \<or> (\<exists>u v. s = u @ p @ v)"
    by (metis append_Cons append_Nil append_eq_Cons_conv)
  then show ?case using Cons by (simp add: startswith_iff)
qed auto

lemma contains_subset: "c \<in> set p \<Longrightarrow> c \<notin> set s \<Longrightarrow> \<not> py_contains s p"
  by (auto simp: py_contains_iff)

lemma py_contains_sep:
  assumes "q \<notin> set p"
  shows "py_contains (a @ q # b) p \<longleftrightarrow> py_contains a p \<or> py_contains b p"
proof (induction a)
  case Nil
  have "\<not> startswith (q # b) p \<or> p = []" using assms by (cases p) (auto simp: startswith_iff)
  then show ?case by (cases b) auto
next
  case (Cons c a)
  have "startswith (c # a @ q # b) p \<longleftrightarrow> startswith (c # a) p"
  proof
    assume "startswith (c # a @ q # b) p"
    then obtain v where v: "(c # a) @ q # b = p @ v" by (auto simp: startswith_iff)
    have "length p \<le> length (c # a)"
    proof (rule ccontr)
      assume l: "\<not> length p \<le> length (c # a)"
      then have "p ! length (c # a) = (p @ v) ! length (c # a)" by (simp add: nth_append)
      also have "\<dots> = q" unfolding v [symmetric] by (rule nth_append_length)
      finally show False using l assms nth_mem [of "length (c # a)" p] by simp
    qed
    then have "p = take (length p) (c # a)"
      using arg_cong [OF v, of "take (length p)"] take_append [of "length p" "c # a" "q # b"]
        take_append [of "length p" p v] by (simp del: take_append)
    then show "startswith (c # a) p"
      by (metis append_take_drop_id startswith_append)
  next
    assume "startswith (c # a) p"
    then obtain t where "c # a = p @ t" by (auto simp: startswith_iff)
    then have "c # a @ q # b = p @ (t @ q # b)" by simp
    then show "startswith (c # a @ q # b) p" unfolding startswith_iff by blast
  qed
  then show ?case using Cons by simp
qed

text \<open>\<^verbatim>\<open>s[-n:] == p\<close> for \<^verbatim>\<open>n = len(p)\<close>, with Python's
  reading of \<^verbatim>\<open>s[-0:]\<close> as the whole of \<^verbatim>\<open>s\<close>.\<close>

definition last_slice :: "string \<Rightarrow> nat \<Rightarrow> string" where
  "last_slice s n = (if n = 0 then s else drop (length s - n) s)"

lemma last_slice_append: "p \<noteq> [] \<Longrightarrow> last_slice (t @ p) (length p) = p"
  by (simp add: last_slice_def)

lemma last_slice_eq_iff:
  "p \<noteq> [] \<Longrightarrow> last_slice s (length p) = p \<longleftrightarrow> (\<exists>t. s = t @ p)"
  unfolding last_slice_def by (auto, metis append_take_drop_id)

definition is_upper :: "char \<Rightarrow> bool" where
  "is_upper c \<longleftrightarrow> 65 \<le> (of_char c :: nat) \<and> (of_char c :: nat) \<le> 90"

definition is_lower :: "char \<Rightarrow> bool" where
  "is_lower c \<longleftrightarrow> 97 \<le> (of_char c :: nat) \<and> (of_char c :: nat) \<le> 122"

definition is_digit :: "char \<Rightarrow> bool" where
  "is_digit c \<longleftrightarrow> 48 \<le> (of_char c :: nat) \<and> (of_char c :: nat) \<le> 57"

definition to_lower :: "char \<Rightarrow> char" where
  "to_lower c = (if is_upper c then char_of ((of_char c :: nat) + 32) else c)"

definition to_upper :: "char \<Rightarrow> char" where
  "to_upper c = (if is_lower c then char_of ((of_char c :: nat) - 32) else c)"

abbreviation lower :: "string \<Rightarrow> string" where
  "lower s \<equiv> map to_lower s"

text \<open>\<^verbatim>\<open>str.isspace\<close> on one character of an ASCII string.\<close>

definition is_space :: "char \<Rightarrow> bool" where
  "is_space c \<longleftrightarrow> (of_char c :: nat) \<in> {9, 10, 11, 12, 13, 32}"

fun lstrip :: "(char \<Rightarrow> bool) \<Rightarrow> string \<Rightarrow> string" where
  "lstrip P [] = []"
| "lstrip P (c # s) = (if P c then lstrip P s else c # s)"

definition strip :: "(char \<Rightarrow> bool) \<Rightarrow> string \<Rightarrow> string" where
  "strip P s = rev (lstrip P (rev (lstrip P s)))"

lemma lstrip_id: "(\<And>c s'. s = c # s' \<Longrightarrow> \<not> P c) \<Longrightarrow> lstrip P s = s"
  by (cases s) auto

lemma lstrip_none: "(\<And>c. c \<in> set s \<Longrightarrow> \<not> P c) \<Longrightarrow> lstrip P s = s"
  by (cases s) auto

lemma strip_none:
  assumes "\<And>c. c \<in> set s \<Longrightarrow> \<not> P c"
  shows "strip P s = s"
proof -
  have "lstrip P s = s" "lstrip P (rev s) = rev s"
    using assms by (auto intro: lstrip_none)
  then show ?thesis by (simp add: strip_def)
qed

lemma lower_upper [simp]: "is_lower c \<Longrightarrow> to_lower (to_upper c) = c"
  by (auto simp: to_lower_def to_upper_def is_lower_def is_upper_def)

lemma to_lower_id: "\<not> is_upper c \<Longrightarrow> to_lower c = c"
  by (simp add: to_lower_def)

lemma is_upper_to_upper [simp]: "is_lower c \<Longrightarrow> is_upper (to_upper c)"
  by (auto simp: to_upper_def is_lower_def is_upper_def)

lemma lower_not_upper [simp]: "is_lower c \<Longrightarrow> \<not> is_upper c"
  by (simp add: is_lower_def is_upper_def)

subsection \<open>Decimal numerals\<close>

definition digit :: "nat \<Rightarrow> char" where
  "digit n = char_of (48 + n)"

fun str_nat :: "nat \<Rightarrow> string" where
  "str_nat n = (if n < 10 then [digit n] else str_nat (n div 10) @ [digit (n mod 10)])"

declare str_nat.simps [simp del]

text \<open>\<^verbatim>\<open>str(i)\<close> for an integer.\<close>

definition str_int :: "int \<Rightarrow> string" where
  "str_int i = (if i < 0 then CHR ''-'' # str_nat (nat (- i)) else str_nat (nat i))"

text \<open>The value of a string of decimal digits, read from the left.\<close>

fun digits_val :: "nat \<Rightarrow> string \<Rightarrow> nat option" where
  "digits_val acc [] = Some acc"
| "digits_val acc (c # cs) =
     (if is_digit c then digits_val (acc * 10 + (of_char c - 48)) cs else None)"

text \<open>
  \<^verbatim>\<open>int(s)\<close> and \<^verbatim>\<open>long(s)\<close> in base 10: white space around the number, an
  optional sign, at least one digit; \<^verbatim>\<open>long\<close> also accepts the suffix
  \<^verbatim>\<open>L\<close>.
\<close>

definition py_sign :: "string \<Rightarrow> int \<times> string" where
  "py_sign s = (case s of
      [] \<Rightarrow> (1, [])
    | c # cs \<Rightarrow> if c = CHR ''+'' then (1, cs) else if c = CHR ''-'' then (-1, cs) else (1, s))"

definition py_int :: "string \<Rightarrow> int res" where
  "py_int s =
     (let (sg, ds) = py_sign (strip is_space s) in
      if ds = [] then Inl ValueError
      else case digits_val 0 (lstrip is_space ds) of None \<Rightarrow> Inl ValueError | Some n \<Rightarrow> Inr (sg * int n))"

definition drop_L :: "string \<Rightarrow> string" where
  "drop_L s = (if s \<noteq> [] \<and> last s \<in> {CHR ''L'', CHR ''l''} \<and> (butlast s = [] \<or> \<not> is_space (last (butlast s)))
     then butlast s else s)"

definition py_long :: "string \<Rightarrow> int res" where
  "py_long s = py_int (drop_L (strip is_space s))"

lemma of_char_digit [simp]: "n < 10 \<Longrightarrow> (of_char (digit n) :: nat) = 48 + n"
  by (simp add: digit_def)

lemma is_digit_digit [simp]: "n < 10 \<Longrightarrow> is_digit (digit n)"
  by (simp add: is_digit_def)

lemma digits_val_append:
  "digits_val acc (s @ t) = Option.bind (digits_val acc s) (\<lambda>a. digits_val a t)"
  by (induction s arbitrary: acc) auto

lemma str_nat_nonempty [simp]: "str_nat n \<noteq> []"
  by (subst str_nat.simps) simp

lemma str_nat_digits: "c \<in> set (str_nat n) \<Longrightarrow> is_digit c"
proof (induction n rule: str_nat.induct)
  case (1 n)
  then show ?case
    using str_nat.simps [of n] by (auto split: if_splits)
qed

lemma digits_val_str_nat: "digits_val 0 (str_nat n) = Some n"
proof (induction n rule: str_nat.induct)
  case (1 n)
  show ?case
  proof (cases "n < 10")
    case True
    then show ?thesis by (subst str_nat.simps) simp
  next
    case False
    with "1.IH" show ?thesis by (subst str_nat.simps) (simp add: digits_val_append)
  qed
qed

lemma str_nat_inj [simp]: "str_nat m = str_nat n \<longleftrightarrow> m = n"
  by (metis digits_val_str_nat option.inject)

lemma digit_not_special:
  "is_digit c \<Longrightarrow> \<not> is_space c" "is_digit c \<Longrightarrow> c \<noteq> CHR ''+''" "is_digit c \<Longrightarrow> c \<noteq> CHR ''-''"
  "is_digit c \<Longrightarrow> c \<noteq> CHR ''L''" "is_digit c \<Longrightarrow> c \<noteq> CHR ''l''" "is_digit c \<Longrightarrow> c \<noteq> CHR ''.''"
  "is_digit c \<Longrightarrow> c \<noteq> CHR ''/''" "is_digit c \<Longrightarrow> c \<noteq> CHR ''x''" "is_digit c \<Longrightarrow> c \<noteq> CHR '':''"
  by (auto simp: is_digit_def is_space_def)

lemma str_nat_chars:
  "CHR ''.'' \<notin> set (str_nat n)" "CHR ''-'' \<notin> set (str_nat n)" "CHR ''/'' \<notin> set (str_nat n)"
  "CHR ''x'' \<notin> set (str_nat n)" "CHR '':'' \<notin> set (str_nat n)"
  using str_nat_digits digit_not_special by blast+

lemma py_int_str_nat [simp]: "py_int (str_nat n) = Inr (int n)"
proof -
  obtain c cs where s: "str_nat n = c # cs" by (cases "str_nat n") auto
  then have c: "is_digit c" using str_nat_digits [of c n] by simp
  have "strip is_space (str_nat n) = str_nat n"
    by (rule strip_none) (auto dest: str_nat_digits digit_not_special)
  moreover have "lstrip is_space (str_nat n) = str_nat n"
    by (rule lstrip_none) (auto dest: str_nat_digits digit_not_special)
  moreover have "py_sign (str_nat n) = (1, str_nat n)"
    using c s by (simp add: py_sign_def digit_not_special)
  ultimately show ?thesis by (simp add: py_int_def digits_val_str_nat)
qed

lemma py_long_str_nat [simp]: "py_long (str_nat n) = Inr (int n)"
proof -
  have "strip is_space (str_nat n) = str_nat n"
    by (rule strip_none) (auto dest: str_nat_digits digit_not_special)
  moreover have "drop_L (str_nat n) = str_nat n"
    using digit_not_special(4,5) [OF str_nat_digits, of "last (str_nat n)" n]
    by (simp add: drop_L_def)
  ultimately show ?thesis by (simp add: py_long_def)
qed

lemma str_int_nonneg: "0 \<le> i \<Longrightarrow> str_int i = str_nat (nat i)"
  by (simp add: str_int_def)

lemma str_nat_no_minus: "str_nat m \<noteq> CHR ''-'' # s"
  using str_nat_chars(2) [of m] by auto

lemma str_int_inj [simp]: "str_int i = str_int j \<longleftrightarrow> i = j"
  using str_nat_no_minus by (auto simp: str_int_def) metis+

subsection \<open>Numbers in base 16\<close>

definition hex_val :: "char \<Rightarrow> int option" where
  "hex_val c = (let n = of_char c :: int in
     if is_digit c then Some (n - 48)
     else if 97 \<le> n \<and> n \<le> 102 then Some (n - 87)
     else if 65 \<le> n \<and> n \<le> 70 then Some (n - 55) else None)"

fun hex_digits_val :: "int \<Rightarrow> string \<Rightarrow> int option" where
  "hex_digits_val acc [] = Some acc"
| "hex_digits_val acc (c # cs) =
     (case hex_val c of None \<Rightarrow> None | Some d \<Rightarrow> hex_digits_val (acc * 16 + d) cs)"

definition drop_0x :: "string \<Rightarrow> string" where
  "drop_0x s = (if startswith s ''0x'' \<or> startswith s ''0X'' then drop 2 s else s)"

text \<open>\<^verbatim>\<open>int(s, 16)\<close> and \<^verbatim>\<open>long(s, 16)\<close>.\<close>

definition py_int16 :: "string \<Rightarrow> int res" where
  "py_int16 s =
     (let (sg, ds) = py_sign (strip is_space s); ds = drop_0x ds in
      if ds = [] then Inl ValueError
      else case hex_digits_val 0 ds of None \<Rightarrow> Inl ValueError | Some n \<Rightarrow> Inr (sg * n))"

definition py_long16 :: "string \<Rightarrow> int res" where
  "py_long16 s = py_int16 (drop_L (strip is_space s))"

subsection \<open>Percent encoding, read\<close>

text \<open>\<^verbatim>\<open>urllib.unquote\<close>\<close>

definition hex_value :: "char \<Rightarrow> nat option" where
  "hex_value c = (let n = of_char c :: nat in
     if 48 \<le> n \<and> n \<le> 57 then Some (n - 48)
     else if 65 \<le> n \<and> n \<le> 70 then Some (n - 55)
     else if 97 \<le> n \<and> n \<le> 102 then Some (n - 87)
     else None)"

fun unquote :: "string \<Rightarrow> string" where
  "unquote [] = []"
| "unquote (c # s) =
     (if c = CHR ''%'' then
        (case s of
           a # b # r \<Rightarrow> (case (hex_value a, hex_value b) of
               (Some x, Some y) \<Rightarrow> char_of (x * 16 + y) # unquote r
             | _ \<Rightarrow> c # unquote s)
         | _ \<Rightarrow> c # unquote s)
      else c # unquote s)"

end
