(* ===== verification/Xml.thy ===== *)
theory Xml
  imports PyStr
begin

text \<open>
  What the node and the fake hypervisor use of \<^verbatim>\<open>xml.etree.ElementTree\<close>:
  parsing a document into its elements, the first child with a given tag and the text of an element.
  Attributes are checked for their form and dropped, because nothing reads them. The parser reads
  elements, comments, text and the five predefined entities; it refuses the rest of XML (processing
  instructions, document types, CDATA sections, numeric character references), which the template of
  the repository does not use.
\<close>

datatype xml = Element (xml_tag: string) (xml_chars: string) (xml_children: "xml list")

abbreviation ParseError :: exc where
  "ParseError \<equiv> PyException ''ParseError''"

subsection \<open>Text\<close>

definition entities :: "(string \<times> char) list" where
  "entities = [(''lt'', CHR ''<''), (''gt'', CHR ''>''), (''amp'', CHR ''&''), (''quot'', CHR 0x22), (''apos'', CHR 0x27)]"

fun entity_piece :: "string \<Rightarrow> string res" where
  "entity_piece p = (case py_split CHR '';'' p of
      nm # rest # more \<Rightarrow> (case map_of entities nm of
          None \<Rightarrow> Inl ParseError
        | Some c \<Rightarrow> Inr (c # py_join '';'' (rest # more)))
    | _ \<Rightarrow> Inl ParseError)"

definition xml_char :: "char \<Rightarrow> bool" where
  "xml_char c \<longleftrightarrow> 32 \<le> (of_char c :: nat) \<or> (of_char c :: nat) \<in> {9, 10, 13}"

definition unescape :: "string \<Rightarrow> string res" where
  "unescape s =
     (if \<not> list_all xml_char s then Inl ParseError
      else case py_split CHR ''&'' s of
          [] \<Rightarrow> Inr []
        | p # ps \<Rightarrow> bindR (mapR entity_piece ps) (\<lambda>qs. Inr (p @ concat qs)))"

subsection \<open>Tags\<close>

text \<open>The inside of a tag up to the closing bracket that is not within quotes, and the rest.\<close>

fun scan_tag :: "char option \<Rightarrow> string \<Rightarrow> (string \<times> string) res" where
  "scan_tag q [] = Inl ParseError"
| "scan_tag None (c # cs) =
     (if c = CHR ''>'' then Inr ([], cs)
      else bindR (scan_tag (if c = CHR 0x22 \<or> c = CHR 0x27 then Some c else None) cs) (\<lambda>(t, rest). Inr (c # t, rest)))"
| "scan_tag (Some q) (c # cs) =
     bindR (scan_tag (if c = q then None else Some q) cs) (\<lambda>(t, rest). Inr (c # t, rest))"

definition name_char :: "char \<Rightarrow> bool" where
  "name_char c \<longleftrightarrow> is_upper c \<or> is_lower c \<or> is_digit c \<or> c \<in> set ''_-.:''"

datatype attr_state = Gap | Blank | In_Name | After_Name | Equals | In_Value char

fun attr_step :: "attr_state \<Rightarrow> char \<Rightarrow> attr_state option" where
  "attr_step Gap c = (if is_space c then Some Blank else None)"
| "attr_step Blank c = (if is_space c then Some Blank else if name_char c then Some In_Name else None)"
| "attr_step In_Name c = (if name_char c then Some In_Name else if c = CHR ''='' then Some Equals
     else if is_space c then Some After_Name else None)"
| "attr_step After_Name c = (if c = CHR ''='' then Some Equals else if is_space c then Some After_Name else None)"
| "attr_step Equals c = (if is_space c then Some Equals else if c = CHR 0x22 \<or> c = CHR 0x27 then Some (In_Value c) else None)"
| "attr_step (In_Value q) c = Some (if c = q then Gap else In_Value q)"

fun attrs_ok :: "attr_state \<Rightarrow> string \<Rightarrow> bool" where
  "attrs_ok st [] \<longleftrightarrow> st = Gap \<or> st = Blank"
| "attrs_ok st (c # cs) \<longleftrightarrow> (case attr_step st c of None \<Rightarrow> False | Some st' \<Rightarrow> attrs_ok st' cs)"

text \<open>The tag name and whether the element is empty, from the inside of an opening tag.\<close>

definition open_tag :: "string \<Rightarrow> (string \<times> bool) res" where
  "open_tag t =
     (let empty_elem = (t \<noteq> [] \<and> last t = CHR ''/'');
          t = (if empty_elem then butlast t else t);
          nm = takeWhile name_char t
      in if nm \<noteq> [] \<and> attrs_ok Gap (drop (length nm) t) \<and> unescape t \<noteq> Inl ParseError
         then Inr (nm, empty_elem) else Inl ParseError)"

subsection \<open>Documents\<close>

text \<open>
  An open element: its tag, the text before its first child and the children in reverse order.
  The parser holds the open elements, the innermost first, and the root once it is closed.
\<close>

type_synonym frame = "string \<times> string \<times> xml list"

datatype parser = Parser (p_comment: bool) (p_stack: "frame list") (p_root: "xml option")

text \<open>The text that follows a tag or a comment.\<close>

fun add_text :: "string \<Rightarrow> parser \<Rightarrow> parser res" where
  "add_text raw (Parser cm [] root) = (if list_all is_space raw then Inr (Parser cm [] root) else Inl ParseError)"
| "add_text raw (Parser cm ((tag, chars, kids) # st) root) =
     bindR (if py_contains raw '']]>'' then Inl ParseError else unescape raw) (\<lambda>s. Inr (Parser cm ((tag, if kids = [] then chars @ s else chars, kids) # st) root))"

text \<open>An element is complete.\<close>

fun close_elem :: "xml \<Rightarrow> parser \<Rightarrow> parser" where
  "close_elem x (Parser cm [] root) = Parser cm [] (Some x)"
| "close_elem x (Parser cm ((tag, chars, kids) # st) root) = Parser cm ((tag, chars, x # kids) # st) root"

text \<open>The text after the end of a comment; no result while the comment goes on.\<close>

fun after_comment :: "string \<Rightarrow> string option res" where
  "after_comment [] = Inr None"
| "after_comment (c # cs) =
     (if startswith (c # cs) ''--'' then
        (if startswith (c # cs) ''-->'' then Inr (Some (drop 3 (c # cs))) else Inl ParseError)
      else after_comment cs)"

definition comment_piece :: "string \<Rightarrow> parser \<Rightarrow> parser res" where
  "comment_piece s p =
     bindR (after_comment s) (\<lambda>r. case r of
         None \<Rightarrow> Inr (Parser True (p_stack p) (p_root p))
       | Some rest \<Rightarrow> add_text rest (Parser False (p_stack p) (p_root p)))"

text \<open>A tag without its attributes, and the text after it.\<close>

datatype tag = Open_Tag string | Empty_Tag string | Close_Tag string

definition read_tag :: "string \<Rightarrow> (tag \<times> string) res" where
  "read_tag s =
     bindR (scan_tag None s) (\<lambda>(t, rest).
       if startswith t ''/'' then Inr (Close_Tag (strip is_space (drop 1 t)), rest)
       else bindR (open_tag t) (\<lambda>(nm, empty_elem).
         Inr (if empty_elem then Empty_Tag nm else Open_Tag nm, rest)))"

fun apply_tag :: "tag \<Rightarrow> parser \<Rightarrow> parser res" where
  "apply_tag (Close_Tag nm) (Parser cm [] root) = Inl ParseError"
| "apply_tag (Close_Tag nm) (Parser cm ((tag, chars, kids) # st) root) =
     (if tag = nm then Inr (close_elem (Element tag chars (rev kids)) (Parser cm st root)) else Inl ParseError)"
| "apply_tag (Open_Tag nm) (Parser cm st root) =
     (if st = [] \<and> root \<noteq> None then Inl ParseError else Inr (Parser cm ((nm, [], []) # st) root))"
| "apply_tag (Empty_Tag nm) (Parser cm st root) =
     (if st = [] \<and> root \<noteq> None then Inl ParseError else Inr (close_elem (Element nm [] []) (Parser cm st root)))"

text \<open>What follows one opening bracket, up to the next.\<close>

definition xml_piece :: "string \<Rightarrow> parser \<Rightarrow> parser res" where
  "xml_piece s p =
     (if p_comment p then comment_piece s p
      else if startswith s ''!--'' then comment_piece (drop 3 s) p
      else bindR (read_tag s) (\<lambda>(t, rest). bindR (apply_tag t p) (add_text rest)))"

fun xml_pieces :: "string list \<Rightarrow> parser \<Rightarrow> parser res" where
  "xml_pieces [] p = Inr p"
| "xml_pieces (s # ss) p = bindR (xml_piece s p) (xml_pieces ss)"

text \<open>\<^verbatim>\<open>ElementTree.parse\<close>: the root element of the document.\<close>

definition parse_xml :: "string \<Rightarrow> xml res" where
  "parse_xml doc =
     (case py_split CHR ''<'' doc of
        [] \<Rightarrow> Inl ParseError
      | prolog # pieces \<Rightarrow>
          bindR (add_text prolog (Parser False [] None)) (\<lambda>p.
          bindR (xml_pieces pieces p) (\<lambda>p.
            case p_root p of
              Some x \<Rightarrow> if p_comment p \<or> p_stack p \<noteq> [] then Inl ParseError else Inr x
            | None \<Rightarrow> Inl ParseError)))"

text \<open>\<^verbatim>\<open>tree.find(tag)\<close>, and the text of an element, which is
  \<^verbatim>\<open>None\<close> when it is empty.\<close>

definition xml_find :: "xml \<Rightarrow> string \<Rightarrow> xml option" where
  "xml_find x tag = find (\<lambda>y. xml_tag y = tag) (xml_children x)"

definition xml_text :: "xml \<Rightarrow> string option" where
  "xml_text x = (if xml_chars x = [] then None else Some (xml_chars x))"

text \<open>\<^verbatim>\<open>tree.find(tag).text\<close>.\<close>

definition find_text :: "xml \<Rightarrow> string \<Rightarrow> string option res" where
  "find_text x tag = (case xml_find x tag of None \<Rightarrow> Inl AttributeError | Some y \<Rightarrow> Inr (xml_text y))"

subsection \<open>Reading text that holds no markup\<close>

lemma unescape_plain: "list_all xml_char s \<Longrightarrow> CHR ''&'' \<notin> set s \<Longrightarrow> unescape s = Inr s"
  by (simp add: unescape_def py_split_no_sep)

lemma scan_tag_value:
  "q \<notin> set v \<Longrightarrow> scan_tag (Some q) (v @ cs) = bindR (scan_tag (Some q) cs) (\<lambda>(t, rest). Inr (v @ t, rest))"
proof (induction v)
  case Nil
  then show ?case by (cases "scan_tag (Some q) cs") (simp_all add: case_prod_beta)
next
  case (Cons c v)
  then have "c \<noteq> q" by auto
  then show ?case using Cons by (cases "scan_tag (Some q) cs") (simp_all add: case_prod_beta)
qed

lemma attrs_ok_value: "q \<notin> set v \<Longrightarrow> attrs_ok (In_Value q) (v @ cs) = attrs_ok (In_Value q) cs"
  by (induction v) auto

lemma after_comment_open: "\<not> py_contains s ''--'' \<Longrightarrow> after_comment s = Inr None"
  by (induction s) auto

lemma xml_pieces_append: "xml_pieces (xs @ ys) p = bindR (xml_pieces xs p) (xml_pieces ys)"
proof (induction xs arbitrary: p)
  case (Cons x xs)
  then show ?case by (cases "xml_piece x p") simp_all
qed simp

text \<open>A run of tags without comments.\<close>

fun apply_tags :: "(tag \<times> string) list \<Rightarrow> parser \<Rightarrow> parser res" where
  "apply_tags [] p = Inr p"
| "apply_tags ((t, rest) # ts) p = bindR (bindR (apply_tag t p) (add_text rest)) (apply_tags ts)"

lemma comment_kept:
  "apply_tag t p = Inr q \<Longrightarrow> p_comment q = p_comment p"
  "add_text raw p = Inr q \<Longrightarrow> p_comment q = p_comment p"
  "p_comment (close_elem x p) = p_comment p"
proof -
  show c: "p_comment (close_elem x p) = p_comment p" for x p
    by (cases "(x, p)" rule: close_elem.cases) simp_all
  show "apply_tag t p = Inr q \<Longrightarrow> p_comment q = p_comment p"
    by (cases "(t, p)" rule: apply_tag.cases) (auto simp: c split: if_splits)
  show "add_text raw p = Inr q \<Longrightarrow> p_comment q = p_comment p"
    by (cases "(raw, p)" rule: add_text.cases) (auto split: if_splits)
qed

lemma xml_pieces_tags:
  assumes "mapR read_tag ss = Inr ts" and "\<forall>s \<in> set ss. \<not> startswith s ''!--''" and "\<not> p_comment p"
  shows "xml_pieces ss p = apply_tags ts p"
  using assms
proof (induction ss arbitrary: ts p)
  case (Cons s ss)
  then obtain t rest ts' where t: "read_tag s = Inr (t, rest)" "mapR read_tag ss = Inr ts'" "ts = (t, rest) # ts'"
    by auto
  have s: "xml_piece s p = bindR (apply_tag t p) (add_text rest)"
    using Cons.prems t(1) by (simp add: xml_piece_def)
  show ?case
  proof (cases "bindR (apply_tag t p) (add_text rest)")
    case (Inr q)
    then have "\<not> p_comment q" using comment_kept Cons.prems(3) by (cases "apply_tag t p") auto
    moreover have "\<forall>s \<in> set ss. \<not> startswith s ''!--''" using Cons.prems(2) by simp
    ultimately have "xml_pieces ss q = apply_tags ts' q" by (rule Cons.IH [OF t(2), rotated])
    then show ?thesis unfolding t(3) xml_pieces.simps apply_tags.simps s Inr by simp
  qed (use s t in simp)
qed simp

end
