(* ===== verification/Flags.thy ===== *)
theory Flags
  imports PyStr
begin

text \<open>
  The command line flags the modelled code reads, as a record, and the values the
  \<^verbatim>\<open>DEFINE_\<close> calls give them. Paths that the source builds with
  \<^verbatim>\<open>utils.abspath\<close> are relative to the directory of the package; the host
  name is the machine's, and the working directory of the process, which
  \<^verbatim>\<open>os.path.abspath\<close> reads, is kept with them.
\<close>

record flags =
  compute_topic :: string
  storage_topic :: string
  fake_libvirt :: bool
  fake_network :: bool
  fake_users :: bool
  fake_storage :: bool
  control_exchange :: string
  default_image :: string
  default_kernel :: string
  default_ramdisk :: string
  default_instance_type :: string
  node_name :: string
  vpn_image_id :: string
  datastore_path :: string
  networks_path :: string
  public_vlan :: int
  bridge_dev :: string
  vlan_start :: int
  vlan_end :: int
  network_size :: int
  public_interface :: string
  public_range :: string
  private_range :: string
  ldap_subtree :: string
  user_unit :: string
  vpn_ip :: string
  volume_group :: string
  storage_dev :: string
  aoe_eth_dev :: string
  storage_name :: string
  use_s3 :: bool
  instances_path :: string
  s3_port :: int
  s3_host :: string
  buckets_path :: string
  images_path :: string
  ca_file :: string
  keys_path :: string
  ca_path_flag :: string
  work_dir :: string

definition default_flags :: "string \<Rightarrow> string \<Rightarrow> flags" where
  "default_flags nova_dir host = \<lparr>
     compute_topic = ''compute'', storage_topic = ''storage'',
     fake_libvirt = False, fake_network = False, fake_users = False, fake_storage = False,
     control_exchange = ''nova'',
     default_image = ''ami-25CB1213'', default_kernel = ''aki-EAB510D9'',
     default_ramdisk = ''ari-22F211EF'', default_instance_type = ''m1.small'',
     node_name = host, vpn_image_id = ''ami-A7370FE3'',
     datastore_path = nova_dir @ ''/../keeper'',
     networks_path = nova_dir @ ''/../networks'',
     public_vlan = 2000, bridge_dev = ''eth2'', vlan_start = 2020, vlan_end = 2039,
     network_size = 256, public_interface = ''vlan124'',
     public_range = ''198.10.124.128-198.10.124.191'', private_range = ''10.128.0.0/12'',
     ldap_subtree = ''ou=Users,dc=example,dc=com'', user_unit = ''Users'',
     vpn_ip = ''127.0.0.1'',
     volume_group = ''nova-volumes'', storage_dev = ''/dev/sdb'', aoe_eth_dev = ''eth0'',
     storage_name = host,
     use_s3 = True, instances_path = nova_dir @ ''/../instances'',
     s3_port = 3333, s3_host = ''172.24.226.1'',
     buckets_path = nova_dir @ ''/../buckets'', images_path = nova_dir @ ''/../images'',
     ca_file = ''cacert.pem'', keys_path = nova_dir @ ''/../keys'',
     ca_path_flag = nova_dir @ ''/../CA'',
     work_dir = nova_dir \<rparr>"

end
