(* ===== verification/Paths.thy ===== *)
theory Paths
  imports Flags
begin

text \<open>
  The functions of \<^verbatim>\<open>os.path\<close> that the node and the object store build file
  names with. Both take absolute paths with \<^verbatim>\<open>os.path.abspath\<close> and then rely on the
  result having no dots in it.
\<close>

definition path_join :: "string \<Rightarrow> string \<Rightarrow> string" where
  "path_join a b =
     (if startswith b ''/'' then b
      else if a = [] \<or> last a = CHR ''/'' then a @ b
      else a @ ''/'' @ b)"

text \<open>The loop of \<^verbatim>\<open>posixpath.normpath\<close>; the components collected so far are in
  reverse order.\<close>

fun norm_comps :: "bool \<Rightarrow> string list \<Rightarrow> string list \<Rightarrow> string list" where
  "norm_comps rooted acc [] = rev acc"
| "norm_comps rooted acc (c # cs) =
     (if c = [] \<or> c = ''.'' then norm_comps rooted acc cs
      else if c \<noteq> ''..'' \<or> (\<not> rooted \<and> acc = []) \<or> (acc \<noteq> [] \<and> hd acc = ''..'')
        then norm_comps rooted (c # acc) cs
      else norm_comps rooted (tl acc) cs)"

definition leading_slashes :: "string \<Rightarrow> nat" where
  "leading_slashes p =
     (if \<not> startswith p ''/'' then 0
      else if startswith p ''//'' \<and> \<not> startswith p ''///'' then 2 else 1)"

definition normpath :: "string \<Rightarrow> string" where
  "normpath p =
     (if p = [] then ''.''
      else let n = leading_slashes p;
               q = replicate n CHR ''/'' @ py_join ''/'' (norm_comps (n > 0) [] (py_split CHR ''/'' p))
           in if q = [] then ''.'' else q)"

definition abspath :: "flags \<Rightarrow> string \<Rightarrow> string" where
  "abspath fl p = normpath (if startswith p ''/'' then p else path_join (work_dir fl) p)"

text \<open>\<^verbatim>\<open>os.path.split\<close> gives \<open>(dirname, basename)\<close>.\<close>

definition path_head :: "string \<Rightarrow> string" where
  "path_head p = (let h = rev (dropWhile (\<lambda>c. c \<noteq> CHR ''/'') (rev p))
     in if \<exists>c \<in> set h. c \<noteq> CHR ''/'' then rev (dropWhile (\<lambda>c. c = CHR ''/'') (rev h)) else h)"

definition path_tail :: "string \<Rightarrow> string" where
  "path_tail p = rev (takeWhile (\<lambda>c. c \<noteq> CHR ''/'') (rev p))"

text \<open>A component of a path without dots.\<close>

definition plain_comp :: "string \<Rightarrow> bool" where
  "plain_comp c \<longleftrightarrow> c \<noteq> [] \<and> c \<noteq> ''.'' \<and> c \<noteq> ''..'' \<and> CHR ''/'' \<notin> set c"

lemma plain_comp_Nil [simp]: "\<not> plain_comp []"
  by (simp add: plain_comp_def)

lemma norm_comps_plain:
  "(\<forall>c \<in> set acc. plain_comp c) \<Longrightarrow> (\<forall>c \<in> set cs. CHR ''/'' \<notin> set c) \<Longrightarrow>
   \<forall>c \<in> set (norm_comps True acc cs). plain_comp c"
proof (induction cs arbitrary: acc)
  case (Cons c cs)
  have "\<forall>c \<in> set (tl acc). plain_comp c" using Cons.prems(1) by (cases acc) simp_all
  moreover have "acc \<noteq> [] \<Longrightarrow> hd acc \<noteq> ''..''"
    using Cons.prems(1) by (cases acc) (simp_all add: plain_comp_def)
  moreover have "c \<noteq> [] \<Longrightarrow> c \<noteq> ''.'' \<Longrightarrow> c \<noteq> ''..'' \<Longrightarrow> plain_comp c"
    using Cons.prems(2) by (simp add: plain_comp_def)
  ultimately have next_acc:
    "\<forall>x \<in> set (if c = [] \<or> c = ''.'' then acc
        else if c \<noteq> ''..'' \<or> (acc \<noteq> [] \<and> hd acc = ''..'') then c # acc else tl acc). plain_comp x"
    using Cons.prems(1) by (auto simp del: list.set_sel)
  have "norm_comps True acc (c # cs) = norm_comps True (if c = [] \<or> c = ''.'' then acc
        else if c \<noteq> ''..'' \<or> (acc \<noteq> [] \<and> hd acc = ''..'') then c # acc else tl acc) cs"
    by simp
  then show ?case using Cons.IH [OF next_acc] Cons.prems(2) by simp
qed simp

lemma norm_comps_id:
  "\<forall>c \<in> set cs. plain_comp c \<Longrightarrow> norm_comps b acc cs = rev acc @ cs"
  by (induction cs arbitrary: acc) (auto simp: plain_comp_def)

text \<open>An absolute path in normal form, as \<^verbatim>\<open>abspath\<close> gives it.\<close>

definition abs_path :: "nat \<Rightarrow> string list \<Rightarrow> string" where
  "abs_path n cs = replicate n CHR ''/'' @ py_join ''/'' cs"

lemma normpath_abs:
  assumes "startswith p ''/''"
  obtains n cs where "normpath p = abs_path n cs" "n = leading_slashes p" "n \<in> {1, 2}"
    "cs = norm_comps True [] (py_split CHR ''/'' p)" "\<forall>c \<in> set cs. plain_comp c"
proof -
  have n: "leading_slashes p \<in> {1, 2}" using assms by (auto simp: leading_slashes_def)
  then have "normpath p = abs_path (leading_slashes p) (norm_comps True [] (py_split CHR ''/'' p))"
    using assms by (auto simp: normpath_def abs_path_def Let_def)
  moreover have "\<forall>c \<in> set (norm_comps True [] (py_split CHR ''/'' p)). plain_comp c"
    by (rule norm_comps_plain) (auto dest: py_split_pieces)
  ultimately show ?thesis using n that by blast
qed

lemma leading_slashes_abs:
  assumes "n \<in> {1, 2}" and "\<forall>c \<in> set cs. plain_comp c"
  shows "leading_slashes (abs_path n cs) = n"
proof -
  have "\<not> startswith (py_join ''/'' cs) ''/''"
  proof (cases cs)
    case (Cons c ds)
    then have "c \<noteq> []" "CHR ''/'' \<notin> set c" using assms(2) by (auto simp: plain_comp_def)
    then show ?thesis using Cons by (cases c; cases ds) auto
  qed simp
  then show ?thesis using assms(1)
    by (cases "py_join ''/'' cs") (auto simp: leading_slashes_def abs_path_def numeral_2_eq_2)
qed

lemma split_abs_path:
  assumes "\<forall>c \<in> set cs. plain_comp c"
  shows "py_split CHR ''/'' (abs_path n cs) = replicate n [] @ (if cs = [] then [[]] else cs)"
proof (induction n)
  case 0
  have "cs \<noteq> [] \<Longrightarrow> py_split CHR ''/'' (py_join ''/'' cs) = cs"
    by (rule py_split_join) (use assms in \<open>auto simp: plain_comp_def\<close>)
  then show ?case by (simp add: abs_path_def)
next
  case (Suc n)
  then show ?case by (simp add: abs_path_def)
qed

lemma normpath_abs_path:
  assumes "n \<in> {1, 2}" and "\<forall>c \<in> set cs. plain_comp c"
  shows "normpath (abs_path n cs) = abs_path n cs"
proof -
  have skip: "norm_comps True [] (replicate n [] @ ds) = norm_comps True [] ds" for n ds
    by (induction n) auto
  have "norm_comps True [] (py_split CHR ''/'' (abs_path n cs)) = cs"
    unfolding split_abs_path [OF assms(2)] skip
    using norm_comps_id [OF assms(2), of True "[]"] by simp
  moreover have "abs_path n cs \<noteq> []" using assms(1) by (auto simp: abs_path_def)
  moreover have "0 < n" using assms(1) by auto
  ultimately show ?thesis
    unfolding normpath_def Let_def leading_slashes_abs [OF assms]
    by (simp add: abs_path_def)
qed

lemma normpath_idem:
  assumes "startswith p ''/''"
  shows "normpath (normpath p) = normpath p"
  by (rule normpath_abs [OF assms]) (use normpath_abs_path in metis)

lemma abs_path_inj:
  assumes "n \<in> {1, 2}" "m \<in> {1, 2}" "\<forall>c \<in> set cs. plain_comp c" "\<forall>c \<in> set ds. plain_comp c"
  shows "abs_path n cs = abs_path m ds \<longleftrightarrow> n = m \<and> cs = ds"
proof
  assume eq: "abs_path n cs = abs_path m ds"
  then have n: "n = m" using leading_slashes_abs assms by metis
  have ne: "cs \<noteq> [[]]" "ds \<noteq> [[]]" using assms(3,4) plain_comp_Nil by force+
  have "replicate n [] @ (if cs = [] then [[]] else cs) = replicate n [] @ (if ds = [] then [[]] else ds)"
    unfolding split_abs_path [OF assms(3), of n, symmetric] split_abs_path [OF assms(4), of n, symmetric]
    using eq n by (simp only:)
  then have "(if cs = [] then [[]] else cs) = (if ds = [] then [[]] else ds)" by simp
  then have "cs = ds" using ne by metis
  then show "n = m \<and> cs = ds" using n by simp
qed simp

end
