(* ===== verification/World.thy ===== *)
theory World
  imports Flags
begin

text \<open>
  What the program reaches outside its own objects, and the helpers of
  \<^verbatim>\<open>nova/utils.py\<close> that do so: the values kept by the datastore, the
  commands given to the shell in their order, text files, the random source.

  The shell is not under the repository: its answer to a command is a function of all the
  effects so far, the command included, about which nothing is assumed; \<open>os_ok\<close> says in the
  same way whether the last effect, a call of the operating system, succeeded, and
  \<open>file_size\<close> which other files exist and how long they are. In the same way
  \<open>json_text\<close> is the text that the JSON library writes where the program only stores it,
  \<open>clock\<close> the current time as the code prints it, and \<open>s3_json\<close> the value in the
  response to a request to the object store.
\<close>

datatype effect =
    Execute string "string option"
  | Call string
  | Popen "string list"
  | Write_File string string
  | Makedirs string
  | Unlink string
  | Copy_File string string
  | Mkdtemp
  | Rmdir string
  | Chdir string
  | Rmtree string
  | Read_File string
  | Kill string string
  | Cast string json
  | Rpc_Call string json
  | S3_Request string string string string

type_synonym kstore = "string \<rightharpoonup> json"

record world =
  store :: kstore
  trace :: "effect list"
  text_files :: "string \<rightharpoonup> string"
  shell :: "effect list \<Rightarrow> string \<times> string"
  os_ok :: "effect list \<Rightarrow> bool"
  file_size :: "effect list \<Rightarrow> string \<Rightarrow> nat option"
  json_text :: "json \<Rightarrow> string"
  clock :: "effect list \<Rightarrow> string"
  s3_json :: "effect list \<Rightarrow> json"
  rng :: "nat \<Rightarrow> nat"

text \<open>An action of the datastore alone.\<close>

definition on_store :: "(kstore, 'a) act \<Rightarrow> (world, 'a) act" where
  "on_store m w = (let (r, K) = m (store w) in (r, w\<lparr>store := K\<rparr>))"

definition emit :: "effect \<Rightarrow> world \<Rightarrow> world" where
  "emit e w = w\<lparr>trace := trace w @ [e]\<rparr>"

text \<open>\<^verbatim>\<open>utils.execute\<close> runs a command and returns what it printed; an exit code
  other than zero is only logged.\<close>

definition execute :: "string \<Rightarrow> string option \<Rightarrow> world \<Rightarrow> (string \<times> string) \<times> world" where
  "execute cmd inp w = (let w' = emit (Execute cmd inp) w in (shell w' (trace w'), w'))"

abbreviation exec :: "string \<Rightarrow> world \<Rightarrow> world" where
  "exec cmd w \<equiv> snd (execute cmd None w)"

text \<open>\<^verbatim>\<open>subprocess.Popen(argv, stdout=PIPE).communicate()[0]\<close>\<close>

definition popen_output :: "string list \<Rightarrow> world \<Rightarrow> string \<times> world" where
  "popen_output argv w = (let w' = emit (Popen argv) w in (fst (shell w' (trace w')), w'))"

text \<open>\<^verbatim>\<open>utils.runthis\<close>: the exit code is only logged.\<close>

definition runthis :: "string \<Rightarrow> world \<Rightarrow> world" where
  "runthis cmd w = emit (Call cmd) w"

definition write_file :: "string \<Rightarrow> string \<Rightarrow> world \<Rightarrow> world" where
  "write_file path content w = emit (Write_File path content) w\<lparr>text_files := (text_files w)(path \<mapsto> content)\<rparr>"

text \<open>\<^verbatim>\<open>os.unlink\<close> where the code ignores a failure.\<close>

definition unlink :: "string \<Rightarrow> world \<Rightarrow> world" where
  "unlink path w = emit (Unlink path) w\<lparr>text_files := (text_files w)(path := None)\<rparr>"

text \<open>\<^verbatim>\<open>str(x)\<close> of a string or \<^verbatim>\<open>None\<close>, and of a scalar value.\<close>

definition opt_text :: "string option \<Rightarrow> string" where
  "opt_text x = (case x of None \<Rightarrow> ''None'' | Some s \<Rightarrow> s)"

fun json_scalar_text :: "json \<Rightarrow> string" where
  "json_scalar_text (JInt i) = str_int i"
| "json_scalar_text (JStr s) = s"
| "json_scalar_text (JBool b) = (if b then ''True'' else ''False'')"
| "json_scalar_text _ = ''None''"

text \<open>A call of the operating system that may fail.\<close>

definition os_call :: "effect \<Rightarrow> exc \<Rightarrow> (world, unit) act" where
  "os_call e x w = (let w' = emit e w in (if os_ok w' (trace w') then Inr () else Inl x, w'))"

text \<open>Reading a file that a command may have written.\<close>

definition read_back :: "string \<Rightarrow> (world, string) act" where
  "read_back path w = (let w' = emit (Read_File path) w in
     (if os_ok w' (trace w') then Inr (fst (shell w' (trace w'))) else Inl IOError, w'))"

text \<open>\<^verbatim>\<open>tempfile.mkdtemp()\<close>: the operating system chooses the name.\<close>

definition mkdtemp :: "(world, string) act" where
  "mkdtemp w = (let w = emit Mkdtemp w in (Inr (fst (shell w (trace w))), w))"

definition path_exists :: "string \<Rightarrow> world \<Rightarrow> bool" where
  "path_exists path w \<longleftrightarrow> text_files w path \<noteq> None \<or> file_size w (trace w) path \<noteq> None"

subsection \<open>Random identifiers\<close>

definition draw :: "nat \<Rightarrow> world \<Rightarrow> nat \<times> world" where
  "draw n w = (rng w 0 mod n, w\<lparr>rng := (\<lambda>i. rng w (Suc i))\<rparr>)"

definition uid_chars :: string where
  "uid_chars = ''01234567890abcdefghijklmnopqrstuvwxyz''"

fun draw_chars :: "nat \<Rightarrow> world \<Rightarrow> string \<times> world" where
  "draw_chars 0 w = ([], w)"
| "draw_chars (Suc n) w =
     (let (i, w1) = draw (length uid_chars) w; (cs, w2) = draw_chars n w1
      in (uid_chars ! i # cs, w2))"

text \<open>\<^verbatim>\<open>utils.generate_uid(topic, size=8)\<close>\<close>

definition generate_uid :: "string \<Rightarrow> world \<Rightarrow> string \<times> world" where
  "generate_uid topic w = (let (cs, w') = draw_chars 8 w in (topic @ ''-'' @ cs, w'))"

definition hex_digit :: "nat \<Rightarrow> char" where
  "hex_digit n = (if n < 10 then char_of (48 + n) else char_of (87 + n))"

text \<open>\<^verbatim>\<open>"%02x" % n\<close> for a byte.\<close>

definition hex_byte :: "nat \<Rightarrow> string" where
  "hex_byte n = [hex_digit (n div 16), hex_digit (n mod 16)]"

text \<open>\<^verbatim>\<open>utils.generate_mac\<close>, which \<^verbatim>\<open>Instance.generate_mac\<close> repeats.\<close>

definition generate_mac :: "world \<Rightarrow> string \<times> world" where
  "generate_mac w =
     (let (a, w1) = draw 128 w; (b, w2) = draw 256 w1; (c, w3) = draw 256 w2
      in (py_join '':'' (map hex_byte [0, 0x16, 0x3e, a, b, c]), w3))"

lemma emit_simps [simp]:
  "store (emit e w) = store w" "trace (emit e w) = trace w @ [e]"
  "text_files (emit e w) = text_files w" "rng (emit e w) = rng w" "shell (emit e w) = shell w"
  "os_ok (emit e w) = os_ok w" "json_text (emit e w) = json_text w"
  "file_size (emit e w) = file_size w" "clock (emit e w) = clock w" "s3_json (emit e w) = s3_json w"
  by (simp_all add: emit_def)

lemma exec_simps [simp]:
  "store (exec c w) = store w" "text_files (exec c w) = text_files w" "rng (exec c w) = rng w"
  "trace (exec c w) = trace w @ [Execute c None]"
  by (simp_all add: execute_def Let_def)

lemma popen_output_simps [simp]:
  "store (snd (popen_output a w)) = store w" "rng (snd (popen_output a w)) = rng w"
  "store (snd (execute c i w)) = store w"
  by (simp_all add: popen_output_def execute_def Let_def)

lemma runthis_simps [simp]:
  "store (runthis c w) = store w" "text_files (runthis c w) = text_files w"
  "rng (runthis c w) = rng w" "trace (runthis c w) = trace w @ [Call c]"
  by (simp_all add: runthis_def)

lemma draw_simps [simp]:
  "store (snd (draw n w)) = store w" "trace (snd (draw n w)) = trace w"
  "text_files (snd (draw n w)) = text_files w"
  by (simp_all add: draw_def)

lemma draw_less: "0 < n \<Longrightarrow> fst (draw n w) < n"
  by (simp add: draw_def)

lemma draw_chars_world [simp]:
  "store (snd (draw_chars n w)) = store w" "trace (snd (draw_chars n w)) = trace w"
  "text_files (snd (draw_chars n w)) = text_files w"
  by (induction n arbitrary: w) (simp_all add: Let_def case_prod_beta)

lemma generate_uid_world [simp]:
  "store (snd (generate_uid t w)) = store w" "trace (snd (generate_uid t w)) = trace w"
  "text_files (snd (generate_uid t w)) = text_files w"
  by (simp_all add: generate_uid_def case_prod_beta)

lemma generate_mac_world [simp]:
  "store (snd (generate_mac w)) = store w" "trace (snd (generate_mac w)) = trace w"
  by (auto simp: generate_mac_def draw_def)

lemma length_uid_chars: "length uid_chars = 37"
  by (simp add: uid_chars_def)

lemma draw_chars_set: "set (fst (draw_chars n w)) \<subseteq> set uid_chars"
proof (induction n arbitrary: w)
  case (Suc n)
  obtain i w1 where d: "draw (length uid_chars) w = (i, w1)" by fastforce
  obtain cs w2 where cs: "draw_chars n w1 = (cs, w2)" by fastforce
  have "i < length uid_chars"
    using draw_less [of "length uid_chars" w] d by (simp add: length_uid_chars)
  moreover have "set cs \<subseteq> set uid_chars" using Suc.IH [of w1] cs by simp
  ultimately show ?case using d cs by simp
qed simp

lemma draw_chars_length: "length (fst (draw_chars n w)) = n"
  by (induction n arbitrary: w) (auto simp: Let_def split: prod.splits, metis fst_conv)

lemma generate_uid_shape:
  "\<exists>cs. fst (generate_uid t w) = t @ ''-'' @ cs \<and> length cs = 8 \<and> set cs \<subseteq> set uid_chars"
  using draw_chars_set [of 8 w] draw_chars_length [of 8 w]
  by (auto simp: generate_uid_def split: prod.splits)

text \<open>A world in which the shell says nothing and every call succeeds, for examples.\<close>

definition quiet_world :: world where
  "quiet_world = \<lparr>store = Map.empty, trace = [], text_files = Map.empty, shell = (\<lambda>_. ([], [])), os_ok = (\<lambda>_. True),
     file_size = (\<lambda>_ _. None), json_text = (\<lambda>_. ''{}''), clock = (\<lambda>_. []), s3_json = (\<lambda>_. JNull),
     rng = (\<lambda>_. 0)\<rparr>"

end
