(* ===== verification/Instance.thy ===== *)
theory Instance
  imports Xml Paths World
begin

text \<open>
  The class \<^verbatim>\<open>Instance\<close> of \<^verbatim>\<open>compute/node.py\<close> as far as it
  does not call the hypervisor: the table of sizes, the attributes that the constructor builds, the
  XML description of a domain and reading an instance back from it. The attributes are the dictionary
  \<^verbatim>\<open>_s\<close> of the code.
\<close>


subsection \<open>Sizes and states\<close>

text \<open>Memory in megabytes, virtual processors, disk in megabytes.\<close>

definition INSTANCE_TYPES :: "(string \<times> int \<times> int \<times> int) list" where
  "INSTANCE_TYPES =
     [(''m1.tiny'', 512, 1, 5120), (''m1.small'', 1024, 1, 8192), (''m1.medium'', 2048, 2, 8192),
      (''m1.large'', 4096, 4, 8192), (''m1.xlarge'', 8192, 4, 8192), (''c1.medium'', 2048, 4, 8192)]"

abbreviation NOSTATE :: int where "NOSTATE \<equiv> 0"
abbreviation RUNNING :: int where "RUNNING \<equiv> 1"
abbreviation SHUTDOWN :: int where "SHUTDOWN \<equiv> 4"
abbreviation SHUTOFF :: int where "SHUTOFF \<equiv> 5"

text \<open>The entry of the table for the value of \<^verbatim>\<open>instance_type\<close>; a list or a
  dictionary cannot be a key.\<close>

fun instance_type :: "json \<Rightarrow> (int \<times> int \<times> int) res" where
  "instance_type (JStr sz) = (case map_of INSTANCE_TYPES sz of
      None \<Rightarrow> Inl (Error (''invalid instance type: '' @ sz))
    | Some t \<Rightarrow> Inr t)"
| "instance_type (JList l) = Inl TypeError"
| "instance_type (JDict d) = Inl TypeError"
| "instance_type v = Inl (Error (''invalid instance type: '' @ json_scalar_text v))"

subsection \<open>The constructor\<close>

text \<open>\<^verbatim>\<open>kwargs.get(k, d)\<close>\<close>

definition kw :: "string \<Rightarrow> json \<Rightarrow> attributes \<Rightarrow> json" where
  "kw k d kwargs = (case map_of kwargs k of None \<Rightarrow> d | Some v \<Rightarrow> v)"

text \<open>The default of \<^verbatim>\<open>basepath\<close> is computed whether it is used or not; a name
  that is no string has no \<^verbatim>\<open>startswith\<close>.\<close>

fun default_basepath :: "flags \<Rightarrow> json \<Rightarrow> json res" where
  "default_basepath fl (JStr name) = Inr (JStr (abspath fl (path_join (instances_path fl) name)))"
| "default_basepath fl _ = Inl AttributeError"

definition init_fields :: "flags \<Rightarrow> json \<Rightarrow> json \<Rightarrow> int \<times> int \<times> int \<Rightarrow> json \<Rightarrow> attributes \<Rightarrow> attributes" where
  "init_fields fl name sz t path kwargs =
    (let (memory_mb, vcpus, disk_mb) = t;
         private_dns_name = kw ''private_dns_name'' (JStr ''fixme'') kwargs in
     [(''memory_mb'', JInt memory_mb), (''vcpus'', JInt vcpus), (''disk_mb'', JInt disk_mb),
      (''name'', name), (''instance_id'', name), (''instance_type'', sz),
      (''mac_address'', kw ''mac_address'' (JStr ''df:df:df:df:df:df'') kwargs),
      (''basepath'', kw ''basepath'' path kwargs),
      (''memory_kb'', JInt (memory_mb * 1024)),
      (''network_name'', kw ''network_name'' (JStr ''default'') kwargs),
      (''bridge_name'', kw ''bridge_name'' (JStr ''br0'') kwargs),
      (''image_id'', kw ''image_id'' (JStr (default_image fl)) kwargs),
      (''kernel_id'', kw ''kernel_id'' (JStr (default_kernel fl)) kwargs),
      (''ramdisk_id'', kw ''ramdisk_id'' (JStr (default_ramdisk fl)) kwargs),
      (''owner_id'', kw ''owner_id'' JNull kwargs),
      (''user_data'', kw ''user_data'' (JStr []) kwargs),
      (''ami_launch_index'', kw ''ami_launch_index'' JNull kwargs),
      (''launch_time'', kw ''launch_time'' JNull kwargs),
      (''reservation_id'', kw ''reservation_id'' JNull kwargs),
      (''state'', JInt NOSTATE),
      (''key_data'', kw ''key_data'' JNull kwargs),
      (''groups'', kw ''security_group'' (JList [JStr ''default'']) kwargs),
      (''product_codes'', kw ''product_code'' (JList []) kwargs),
      (''key_name'', kw ''key_name'' JNull kwargs),
      (''addressing_type'', kw ''addressing_type'' JNull kwargs),
      (''availability_zone'', kw ''availability_zone'' (JStr ''fixme'') kwargs),
      (''private_dns_name'', private_dns_name),
      (''dns_name'', kw ''dns_name'' private_dns_name kwargs)])"

text \<open>\<^verbatim>\<open>Instance(conn, pool, name, **kwargs)\<close>: the keywords cannot name a positional
  argument again.\<close>

definition instance_init :: "flags \<Rightarrow> json \<Rightarrow> attributes \<Rightarrow> attributes res" where
  "instance_init fl name kwargs =
     (if list_ex (has_key kwargs) [''self'', ''conn'', ''pool'', ''name''] then Inl TypeError
      else
        let sz = kw ''instance_type'' (JStr (default_instance_type fl)) kwargs in
        bindR (instance_type sz) (\<lambda>t.
        bindR (default_basepath fl name) (\<lambda>path.
          Inr (init_fields fl name sz t path kwargs))))"

text \<open>The properties \<^verbatim>\<open>state\<close> and \<^verbatim>\<open>name\<close>.\<close>

definition inst_state :: "attributes \<Rightarrow> int" where
  "inst_state s = (case map_of s ''state'' of Some (JInt i) \<Rightarrow> i | _ \<Rightarrow> -1)"

definition inst_name :: "attributes \<Rightarrow> string" where
  "inst_name s = (case map_of s ''name'' of Some (JStr n) \<Rightarrow> n | _ \<Rightarrow> [])"

definition set_state :: "int \<Rightarrow> attributes \<Rightarrow> attributes" where
  "set_state i s = dput ''state'' (JInt i) s"

definition is_pending :: "attributes \<Rightarrow> bool" where
  "is_pending s \<longleftrightarrow> inst_state s = NOSTATE"

definition is_destroyed :: "attributes \<Rightarrow> bool" where
  "is_destroyed s \<longleftrightarrow> inst_state s = SHUTOFF"

definition is_running :: "attributes \<Rightarrow> bool" where
  "is_running s \<longleftrightarrow> inst_state s = RUNNING"

subsection \<open>The description of the domain\<close>

datatype segment = Lit string | Sub string

abbreviation quote :: string where "quote \<equiv> [CHR 0x27]"

text \<open>\<^verbatim>\<open>compute/libvirt.xml.template\<close>, the text between its parameters.\<close>

definition libvirt_xml_template :: "segment list" where
  \<open>libvirt_xml_template =
    [Lit ''<domain type='kvm'>\<newline>    <name>'',
     Sub ''name'',
     Lit ''</name>\<newline>    <os>\<newline>    <type>hvm</type>\<newline>        <kernel>'',
     Sub ''basepath'',
     Lit ''/kernel</kernel>\<newline>        <initrd>'',
     Sub ''basepath'',
     Lit ''/ramdisk</initrd>\<newline>        <cmdline>root=/dev/vda1 console=ttyS0</cmdline>\<newline>    </os>\<newline>    <features>\<newline>        <acpi/>\<newline>    </features>\<newline>    <memory>'',
     Sub ''memory_kb'',
     Lit ''</memory>\<newline>    <vcpu>'',
     Sub ''vcpus'',
     Lit (''</vcpu>\<newline>    <devices>\<newline>        <emulator>/usr/bin/kvm</emulator>\<newline>        <disk type='file'>\<newline>            <source file='' @ quote),
     Sub ''basepath'',
     Lit (''/disk'/>\<newline>            <target dev='vda' bus='virtio'/>\<newline>        </disk>\<newline>       <!--  <interface type='network'>\<newline>            <source network='' @ quote),
     Sub ''network_name'',
     Lit (quote @ ''/>\<newline>            <model type='virtio'/> \<newline>        -->\<newline>        <interface type='bridge'>\<newline>            <source bridge='' @ quote),
     Sub ''bridge_name'',
     Lit (quote @ ''/>\<newline>            <mac address='' @ quote),
     Sub ''mac_address'',
     Lit (quote @ ''/>\<newline>            <!--   <model type='virtio'/>  CANT RUN virtio network right now -->\<newline>        </interface>\<newline>        <serial type="file">\<newline>            <source path='' @ quote),
     Sub ''basepath'',
     Lit ''/console.log'/>\<newline>            <target port='1'/>\<newline>        </serial>\<newline>    </devices>\<newline>    <nova>'',
     Sub ''nova'',
     Lit ''</nova>\<newline></domain>\<newline>'']\<close>

text \<open>\<^verbatim>\<open>template % values\<close>\<close>

fun format_segments :: "segment list \<Rightarrow> (string, string) dict \<Rightarrow> string res" where
  "format_segments [] d = Inr []"
| "format_segments (Lit x # segs) d = bindR (format_segments segs d) (\<lambda>t. Inr (x @ t))"
| "format_segments (Sub k # segs) d =
     bindR (dget d k) (\<lambda>x. bindR (format_segments segs d) (\<lambda>t. Inr (x @ t)))"

text \<open>The text of the attributes, with their JSON text under \<^verbatim>\<open>nova\<close>. The values
  that the template uses are scalars.\<close>

definition xml_info :: "(json \<Rightarrow> string) \<Rightarrow> attributes \<Rightarrow> (string, string) dict" where
  "xml_info ser s = dput ''nova'' (ser (JDict s)) (map (\<lambda>(k, v). (k, json_scalar_text v)) s)"

definition toXml :: "(json \<Rightarrow> string) \<Rightarrow> attributes \<Rightarrow> string res" where
  "toXml ser s = format_segments libvirt_xml_template (xml_info ser s)"

text \<open>\<^verbatim>\<open>fromXml\<close> up to the call that asks the hypervisor for the state: the text
  of the element \<^verbatim>\<open>nova\<close> holds the attributes, which become the arguments of the
  constructor.\<close>

definition attributes_of_xml :: "(string \<Rightarrow> json res) \<Rightarrow> flags \<Rightarrow> string \<Rightarrow> attributes res" where
  "attributes_of_xml deser fl xml =
     bindR (parse_xml xml) (\<lambda>parsed.
     bindR (find_text parsed ''nova'') (\<lambda>elem.
     case elem of
       None \<Rightarrow> Inl TypeError
     | Some t \<Rightarrow>
         bindR (deser t) (\<lambda>v.
         bindR (jdict v) (\<lambda>info.
         case map_of info ''name'' of
           None \<Rightarrow> Inl TypeError
         | Some name \<Rightarrow> instance_init fl name (ddel ''name'' info)))))"

subsection \<open>The attributes that the constructor gives\<close>

lemma init_fields_lookup:
  "map_of (init_fields fl name sz t path kwargs) ''mac_address'' = Some (kw ''mac_address'' (JStr ''df:df:df:df:df:df'') kwargs)"
  "map_of (init_fields fl name sz t path kwargs) ''basepath'' = Some (kw ''basepath'' path kwargs)"
  "map_of (init_fields fl name sz t path kwargs) ''network_name'' = Some (kw ''network_name'' (JStr ''default'') kwargs)"
  "map_of (init_fields fl name sz t path kwargs) ''bridge_name'' = Some (kw ''bridge_name'' (JStr ''br0'') kwargs)"
  "map_of (init_fields fl name sz t path kwargs) ''image_id'' = Some (kw ''image_id'' (JStr (default_image fl)) kwargs)"
  "map_of (init_fields fl name sz t path kwargs) ''kernel_id'' = Some (kw ''kernel_id'' (JStr (default_kernel fl)) kwargs)"
  "map_of (init_fields fl name sz t path kwargs) ''ramdisk_id'' = Some (kw ''ramdisk_id'' (JStr (default_ramdisk fl)) kwargs)"
  "map_of (init_fields fl name sz t path kwargs) ''owner_id'' = Some (kw ''owner_id'' JNull kwargs)"
  "map_of (init_fields fl name sz t path kwargs) ''user_data'' = Some (kw ''user_data'' (JStr []) kwargs)"
  "map_of (init_fields fl name sz t path kwargs) ''ami_launch_index'' = Some (kw ''ami_launch_index'' JNull kwargs)"
  "map_of (init_fields fl name sz t path kwargs) ''launch_time'' = Some (kw ''launch_time'' JNull kwargs)"
  "map_of (init_fields fl name sz t path kwargs) ''reservation_id'' = Some (kw ''reservation_id'' JNull kwargs)"
  "map_of (init_fields fl name sz t path kwargs) ''key_data'' = Some (kw ''key_data'' JNull kwargs)"
  "map_of (init_fields fl name sz t path kwargs) ''key_name'' = Some (kw ''key_name'' JNull kwargs)"
  "map_of (init_fields fl name sz t path kwargs) ''addressing_type'' = Some (kw ''addressing_type'' JNull kwargs)"
  "map_of (init_fields fl name sz t path kwargs) ''availability_zone'' = Some (kw ''availability_zone'' (JStr ''fixme'') kwargs)"
  "map_of (init_fields fl name sz t path kwargs) ''private_dns_name'' = Some (kw ''private_dns_name'' (JStr ''fixme'') kwargs)"
  "map_of (init_fields fl name sz t path kwargs) ''dns_name'' = Some (kw ''dns_name'' (kw ''private_dns_name'' (JStr ''fixme'') kwargs) kwargs)"
  "map_of (init_fields fl name sz t path kwargs) ''instance_type'' = Some sz"
  "map_of (init_fields fl name sz t path kwargs) ''name'' = Some name"
  "map_of (init_fields fl name sz t path kwargs) ''state'' = Some (JInt NOSTATE)"
  "map_of (init_fields fl name sz t path kwargs) ''self'' = None"
  "map_of (init_fields fl name sz t path kwargs) ''conn'' = None"
  "map_of (init_fields fl name sz t path kwargs) ''pool'' = None"
  "map_of (init_fields fl name sz t path kwargs) ''security_group'' = None"
  "map_of (init_fields fl name sz t path kwargs) ''product_code'' = None"
  by (simp_all add: init_fields_def Let_def case_prod_beta)

lemma instance_init_Inr:
  assumes "instance_init fl name kwargs = Inr s"
  obtains sz t path where "s = init_fields fl name sz t path kwargs" "instance_type sz = Inr t"
    "default_basepath fl name = Inr path"
  using assms by (auto simp: instance_init_def Let_def split: if_splits)

end
