(* ===== verification/Hypervisor.thy ===== *)
theory Hypervisor
  imports Instance
begin

text \<open>
  The hypervisor as the node uses it, and \<^verbatim>\<open>compute/fakevirt.py\<close>, the one that
  the tests use in its place. The real one is the library libvirt, which the repository does not
  contain: it is a record of operations, about which the locale says what the node relies on.
\<close>

subsection \<open>The operations\<close>

text \<open>
  \<^verbatim>\<open>[conn.lookupByID(x).name() for x in conn.listDomainsID()]\<close>, the state in
  \<^verbatim>\<open>conn.lookupByName(n).info()\<close>, \<^verbatim>\<open>conn.lookupByName(n).destroy()\<close>
  and \<^verbatim>\<open>conn.createXML(xml, 0)\<close>.
\<close>

record 'c hypervisor =
  hv_names :: "'c \<Rightarrow> string list res"
  hv_info :: "string \<Rightarrow> 'c \<Rightarrow> int res"
  hv_destroy :: "string \<Rightarrow> ('c, unit) act"
  hv_create :: "string \<Rightarrow> ('c, unit) act"

text \<open>The name in a description.\<close>

definition describes :: "string \<Rightarrow> string \<Rightarrow> bool" where
  "describes xml n \<longleftrightarrow> (\<exists>x. parse_xml xml = Inr x \<and> find_text x ''name'' = Inr (Some n))"

text \<open>
  What the node relies on: a connection knows a set of names; destroying one removes it, creating a
  domain under a new name adds this name, and what fails changes nothing.
\<close>

locale virt_host =
  fixes hv :: "'c hypervisor" and ok :: "'c \<Rightarrow> bool" and doms :: "'c \<Rightarrow> string set"
  assumes info_iff: "ok c \<Longrightarrow> (\<exists>s. hv_info hv n c = Inr s) \<longleftrightarrow> n \<in> doms c"
    and destroy_known: "ok c \<Longrightarrow> n \<in> doms c \<Longrightarrow> \<exists>c'. hv_destroy hv n c = (Inr (), c') \<and> ok c' \<and> doms c' = doms c - {n}"
    and destroy_unknown: "ok c \<Longrightarrow> n \<notin> doms c \<Longrightarrow> \<exists>e. hv_destroy hv n c = (Inl e, c)"
    and create_known: "ok c \<Longrightarrow> hv_create hv xml c = (Inr (), c') \<Longrightarrow> describes xml n \<Longrightarrow> n \<notin> doms c \<Longrightarrow>
      ok c' \<and> doms c' = insert n (doms c)"
    and create_named: "hv_create hv xml c = (Inr (), c') \<Longrightarrow> \<exists>x t. parse_xml xml = Inr x \<and> find_text x ''name'' = Inr t"
    and create_fails: "hv_create hv xml c = (Inl e, c') \<Longrightarrow> c' = c"

subsection \<open>The fake connection\<close>

record fake_domain =
  fd_index :: string
  fd_name :: "string option"
  fd_state :: int

record fake_conn =
  fc_next :: nat
  fc_instances :: "(string, fake_domain) dict"

definition new_conn :: fake_conn where
  "new_conn = \<lparr>fc_next = 0, fc_instances = []\<rparr>"

definition lookupByID :: "string \<Rightarrow> fake_conn \<Rightarrow> fake_domain res" where
  "lookupByID i c = dget (fc_instances c) i"

definition listDomainsID :: "fake_conn \<Rightarrow> string list" where
  "listDomainsID c = keys (fc_instances c)"

fun find_domain :: "string \<Rightarrow> fake_domain list \<Rightarrow> fake_domain res" where
  "find_domain n [] = Inl (PyException (''no instance found for instance_id: '' @ n))"
| "find_domain n (x # xs) = (if fd_name x = Some n then Inr x else find_domain n xs)"

definition lookupByName :: "string \<Rightarrow> fake_conn \<Rightarrow> fake_domain res" where
  "lookupByName instance_id c = find_domain instance_id (vals (fc_instances c))"

definition fake_createXML :: "string \<Rightarrow> (fake_conn, unit) act" where
  "fake_createXML xml c =
     (case bindR (parse_xml xml) (\<lambda>my_xml. find_text my_xml ''name'') of
        Inl e \<Rightarrow> (Inl e, c)
      | Inr name \<Rightarrow>
          (let index = str_nat (fc_next c);
               fake_instance = \<lparr>fd_index = index, fd_name = name, fd_state = RUNNING\<rparr>
           in (Inr (), c\<lparr>fc_instances := dput index fake_instance (fc_instances c), fc_next := Suc (fc_next c)\<rparr>)))"

definition removeInstance :: "string \<Rightarrow> (fake_conn, unit) act" where
  "removeInstance i c =
     (if has_key (fc_instances c) i then (Inr (), c\<lparr>fc_instances := ddel i (fc_instances c)\<rparr>) else (Inl KeyError, c))"

text \<open>The domain that is destroyed is off before it leaves the connection.\<close>

definition fake_destroy :: "fake_domain \<Rightarrow> (fake_conn, unit) act" where
  "fake_destroy d c =
     (if fd_state d = SHUTOFF then (Inl (PyException (''instance already destroyed: '' @ opt_text (fd_name d))), c)
      else removeInstance (fd_index d) c)"

definition fake_info :: "fake_domain \<Rightarrow> int list" where
  "fake_info d = [fd_state d, 0, 2, 0, 0]"

text \<open>The operations that the node uses. A domain without a name prints as
  \<^verbatim>\<open>None\<close>.\<close>

definition fake_hv :: "fake_conn hypervisor" where
  "fake_hv = \<lparr>
     hv_names = (\<lambda>c. mapR (\<lambda>x. bindR (lookupByID x c) (\<lambda>d. Inr (opt_text (fd_name d)))) (listDomainsID c)),
     hv_info = (\<lambda>n c. bindR (lookupByName n c) (\<lambda>d. Inr (hd (fake_info d)))),
     hv_destroy = (\<lambda>n c. case lookupByName n c of Inl e \<Rightarrow> (Inl e, c) | Inr d \<Rightarrow> fake_destroy d c),
     hv_create = fake_createXML \<rparr>"

subsection \<open>The fake connection keeps the laws\<close>

text \<open>Indexes below the next one, each domain under its own index, running, names that differ.\<close>

definition conn_ok :: "fake_conn \<Rightarrow> bool" where
  "conn_ok c \<longleftrightarrow> distinct (keys (fc_instances c)) \<and> distinct (map fd_name (vals (fc_instances c))) \<and>
     (\<forall>(i, d) \<in> set (fc_instances c). fd_index d = i \<and> fd_state d = RUNNING \<and> (\<exists>n < fc_next c. i = str_nat n))"

definition conn_names :: "fake_conn \<Rightarrow> string set" where
  "conn_names c = {n. Some n \<in> set (map fd_name (vals (fc_instances c)))}"

lemma find_domain_some:
  "Some n \<in> set (map fd_name ds) \<Longrightarrow> \<exists>d. find_domain n ds = Inr d \<and> d \<in> set ds \<and> fd_name d = Some n"
  by (induction ds) auto

lemma find_domain_none: "Some n \<notin> set (map fd_name ds) \<Longrightarrow> find_domain n ds = Inl (PyException (''no instance found for instance_id: '' @ n))"
  by (induction ds) auto

lemma lookup_known:
  assumes "n \<in> conn_names c"
  obtains i d where "lookupByName n c = Inr d" "(i, d) \<in> set (fc_instances c)" "fd_name d = Some n"
proof -
  have "Some n \<in> set (map fd_name (vals (fc_instances c)))" using assms by (simp add: conn_names_def)
  from find_domain_some [OF this] show ?thesis using that by (auto simp: lookupByName_def)
qed

lemma lookup_unknown: "n \<notin> conn_names c \<Longrightarrow> \<exists>e. lookupByName n c = Inl e"
  using find_domain_none [of n "vals (fc_instances c)"] by (simp add: lookupByName_def conn_names_def)

lemma ddel_filter: "ddel k d = filter (\<lambda>(k', v). k' \<noteq> k) d"
  by (simp add: AList.delete_eq case_prod_unfold eq_commute)

lemma names_without:
  assumes "distinct (keys d)" "distinct (map fd_name (vals d))" "(i, x) \<in> set d"
  shows "set (map fd_name (vals (ddel i d))) = set (map fd_name (vals d)) - {fd_name x}"
    and "distinct (map fd_name (vals (ddel i d)))"
  using assms
proof (induction d)
  case (Cons y d)
  obtain k v where y: "y = (k, v)" by fastforce
  {
    case 1
    show ?case
    proof (cases "k = i")
      case True
      then have "x = v" "i \<notin> set (keys d)" using 1 y by (auto simp: rev_image_eqI)
      then have "ddel i d = d" by (simp add: delete_id)
      then show ?thesis using 1 y True \<open>x = v\<close> by auto
    next
      case False
      then have "(i, x) \<in> set d" using 1 y by simp
      moreover have "fd_name v \<noteq> fd_name x" using 1 y calculation by (auto simp: rev_image_eqI)
      ultimately show ?thesis using Cons.IH(1) 1 y False by auto
    qed
  next
    case 2
    then show ?case
    proof (cases "k = i")
      case False
      then have "(i, x) \<in> set d" using 2 y by simp
      then show ?thesis using Cons.IH 2 y False by auto
    qed (use y in \<open>simp add: delete_id\<close>)
  }
qed simp_all

lemma str_nat_fresh:
  assumes "conn_ok c"
  shows "str_nat (fc_next c) \<notin> set (keys (fc_instances c))"
  using assms by (auto simp: conn_ok_def)

lemma dput_new: "k \<notin> set (keys d) \<Longrightarrow> dput k v d = d @ [(k, v)]"
  by (induction d) auto

lemma fake_destroy_known:
  assumes "conn_ok c" and "n \<in> conn_names c"
  shows "\<exists>c'. hv_destroy fake_hv n c = (Inr (), c') \<and> conn_ok c' \<and> conn_names c' = conn_names c - {n}"
proof -
  obtain i d where d: "lookupByName n c = Inr d" "(i, d) \<in> set (fc_instances c)" "fd_name d = Some n"
    by (rule lookup_known [OF assms(2)])
  let ?c = "c\<lparr>fc_instances := ddel i (fc_instances c)\<rparr>"
  have i: "fd_index d = i" "fd_state d = RUNNING" using assms(1) d(2) by (auto simp: conn_ok_def)
  moreover have "has_key (fc_instances c) i" using d(2) by (cases "map_of (fc_instances c) i") (auto simp: map_of_eq_None_iff rev_image_eqI)
  ultimately have "hv_destroy fake_hv n c = (Inr (), ?c)"
    using d(1) by (simp add: fake_hv_def fake_destroy_def removeInstance_def)
  moreover have dd: "distinct (keys (fc_instances c))" "distinct (map fd_name (vals (fc_instances c)))"
    using assms(1) by (simp_all add: conn_ok_def)
  have "conn_ok ?c"
    using names_without(2) [OF dd d(2)] assms(1) by (auto simp: conn_ok_def ddel_filter distinct_map_filter simp del: map_map)
  moreover have "conn_names ?c = conn_names c - {n}"
    unfolding conn_names_def using names_without(1) [OF dd d(2)] d(3) by (simp del: set_map) blast
  ultimately show ?thesis by blast
qed

lemma fake_create_known:
  assumes "conn_ok c" and "hv_create fake_hv xml c = (Inr (), c')" and "describes xml n" and "n \<notin> conn_names c"
  shows "conn_ok c' \<and> conn_names c' = insert n (conn_names c)"
proof -
  let ?i = "str_nat (fc_next c)"
  have c': "c' = c\<lparr>fc_instances := fc_instances c @ [(?i, \<lparr>fd_index = ?i, fd_name = Some n, fd_state = RUNNING\<rparr>)],
      fc_next := Suc (fc_next c)\<rparr>"
    using assms(2,3) dput_new [OF str_nat_fresh [OF assms(1)]]
    by (auto simp: fake_hv_def fake_createXML_def describes_def Let_def)
  have "Some n \<notin> set (map fd_name (vals (fc_instances c)))" using assms(4) by (simp add: conn_names_def)
  then have "conn_ok c'" using assms(1) str_nat_fresh [OF assms(1)]
    unfolding conn_ok_def c' by (auto simp: less_Suc_eq)
  moreover have "conn_names c' = insert n (conn_names c)" unfolding conn_names_def c' by auto
  ultimately show ?thesis by blast
qed

interpretation fake_host: virt_host fake_hv conn_ok conn_names
proof unfold_locales
  show "(\<exists>s. hv_info fake_hv n c = Inr s) \<longleftrightarrow> n \<in> conn_names c" if "conn_ok c" for c n
  proof (cases "n \<in> conn_names c")
    case True
    then show ?thesis using lookup_known [OF True] by (auto simp: fake_hv_def)
  next
    case False
    then show ?thesis using lookup_unknown [OF False] by (auto simp: fake_hv_def)
  qed
  show "\<exists>e. hv_destroy fake_hv n c = (Inl e, c)" if "n \<notin> conn_names c" for c n
    using lookup_unknown [OF that] by (auto simp: fake_hv_def)
  show "\<exists>x t. parse_xml xml = Inr x \<and> find_text x ''name'' = Inr t" if "hv_create fake_hv xml c = (Inr (), c')" for xml c c'
    using that by (auto simp: fake_hv_def fake_createXML_def split: sum.splits)
  show "c' = c" if "hv_create fake_hv xml c = (Inl e, c')" for xml c c' e
    using that by (auto simp: fake_hv_def fake_createXML_def Let_def split: sum.splits)
qed (use fake_destroy_known fake_create_known in blast)+

end
