(* ===== verification/Disk.thy ===== *)
theory Disk
  imports Paths World
begin

text \<open>
  \<^verbatim>\<open>compute/disk.py\<close>: partitioning a disk image and injecting a key into it. All
  of it is commands in an order, with clean-up on every way out; the properties are about the order
  and the clean-up, whatever the commands answer.
\<close>

definition partition_image :: "string \<Rightarrow> string \<Rightarrow> (world, unit) act" where
  "partition_image infile outfile w =
     (case file_size w (trace w) infile of
        None \<Rightarrow> (Inl OSError, w)
      | Some size_in \<Rightarrow>
          (let sectors = int size_in div 512;
               start = 63;
               end_sector = start + sectors;
               w = exec (''dd if=/dev/zero of='' @ outfile @ '' count=1 seek='' @ str_int end_sector @ '' bs=512'') w;
               w = exec (''parted --script '' @ outfile @ '' mklabel msdos'') w;
               w = exec (''parted --script '' @ outfile @ '' mkpart primary '' @ str_int start @ ''s '' @ str_int end_sector @ ''s'') w;
               w = exec (''dd if='' @ infile @ '' of='' @ outfile @ '' bs=512 seek='' @ str_int start @ '' conv=notrunc,fsync'') w
           in (Inr (), w)))"

text \<open>The loop over the attempts to attach the image: the device, once it is attached.\<close>

fun attach_loop :: "nat \<Rightarrow> string \<Rightarrow> world \<Rightarrow> string option \<times> world" where
  "attach_loop 0 img w = (None, w)"
| "attach_loop (Suc n) img w =
     (let (answer, w) = execute ''sudo losetup -f'' None w;
          device = strip is_space (fst answer)
      in if device \<noteq> [] then
           (let (answer, w) = execute (''sudo losetup '' @ device @ '' '' @ img @ '' '') None w
            in if fst answer = [] \<and> snd answer = [] then (Some device, w)
               else attach_loop n img (exec (''sudo losetup -d '' @ device) w))
         else attach_loop n img w)"

definition inject_into_fs :: "string \<Rightarrow> string \<Rightarrow> world \<Rightarrow> world" where
  "inject_into_fs key fs w =
     (let sshdir = path_join (path_join fs ''root'') ''.ssh'';
          w = exec (''sudo mkdir '' @ sshdir) w;
          w = exec (''sudo chown root '' @ sshdir) w;
          w = exec (''sudo chmod 700 '' @ sshdir) w;
          keyfile = path_join sshdir ''authorized_keys''
      in snd (execute (''sudo bash -c '' @ [CHR 0x22] @ ''cat >> '' @ keyfile @ [CHR 0x22])
                (Some (''\<newline>'' @ key @ ''\<newline>'')) w))"

definition run :: "string \<Rightarrow> (world, string \<times> string) act" where
  "run cmd w = (let (answer, w) = execute cmd None w in (Inr answer, w))"

text \<open>Mounting, injecting, unmounting and removing the directory, each clean-up on every way out.\<close>

definition mounted_injection :: "string \<Rightarrow> string \<Rightarrow> string \<Rightarrow> (world, unit) act \<Rightarrow> (world, unit) act" where
  "mounted_injection key part tmpdir after =
     finallyS
       (bindS (run (''sudo mount '' @ part @ '' '' @ tmpdir)) (\<lambda>(out, err).
          if err \<noteq> [] then raiseS (Error (''Failed to mount filesystem '' @ err))
          else finallyS
            (\<lambda>w. (Inr (), inject_into_fs key tmpdir w))
            (bindS (run (''sudo umount '' @ part)) (\<lambda>_. retS ()))))
       (bindS (os_call (Rmdir tmpdir) OSError) (\<lambda>_. after))"

definition inject_key :: "string \<Rightarrow> string \<Rightarrow> bool \<Rightarrow> (world, unit) act" where
  "inject_key key img partitioned w =
     (case attach_loop 10 img w of
        (None, w) \<Rightarrow> (Inl (Error ''Could not attach image to loopback''), w)
      | (Some device, w) \<Rightarrow>
          finallyS
            (bindS (if partitioned
                    then bindS (run (''sudo kpartx -a '' @ device)) (\<lambda>(out, err).
                      if err \<noteq> [] then raiseS (Error ''failed to load partition'')
                      else retS (''/dev/mapper/'' @ last (py_split CHR ''/'' device) @ ''p1''))
                    else retS device) (\<lambda>part.
             bindS (run (''sudo tune2fs -c 0 -i 0 '' @ part)) (\<lambda>_.
             bindS mkdtemp (\<lambda>tmpdir.
               mounted_injection key part tmpdir
                 (if partitioned then bindS (run (''sudo kpartx -d '' @ device)) (\<lambda>_. retS ()) else retS ())))))
            (bindS (run (''sudo losetup -d '' @ device)) (\<lambda>_. retS ()))
            w)"

subsection \<open>The order of the commands\<close>

abbreviation losetup_find :: effect where "losetup_find \<equiv> Execute ''sudo losetup -f'' None"
abbreviation losetup_attach :: "string \<Rightarrow> string \<Rightarrow> effect" where
  "losetup_attach device img \<equiv> Execute (''sudo losetup '' @ device @ '' '' @ img @ '' '') None"
abbreviation losetup_detach :: "string \<Rightarrow> effect" where
  "losetup_detach device \<equiv> Execute (''sudo losetup -d '' @ device) None"

text \<open>An attempt that failed: no device, or a device that was detached again.\<close>

fun failed_attempt :: "string \<Rightarrow> string option \<Rightarrow> effect list" where
  "failed_attempt img None = [losetup_find]"
| "failed_attempt img (Some device) = [losetup_find, losetup_attach device img, losetup_detach device]"

lemma execute_trace: "trace (snd (execute c i w)) = trace w @ [Execute c i]"
  by (simp add: execute_def Let_def)

lemma execute_traceD: "execute c i w = (a, w') \<Longrightarrow> trace w' = trace w @ [Execute c i]"
  by (auto simp: execute_def Let_def)

lemma attach_loop_trace:
  assumes "attach_loop n img w = (r, w')"
  shows "\<exists>failed. length failed \<le> n \<and>
    trace w' = trace w @ concat (map (failed_attempt img) failed) @
      (case r of None \<Rightarrow> [] | Some device \<Rightarrow> [losetup_find, losetup_attach device img])"
  using assms
proof (induction n arbitrary: w)
  case (Suc n)
  obtain a w1 where a: "execute ''sudo losetup -f'' None w = (a, w1)" by fastforce
  have t1: "trace w1 = trace w @ [losetup_find]" by (rule execute_traceD [OF a])
  let ?d = "strip is_space (fst a)"
  show ?case
  proof (cases "?d = []")
    case True
    then have "attach_loop n img w1 = (r, w')" using Suc.prems a by simp
    then obtain failed where "length failed \<le> n" "trace w' = trace w1 @ concat (map (failed_attempt img) failed) @
        (case r of None \<Rightarrow> [] | Some device \<Rightarrow> [losetup_find, losetup_attach device img])"
      using Suc.IH by blast
    then show ?thesis using t1 by (intro exI [of _ "None # failed"]) simp
  next
    case False
    obtain b w2 where b: "execute (''sudo losetup '' @ ?d @ '' '' @ img @ '' '') None w1 = (b, w2)" by fastforce
    have t2: "trace w2 = trace w1 @ [losetup_attach ?d img]"
      by (rule execute_traceD [OF b])
    show ?thesis
    proof (cases "fst b = [] \<and> snd b = []")
      case True
      then have "r = Some ?d" "w' = w2" using Suc.prems a b False by simp_all
      then show ?thesis using t1 t2 by (intro exI [of _ "[]"]) simp
    next
      case fail: False
      then have "attach_loop n img (exec (''sudo losetup -d '' @ ?d) w2) = (r, w')"
        using Suc.prems False unfolding attach_loop.simps a b Let_def prod.case
        by (simp only: fail if_False if_True not_False_eq_True prod.case b)
      then obtain failed where "length failed \<le> n"
          "trace w' = trace (exec (''sudo losetup -d '' @ ?d) w2) @ concat (map (failed_attempt img) failed) @
        (case r of None \<Rightarrow> [] | Some device \<Rightarrow> [losetup_find, losetup_attach device img])"
        using Suc.IH by blast
      then show ?thesis using t1 t2 by (intro exI [of _ "Some ?d # failed"]) simp
    qed
  qed
qed simp

text \<open>The trace after an action goes on from the trace before, whatever the outcome.\<close>

lemma finallyS_apply:
  "m s = (r, s') \<Longrightarrow> f s' = (Inl e, s'') \<Longrightarrow> finallyS m f s = (Inl e, s'')"
  "m s = (r, s') \<Longrightarrow> f s' = (Inr u, s'') \<Longrightarrow> finallyS m f s = (r, s'')"
  by (simp_all add: finallyS_def)

lemma finallyS_snd: "snd (finallyS m f s) = snd (f (snd (m s)))"
  by (simp add: finallyS_def Let_def case_prod_beta split: sum.splits)

lemma run_trace [simp]: "trace (snd (run c w)) = trace w @ [Execute c None]"
  by (simp add: run_def execute_def Let_def)

lemma run_never_fails: "run c w \<noteq> (Inl e, w')"
  by (simp add: run_def execute_def Let_def)

lemma run_only: "bindS (run c) (\<lambda>_. retS ()) w = (Inr (), snd (run c w))"
  by (simp add: bindS_def run_def Let_def case_prod_beta)

definition injection_commands :: "string \<Rightarrow> string \<Rightarrow> effect list" where
  "injection_commands key fs =
     (let sshdir = path_join (path_join fs ''root'') ''.ssh'' in
      [Execute (''sudo mkdir '' @ sshdir) None, Execute (''sudo chown root '' @ sshdir) None,
       Execute (''sudo chmod 700 '' @ sshdir) None,
       Execute (''sudo bash -c '' @ [CHR 0x22] @ ''cat >> '' @ path_join sshdir ''authorized_keys'' @ [CHR 0x22])
         (Some (''\<newline>'' @ key @ ''\<newline>''))])"

lemma inject_into_fs_trace: "trace (inject_into_fs key fs w) = trace w @ injection_commands key fs"
  by (simp add: inject_into_fs_def injection_commands_def Let_def execute_trace)

definition partition_of :: "bool \<Rightarrow> string \<Rightarrow> string" where
  "partition_of partitioned device =
     (if partitioned then ''/dev/mapper/'' @ last (py_split CHR ''/'' device) @ ''p1'' else device)"

text \<open>The commands between attaching and detaching, from what succeeded.\<close>

definition mounted_trace :: "string \<Rightarrow> string \<Rightarrow> string \<Rightarrow> bool \<Rightarrow> effect list" where
  "mounted_trace key part tmpdir mount_ok =
     Execute (''sudo mount '' @ part @ '' '' @ tmpdir) None #
     (if mount_ok then injection_commands key tmpdir @ [Execute (''sudo umount '' @ part) None] else []) @
     [Rmdir tmpdir]"

definition injection_trace :: "string \<Rightarrow> bool \<Rightarrow> string \<Rightarrow> string \<Rightarrow> bool \<Rightarrow> bool \<Rightarrow> bool \<Rightarrow> effect list" where
  "injection_trace key partitioned device tmpdir load_ok mount_ok rmdir_ok =
     (if partitioned then [Execute (''sudo kpartx -a '' @ device) None] else []) @
     (if load_ok then
        Execute (''sudo tune2fs -c 0 -i 0 '' @ partition_of partitioned device) None # Mkdtemp #
        mounted_trace key (partition_of partitioned device) tmpdir mount_ok @
        (if partitioned \<and> rmdir_ok then [Execute (''sudo kpartx -d '' @ device) None] else [])
      else [])"

lemma mounted_injection_trace:
  assumes "\<And>w. \<exists>w'. after w = (Inr (), w') \<and> trace w' = trace w @ ts"
  shows "\<exists>mount_ok rmdir_ok r w'. mounted_injection key part tmpdir after w = (r, w') \<and>
    trace w' = trace w @ mounted_trace key part tmpdir mount_ok @ (if rmdir_ok then ts else []) \<and>
    (r = Inr () \<longleftrightarrow> mount_ok \<and> rmdir_ok)"
proof -
  obtain out err w1 where mount: "run (''sudo mount '' @ part @ '' '' @ tmpdir) w = (Inr (out, err), w1)"
    by (simp add: run_def Let_def case_prod_beta) (metis prod.collapse)
  have t1: "trace w1 = trace w @ [Execute (''sudo mount '' @ part @ '' '' @ tmpdir) None]"
    using run_trace [of "''sudo mount '' @ part @ '' '' @ tmpdir" w] unfolding mount by simp
  define w2 where "w2 = (if err \<noteq> [] then w1 else snd (run (''sudo umount '' @ part) (inject_into_fs key tmpdir w1)))"
  define r2 where "r2 = (if err \<noteq> [] then Inl (Error (''Failed to mount filesystem '' @ err)) else Inr ())"
  define M where "M = bindS (run (''sudo mount '' @ part @ '' '' @ tmpdir)) (\<lambda>(out, err).
          if err \<noteq> [] then raiseS (Error (''Failed to mount filesystem '' @ err))
          else finallyS (\<lambda>w. (Inr (), inject_into_fs key tmpdir w))
            (bindS (run (''sudo umount '' @ part)) (\<lambda>_. retS ())))"
  define C where "C = bindS (os_call (Rmdir tmpdir) OSError) (\<lambda>_. after)"
  have split: "mounted_injection key part tmpdir after = finallyS M C"
    by (simp add: mounted_injection_def M_def C_def)
  have inner: "M w = (r2, w2)"
    unfolding M_def bindS_def mount by (simp add: w2_def r2_def finallyS_def run_only [unfolded bindS_def])
  have t2: "trace w2 = trace w @ Execute (''sudo mount '' @ part @ '' '' @ tmpdir) None #
      (if err = [] then injection_commands key tmpdir @ [Execute (''sudo umount '' @ part) None] else [])"
    by (simp add: w2_def t1 inject_into_fs_trace)
  obtain q w3 where q: "os_call (Rmdir tmpdir) OSError w2 = (q, w3)" "trace w3 = trace w2 @ [Rmdir tmpdir]"
    by (simp add: os_call_def Let_def)
  obtain w4 where w4: "after w3 = (Inr (), w4)" "trace w4 = trace w3 @ ts" using assms by blast
  have m: "mounted_injection key part tmpdir after w =
      (case q of Inl e \<Rightarrow> (Inl e, w3) | Inr _ \<Rightarrow> (r2, w4))"
  proof (cases q)
    case (Inl e)
    then have "C w2 = (Inl e, w3)" using q(1) by (simp add: C_def bindS_def)
    then show ?thesis unfolding split Inl by (simp add: finallyS_def inner)
  next
    case (Inr u)
    then have "C w2 = (Inr (), w4)" using w4(1) q(1) by (simp add: C_def bindS_def)
    then show ?thesis unfolding split Inr by (simp add: finallyS_def inner)
  qed
  show ?thesis
  proof (cases q)
    case (Inl e)
    then show ?thesis using m q(2) t2
      by (intro exI [of _ "err = []"] exI [of _ False]) (simp add: mounted_trace_def)
  next
    case (Inr u)
    then show ?thesis using m q(2) t2 w4
      by (intro exI [of _ "err = []"] exI [of _ True]) (simp add: mounted_trace_def r2_def)
  qed
qed

lemma inject_key_attached:
  assumes "attach_loop 10 img w = (Some device, w1)"
  shows "\<exists>load_ok mount_ok rmdir_ok tmpdir r w'. inject_key key img partitioned w = (r, w') \<and>
    trace w' = trace w1 @ injection_trace key partitioned device tmpdir load_ok mount_ok rmdir_ok @ [losetup_detach device] \<and>
    (r = Inr () \<longleftrightarrow> load_ok \<and> mount_ok \<and> rmdir_ok)"
proof -
  let ?part = "partition_of partitioned device"
  let ?after = "if partitioned then bindS (run (''sudo kpartx -d '' @ device)) (\<lambda>_. retS ()) else retS ()"
  let ?ts = "if partitioned then [Execute (''sudo kpartx -d '' @ device) None] else []"
  define A where "A = ?after"
  define K where "K = (\<lambda>part.
             bindS (run (''sudo tune2fs -c 0 -i 0 '' @ part)) (\<lambda>_.
             bindS mkdtemp (\<lambda>tmpdir. mounted_injection key part tmpdir A)))"
  define body where "body = bindS (if partitioned
                    then bindS (run (''sudo kpartx -a '' @ device)) (\<lambda>(out, err).
                      if err \<noteq> [] then raiseS (Error ''failed to load partition'')
                      else retS (''/dev/mapper/'' @ last (py_split CHR ''/'' device) @ ''p1''))
                    else retS device) K"
  have after: "\<exists>w'. A w = (Inr (), w') \<and> trace w' = trace w @ ?ts" for w
    unfolding A_def by (simp add: run_only)
  define w2 where "w2 = (if partitioned then snd (run (''sudo kpartx -a '' @ device) w1) else w1)"
  have t2: "trace w2 = trace w1 @ (if partitioned then [Execute (''sudo kpartx -a '' @ device) None] else [])"
    by (simp add: w2_def)
  define rest where "rest = K ?part w2"
  have "body w1 = (Inl (Error ''failed to load partition''), w2) \<and> partitioned \<or> body w1 = rest"
  proof (cases partitioned)
    case True
    obtain out err where k: "run (''sudo kpartx -a '' @ device) w1 = (Inr (out, err), w2)"
      using True by (simp add: w2_def run_def Let_def case_prod_beta) (metis prod.collapse)
    have "body w1 = (if err \<noteq> [] then (Inl (Error ''failed to load partition''), w2) else rest)"
      unfolding body_def rest_def partition_of_def using True k by (simp add: bindS_def)
    then show ?thesis using True by (auto split: if_splits)
  next
    case False
    then show ?thesis by (simp add: body_def rest_def w2_def partition_of_def)
  qed
  then obtain load_ok where body: "if load_ok then body w1 = rest else body w1 = (Inl (Error ''failed to load partition''), w2)"
    by (metis (full_types))
  have mk: "\<exists>d w'. mkdtemp w = (Inr d, w') \<and> trace w' = trace w @ [Mkdtemp]" for w
    by (simp add: mkdtemp_def Let_def)
  obtain tmpdir w3 where w3: "rest = mounted_injection key ?part tmpdir A w3"
      "trace w3 = trace w2 @ [Execute (''sudo tune2fs -c 0 -i 0 '' @ ?part) None, Mkdtemp]"
  proof -
    obtain a wx where a: "run (''sudo tune2fs -c 0 -i 0 '' @ ?part) w2 = (Inr a, wx)"
      by (simp add: run_def Let_def case_prod_beta)
    then have x: "trace wx = trace w2 @ [Execute (''sudo tune2fs -c 0 -i 0 '' @ ?part) None]"
      using run_trace [of "''sudo tune2fs -c 0 -i 0 '' @ ?part" w2] by (simp only: snd_conv)
    obtain tmpdir w3 where m: "mkdtemp wx = (Inr tmpdir, w3)" "trace w3 = trace wx @ [Mkdtemp]" using mk by blast
    have "rest = mounted_injection key ?part tmpdir A w3"
      unfolding rest_def K_def using a m(1) by (simp add: bindS_def)
    then show ?thesis using that m(2) x by simp
  qed
  obtain mount_ok rmdir_ok r4 w4 where w4: "mounted_injection key ?part tmpdir A w3 = (r4, w4)"
      "trace w4 = trace w3 @ mounted_trace key ?part tmpdir mount_ok @ (if rmdir_ok then ?ts else [])"
      "r4 = Inr () \<longleftrightarrow> mount_ok \<and> rmdir_ok"
    using mounted_injection_trace [of A ?ts key ?part tmpdir w3, OF after] by blast
  have key: "inject_key key img partitioned w = (fst (body w1), snd (run (''sudo losetup -d '' @ device) (snd (body w1))))"
    unfolding inject_key_def assms body_def K_def A_def
    by (simp add: finallyS_def Let_def case_prod_beta run_only)
  show ?thesis
  proof (cases load_ok)
    case True
    then have "body w1 = (r4, w4)" using body w3(1) w4(1) by simp
    then show ?thesis using key w3(2) w4(2,3) t2
      by (intro exI [of _ True] exI [of _ mount_ok] exI [of _ rmdir_ok] exI [of _ tmpdir])
        (simp add: injection_trace_def)
  next
    case False
    then have "body w1 = (Inl (Error ''failed to load partition''), w2)" using body by simp
    then show ?thesis using key t2
      by (intro exI [of _ False] exI [of _ False] exI [of _ False] exI [of _ tmpdir])
        (simp add: injection_trace_def)
  qed
qed


end
