(* ===== verification/Base64.thy ===== *)
theory Base64
  imports PyStr
begin

text \<open>\<^verbatim>\<open>base64.b64encode\<close> and \<^verbatim>\<open>base64.b64decode\<close>, in which
  console output and the data of users travel.\<close>

definition b64_chars :: string where
  "b64_chars = ''ABCDEFGHIJKLMNOPQRSTUVWXYZabcdefghijklmnopqrstuvwxyz0123456789+/''"

definition b64_char :: "nat \<Rightarrow> char" where
  "b64_char n = b64_chars ! (n mod 64)"

fun b64encode :: "string \<Rightarrow> string" where
  "b64encode [] = []"
| "b64encode [a] = (let n = of_char a * 16 in [b64_char (n div 64), b64_char n, CHR ''='', CHR ''=''])"
| "b64encode [a, b] = (let n = (of_char a * 256 + of_char b) * 4
     in [b64_char (n div 4096), b64_char (n div 64), b64_char n, CHR ''=''])"
| "b64encode (a # b # c # s) = (let n = (of_char a * 256 + of_char b) * 256 + of_char c
     in b64_char (n div 262144) # b64_char (n div 4096) # b64_char (n div 64) # b64_char n # b64encode s)"

text \<open>The value of a character: its place in the alphabet, of which the sign of padding also has
  one when the decoder looks ahead.\<close>

definition b64_value :: "char \<Rightarrow> nat option" where
  "b64_value c = map_of (zip b64_chars [0..<64]) c"

fun next_valid :: "string \<Rightarrow> char option" where
  "next_valid [] = None"
| "next_valid (c # s) = (if c = CHR ''='' \<or> b64_value c \<noteq> None then Some c else next_valid s)"

text \<open>
  The decoder: six bits for each character of the alphabet, a byte as soon as there are eight.
  Other characters are skipped, and so is padding in the first half of a group, or a single one after
  the second character; other padding ends the text. Bits that are left over are an error, which
  \<^verbatim>\<open>b64decode\<close> raises as a \<^verbatim>\<open>TypeError\<close>.
\<close>

fun a2b :: "string \<Rightarrow> nat \<Rightarrow> nat \<Rightarrow> nat \<Rightarrow> string res" where
  "a2b [] q acc bits = (if bits = 0 then Inr [] else Inl TypeError)"
| "a2b (c # s) q acc bits =
     (if c = CHR ''='' then
        (if q < 2 \<or> q = 2 \<and> next_valid s \<noteq> Some (CHR ''='') then a2b s q acc bits else Inr [])
      else case b64_value c of
        None \<Rightarrow> a2b s q acc bits
      | Some v \<Rightarrow>
          (let q = (q + 1) mod 4; acc = acc * 64 + v; bits = bits + 6
           in if bits \<ge> 8
              then bindR (a2b s q (acc mod 2 ^ (bits - 8)) (bits - 8)) (\<lambda>out.
                     Inr (char_of (acc div 2 ^ (bits - 8)) # out))
              else a2b s q acc bits))"

definition b64decode :: "string \<Rightarrow> string res" where
  "b64decode s = a2b s 0 0 0"

lemma b64_table: "map (\<lambda>n. (b64_chars ! n = CHR ''='', b64_value (b64_chars ! n))) [0..<64] = map (\<lambda>n. (False, Some n)) [0..<64]"
  by code_simp

lemma b64_char [simp]: "b64_char n \<noteq> CHR ''=''" "b64_value (b64_char n) = Some (n mod 64)"
proof -
  have "\<forall>n \<in> set [0..<64]. (b64_chars ! n = CHR ''='', b64_value (b64_chars ! n)) = (False, Some n)"
    using b64_table by (simp only: map_eq_conv)
  then have "(b64_chars ! (n mod 64) = CHR ''='', b64_value (b64_chars ! (n mod 64))) = (False, Some (n mod 64))" by simp
  then show "b64_char n \<noteq> CHR ''=''" "b64_value (b64_char n) = Some (n mod 64)" by (simp_all add: b64_char_def)
qed

text \<open>Six more bits.\<close>

lemma six_bits: "(N div (k * 64)) mod M * 64 + N div k mod 64 = (N div k) mod (64 * M)" for N k M :: nat
proof -
  have "(N div k) mod (64 * M) = 64 * (N div k div 64 mod M) + N div k mod 64" by (rule mod_mult2_eq)
  then show ?thesis by (simp add: div_mult2_eq)
qed

lemma take_byte: "(N mod (k * 256)) div k = N div k mod 256" "(N mod (k * 256)) mod k = N mod k" for N k :: nat
  by (simp_all add: mod_mult2_eq div_add1_eq mod_mod_cancel)

lemma a2b_char:
  "a2b (b64_char n # s) q acc bits =
     (let q = (q + 1) mod 4; acc = acc * 64 + n mod 64; bits = bits + 6
      in if bits \<ge> 8
         then bindR (a2b s q (acc mod 2 ^ (bits - 8)) (bits - 8)) (\<lambda>out. Inr (char_of (acc div 2 ^ (bits - 8)) # out))
         else a2b s q acc bits)"
  by (simp add: Let_def)

lemma bindR_assoc: "bindR (bindR m f) g = bindR m (\<lambda>x. bindR (f x) g)"
  by (cases m) simp_all

lemma group_bits:
  fixes N :: nat
  shows "N div 262144 mod 64 * 64 + N div 4096 mod 64 = N div 4096 mod 4096"
    and "N div 4096 mod 16 * 64 + N div 64 mod 64 = N div 64 mod 1024"
    and "N div 64 mod 4 * 64 + N mod 64 = N mod 256"
    and "N div 4096 mod 4096 div 16 = N div 65536 mod 256" and "N div 4096 mod 4096 mod 16 = N div 4096 mod 16"
    and "N div 64 mod 1024 div 4 = N div 256 mod 256" and "N div 64 mod 1024 mod 4 = N div 64 mod 4"
proof -
  show "N div 262144 mod 64 * 64 + N div 4096 mod 64 = N div 4096 mod 4096" using six_bits [of N 4096 64] by simp
  show "N div 4096 mod 16 * 64 + N div 64 mod 64 = N div 64 mod 1024" using six_bits [of N 64 16] by simp
  show "N div 64 mod 4 * 64 + N mod 64 = N mod 256" using six_bits [of N 1 4] by simp
  have "N div 4096 mod 4096 div 16 = N div 4096 div 16 mod 256" "N div 64 mod 1024 div 4 = N div 64 div 4 mod 256"
    using take_byte(1) [of "N div 4096" 16] take_byte(1) [of "N div 64" 4] by simp_all
  then show "N div 4096 mod 4096 div 16 = N div 65536 mod 256" "N div 64 mod 1024 div 4 = N div 256 mod 256"
    using div_mult2_eq [of N 4096 16] div_mult2_eq [of N 64 4] by simp_all
  show "N div 4096 mod 4096 mod 16 = N div 4096 mod 16" "N div 64 mod 1024 mod 4 = N div 64 mod 4"
    using take_byte(2) [of "N div 4096" 16] take_byte(2) [of "N div 64" 4] by simp_all
qed

lemma a2b_group:
  "a2b (b64_char (N div 262144) # b64_char (N div 4096) # b64_char (N div 64) # b64_char N # s) 0 0 0 =
   bindR (a2b s 0 0 0) (\<lambda>out. Inr (char_of (N div 65536 mod 256) # char_of (N div 256 mod 256) # char_of (N mod 256) # out))"
  by (simp add: a2b_char group_bits bindR_assoc Let_def del: a2b.simps char_of_mod_256)

lemma a2b_group2:
  "a2b [b64_char (N div 262144), b64_char (N div 4096), b64_char (N div 64), CHR ''=''] 0 0 0 =
   Inr [char_of (N div 65536 mod 256), char_of (N div 256 mod 256)]"
  by (simp add: a2b_char group_bits bindR_assoc Let_def del: char_of_mod_256 a2b.simps) simp

lemma a2b_group1:
  "a2b [b64_char (N div 262144), b64_char (N div 4096), CHR ''='', CHR ''=''] 0 0 0 =
   Inr [char_of (N div 65536 mod 256)]"
  by (simp add: a2b_char group_bits bindR_assoc Let_def del: char_of_mod_256 a2b.simps) simp

lemma byte_less: "(of_char c :: nat) < 256"
  by simp

lemma bytes:
  fixes a b c :: nat
  assumes "a < 256" and "b < 256" and "c < 256"
  shows "((a * 256 + b) * 256 + c) div 65536 mod 256 = a" "((a * 256 + b) * 256 + c) div 256 mod 256 = b"
    "((a * 256 + b) * 256 + c) mod 256 = c"
proof -
  let ?N = "(a * 256 + b) * 256 + c"
  have d: "?N div 256 = a * 256 + b" "(a * 256 + b) div 256 = a" "(a * 256 + b) mod 256 = b"
    using assms by simp_all
  have "?N mod 256 = c" using assms(3) by (simp only: mod_mult_self3 mod_less)
  then show "?N mod 256 = c" .
  show "?N div 256 mod 256 = b" using d(1,3) by simp
  have "?N div 65536 = a" using d(1,2) div_mult2_eq [of ?N 256 256] by simp
  then show "?N div 65536 mod 256 = a" using assms(1) by simp
qed

theorem b64_roundtrip: "b64decode (b64encode s) = Inr s"
proof (induction s rule: b64encode.induct)
  case 1
  then show ?case by (simp add: b64decode_def)
next
  case (2 a)
  let ?N = "(of_char a * 256 + 0) * 256 + 0 :: nat"
  have "?N div 262144 = of_char a * 16 div 64" "?N div 4096 = of_char a * 16" by simp_all
  then have "b64encode [a] = [b64_char (?N div 262144), b64_char (?N div 4096), CHR ''='', CHR ''='']"
    by (simp only: b64encode.simps Let_def)
  then show ?case using a2b_group1 [of ?N] bytes [OF byte_less [of a], of 0 0]
    by (simp only: b64decode_def char_of_char)
next
  case (3 a b)
  let ?N = "(of_char a * 256 + of_char b) * 256 + 0 :: nat"
  have "?N div 262144 = (of_char a * 256 + of_char b) * 4 div 4096" "?N div 4096 = (of_char a * 256 + of_char b) * 4 div 64"
    "?N div 64 = (of_char a * 256 + of_char b) * 4" by simp_all
  then have "b64encode [a, b] = [b64_char (?N div 262144), b64_char (?N div 4096), b64_char (?N div 64), CHR ''='']"
    by (simp only: b64encode.simps Let_def)
  then show ?case using a2b_group2 [of ?N] bytes [OF byte_less [of a] byte_less [of b], of 0]
    by (simp only: b64decode_def char_of_char)
next
  case (4 a b c s)
  let ?N = "(of_char a * 256 + of_char b) * 256 + of_char c :: nat"
  show ?case using 4 bytes [OF byte_less byte_less byte_less, of a b c]
    unfolding b64decode_def b64encode.simps Let_def a2b_group by (simp del: a2b.simps)
qed

end
