(* ===== verification/Node.thy ===== *)
theory Node
  imports Hypervisor Disk Base64
begin

text \<open>
  The compute node: \<^verbatim>\<open>Node\<close> and the operations of \<^verbatim>\<open>Instance\<close> that
  reach the hypervisor, over any record of hypervisor operations. Instances are objects: a map from
  identifiers leads to them, and so do the callbacks that are waiting, of the processes that prepare an
  image and of the timers that watch a shutdown. They are kept in a heap, so that a callback changes
  the object it was made for, whatever the map says by then.

  An operation that returns a \<^verbatim>\<open>Deferred\<close> gives its number; operations that are
  generators under \<^verbatim>\<open>inlineCallbacks\<close> run at once here, because nothing that they
  wait for is pending, and an exception in them is the failure of their result, which
  \<^verbatim>\<open>wrap_exception\<close> does not reach.
\<close>

subsection \<open>The state of a node\<close>

datatype deferred = Waiting | Called | Failed exc

text \<open>A \<^verbatim>\<open>PeriodicCallback\<close> that watches one instance, which it removes under the
  identifier when its deferred is called.\<close>

record timer =
  tm_ref :: nat
  tm_id :: string
  tm_deferred :: nat
  tm_running :: bool

record 'c node =
  nd_heap :: "attributes list"
  nd_instances :: "(string, nat) dict"
  nd_conn :: 'c
  nd_jobs :: "(nat \<times> nat) list"
  nd_timers :: "timer list"
  nd_deferreds :: "deferred list"
  nd_world :: world

type_synonym ('c, 'a) node_act = "('c node, 'a) act"

definition node_init :: "'c \<Rightarrow> world \<Rightarrow> 'c node" where
  "node_init conn w = \<lparr>nd_heap = [], nd_instances = [], nd_conn = conn, nd_jobs = [], nd_timers = [],
     nd_deferreds = [], nd_world = w\<rparr>"

definition on_conn :: "('c, 'a) act \<Rightarrow> ('c, 'a) node_act" where
  "on_conn m nd = (let (r, c) = m (nd_conn nd) in (r, nd\<lparr>nd_conn := c\<rparr>))"

definition get_info :: "'c hypervisor \<Rightarrow> string \<Rightarrow> ('c, int) node_act" where
  "get_info hv n nd = (hv_info hv n (nd_conn nd), nd)"

definition on_node_world :: "(world, 'a) act \<Rightarrow> ('c, 'a) node_act" where
  "on_node_world m nd = (let (r, w) = m (nd_world nd) in (r, nd\<lparr>nd_world := w\<rparr>))"

definition new_deferred :: "('c, nat) node_act" where
  "new_deferred nd = (Inr (length (nd_deferreds nd)), nd\<lparr>nd_deferreds := nd_deferreds nd @ [Waiting]\<rparr>)"

definition settle :: "nat \<Rightarrow> deferred \<Rightarrow> 'c node \<Rightarrow> 'c node" where
  "settle d r nd = nd\<lparr>nd_deferreds := (nd_deferreds nd)[d := r]\<rparr>"

definition new_instance :: "attributes \<Rightarrow> ('c, nat) node_act" where
  "new_instance s nd = (Inr (length (nd_heap nd)), nd\<lparr>nd_heap := nd_heap nd @ [s]\<rparr>)"

definition put_state :: "nat \<Rightarrow> int \<Rightarrow> 'c node \<Rightarrow> 'c node" where
  "put_state r i nd = nd\<lparr>nd_heap := (nd_heap nd)[r := set_state i (nd_heap nd ! r)]\<rparr>"

definition put_stateS :: "nat \<Rightarrow> int \<Rightarrow> ('c, unit) node_act" where
  "put_stateS r i nd = (Inr (), put_state r i nd)"

definition obj :: "nat \<Rightarrow> 'c node \<Rightarrow> attributes" where
  "obj r nd = nd_heap nd ! r"

text \<open>The object under an identifier, or the exception that each operation has for an
  identifier it does not know.\<close>

definition known :: "string \<Rightarrow> string \<Rightarrow> ('c, nat) node_act" where
  "known msg i nd = (case map_of (nd_instances nd) i of None \<Rightarrow> (Inl (Error (msg @ i)), nd) | Some r \<Rightarrow> (Inr r, nd))"

subsection \<open>Preparing an image\<close>

definition fetchfile :: "string \<Rightarrow> string \<Rightarrow> (world, unit) act" where
  "fetchfile url target w = (Inr (), exec (''curl '' @ url @ '' -o '' @ target) w)"

definition write_text :: "string \<Rightarrow> string \<Rightarrow> (world, unit) act" where
  "write_text path content =
     bindS (os_call (Write_File path content) IOError) (\<lambda>_ w. (Inr (), w\<lparr>text_files := (text_files w)(path \<mapsto> content)\<rparr>))"

definition image_url :: "flags \<Rightarrow> string \<Rightarrow> string" where
  "image_url fl path = s3_host fl @ '':'' @ str_int (s3_port fl) @ ''/_images/'' @ path"

definition imagepath :: "flags \<Rightarrow> string \<Rightarrow> string" where
  "imagepath fl path = path_join (images_path fl) path"

text \<open>One of the three files of an image, unless \<open>present\<close> exists already.\<close>

definition get_file :: "flags \<Rightarrow> string \<Rightarrow> string \<Rightarrow> string \<Rightarrow> (world, unit) act" where
  "get_file fl present img target w =
     (if path_exists present w then (Inr (), w)
      else if use_s3 fl then fetchfile (image_url fl (img @ ''/image'')) target w
      else os_call (Copy_File (imagepath fl (img @ ''/image'')) target) IOError w)"

definition data_text :: "attributes \<Rightarrow> string \<Rightarrow> string res" where
  "data_text data k = bindR (dget data k) (\<lambda>v. Inr (json_scalar_text v))"

text \<open>
  \<^verbatim>\<open>_create_image\<close>, which runs in another process: nothing, or the exception that it
  returns. A \<^verbatim>\<open>basepath\<close> that is no string raises before the \<^verbatim>\<open>try\<close>.
  Keys are texts or \<^verbatim>\<open>None\<close>.
\<close>

definition create_image_body :: "flags \<Rightarrow> string \<Rightarrow> attributes \<Rightarrow> string \<Rightarrow> (world, unit) act" where
  "create_image_body fl path data xml =
     (let basepath = (\<lambda>p. abspath fl (path_join path p)) in
      bindS (liftR (dget data ''instance_id'')) (\<lambda>_.
      bindS (write_text (basepath ''libvirt.xml'') xml) (\<lambda>_.
      if fake_libvirt fl then retS ()
      else
        bindS (liftR (data_text data ''image_id'')) (\<lambda>img.
        bindS (get_file fl (basepath ''disk'') img (basepath ''disk-raw'')) (\<lambda>_.
        bindS (liftR (data_text data ''kernel_id'')) (\<lambda>kernel.
        bindS (get_file fl (basepath ''kernel'') kernel (basepath ''kernel'')) (\<lambda>_.
        bindS (liftR (data_text data ''ramdisk_id'')) (\<lambda>ramdisk.
        bindS (get_file fl (basepath ''ramdisk'') ramdisk (basepath ''ramdisk'')) (\<lambda>_.
        bindS (liftR (dget data ''key_data'')) (\<lambda>key.
        bindS (if truthy key then inject_key (json_scalar_text key) (basepath ''disk-raw'') False else retS ()) (\<lambda>_.
        bindS (\<lambda>w. if path_exists (basepath ''disk'') w then os_call (Unlink (basepath ''disk'')) OSError w else (Inr (), w)) (\<lambda>_.
          partition_image (basepath ''disk-raw'') (basepath ''disk'')))))))))))))"

definition create_image :: "flags \<Rightarrow> attributes \<Rightarrow> string \<Rightarrow> (world, exc option) act" where
  "create_image fl data xml =
     bindS (liftR (dget data ''basepath'')) (\<lambda>v. case v of
         JStr path \<Rightarrow>
           bindS (catchS (os_call (Makedirs path) OSError) (retS ())) (\<lambda>_ w.
             case create_image_body fl path data xml w of
               (Inl ex, w) \<Rightarrow> (Inr (Some ex), w)
             | (Inr _, w) \<Rightarrow> (Inr None, w))
       | _ \<Rightarrow> raiseS AttributeError)"

subsection \<open>Instances\<close>

definition to_xml :: "nat \<Rightarrow> ('c, string) node_act" where
  "to_xml r nd = (toXml (json_text (nd_world nd)) (obj r nd), nd)"

text \<open>\<^verbatim>\<open>spawn\<close>: the image is prepared in another process, and
  \<^verbatim>\<open>_launch\<close> gets what it returns.\<close>

definition spawn :: "nat \<Rightarrow> nat \<Rightarrow> ('c, unit) node_act" where
  "spawn r d = wrap_exception (\<lambda>nd.
     if \<not> is_pending (obj r nd)
     then (Inl (Error (''trying to spawn a running or terminatedinstance: '' @ inst_name (obj r nd) @
             '' (state: '' @ str_int (inst_state (obj r nd)) @ '')'')), nd)
     else bindS (to_xml r) (\<lambda>xml nd. (Inr (), nd\<lparr>nd_jobs := nd_jobs nd @ [(r, d)]\<rparr>)) nd)"

definition launch :: "'c hypervisor \<Rightarrow> nat \<Rightarrow> nat \<Rightarrow> exc option \<Rightarrow> 'c node \<Rightarrow> 'c node" where
  "launch hv r d retvals nd =
     (case (case retvals of
              Some ex \<Rightarrow> raiseS ex
            | None \<Rightarrow> bindS (to_xml r) (\<lambda>xml. bindS (on_conn (hv_create hv xml)) (\<lambda>_. put_stateS r RUNNING))) nd of
        (Inl ex, nd) \<Rightarrow> settle d (Failed ex) nd
      | (Inr _, nd) \<Rightarrow> nd)"

text \<open>The event that one of the waiting processes is done.\<close>

definition image_done :: "'c hypervisor \<Rightarrow> nat \<Rightarrow> exc option \<Rightarrow> 'c node \<Rightarrow> 'c node" where
  "image_done hv k retvals nd =
     (if k < length (nd_jobs nd)
      then (let (r, d) = nd_jobs nd ! k
            in launch hv r d retvals (nd\<lparr>nd_jobs := take k (nd_jobs nd) @ drop (Suc k) (nd_jobs nd)\<rparr>))
      else nd)"

definition start_timer :: "nat \<Rightarrow> string \<Rightarrow> nat \<Rightarrow> ('c, unit) node_act" where
  "start_timer r i d nd =
     (Inr (), nd\<lparr>nd_timers := nd_timers nd @ [\<lparr>tm_ref = r, tm_id = i, tm_deferred = d, tm_running = True\<rparr>]\<rparr>)"

definition inst_destroy :: "'c hypervisor \<Rightarrow> nat \<Rightarrow> string \<Rightarrow> nat \<Rightarrow> ('c, unit) node_act" where
  "inst_destroy hv r i d = wrap_exception (\<lambda>nd.
     if is_destroyed (obj r nd)
     then (Inl (Error (''trying to destroy already destroyed instance: '' @ inst_name (obj r nd))), nd)
     else bindS (put_stateS r SHUTDOWN) (\<lambda>_.
          bindS (\<lambda>nd. on_conn (hv_destroy hv (inst_name (obj r nd))) nd) (\<lambda>_.
            start_timer r i d)) nd)"

text \<open>Calling a deferred of \<^verbatim>\<open>terminate_instance\<close> removes the identifier; calling it
  a second time raises.\<close>

definition call_removal :: "string \<Rightarrow> nat \<Rightarrow> ('c, unit) node_act" where
  "call_removal i d nd =
     (if nd_deferreds nd ! d \<noteq> Waiting then (Inl (PyException ''AlreadyCalledError''), nd)
      else if has_key (nd_instances nd) i
        then (Inr (), settle d Called (nd\<lparr>nd_instances := ddel i (nd_instances nd)\<rparr>))
      else (Inr (), settle d (Failed KeyError) nd))"

definition stop_timer :: "nat \<Rightarrow> 'c node \<Rightarrow> 'c node" where
  "stop_timer k nd = nd\<lparr>nd_timers := (nd_timers nd)[k := (nd_timers nd ! k)\<lparr>tm_running := False\<rparr>]\<rparr>"

definition wait_for_shutdown :: "'c hypervisor \<Rightarrow> nat \<Rightarrow> ('c, unit) node_act" where
  "wait_for_shutdown hv k nd =
     (let t = nd_timers nd ! k; r = tm_ref t in
      case hv_info hv (inst_name (obj r nd)) (nd_conn nd) of
        Inr state \<Rightarrow> call_removal (tm_id t) (tm_deferred t)
          (if state = SHUTDOWN then stop_timer k (put_state r SHUTDOWN nd) else nd)
      | Inl e \<Rightarrow> call_removal (tm_id t) (tm_deferred t) (stop_timer k (put_state r SHUTDOWN nd)))"

text \<open>\<^verbatim>\<open>PeriodicCallback._run\<close>: a timer that was stopped does nothing, an exception
  is only logged.\<close>

definition tick :: "'c hypervisor \<Rightarrow> nat \<Rightarrow> 'c node \<Rightarrow> 'c node" where
  "tick hv k nd =
     (if k < length (nd_timers nd) \<and> tm_running (nd_timers nd ! k) then snd (wait_for_shutdown hv k nd) else nd)"

definition inst_reboot :: "'c hypervisor \<Rightarrow> nat \<Rightarrow> ('c, unit) node_act" where
  "inst_reboot hv r nd =
     (if \<not> is_running (obj r nd)
      then (Inl (Error (''trying to reboot a non-runninginstance: '' @ inst_name (obj r nd) @
              '' (state: '' @ str_int (inst_state (obj r nd)) @ '')'')), nd)
      else bindS (on_conn (hv_destroy hv (inst_name (obj r nd)))) (\<lambda>_.
           bindS (put_stateS r NOSTATE) (\<lambda>_.
           bindS (to_xml r) (\<lambda>xml.
           bindS (on_conn (hv_create hv xml)) (\<lambda>_. put_stateS r RUNNING)))) nd)"

definition read_text :: "string \<Rightarrow> (world, string) act" where
  "read_text path w = ((case text_files w path of None \<Rightarrow> Inl IOError | Some t \<Rightarrow> Inr t), w)"

definition console_output :: "flags \<Rightarrow> nat \<Rightarrow> ('c, string) node_act" where
  "console_output fl r = wrap_exception (\<lambda>nd.
     if fake_libvirt fl then (Inr ''FAKE CONSOLE OUTPUT'', nd)
     else bindS (liftR (dget (obj r nd) ''basepath'')) (\<lambda>v. case v of
         JStr path \<Rightarrow> on_node_world (read_text (abspath fl (path_join path ''console.log'')))
       | _ \<Rightarrow> raiseS AttributeError) nd)"

text \<open>\<^verbatim>\<open>fromName\<close> and \<^verbatim>\<open>update_state\<close>.\<close>

definition from_name :: "(string \<Rightarrow> json res) \<Rightarrow> flags \<Rightarrow> 'c hypervisor \<Rightarrow> string \<Rightarrow> ('c, nat) node_act" where
  "from_name deser fl hv name =
     (if fake_libvirt fl then raiseS (PyException ''this is a bit useless, eh?'')
      else
        let basepath = abspath fl (path_join (instances_path fl) name) in
        bindS (on_node_world (read_text (path_join basepath ''libvirt.xml''))) (\<lambda>xml.
        bindS (liftR (attributes_of_xml deser fl xml)) (\<lambda>s.
        bindS (get_info hv (inst_name s)) (\<lambda>state. new_instance (set_state state s)))))"

subsection \<open>The operations of the node\<close>

definition noop :: "('c, json) node_act" where
  "noop = retS (JStr ''PONG'')"

text \<open>The loop over the domains that run: a name that cannot be read gets the object of the name
  before it, and the first one raises, because the variable has no value yet.\<close>

fun adopt_loop :: "(string \<Rightarrow> json res) \<Rightarrow> flags \<Rightarrow> 'c hypervisor \<Rightarrow> string list \<Rightarrow> nat option \<Rightarrow> ('c, unit) node_act" where
  "adopt_loop deser fl hv [] new_inst = retS ()"
| "adopt_loop deser fl hv (name # names) new_inst =
     bindS (catchS (bindS (from_name deser fl hv name) (\<lambda>r. retS (Some r))) (retS new_inst)) (\<lambda>new_inst.
       case new_inst of
         None \<Rightarrow> raiseS NameError
       | Some r \<Rightarrow>
           bindS (\<lambda>nd. (Inr (), nd\<lparr>nd_instances := dput name r (nd_instances nd)\<rparr>)) (\<lambda>_.
             adopt_loop deser fl hv names new_inst))"

definition adopt_instances :: "(string \<Rightarrow> json res) \<Rightarrow> flags \<Rightarrow> 'c hypervisor \<Rightarrow> ('c, nat) node_act" where
  "adopt_instances deser fl hv = wrap_exception
     (bindS (\<lambda>nd. (hv_names hv (nd_conn nd), nd)) (\<lambda>instance_names.
      bindS (adopt_loop deser fl hv instance_names None) (\<lambda>_ nd.
        (Inr (length (nd_instances nd)), nd))))"

definition describe_instances :: "('c, json) node_act" where
  "describe_instances nd =
     (Inr (JDict (fold (\<lambda>r d. dput (inst_name (obj r nd)) (JDict (obj r nd)) d) (vals (nd_instances nd)) [])), nd)"

definition node_report_state :: "flags \<Rightarrow> ('c, unit) node_act" where
  "node_report_state fl =
     bindS describe_instances (\<lambda>rv.
     on_node_world (\<lambda>w. (Inr (), emit (Cast ''cloud'' (JDict
       [(''method'', JStr ''update_state''),
        (''args'', JDict [(''topic'', JStr ''instances''), (''value'', JDict [(node_name fl, rv)])])])) w)))"

definition run_instance :: "flags \<Rightarrow> string \<Rightarrow> attributes \<Rightarrow> ('c, nat) node_act" where
  "run_instance fl i kwargs = wrap_exception (\<lambda>nd.
     if has_key (nd_instances nd) i
     then (Inl (Error (''attempting to use existing instance_id: '' @ i)), nd)
     else bindS (liftR (instance_init fl (JStr i) kwargs)) (\<lambda>s.
          bindS (new_instance s) (\<lambda>r.
          bindS (\<lambda>nd. (Inr (), nd\<lparr>nd_instances := dput i r (nd_instances nd)\<rparr>)) (\<lambda>_.
          bindS new_deferred (\<lambda>d.
          bindS (spawn r d) (\<lambda>_. retS d))))) nd)"

definition terminate_instance :: "'c hypervisor \<Rightarrow> string \<Rightarrow> ('c, nat) node_act" where
  "terminate_instance hv i = wrap_exception
     (bindS (known ''trying to terminate unknown instance: '' i) (\<lambda>r.
      bindS new_deferred (\<lambda>d.
      bindS (inst_destroy hv r i d) (\<lambda>_. retS d))))"

definition reboot_instance :: "'c hypervisor \<Rightarrow> string \<Rightarrow> ('c, unit) node_act" where
  "reboot_instance hv i = bindS (known ''trying to reboot unknown instance: '' i) (inst_reboot hv)"

definition get_console_output :: "flags \<Rightarrow> string \<Rightarrow> ('c, json) node_act" where
  "get_console_output fl i =
     bindS (known ''trying to get console log for unknown: '' i) (\<lambda>r.
     bindS (console_output fl r) (\<lambda>rv.
       retS (JDict [(''InstanceId'', JStr i), (''Timestamp'', JStr ''2''), (''output'', JStr (b64encode rv))])))"

text \<open>The commands of attaching and detaching; what \<^verbatim>\<open>inlineCallbacks\<close> makes of
  the result of \<^verbatim>\<open>attach_volume\<close>, which is no generator, is not modelled.\<close>

definition node_attach_volume :: "string option \<Rightarrow> string option \<Rightarrow> string option \<Rightarrow> ('c, unit) node_act" where
  "node_attach_volume i aoe_device mountpoint = wrap_exception
     (case mountpoint of
        None \<Rightarrow> raiseS AttributeError
      | Some m \<Rightarrow> on_node_world (\<lambda>w. (Inr (), runthis (''sudo virsh attach-disk '' @ opt_text i @ '' /dev/etherd/'' @
          opt_text aoe_device @ '' '' @ last (py_split CHR ''/'' m)) w)))"

definition init_aoe :: "('c, unit) node_act" where
  "init_aoe = on_node_world (\<lambda>w. (Inr (), runthis ''sudo aoe-stat'' (runthis ''sudo aoe-discover'' w)))"

definition node_detach_volume :: "string \<Rightarrow> string \<Rightarrow> ('c, unit) node_act" where
  "node_detach_volume i mountpoint =
     on_node_world (\<lambda>w. (Inr (), runthis (''sudo virsh detach-disk '' @ i @ '' '' @ mountpoint @ '' '') w))"

end
