(* ===== verification/InstanceXml.thy ===== *)
theory InstanceXml
  imports Hypervisor
begin

text \<open>
  The description of a domain that an instance writes parses, and an instance read back from it has
  the attributes of the first one.
\<close>

subsection \<open>The description parses back\<close>

text \<open>The text of the description, cut at the opening brackets.\<close>

definition domain_head :: "string \<Rightarrow> string \<Rightarrow> string \<Rightarrow> string \<Rightarrow> string list" where
  "domain_head n bp mem cpu =
     [''domain type='' @ [CHR 0x27] @ ''kvm'' @ [CHR 0x27] @ ''>\<newline>    '',
      ''name>'' @ n,
      ''/name>\<newline>    '',
      ''os>\<newline>    '',
      ''type>hvm'',
      ''/type>\<newline>        '',
      ''kernel>'' @ bp @ ''/kernel'',
      ''/kernel>\<newline>        '',
      ''initrd>'' @ bp @ ''/ramdisk'',
      ''/initrd>\<newline>        '',
      ''cmdline>root=/dev/vda1 console=ttyS0'',
      ''/cmdline>\<newline>    '',
      ''/os>\<newline>    '',
      ''features>\<newline>        '',
      ''acpi/>\<newline>    '',
      ''/features>\<newline>    '',
      ''memory>'' @ mem,
      ''/memory>\<newline>    '',
      ''vcpu>'' @ cpu,
      ''/vcpu>\<newline>    '',
      ''devices>\<newline>        '',
      ''emulator>/usr/bin/kvm'',
      ''/emulator>\<newline>        '',
      ''disk type='' @ [CHR 0x27] @ ''file'' @ [CHR 0x27] @ ''>\<newline>            '',
      ''source file='' @ [CHR 0x27] @ bp @ ''/disk'' @ [CHR 0x27] @ ''/>\<newline>            '',
      ''target dev='' @ [CHR 0x27] @ ''vda'' @ [CHR 0x27] @ '' bus='' @ [CHR 0x27] @ ''virtio'' @ [CHR 0x27] @ ''/>\<newline>        '',
      ''/disk>\<newline>       '']"

definition domain_comment1 :: "string \<Rightarrow> string list" where
  "domain_comment1 net =
     [''!--  '',
      ''interface type='' @ [CHR 0x27] @ ''network'' @ [CHR 0x27] @ ''>\<newline>            '',
      ''source network='' @ [CHR 0x27] @ net @ [CHR 0x27] @ ''/>\<newline>            '',
      ''model type='' @ [CHR 0x27] @ ''virtio'' @ [CHR 0x27] @ ''/> \<newline>        -->\<newline>        '']"

definition domain_bridge :: "string \<Rightarrow> string \<Rightarrow> string list" where
  "domain_bridge br mac =
     [''interface type='' @ [CHR 0x27] @ ''bridge'' @ [CHR 0x27] @ ''>\<newline>            '',
      ''source bridge='' @ [CHR 0x27] @ br @ [CHR 0x27] @ ''/>\<newline>            '',
      ''mac address='' @ [CHR 0x27] @ mac @ [CHR 0x27] @ ''/>\<newline>            '']"

definition domain_comment2 :: "string list" where
  "domain_comment2 =
     [''!--   '',
      ''model type='' @ [CHR 0x27] @ ''virtio'' @ [CHR 0x27] @ ''/>  CANT RUN virtio network right now -->\<newline>        '']"

definition domain_tail :: "string \<Rightarrow> string \<Rightarrow> string list" where
  "domain_tail bp nv =
     [''/interface>\<newline>        '',
      ''serial type='' @ [CHR 0x22] @ ''file'' @ [CHR 0x22] @ ''>\<newline>            '',
      ''source path='' @ [CHR 0x27] @ bp @ ''/console.log'' @ [CHR 0x27] @ ''/>\<newline>            '',
      ''target port='' @ [CHR 0x27] @ ''1'' @ [CHR 0x27] @ ''/>\<newline>        '',
      ''/serial>\<newline>    '',
      ''/devices>\<newline>    '',
      ''nova>'' @ nv,
      ''/nova>\<newline>'']"

definition domain_pieces ::
  "string \<Rightarrow> string \<Rightarrow> string \<Rightarrow> string \<Rightarrow> string \<Rightarrow> string \<Rightarrow> string \<Rightarrow> string \<Rightarrow> string list" where
  "domain_pieces n bp mem cpu net br mac nv =
     domain_head n bp mem cpu @ domain_comment1 net @ domain_bridge br mac @ domain_comment2 @ domain_tail bp nv @
     [''/domain>\<newline>'']"

text \<open>A value that holds no markup, nor an end of a comment.\<close>

definition plain_text :: "string \<Rightarrow> bool" where
  "plain_text v \<longleftrightarrow> list_all xml_char v \<and> CHR ''<'' \<notin> set v \<and> CHR ''&'' \<notin> set v \<and> CHR 0x27 \<notin> set v \<and>
     CHR ''>'' \<notin> set v \<and> \<not> py_contains v ''--''"

text \<open>A text between two tags that holds no markup.\<close>

definition plain_content :: "string \<Rightarrow> bool" where
  "plain_content v \<longleftrightarrow> list_all xml_char v \<and> CHR ''<'' \<notin> set v \<and> CHR ''&'' \<notin> set v \<and> \<not> py_contains v '']]>''"

lemma format_domain:
  assumes "map_of d ''name'' = Some n" "map_of d ''basepath'' = Some bp" "map_of d ''memory_kb'' = Some mem"
    "map_of d ''vcpus'' = Some cpu" "map_of d ''network_name'' = Some net" "map_of d ''bridge_name'' = Some br"
    "map_of d ''mac_address'' = Some mac" "map_of d ''nova'' = Some nv"
  shows "format_segments libvirt_xml_template d = Inr (py_join ''<'' ([] # domain_pieces n bp mem cpu net br mac nv))"
  unfolding libvirt_xml_template_def domain_pieces_def domain_head_def domain_comment1_def domain_bridge_def
    domain_comment2_def domain_tail_def
  by (simp add: assms)

lemmas tag_defs = read_tag_def open_tag_def Let_def scan_tag_value attrs_ok_value unescape_plain name_char_def
  is_upper_def is_lower_def is_digit_def is_space_def xml_char_def strip_def last_append butlast_append

text \<open>The tags of the description, each with the text that follows.\<close>

definition head_tags :: "string \<Rightarrow> string \<Rightarrow> string \<Rightarrow> string \<Rightarrow> (tag \<times> string) list" where
  "head_tags n bp mem cpu =
     [(Open_Tag ''domain'', ''\<newline>    ''),
      (Open_Tag ''name'', n),
      (Close_Tag ''name'', ''\<newline>    ''),
      (Open_Tag ''os'', ''\<newline>    ''),
      (Open_Tag ''type'', ''hvm''),
      (Close_Tag ''type'', ''\<newline>        ''),
      (Open_Tag ''kernel'', bp @ ''/kernel''),
      (Close_Tag ''kernel'', ''\<newline>        ''),
      (Open_Tag ''initrd'', bp @ ''/ramdisk''),
      (Close_Tag ''initrd'', ''\<newline>        ''),
      (Open_Tag ''cmdline'', ''root=/dev/vda1 console=ttyS0''),
      (Close_Tag ''cmdline'', ''\<newline>    ''),
      (Close_Tag ''os'', ''\<newline>    ''),
      (Open_Tag ''features'', ''\<newline>        ''),
      (Empty_Tag ''acpi'', ''\<newline>    ''),
      (Close_Tag ''features'', ''\<newline>    ''),
      (Open_Tag ''memory'', mem),
      (Close_Tag ''memory'', ''\<newline>    ''),
      (Open_Tag ''vcpu'', cpu),
      (Close_Tag ''vcpu'', ''\<newline>    ''),
      (Open_Tag ''devices'', ''\<newline>        ''),
      (Open_Tag ''emulator'', ''/usr/bin/kvm''),
      (Close_Tag ''emulator'', ''\<newline>        ''),
      (Open_Tag ''disk'', ''\<newline>            ''),
      (Empty_Tag ''source'', ''\<newline>            ''),
      (Empty_Tag ''target'', ''\<newline>        ''),
      (Close_Tag ''disk'', ''\<newline>       '')]"

definition bridge_tags :: "string \<Rightarrow> string \<Rightarrow> (tag \<times> string) list" where
  "bridge_tags br mac =
     [(Open_Tag ''interface'', ''\<newline>            ''),
      (Empty_Tag ''source'', ''\<newline>            ''),
      (Empty_Tag ''mac'', ''\<newline>            '')]"

definition tail_tags :: "string \<Rightarrow> string \<Rightarrow> (tag \<times> string) list" where
  "tail_tags bp nv =
     [(Close_Tag ''interface'', ''\<newline>        ''),
      (Open_Tag ''serial'', ''\<newline>            ''),
      (Empty_Tag ''source'', ''\<newline>            ''),
      (Empty_Tag ''target'', ''\<newline>        ''),
      (Close_Tag ''serial'', ''\<newline>    ''),
      (Close_Tag ''devices'', ''\<newline>    ''),
      (Open_Tag ''nova'', nv),
      (Close_Tag ''nova'', ''\<newline>'')]"

lemma read_head:
  "plain_text bp \<Longrightarrow>
   mapR read_tag (domain_head n bp mem cpu) = Inr (head_tags n bp mem cpu)"
  unfolding domain_head_def head_tags_def plain_text_def by (simp add: tag_defs)

lemma read_bridge:
  "plain_text br \<Longrightarrow> plain_text mac \<Longrightarrow>
   mapR read_tag (domain_bridge br mac) = Inr (bridge_tags br mac)"
  unfolding domain_bridge_def bridge_tags_def plain_text_def by (simp add: tag_defs)

lemma read_tail:
  "plain_text bp \<Longrightarrow>
   mapR read_tag (domain_tail bp nv) = Inr (tail_tags bp nv)"
  unfolding domain_tail_def tail_tags_def plain_text_def by (simp add: tag_defs)


lemma not_comment:
  "\<forall>s \<in> set (domain_head n bp mem cpu). \<not> startswith s ''!--''"
  "\<forall>s \<in> set (domain_bridge br mac). \<not> startswith s ''!--''"
  "\<forall>s \<in> set (domain_tail bp nv). \<not> startswith s ''!--''"
  by (simp_all add: domain_head_def domain_bridge_def domain_tail_def)

lemma add_text_plain:
  assumes "list_all xml_char s" and "CHR ''&'' \<notin> set s" and "\<not> py_contains s '']]>''"
  shows "add_text s (Parser cm ((tag, chars, kids) # st) root) =
    Inr (Parser cm ((tag, if kids = [] then chars @ s else chars, kids) # st) root)"
  using assms by (simp add: unescape_plain)

lemma xml_pieces_Nil: "bindR m (xml_pieces []) = m"
  by (cases m) simp_all

lemma domain_comments:
  assumes "plain_text net"
  shows "xml_pieces (domain_comment1 net) (Parser False (f # st) root) = add_text ''\<newline>        '' (Parser False (f # st) root)"
    and "xml_pieces domain_comment2 (Parser False (f # st) root) = add_text ''\<newline>        '' (Parser False (f # st) root)"
proof -
  let ?q = "[CHR 0x27]"
  have "py_contains (''source network='' @ ?q @ net @ ?q @ ''/>\<newline>            '') ''--'' \<longleftrightarrow> py_contains net ''--''"
    using py_contains_sep [of "CHR 0x27" "''--''" "''source network=''" "net @ ?q @ ''/>\<newline>            ''"]
      py_contains_sep [of "CHR 0x27" "''--''" net "''/>\<newline>            ''"] by simp
  then have net: "after_comment (''source network='' @ ?q @ net @ ?q @ ''/>\<newline>            '') = Inr None"
    using assms after_comment_open by (simp only: plain_text_def) blast
  show "xml_pieces (domain_comment1 net) (Parser False (f # st) root) = add_text ''\<newline>        '' (Parser False (f # st) root)"
    unfolding domain_comment1_def by (simp add: xml_piece_def comment_piece_def net [simplified] xml_pieces_Nil)
  show "xml_pieces domain_comment2 (Parser False (f # st) root) = add_text ''\<newline>        '' (Parser False (f # st) root)"
    unfolding domain_comment2_def by (simp add: xml_piece_def comment_piece_def xml_pieces_Nil)
qed

text \<open>What is open, with what has been read, after each part.\<close>

lemma apply_head:
  assumes "plain_text bp" "plain_text mem" "plain_text cpu" "plain_content n"
  shows "\<exists>kids k2. apply_tags (head_tags n bp mem cpu) (Parser False [] None) =
    Inr (Parser False [(''devices'', ''\<newline>        '', kids), (''domain'', ''\<newline>    '', k2 @ [Element ''name'' n []])] None) \<and>
    kids \<noteq> [] \<and> list_all (\<lambda>x. xml_tag x \<noteq> ''nova'') k2"
  using assms unfolding head_tags_def plain_text_def plain_content_def
  by (simp add: add_text_plain xml_char_def contains_subset [of "CHR ''>''"] del: add_text.simps py_contains.simps)


lemma apply_bridge:
  assumes "kids \<noteq> []"
  shows "\<exists>k. apply_tags (bridge_tags br mac) (Parser False ((''devices'', c, kids) # st) None) =
    Inr (Parser False ((''interface'', ''\<newline>            '', k) # (''devices'', c, kids) # st) None) \<and> k \<noteq> []"
  using assms unfolding bridge_tags_def
  by (simp add: add_text_plain xml_char_def contains_subset [of "CHR ''>''"] del: add_text.simps py_contains.simps)

lemma apply_tail:
  assumes "plain_content nv" and "kids \<noteq> []" and "k \<noteq> []" and "k3 \<noteq> []"
  shows "\<exists>dev. apply_tags (tail_tags bp nv) (Parser False [(''interface'', c, k), (''devices'', c2, kids), (''domain'', c3, k3)] None) =
    Inr (Parser False [(''domain'', c3, Element ''nova'' nv [] # dev # k3)] None) \<and> xml_tag dev = ''devices''"
  using assms unfolding tail_tags_def plain_content_def
  by (simp add: add_text_plain xml_char_def contains_subset [of "CHR ''>''"] del: add_text.simps py_contains.simps)

lemma add_space:
  "kids \<noteq> [] \<Longrightarrow> add_text ''\<newline>        '' (Parser cm ((tag, chars, kids) # st) root) = Inr (Parser cm ((tag, chars, kids) # st) root)"
  by (simp add: add_text_plain xml_char_def contains_subset [of "CHR ''>''"] del: add_text.simps py_contains.simps)

lemma domain_no_bracket:
  assumes "plain_text bp" "plain_text mem" "plain_text cpu" "plain_text net" "plain_text br" "plain_text mac"
    "plain_content n" "plain_content nv"
  shows "x \<in> set (domain_pieces n bp mem cpu net br mac nv) \<Longrightarrow> CHR ''<'' \<notin> set x"
  using assms unfolding domain_pieces_def domain_head_def domain_comment1_def domain_bridge_def
    domain_comment2_def domain_tail_def plain_text_def plain_content_def by (simp; elim disjE; simp)

lemma find_app: "find P (xs @ ys) = (case find P xs of None \<Rightarrow> find P ys | Some x \<Rightarrow> Some x)"
  by (induction xs) auto

text \<open>A description whose values hold no markup parses, with the name and the attributes in their
  elements.\<close>

lemma parse_domain:
  assumes "plain_text bp" "plain_text mem" "plain_text cpu" "plain_text net" "plain_text br" "plain_text mac"
    "plain_content n" "plain_content nv"
  shows "\<exists>x. parse_xml (py_join ''<'' ([] # domain_pieces n bp mem cpu net br mac nv)) = Inr x \<and>
    xml_find x ''name'' = Some (Element ''name'' n []) \<and> xml_find x ''nova'' = Some (Element ''nova'' nv [])"
proof -
  obtain kids k2 where h: "apply_tags (head_tags n bp mem cpu) (Parser False [] None) =
      Inr (Parser False [(''devices'', ''\<newline>        '', kids), (''domain'', ''\<newline>    '', k2 @ [Element ''name'' n []])] None)"
      "kids \<noteq> []" "list_all (\<lambda>x. xml_tag x \<noteq> ''nova'') k2"
    using apply_head [OF assms(1-3,7)] by blast
  obtain k where k: "apply_tags (bridge_tags br mac) (Parser False [(''devices'', ''\<newline>        '', kids), (''domain'', ''\<newline>    '', k2 @ [Element ''name'' n []])] None) =
      Inr (Parser False [(''interface'', ''\<newline>            '', k), (''devices'', ''\<newline>        '', kids), (''domain'', ''\<newline>    '', k2 @ [Element ''name'' n []])] None)" "k \<noteq> []"
    using apply_bridge [OF h(2)] by blast
  obtain dev where d: "apply_tags (tail_tags bp nv) (Parser False [(''interface'', ''\<newline>            '', k), (''devices'', ''\<newline>        '', kids), (''domain'', ''\<newline>    '', k2 @ [Element ''name'' n []])] None) =
      Inr (Parser False [(''domain'', ''\<newline>    '', Element ''nova'' nv [] # dev # k2 @ [Element ''name'' n []])] None)" "xml_tag dev = ''devices''"
    using apply_tail [OF assms(8) h(2) k(2)] by blast
  let ?x = "Element ''domain'' ''\<newline>    '' (rev (Element ''nova'' nv [] # dev # k2 @ [Element ''name'' n []]))"
  have last: "xml_pieces [''/domain>\<newline>''] (Parser False [(''domain'', ''\<newline>    '', Element ''nova'' nv [] # dev # k2 @ [Element ''name'' n []])] None) =
      Inr (Parser False [] (Some ?x))"
    by (simp add: xml_piece_def tag_defs)
  have run: "xml_pieces (domain_pieces n bp mem cpu net br mac nv) (Parser False [] None) = Inr (Parser False [] (Some ?x))"
  proof -
    have 1: "xml_pieces (domain_head n bp mem cpu) (Parser False [] None) = apply_tags (head_tags n bp mem cpu) (Parser False [] None)"
      by (rule xml_pieces_tags [OF read_head [OF assms(1)] not_comment(1)]) simp
    have 2: "xml_pieces (domain_bridge br mac) (Parser False st None) = apply_tags (bridge_tags br mac) (Parser False st None)" for st
      by (rule xml_pieces_tags [OF read_bridge [OF assms(5,6)] not_comment(2)]) simp
    have 3: "xml_pieces (domain_tail bp nv) (Parser False st None) = apply_tags (tail_tags bp nv) (Parser False st None)" for st
      by (rule xml_pieces_tags [OF read_tail [OF assms(1)] not_comment(3)]) simp
    show ?thesis
      unfolding domain_pieces_def xml_pieces_append 1 h(1) bindR.simps domain_comments [OF assms(4)] add_space [OF h(2)]
        2 k(1) add_space [OF k(2)] 3 d(1) last ..
  qed
  have "py_split CHR ''<'' (py_join ''<'' ([] # domain_pieces n bp mem cpu net br mac nv)) = [] # domain_pieces n bp mem cpu net br mac nv"
    using domain_no_bracket [OF assms] by (intro py_split_join) auto
  then have "parse_xml (py_join ''<'' ([] # domain_pieces n bp mem cpu net br mac nv)) = Inr ?x"
    by (simp add: parse_xml_def run)
  moreover have "find (\<lambda>y. xml_tag y = ''nova'') (rev k2) = None"
    using h(3) by (auto simp: find_None_iff list_all_iff)
  ultimately show ?thesis using d(2) by (simp add: xml_find_def find_app)
qed

subsection \<open>Reading an instance back\<close>

lemma init_fields_again:
  "init_fields fl name sz t path (ddel ''name'' (set_state i (init_fields fl name sz t path kwargs))) =
   dput ''groups'' (JList [JStr ''default'']) (dput ''product_codes'' (JList []) (init_fields fl name sz t path kwargs))"
  (is "init_fields fl name sz t path ?d = _")
proof -
  have d: "k \<noteq> ''name'' \<Longrightarrow> k \<noteq> ''state'' \<Longrightarrow> map_of ?d k = map_of (init_fields fl name sz t path kwargs) k" for k
    by (simp add: set_state_def)
  have "kw k x ?d = (case map_of (init_fields fl name sz t path kwargs) k of None \<Rightarrow> x | Some v \<Rightarrow> v)"
    if "k \<noteq> ''name''" "k \<noteq> ''state''" for k x
    using d [OF that] by (simp add: kw_def)
  note k = this
  show ?thesis
    unfolding init_fields_def [of fl name sz t path ?d] Let_def case_prod_beta
    by (simp add: k init_fields_lookup) (simp add: init_fields_def Let_def case_prod_beta)
qed

lemma instance_again:
  assumes "instance_init fl name kwargs = Inr s"
  shows "instance_init fl name (ddel ''name'' (set_state i s)) =
    Inr (dput ''groups'' (JList [JStr ''default'']) (dput ''product_codes'' (JList []) s))"
proof -
  obtain sz t path where s: "s = init_fields fl name sz t path kwargs" "instance_type sz = Inr t"
      "default_basepath fl name = Inr path"
    by (rule instance_init_Inr [OF assms])
  let ?d = "ddel ''name'' (set_state i s)"
  have "kw ''instance_type'' x ?d = sz" for x
    unfolding s(1) by (simp add: kw_def set_state_def init_fields_lookup)
  moreover have "\<not> list_ex (has_key ?d) [''self'', ''conn'', ''pool'', ''name'']"
    unfolding s(1) by (simp add: set_state_def init_fields_lookup)
  ultimately show ?thesis using s(2,3) init_fields_again [of fl name sz t path i kwargs]
    unfolding instance_init_def Let_def s(1) [symmetric] by simp
qed

lemma digit_plain: "is_digit c \<Longrightarrow> xml_char c \<and> c \<notin> {CHR ''<'', CHR ''&'', CHR 0x27, CHR ''>''}"
  by (auto simp: is_digit_def xml_char_def)

lemma plain_str_nat: "plain_text (str_nat n)"
proof -
  have d: "xml_char c \<and> c \<notin> {CHR ''<'', CHR ''&'', CHR 0x27, CHR ''>''}" if "c \<in> set (str_nat n)" for c
    using digit_plain [OF str_nat_digits [OF that]] .
  have "\<not> py_contains (str_nat n) ''--''"
    by (rule contains_subset [of "CHR ''-''"]) (simp_all add: str_nat_chars)
  then show ?thesis using d by (auto simp: plain_text_def list_all_iff)
qed

lemma instance_type_nonneg: "instance_type sz = Inr (m, v, d) \<Longrightarrow> 0 \<le> m \<and> 0 \<le> v"
  by (cases sz) (auto simp: INSTANCE_TYPES_def split: option.splits if_splits)

lemma init_fields_numbers:
  "map_of (init_fields fl name sz t path kwargs) ''memory_kb'' = Some (JInt (fst t * 1024))"
  "map_of (init_fields fl name sz t path kwargs) ''vcpus'' = Some (JInt (fst (snd t)))"
  by (simp_all add: init_fields_def Let_def case_prod_beta)

definition attr_text :: "attributes \<Rightarrow> string \<Rightarrow> string" where
  "attr_text s k = (case map_of s k of None \<Rightarrow> [] | Some v \<Rightarrow> json_scalar_text v)"

lemma xml_info_lookup:
  "map_of (xml_info ser s) k = (if k = ''nova'' then Some (ser (JDict s)) else map_option json_scalar_text (map_of s k))"
  by (simp add: xml_info_def map_of_map)

text \<open>The document of an instance whose values hold no markup.\<close>

lemma xml_document:
  assumes "instance_init fl (JStr n) kwargs = Inr s" and "plain_content n"
    and "\<forall>k \<in> {''basepath'', ''network_name'', ''bridge_name'', ''mac_address''}. plain_text (attr_text s k)"
    and "plain_content (ser (JDict (set_state i s)))" and "ser (JDict (set_state i s)) \<noteq> []"
  shows "\<exists>xml x. toXml ser (set_state i s) = Inr xml \<and> parse_xml xml = Inr x \<and>
    find_text x ''name'' = Inr (if n = [] then None else Some n) \<and>
    find_text x ''nova'' = Inr (Some (ser (JDict (set_state i s))))"
proof -
  obtain sz t path where s: "s = init_fields fl (JStr n) sz t path kwargs" "instance_type sz = Inr t"
    by (rule instance_init_Inr [OF assms(1)])
  have nums: "0 \<le> fst t" "0 \<le> fst (snd t)" using instance_type_nonneg s(2) by (metis prod.collapse)+
  let ?s = "set_state i s" and ?nova = "ser (JDict (set_state i s))"
  let ?mem = "str_int (fst t * 1024)" and ?cpu = "str_int (fst (snd t))"
  let ?doc = "domain_pieces n (attr_text s ''basepath'') ?mem ?cpu (attr_text s ''network_name'')
      (attr_text s ''bridge_name'') (attr_text s ''mac_address'') ?nova"
  have xml: "toXml ser ?s = Inr (py_join ''<'' ([] # ?doc))"
    unfolding toXml_def
    by (rule format_domain)
      (simp_all add: xml_info_lookup set_state_def s(1) init_fields_lookup init_fields_numbers attr_text_def)
  have "plain_text ?mem" "plain_text ?cpu" using nums plain_str_nat by (simp_all add: str_int_nonneg)
  with assms(2-4) obtain x where x: "parse_xml (py_join ''<'' ([] # ?doc)) = Inr x"
      "xml_find x ''name'' = Some (Element ''name'' n [])" "xml_find x ''nova'' = Some (Element ''nova'' ?nova [])"
    using parse_domain by (metis insertCI)
  show ?thesis
    using xml x assms(5) by (simp add: find_text_def xml_text_def del: py_join.simps)
qed


definition demo_instance :: attributes where
  "demo_instance = init_fields (default_flags ''/n'' ''h'') (JStr ''i-1'') (JStr ''m1.small'') (1024, 1, 8192)
     (JStr ''/instances/i-1'') [(''security_group'', JList [JStr ''web''])]"

lemma demo_instance_init:
  "instance_init (default_flags ''/n'' ''h'') (JStr ''i-1'') [(''security_group'', JList [JStr ''web''])] = Inr demo_instance"
proof -
  have "instance_type (JStr ''m1.small'') = Inr (1024, 1, 8192)" by code_simp
  moreover have "default_basepath (default_flags ''/n'' ''h'') (JStr ''i-1'') = Inr (JStr ''/instances/i-1'')" by code_simp
  moreover have "default_instance_type (default_flags ''/n'' ''h'') = ''m1.small''" by (simp add: default_flags_def)
  ultimately show ?thesis
    unfolding instance_init_def demo_instance_def Let_def by (simp add: kw_def)
qed


subsection \<open>The name of the domain\<close>

text \<open>Once the first child of the root has been read, it stays the first child, whatever follows.\<close>

fun first_child :: "xml \<Rightarrow> parser \<Rightarrow> bool" where
  "first_child x (Parser cm [] None) = False"
| "first_child x (Parser cm [] (Some root)) = (\<exists>xs. xml_children root = x # xs)"
| "first_child x (Parser cm (f # st) None) = (\<exists>xs. snd (snd (last (f # st))) = xs @ [x])"
| "first_child x (Parser cm (f # st) (Some root)) = False"

lemma first_child_text:
  "add_text raw p = Inr q \<Longrightarrow> first_child x p \<Longrightarrow> first_child x q"
proof (cases p)
  case (Parser cm st root)
  assume "add_text raw p = Inr q" "first_child x p"
  then show ?thesis unfolding Parser
    by (cases st; cases root) (auto split: if_splits)
qed

lemma first_child_close:
  assumes "first_child x (Parser cm ((tag, chars, kids) # st) root)" and "kids \<noteq> [] \<or> st \<noteq> []"
  shows "first_child x (close_elem (Element tag chars (rev kids)) (Parser cm st root))"
proof (cases st)
  case Nil
  then obtain xs where "root = None" "kids = xs @ [x]" using assms by (cases root) auto
  then show ?thesis using Nil by simp
next
  case (Cons f st')
  then show ?thesis using assms by (cases root; cases f) auto
qed

lemma first_child_comment: "first_child x (Parser cm st root) = first_child x (Parser cm' st root)"
  by (cases st; cases root) simp_all

lemma first_child_tag:
  assumes "apply_tag t p = Inr q" and "first_child x p"
  shows "first_child x q"
proof (cases p)
  case (Parser cm st root)
  show ?thesis
  proof (cases t)
    case (Open_Tag nm)
    then show ?thesis using assms Parser by (cases st; cases root) (auto split: if_splits)
  next
    case (Empty_Tag nm)
    then show ?thesis using assms Parser by (cases st; cases root) (auto split: if_splits)
  next
    case (Close_Tag nm)
    then obtain tag chars kids st' where st: "st = (tag, chars, kids) # st'" "tag = nm"
        "q = close_elem (Element tag chars (rev kids)) (Parser cm st' root)"
      using assms(1) Parser by (cases "(t, p)" rule: apply_tag.cases) (auto split: if_splits)
    moreover have "kids \<noteq> [] \<or> st' \<noteq> []"
      using assms(2) Parser st(1) by (cases root) auto
    ultimately show ?thesis using first_child_close assms(2) Parser by blast
  qed
qed

lemma first_child_pieces:
  "xml_pieces ss p = Inr q \<Longrightarrow> first_child x p \<Longrightarrow> first_child x q"
proof (induction ss arbitrary: p)
  case (Cons s ss)
  then obtain r where r: "xml_piece s p = Inr r" "xml_pieces ss r = Inr q" by auto
  have com: "comment_piece u p = Inr r \<Longrightarrow> first_child x r" for u
    using Cons.prems(2) first_child_comment [of x "p_comment p" "p_stack p" "p_root p"] first_child_text
    by (cases p) (auto simp: comment_piece_def split: option.splits)
  have "first_child x r"
    using r(1) com Cons.prems(2) first_child_tag first_child_text
    unfolding xml_piece_def by (auto split: if_splits)
  then show ?case using Cons.IH r(2) by blast
qed simp

lemma format_segments_append:
  "format_segments (a @ b) d = bindR (format_segments a d) (\<lambda>x. bindR (format_segments b d) (\<lambda>y. Inr (x @ y)))"
proof (induction a d rule: format_segments.induct)
  case (1 d)
  then show ?case by (cases "format_segments b d") simp_all
next
  case (2 x segs d)
  then show ?case by (cases "format_segments segs d"; cases "format_segments b d") simp_all
next
  case (3 k segs d)
  then show ?case
    by (cases "dget d k"; cases "format_segments segs d"; cases "format_segments b d") simp_all
qed

text \<open>The description of an instance, if it parses at all, has the name of the instance.\<close>

lemma toXml_describes:
  assumes "map_of s ''name'' = Some (JStr n)" and "plain_content n" and "n \<noteq> []"
    and "toXml ser s = Inr xml" and "parse_xml xml = Inr y" and "find_text y ''name'' = Inr t"
  shows "describes xml n"
proof -
  let ?head = "[''domain type='' @ [CHR 0x27] @ ''kvm'' @ [CHR 0x27] @ ''>\<newline>    '', ''name>'' @ n, ''/name>\<newline>    '']"
  have name: "dget (xml_info ser s) ''name'' = Inr n"
    using assms(1) by (simp add: dget_def xml_info_lookup)
  have three: "\<exists>b segs. libvirt_xml_template =
      [Lit (''<domain type='' @ [CHR 0x27] @ ''kvm'' @ [CHR 0x27] @ ''>\<newline>    <name>''), Sub ''name'', Lit (''</name>\<newline>    <'' @ b)] @ segs"
    unfolding libvirt_xml_template_def by (intro exI) simp
  then obtain b segs where tm: "libvirt_xml_template =
      [Lit (''<domain type='' @ [CHR 0x27] @ ''kvm'' @ [CHR 0x27] @ ''>\<newline>    <name>''), Sub ''name'', Lit (''</name>\<newline>    <'' @ b)] @ segs"
    by blast
  then obtain rest where xml: "xml = (''<domain type='' @ [CHR 0x27] @ ''kvm'' @ [CHR 0x27] @ ''>\<newline>    <name>'') @ n @ (''</name>\<newline>    <'' @ b) @ rest"
    using assms(4) name unfolding toXml_def tm by (auto simp: format_segments_append)
  have n: "CHR ''<'' \<notin> set n" "CHR ''&'' \<notin> set n" "list_all xml_char n" "\<not> py_contains n '']]>''"
    using assms(2) by (simp_all add: plain_content_def)
  have "py_split CHR ''<'' xml = [] # ?head @ py_split CHR ''<'' (b @ rest)"
    unfolding xml using py_split_append_sep [of "CHR ''<''" "''name>'' @ n" "''/name>\<newline>    <'' @ b @ rest"] n(1)
    by simp
  then obtain q where q: "xml_pieces (?head @ py_split CHR ''<'' (b @ rest)) (Parser False [] None) = Inr q" "p_root q = Some y" "p_stack q = []"
    using assms(5) unfolding parse_xml_def by (auto split: option.splits if_splits)
  have "mapR read_tag ?head = Inr [(Open_Tag ''domain'', ''\<newline>    ''), (Open_Tag ''name'', n), (Close_Tag ''name'', ''\<newline>    '')]"
    by (simp add: tag_defs)
  moreover have "\<forall>s \<in> set ?head. \<not> startswith s ''!--''" by simp
  ultimately have "xml_pieces ?head (Parser False [] None) =
      apply_tags [(Open_Tag ''domain'', ''\<newline>    ''), (Open_Tag ''name'', n), (Close_Tag ''name'', ''\<newline>    '')] (Parser False [] None)"
    by (rule xml_pieces_tags) simp
  also have "\<dots> = Inr (Parser False [(''domain'', ''\<newline>    '', [Element ''name'' n []])] None)"
    using n by (simp add: add_text_plain xml_char_def contains_subset [of "CHR ''>''"] del: add_text.simps py_contains.simps)
  finally have head: "xml_pieces ?head (Parser False [] None) = Inr (Parser False [(''domain'', ''\<newline>    '', [Element ''name'' n []])] None)" .
  have "xml_pieces (py_split CHR ''<'' (b @ rest)) (Parser False [(''domain'', ''\<newline>    '', [Element ''name'' n []])] None) = Inr q"
    using q(1) unfolding xml_pieces_append head bindR.simps .
  then have "first_child (Element ''name'' n []) q"
    by (rule first_child_pieces) simp
  then obtain xs where "xml_children y = Element ''name'' n [] # xs"
    using q(2,3) by (cases q) auto
  then have "find_text y ''name'' = Inr (Some n)"
    using assms(3) by (simp add: find_text_def xml_find_def xml_text_def)
  then show ?thesis using assms(5) by (auto simp: describes_def)
qed


end
