(* ===== verification/NodeLife.thy ===== *)
theory NodeLife
  imports Node InstanceXml
begin

text \<open>
  The life of the instances of a node: the events as a step relation and the invariant that every
  history keeps, over any hypervisor that obeys the laws of \<open>virt_host\<close>.
\<close>

declare map_of_eq_Some_iff [simp del]

subsection \<open>Attributes\<close>

lemma set_state_simps [simp]:
  "inst_state (set_state i s) = i" "k \<noteq> ''state'' \<Longrightarrow> map_of (set_state i s) k = map_of s k"
  "inst_name (set_state i s) = inst_name s"
  by (simp_all add: inst_state_def inst_name_def set_state_def)

lemma inst_name_eq: "map_of s ''name'' = Some (JStr n) \<Longrightarrow> inst_name s = n"
  by (simp add: inst_name_def)

lemma init_name_state:
  assumes "instance_init fl (JStr n) kwargs = Inr s"
  shows "map_of s ''name'' = Some (JStr n)" and "inst_state s = NOSTATE"
  using instance_init_Inr [OF assms] by (metis init_fields_lookup(20), metis inst_state_def init_fields_lookup(21) option.case json.case)

text \<open>The description can always be written.\<close>

definition xml_keys :: "string list" where
  "xml_keys = [''name'', ''basepath'', ''memory_kb'', ''vcpus'', ''network_name'', ''bridge_name'', ''mac_address'']"

lemma toXml_total:
  assumes "\<forall>k \<in> set xml_keys. map_of s k \<noteq> None"
  shows "\<exists>xml. toXml ser s = Inr xml"
proof -
  have "\<exists>x. map_of (xml_info ser s) k = Some x" if "k \<in> set xml_keys" for k
    using assms that by (auto simp: xml_info_lookup)
  then obtain f where f: "k \<in> set xml_keys \<Longrightarrow> map_of (xml_info ser s) k = Some (f k)" for k by metis
  note f = this
  have "map_of (xml_info ser s) ''nova'' = Some (ser (JDict s))" by (simp add: xml_info_lookup)
  note d = format_domain [OF f f f f f f f this]
  show ?thesis unfolding toXml_def by (rule exI, rule d) (simp_all add: xml_keys_def)
qed

lemma init_fields_xml_keys:
  assumes "instance_init fl (JStr n) kwargs = Inr s" and "k \<in> set xml_keys"
  shows "map_of s k \<noteq> None"
proof -
  obtain sz t path where "s = init_fields fl (JStr n) sz t path kwargs" by (rule instance_init_Inr [OF assms(1)])
  then show ?thesis using assms(2) by (auto simp: xml_keys_def init_fields_lookup init_fields_numbers)
qed

subsection \<open>What the operations do\<close>

lemma run_instance_new:
  assumes "instance_init fl (JStr i) kwargs = Inr s" and "map_of (nd_instances nd) i = None"
  shows "run_instance fl i kwargs nd = (Inr (length (nd_deferreds nd)),
       nd\<lparr>nd_heap := nd_heap nd @ [s], nd_instances := dput i (length (nd_heap nd)) (nd_instances nd),
          nd_deferreds := nd_deferreds nd @ [Waiting],
          nd_jobs := nd_jobs nd @ [(length (nd_heap nd), length (nd_deferreds nd))]\<rparr>)"
proof -
  let ?nd = "nd\<lparr>nd_heap := nd_heap nd @ [s], nd_instances := dput i (length (nd_heap nd)) (nd_instances nd),
          nd_deferreds := nd_deferreds nd @ [Waiting]\<rparr>"
  obtain xml where "toXml (json_text (nd_world nd)) s = Inr xml"
    using toXml_total init_fields_xml_keys [OF assms(1)] by blast
  then have "spawn (length (nd_heap nd)) (length (nd_deferreds nd)) ?nd =
      (Inr (), ?nd\<lparr>nd_jobs := nd_jobs nd @ [(length (nd_heap nd), length (nd_deferreds nd))]\<rparr>)"
    using init_name_state [OF assms(1)]
    by (simp add: spawn_def wrap_exception_def bindS_def to_xml_def is_pending_def obj_def)
  then show ?thesis using assms
    by (simp add: run_instance_def wrap_exception_def bindS_def new_instance_def new_deferred_def)
qed

lemma run_instance_refused:
  "map_of (nd_instances nd) i \<noteq> None \<Longrightarrow>
   run_instance fl i kwargs nd = (Inl (Error (''attempting to use existing instance_id: '' @ i)), nd)"
  by (simp add: run_instance_def wrap_exception_def)

lemma run_instance_cases:
  obtains e where "run_instance fl i kwargs nd = (Inl e, nd)"
  | s where "instance_init fl (JStr i) kwargs = Inr s" "map_of (nd_instances nd) i = None"
    "run_instance fl i kwargs nd = (Inr (length (nd_deferreds nd)),
       nd\<lparr>nd_heap := nd_heap nd @ [s], nd_instances := dput i (length (nd_heap nd)) (nd_instances nd),
          nd_deferreds := nd_deferreds nd @ [Waiting],
          nd_jobs := nd_jobs nd @ [(length (nd_heap nd), length (nd_deferreds nd))]\<rparr>)"
proof (cases "map_of (nd_instances nd) i")
  case None
  show ?thesis
  proof (cases "instance_init fl (JStr i) kwargs")
    case (Inl e)
    then show ?thesis using None that(1) by (simp add: run_instance_def wrap_exception_def)
  qed (use None that(2) run_instance_new in blast)
qed (use run_instance_refused that(1) in blast)

lemma terminate_cases:
  assumes "map_of (nd_instances nd) i = Some r" and "\<not> is_destroyed (obj r nd)"
    and "inst_name (obj r nd) = i" and "r < length (nd_heap nd)"
  shows "terminate_instance hv i nd =
    (let nd1 = put_state r SHUTDOWN (nd\<lparr>nd_deferreds := nd_deferreds nd @ [Waiting]\<rparr>) in
     case hv_destroy hv i (nd_conn nd) of
       (Inl e, c) \<Rightarrow> (Inl (if is_nova_error e then e else Error_of e), nd1\<lparr>nd_conn := c\<rparr>)
     | (Inr _, c) \<Rightarrow> (Inr (length (nd_deferreds nd)), nd1\<lparr>nd_conn := c,
         nd_timers := nd_timers nd @ [\<lparr>tm_ref = r, tm_id = i, tm_deferred = length (nd_deferreds nd), tm_running = True\<rparr>]\<rparr>))"
  using assms
  by (simp add: terminate_instance_def inst_destroy_def known_def wrap_exception_def bindS_def new_deferred_def
      put_stateS_def put_state_def obj_def on_conn_def start_timer_def Let_def
      split: prod.splits sum.splits)

lemma terminate_unknown:
  "map_of (nd_instances nd) i = None \<Longrightarrow>
   terminate_instance hv i nd = (Inl (Error (''trying to terminate unknown instance: '' @ i)), nd)"
  by (simp add: terminate_instance_def known_def wrap_exception_def bindS_def)

lemma reboot_cases:
  assumes "map_of (nd_instances nd) i = Some r" and "is_running (obj r nd)"
    and "inst_name (obj r nd) = i" and "r < length (nd_heap nd)"
  shows "reboot_instance hv i nd =
    (case hv_destroy hv i (nd_conn nd) of
       (Inl e, c) \<Rightarrow> (Inl e, nd\<lparr>nd_conn := c\<rparr>)
     | (Inr _, c) \<Rightarrow>
         (let nd1 = put_state r NOSTATE (nd\<lparr>nd_conn := c\<rparr>) in
          case toXml (json_text (nd_world nd)) (obj r nd1) of
            Inl e \<Rightarrow> (Inl e, nd1)
          | Inr xml \<Rightarrow> (case hv_create hv xml c of
                (Inl e, c') \<Rightarrow> (Inl e, nd1\<lparr>nd_conn := c'\<rparr>)
              | (Inr _, c') \<Rightarrow> (Inr (), put_state r RUNNING (nd1\<lparr>nd_conn := c'\<rparr>)))))"
  using assms
  by (simp add: reboot_instance_def inst_reboot_def known_def bindS_def to_xml_def
      put_stateS_def put_state_def obj_def on_conn_def Let_def
      split: prod.splits sum.splits)

lemma launch_cases:
  "launch hv r d retvals nd =
    (case retvals of
       Some ex \<Rightarrow> settle d (Failed ex) nd
     | None \<Rightarrow> (case toXml (json_text (nd_world nd)) (obj r nd) of
           Inl e \<Rightarrow> settle d (Failed e) nd
         | Inr xml \<Rightarrow> (case hv_create hv xml (nd_conn nd) of
               (Inl e, c) \<Rightarrow> settle d (Failed e) (nd\<lparr>nd_conn := c\<rparr>)
             | (Inr _, c) \<Rightarrow> put_state r RUNNING (nd\<lparr>nd_conn := c\<rparr>))))"
  by (simp add: launch_def bindS_def to_xml_def on_conn_def put_stateS_def split: option.splits prod.splits sum.splits)

subsection \<open>Events\<close>

text \<open>
  What can happen to a node, in any order: requests, the end of a process that prepares an image, with
  or without an exception, a process that dies, ticks of the timers. The identifiers of instances hold
  no markup (\<^verbatim>\<open>generate_uid\<close> gives letters, digits and a dash).
\<close>

inductive node_step :: "flags \<Rightarrow> 'c hypervisor \<Rightarrow> 'c node \<Rightarrow> 'c node \<Rightarrow> bool" for fl hv where
  Run: "plain_content i \<Longrightarrow> i \<noteq> [] \<Longrightarrow> node_step fl hv nd (snd (run_instance fl i kwargs nd))"
| Image_Done: "node_step fl hv nd (image_done hv k retvals nd)"
| Image_Lost: "node_step fl hv nd (nd\<lparr>nd_jobs := take k (nd_jobs nd) @ drop (Suc k) (nd_jobs nd)\<rparr>)"
| Terminate: "node_step fl hv nd (snd (terminate_instance hv i nd))"
| Reboot: "node_step fl hv nd (snd (reboot_instance hv i nd))"
| Tick: "node_step fl hv nd (tick hv k nd)"
| Console: "node_step fl hv nd (snd (get_console_output fl i nd))"
| Report: "node_step fl hv nd (snd (node_report_state fl nd))"

inductive_cases node_stepE: "node_step fl hv nd nd'"

abbreviation node_reach :: "flags \<Rightarrow> 'c hypervisor \<Rightarrow> 'c node \<Rightarrow> 'c node \<Rightarrow> bool" where
  "node_reach fl hv \<equiv> (node_step fl hv)\<^sup>*\<^sup>*"

subsection \<open>The invariant\<close>

abbreviation running_timers :: "'c node \<Rightarrow> timer list" where
  "running_timers nd \<equiv> filter tm_running (nd_timers nd)"

definition named :: "attributes \<Rightarrow> string \<Rightarrow> bool" where
  "named s i \<longleftrightarrow> map_of s ''name'' = Some (JStr i) \<and> plain_content i \<and> i \<noteq> []"

text \<open>The objects that the map leads to.\<close>

definition insts_ok :: "'c node \<Rightarrow> bool" where
  "insts_ok nd \<longleftrightarrow> distinct (keys (nd_instances nd)) \<and>
     (\<forall>i r. map_of (nd_instances nd) i = Some r \<longrightarrow> r < length (nd_heap nd) \<and> named (obj r nd) i) \<and>
     (\<forall>s \<in> set (nd_heap nd). inst_state s \<in> {NOSTATE, RUNNING, SHUTDOWN})"

text \<open>The hypervisor runs the domains whose instances are in state running.\<close>

definition doms_ok :: "('c \<Rightarrow> string set) \<Rightarrow> 'c node \<Rightarrow> bool" where
  "doms_ok doms nd \<longleftrightarrow>
     (\<forall>i. i \<in> doms (nd_conn nd) \<longleftrightarrow> (\<exists>r. map_of (nd_instances nd) i = Some r \<and> inst_state (obj r nd) = RUNNING))"

text \<open>An instance whose image is being prepared does not run, nor does one that is being watched.\<close>

definition jobs_ok :: "'c node \<Rightarrow> bool" where
  "jobs_ok nd \<longleftrightarrow> distinct (map fst (nd_jobs nd)) \<and>
     (\<forall>(r, d) \<in> set (nd_jobs nd). d < length (nd_deferreds nd) \<and> inst_state (obj r nd) \<noteq> RUNNING \<and>
        (\<exists>i. map_of (nd_instances nd) i = Some r))"

definition timers_ok :: "'c node \<Rightarrow> bool" where
  "timers_ok nd \<longleftrightarrow> distinct (map tm_id (running_timers nd)) \<and>
     distinct (map snd (nd_jobs nd) @ map tm_deferred (running_timers nd)) \<and>
     (\<forall>t \<in> set (running_timers nd). tm_deferred t < length (nd_deferreds nd) \<and>
        nd_deferreds nd ! tm_deferred t = Waiting \<and> map_of (nd_instances nd) (tm_id t) = Some (tm_ref t) \<and>
        inst_state (obj (tm_ref t) nd) \<noteq> RUNNING \<and> tm_ref t \<notin> set (map fst (nd_jobs nd)))"

definition node_inv :: "('c \<Rightarrow> bool) \<Rightarrow> ('c \<Rightarrow> string set) \<Rightarrow> 'c node \<Rightarrow> bool" where
  "node_inv ok doms nd \<longleftrightarrow> ok (nd_conn nd) \<and> insts_ok nd \<and> doms_ok doms nd \<and> jobs_ok nd \<and> timers_ok nd"

lemmas node_inv_defs = node_inv_def insts_ok_def doms_ok_def jobs_ok_def timers_ok_def

lemma obj_inj:
  assumes "insts_ok nd" and "map_of (nd_instances nd) i = Some r" and "map_of (nd_instances nd) j = Some r"
  shows "i = j"
proof -
  have "named (obj r nd) i" "named (obj r nd) j" using assms unfolding insts_ok_def by blast+
  then show ?thesis by (simp add: named_def)
qed

lemma same_object:
  assumes "node_inv ok doms nd" and "map_of (nd_instances nd) i = Some r" and "map_of (nd_instances nd) j = Some q"
  shows "q = r \<longleftrightarrow> j = i"
proof
  assume "q = r"
  then show "j = i" using obj_inj [of nd j r i] assms by (simp add: node_inv_def)
next
  assume "j = i"
  then show "q = r" using assms(2,3) by simp
qed

lemma obj_put_state:
  "obj r' (put_state r i nd) = (if r' = r \<and> r < length (nd_heap nd) then set_state i (obj r nd) else obj r' nd)"
  by (auto simp: obj_def put_state_def nth_list_update list_update_beyond)

lemma put_state_simps [simp]:
  "nd_instances (put_state r i nd) = nd_instances nd" "nd_conn (put_state r i nd) = nd_conn nd"
  "nd_jobs (put_state r i nd) = nd_jobs nd" "nd_timers (put_state r i nd) = nd_timers nd"
  "nd_deferreds (put_state r i nd) = nd_deferreds nd" "nd_world (put_state r i nd) = nd_world nd"
  "length (nd_heap (put_state r i nd)) = length (nd_heap nd)"
  by (simp_all add: put_state_def)

lemma settle_simps [simp]:
  "nd_instances (settle d v nd) = nd_instances nd" "nd_conn (settle d v nd) = nd_conn nd"
  "nd_jobs (settle d v nd) = nd_jobs nd" "nd_timers (settle d v nd) = nd_timers nd"
  "nd_heap (settle d v nd) = nd_heap nd" "obj r (settle d v nd) = obj r nd"
  "nd_deferreds (settle d v nd) = (nd_deferreds nd)[d := v]"
  by (simp_all add: settle_def obj_def)

lemma named_set_state [simp]: "named (set_state x s) i = named s i"
  by (simp add: named_def)

lemma put_state_insts:
  assumes "insts_ok nd" and "x \<in> {NOSTATE, RUNNING, SHUTDOWN}"
  shows "insts_ok (put_state r x nd)"
proof -
  have "set (nd_heap (put_state r x nd)) \<subseteq> insert (set_state x (nd_heap nd ! r)) (set (nd_heap nd))"
    unfolding put_state_def by (simp add: set_update_subset_insert)
  then show ?thesis using assms unfolding insts_ok_def
    by (auto simp: obj_put_state)
qed

lemma put_state_jobs:
  assumes "jobs_ok nd" and "r \<notin> set (map fst (nd_jobs nd))"
  shows "jobs_ok (put_state r x nd)"
proof -
  have "q \<noteq> r" if "(q, d) \<in> set (nd_jobs nd)" for q d using assms(2) that by force
  then have "obj q (put_state r x nd) = obj q nd" if "(q, d) \<in> set (nd_jobs nd)" for q d
    using that by (auto simp: obj_put_state)
  then show ?thesis using assms(1) unfolding jobs_ok_def by fastforce
qed

lemma put_state_timers:
  assumes "timers_ok nd" and "\<forall>t \<in> set (running_timers nd). tm_ref t \<noteq> r"
  shows "timers_ok (put_state r x nd)"
proof -
  have "obj (tm_ref t) (put_state r x nd) = obj (tm_ref t) nd" if "t \<in> set (running_timers nd)" for t
    using assms(2) that by (simp add: obj_put_state)
  then show ?thesis using assms(1) unfolding timers_ok_def by simp
qed

lemma conn_parts [simp]:
  "jobs_ok (nd\<lparr>nd_conn := c\<rparr>) = jobs_ok nd" "timers_ok (nd\<lparr>nd_conn := c\<rparr>) = timers_ok nd"
  "insts_ok (nd\<lparr>nd_conn := c\<rparr>) = insts_ok nd" "obj r (nd\<lparr>nd_conn := c\<rparr>) = obj r nd"
  by (simp_all add: jobs_ok_def timers_ok_def insts_ok_def obj_def)

text \<open>A change of state that keeps an object out of state running.\<close>

lemma put_state_stopped:
  assumes "node_inv ok doms nd" and "inst_state (obj r nd) \<noteq> RUNNING" and "x \<in> {NOSTATE, SHUTDOWN}"
  shows "node_inv ok doms (put_state r x nd)"
proof -
  have i: "insts_ok (put_state r x nd)" using put_state_insts assms(1,3) by (auto simp: node_inv_def)
  have s: "inst_state (obj r' (put_state r x nd)) = RUNNING \<longleftrightarrow> inst_state (obj r' nd) = RUNNING" for r'
    using assms(2,3) by (auto simp: obj_put_state)
  show ?thesis using assms(1) i unfolding node_inv_def doms_ok_def jobs_ok_def timers_ok_def
    by (simp add: s)
qed

lemma distinct_without: "distinct xs \<Longrightarrow> distinct (take k xs @ drop (Suc k) xs)"
  by (simp add: set_take_disj_set_drop_if_distinct)

lemma job_drop:
  assumes "node_inv ok doms nd"
  shows "node_inv ok doms (nd\<lparr>nd_jobs := take k (nd_jobs nd) @ drop (Suc k) (nd_jobs nd)\<rparr>)"
proof -
  let ?js = "take k (nd_jobs nd) @ drop (Suc k) (nd_jobs nd)"
  let ?nd = "nd\<lparr>nd_jobs := ?js\<rparr>"
  have sub: "x \<in> set (nd_jobs nd)" if "x \<in> set ?js" for x
    using that by (auto dest: in_set_takeD in_set_dropD)
  have dist: "distinct (map f ?js)" if "distinct (map f (nd_jobs nd))" for f :: "nat \<times> nat \<Rightarrow> nat"
    using distinct_without [OF that, of k] by (simp add: take_map drop_map)
  have "jobs_ok ?nd"
    unfolding jobs_ok_def
  proof (intro conjI ballI)
    show "distinct (map fst (nd_jobs ?nd))" using assms dist [of fst] by (simp add: node_inv_def jobs_ok_def del: map_append)
    fix x assume "x \<in> set (nd_jobs ?nd)"
    then have "x \<in> set (nd_jobs nd)" using sub by simp
    then show "case x of (r, d) \<Rightarrow> d < length (nd_deferreds ?nd) \<and> inst_state (obj r ?nd) \<noteq> RUNNING \<and>
        (\<exists>i. map_of (nd_instances ?nd) i = Some r)"
      using assms by (auto simp: node_inv_def jobs_ok_def obj_def)
  qed
  moreover have "timers_ok ?nd"
    unfolding timers_ok_def
  proof (intro conjI ballI)
    show "distinct (map tm_id (running_timers ?nd))" using assms by (simp add: node_inv_def timers_ok_def)
    have "distinct (map snd (nd_jobs nd))" "distinct (map tm_deferred (running_timers nd))"
        "set (map snd (nd_jobs nd)) \<inter> set (map tm_deferred (running_timers nd)) = {}"
      using assms by (auto simp: node_inv_def timers_ok_def)
    moreover have "set (map snd ?js) \<subseteq> set (map snd (nd_jobs nd))" using sub by auto
    ultimately show "distinct (map snd (nd_jobs ?nd) @ map tm_deferred (running_timers ?nd))"
      using dist [of snd] by (subst distinct_append) (simp del: map_append set_map; blast)
    fix t assume "t \<in> set (running_timers ?nd)"
    then have "t \<in> set (running_timers nd)" by simp
    moreover have "set (map fst ?js) \<subseteq> set (map fst (nd_jobs nd))" using sub by auto
    moreover have "timers_ok nd" using assms by (simp add: node_inv_def)
    ultimately show "tm_deferred t < length (nd_deferreds ?nd)" "nd_deferreds ?nd ! tm_deferred t = Waiting"
        "map_of (nd_instances ?nd) (tm_id t) = Some (tm_ref t)" "inst_state (obj (tm_ref t) ?nd) \<noteq> RUNNING"
        "tm_ref t \<notin> set (map fst (nd_jobs ?nd))"
      unfolding timers_ok_def obj_def by (simp_all del: set_map map_append) blast+
  qed
  ultimately show ?thesis using assms unfolding node_inv_def insts_ok_def doms_ok_def obj_def by simp
qed

lemma new_deferred_inv:
  "node_inv ok doms nd \<Longrightarrow> node_inv ok doms (nd\<lparr>nd_deferreds := nd_deferreds nd @ [v]\<rparr>)"
  unfolding node_inv_defs obj_def by (auto simp: nth_append)

lemma settle_inv:
  assumes "node_inv ok doms nd" and "d \<notin> set (map tm_deferred (running_timers nd))"
  shows "node_inv ok doms (settle d v nd)"
proof -
  have "(nd_deferreds nd)[d := v] ! tm_deferred t = nd_deferreds nd ! tm_deferred t" if "t \<in> set (running_timers nd)" for t
    using assms(2) that by (intro nth_list_update_neq) auto
  then show ?thesis using assms(1) unfolding node_inv_defs by simp
qed

context virt_host
begin

lemma not_running_no_domain:
  assumes "node_inv ok doms nd" and "map_of (nd_instances nd) i = Some r" and "inst_state (obj r nd) \<noteq> RUNNING"
  shows "i \<notin> doms (nd_conn nd)"
  using assms by (auto simp: node_inv_def doms_ok_def)

lemma run_inv:
  assumes "node_inv ok doms nd" and "plain_content i" and "i \<noteq> []"
  shows "node_inv ok doms (snd (run_instance fl i kwargs nd))"
proof (rule run_instance_cases [of fl i kwargs nd])
  fix e assume "run_instance fl i kwargs nd = (Inl e, nd)"
  then show ?thesis using assms(1) by simp
next
  fix s assume s: "instance_init fl (JStr i) kwargs = Inr s" "map_of (nd_instances nd) i = None"
    "run_instance fl i kwargs nd = (Inr (length (nd_deferreds nd)),
       nd\<lparr>nd_heap := nd_heap nd @ [s], nd_instances := dput i (length (nd_heap nd)) (nd_instances nd),
          nd_deferreds := nd_deferreds nd @ [Waiting],
          nd_jobs := nd_jobs nd @ [(length (nd_heap nd), length (nd_deferreds nd))]\<rparr>)"
  define nd' where "nd' = snd (run_instance fl i kwargs nd)"
  have f: "nd_heap nd' = nd_heap nd @ [s]" "nd_instances nd' = dput i (length (nd_heap nd)) (nd_instances nd)"
      "nd_deferreds nd' = nd_deferreds nd @ [Waiting]"
      "nd_jobs nd' = nd_jobs nd @ [(length (nd_heap nd), length (nd_deferreds nd))]"
      "nd_conn nd' = nd_conn nd" "nd_timers nd' = nd_timers nd"
    by (simp_all add: nd'_def s(3))
  let ?r = "length (nd_heap nd)" and ?d = "length (nd_deferreds nd)"
  have o: "obj r nd' = (if r = ?r then s else obj r nd)" if "r \<le> ?r" for r
    using that f by (auto simp: obj_def nth_append)
  have s': "named s i" "inst_state s = NOSTATE"
    using init_name_state [OF s(1)] assms(2,3) by (simp_all add: named_def)
  have ref: "map_of (nd_instances nd) j = Some r \<Longrightarrow> r < ?r \<and> named (obj r nd) j" for j r
    using assms(1) by (simp add: node_inv_def insts_ok_def)
  have jobs: "(r, d) \<in> set (nd_jobs nd) \<Longrightarrow> r < ?r \<and> d < ?d" for r d
    using assms(1) ref by (fastforce simp: node_inv_def jobs_ok_def)
  have "insts_ok nd'" unfolding insts_ok_def
  proof (intro conjI allI impI)
    show "distinct (keys (nd_instances nd'))" using assms(1) f by (simp add: node_inv_def insts_ok_def)
    show "\<forall>s \<in> set (nd_heap nd'). inst_state s \<in> {NOSTATE, RUNNING, SHUTDOWN}"
      using assms(1) f s' by (simp add: node_inv_def insts_ok_def)
    fix j r assume "map_of (nd_instances nd') j = Some r"
    then have "j = i \<and> r = ?r \<or> map_of (nd_instances nd) j = Some r"
      unfolding f(2) by (simp split: if_splits)
    then have "r \<le> ?r \<and> named (if r = ?r then s else obj r nd) j"
      using s'(1) ref [of j r] by (cases rule: disjE) (auto simp: less_imp_le)
    then show "r < length (nd_heap nd')" "named (obj r nd') j"
      unfolding f(1) using o [of r] by (simp_all add: less_Suc_eq_le)
  qed
  moreover have "doms_ok doms nd'" unfolding doms_ok_def
  proof
    fix j
    have "j \<in> doms (nd_conn nd) \<longleftrightarrow> (\<exists>r. map_of (nd_instances nd) j = Some r \<and> inst_state (obj r nd) = RUNNING)"
      using assms(1) by (simp add: node_inv_def doms_ok_def)
    moreover have "(\<exists>r. map_of (nd_instances nd') j = Some r \<and> inst_state (obj r nd') = RUNNING) \<longleftrightarrow>
        (\<exists>r. map_of (nd_instances nd) j = Some r \<and> inst_state (obj r nd) = RUNNING)"
      using s(2) f s' ref o by (cases "j = i") fastforce+
    ultimately show "j \<in> doms (nd_conn nd') \<longleftrightarrow> (\<exists>r. map_of (nd_instances nd') j = Some r \<and> inst_state (obj r nd') = RUNNING)"
      using f by simp
  qed
  moreover have "jobs_ok nd'" unfolding jobs_ok_def
  proof (intro conjI ballI)
    show "distinct (map fst (nd_jobs nd'))"
      using assms(1) jobs f by (fastforce simp: node_inv_def jobs_ok_def)
    fix x assume x: "x \<in> set (nd_jobs nd')"
    show "case x of (r, d) \<Rightarrow> d < length (nd_deferreds nd') \<and> inst_state (obj r nd') \<noteq> RUNNING \<and> (\<exists>i. map_of (nd_instances nd') i = Some r)"
    proof (cases "x \<in> set (nd_jobs nd)")
      case True
      then obtain r d j where x': "x = (r, d)" "inst_state (obj r nd) \<noteq> RUNNING" "map_of (nd_instances nd) j = Some r"
        using assms(1) by (cases x) (auto simp: node_inv_def jobs_ok_def)
      then have "r < ?r" "d < ?d" "j \<noteq> i" using jobs True s(2) by auto
      then show ?thesis using x' o f by (auto intro!: exI [of _ j])
    next
      case False
      then show ?thesis using x f s' o by auto
    qed
  qed
  moreover have "timers_ok nd'" unfolding timers_ok_def
  proof (intro conjI ballI)
    have t: "running_timers nd' = running_timers nd" using f by simp
    have td: "t \<in> set (running_timers nd) \<Longrightarrow> tm_deferred t < ?d" for t
      using assms(1) by (auto simp: node_inv_def timers_ok_def)
    show "distinct (map tm_id (running_timers nd'))" using assms(1) t by (simp add: node_inv_def timers_ok_def)
    have "?d \<notin> set (map snd (nd_jobs nd))" "?d \<notin> set (map tm_deferred (running_timers nd))"
      using jobs td by fastforce+
    then show "distinct (map snd (nd_jobs nd') @ map tm_deferred (running_timers nd'))"
      using assms(1) f by (simp add: node_inv_def timers_ok_def)
    fix x assume "x \<in> set (running_timers nd')"
    then have x: "tm_deferred x < ?d" "nd_deferreds nd ! tm_deferred x = Waiting"
        "map_of (nd_instances nd) (tm_id x) = Some (tm_ref x)" "inst_state (obj (tm_ref x) nd) \<noteq> RUNNING"
        "tm_ref x \<notin> set (map fst (nd_jobs nd))"
      using assms(1) f by (auto simp: node_inv_def timers_ok_def)
    have "tm_id x \<noteq> i" "tm_ref x < ?r" using x(3) s(2) ref by auto
    then show "tm_deferred x < length (nd_deferreds nd')" "nd_deferreds nd' ! tm_deferred x = Waiting"
        "map_of (nd_instances nd') (tm_id x) = Some (tm_ref x)" "inst_state (obj (tm_ref x) nd') \<noteq> RUNNING"
        "tm_ref x \<notin> set (map fst (nd_jobs nd'))"
      using x f o by (auto simp: nth_append)
  qed
  ultimately show ?thesis using assms(1) f unfolding nd'_def [symmetric] by (simp add: node_inv_def)
qed

text \<open>A domain is created for an instance that does not run and nobody waits for.\<close>

lemma created_inv:
  assumes "node_inv ok doms nd" and "map_of (nd_instances nd) i = Some r" and "inst_state (obj r nd) \<noteq> RUNNING"
    and "r \<notin> set (map fst (nd_jobs nd))" and "\<forall>t \<in> set (running_timers nd). tm_ref t \<noteq> r"
    and "toXml ser (obj r nd) = Inr xml" and "hv_create hv xml (nd_conn nd) = (Inr (), c)"
  shows "node_inv ok doms (put_state r RUNNING (nd\<lparr>nd_conn := c\<rparr>))"
proof -
  have r: "r < length (nd_heap nd)" "named (obj r nd) i"
    using assms(1,2) by (simp_all add: node_inv_def insts_ok_def)
  obtain x t where "parse_xml xml = Inr x" "find_text x ''name'' = Inr t" using create_named [OF assms(7)] by blast
  then have "describes xml i" using toXml_describes [OF _ _ _ assms(6)] r(2) by (simp add: named_def)
  then have c: "ok c" "doms c = insert i (doms (nd_conn nd))"
    using create_known [OF _ assms(7)] not_running_no_domain [OF assms(1-3)] assms(1) by (simp_all add: node_inv_def)
  let ?nd = "put_state r RUNNING (nd\<lparr>nd_conn := c\<rparr>)"
  have o: "obj q ?nd = (if q = r then set_state RUNNING (obj r nd) else obj q nd)" for q
    using r(1) by (simp add: obj_put_state)
  have "insts_ok ?nd"
    using put_state_insts [of "nd\<lparr>nd_conn := c\<rparr>" RUNNING r] assms(1) by (simp add: node_inv_def insts_ok_def obj_def)
  moreover have "doms_ok doms ?nd" unfolding doms_ok_def
  proof
    fix j
    have dj: "j \<in> doms (nd_conn nd) \<longleftrightarrow> (\<exists>q. map_of (nd_instances nd) j = Some q \<and> inst_state (obj q nd) = RUNNING)"
      using assms(1) by (simp add: node_inv_def doms_ok_def)
    show "j \<in> doms (nd_conn ?nd) \<longleftrightarrow> (\<exists>q. map_of (nd_instances ?nd) j = Some q \<and> inst_state (obj q ?nd) = RUNNING)"
    proof (cases "map_of (nd_instances nd) j")
      case None
      then have "j \<noteq> i" using assms(2) by auto
      then show ?thesis using None dj c(2) by simp
    next
      case (Some q)
      then have "q = r \<longleftrightarrow> j = i" by (rule same_object [OF assms(1,2)])
      then show ?thesis using Some dj c(2) by (cases "j = i") (simp_all add: o)
    qed
  qed
  moreover have "jobs_ok ?nd"
    using assms(1,4) by (intro put_state_jobs) (simp_all add: node_inv_def)
  moreover have "timers_ok ?nd"
    using assms(1,5) by (intro put_state_timers) (simp_all add: node_inv_def)
  ultimately show ?thesis using c(1) by (simp add: node_inv_def)
qed

lemma conn_same:
  "nd\<lparr>nd_conn := nd_conn nd\<rparr> = nd" by simp

lemma image_done_inv:
  assumes "node_inv ok doms nd"
  shows "node_inv ok doms (image_done hv k retvals nd)"
proof (cases "k < length (nd_jobs nd)")
  case True
  obtain r d where rd: "nd_jobs nd ! k = (r, d)" by fastforce
  then have job: "(r, d) \<in> set (nd_jobs nd)" using True nth_mem by metis
  define nd1 where "nd1 = nd\<lparr>nd_jobs := take k (nd_jobs nd) @ drop (Suc k) (nd_jobs nd)\<rparr>"
  have inv1: "node_inv ok doms nd1" unfolding nd1_def by (rule job_drop [OF assms])
  have jobs: "jobs_ok nd" "timers_ok nd" using assms by (simp_all add: node_inv_def)
  have d: "d \<notin> set (map tm_deferred (running_timers nd1))"
    using jobs(2) job by (force simp: timers_ok_def nd1_def)
  have t: "\<forall>t \<in> set (running_timers nd1). tm_ref t \<noteq> r"
    using jobs(2) job by (force simp: timers_ok_def nd1_def)
  obtain i where i: "map_of (nd_instances nd1) i = Some r" "inst_state (obj r nd1) \<noteq> RUNNING"
    using jobs(1) job by (fastforce simp: jobs_ok_def nd1_def obj_def)
  have "nd_jobs nd = take k (nd_jobs nd) @ (r, d) # drop (Suc k) (nd_jobs nd)"
    using True rd id_take_nth_drop by metis
  then have "distinct (map fst (take k (nd_jobs nd) @ (r, d) # drop (Suc k) (nd_jobs nd)))"
    using jobs(1) by (simp add: jobs_ok_def)
  then have j: "r \<notin> set (map fst (nd_jobs nd1))" unfolding nd1_def by simp
  have fail: "node_inv ok doms (settle d (Failed e) nd1)" for e by (rule settle_inv [OF inv1 d])
  have "node_inv ok doms (launch hv r d retvals nd1)"
  proof (cases retvals)
    case None
    show ?thesis
    proof (cases "toXml (json_text (nd_world nd1)) (obj r nd1)")
      case (Inr xml)
      obtain q c where c: "hv_create hv xml (nd_conn nd1) = (q, c)" by fastforce
      show ?thesis
      proof (cases q)
        case (Inl e)
        then have "c = nd_conn nd1" using c create_fails by blast
        then show ?thesis using None Inr c Inl fail by (simp add: launch_cases conn_same)
      next
        case (Inr u)
        then show ?thesis
          using None \<open>toXml (json_text (nd_world nd1)) (obj r nd1) = Inr xml\<close> c created_inv [OF inv1 i j t]
          by (simp add: launch_cases)
      qed
    qed (use None fail in \<open>simp add: launch_cases\<close>)
  qed (use fail in \<open>simp add: launch_cases\<close>)
  then show ?thesis using True rd by (simp add: image_done_def nd1_def)
qed (use assms in \<open>simp add: image_done_def\<close>)

text \<open>A domain is destroyed whose instance runs.\<close>

lemma destroyed_inv:
  assumes "node_inv ok doms nd" and "map_of (nd_instances nd) i = Some r" and "inst_state (obj r nd) = RUNNING"
    and "hv_destroy hv i (nd_conn nd) = (q, c)" and "x \<in> {NOSTATE, SHUTDOWN}"
  shows "q = Inr () \<and> node_inv ok doms (put_state r x (nd\<lparr>nd_conn := c\<rparr>)) \<and>
    r \<notin> set (map fst (nd_jobs nd)) \<and> (\<forall>t \<in> set (running_timers nd). tm_ref t \<noteq> r) \<and>
    (\<forall>t \<in> set (running_timers nd). tm_id t \<noteq> i)"
proof -
  have r: "r < length (nd_heap nd)" using assms(1,2) by (simp_all add: node_inv_def insts_ok_def)
  have "i \<in> doms (nd_conn nd)" using assms(1-3) by (auto simp: node_inv_def doms_ok_def)
  then have c: "q = Inr ()" "ok c" "doms c = doms (nd_conn nd) - {i}"
    using destroy_known [of "nd_conn nd" i] assms(1,4) by (auto simp: node_inv_def)
  have j: "r \<notin> set (map fst (nd_jobs nd))" using assms(1,3) by (force simp: node_inv_def jobs_ok_def)
  have t: "\<forall>t \<in> set (running_timers nd). tm_ref t \<noteq> r"
    using assms(1,3) by (force simp: node_inv_def timers_ok_def)
  have ti: "\<forall>t \<in> set (running_timers nd). tm_id t \<noteq> i"
    using assms(1,2) t by (force simp: node_inv_def timers_ok_def)
  let ?nd = "put_state r x (nd\<lparr>nd_conn := c\<rparr>)"
  have o: "obj q ?nd = (if q = r then set_state x (obj r nd) else obj q nd)" for q
    using r by (simp add: obj_put_state)
  have "insts_ok ?nd"
    using put_state_insts [of "nd\<lparr>nd_conn := c\<rparr>" x r] assms(1,5) by (auto simp: node_inv_def insts_ok_def obj_def)
  moreover have "doms_ok doms ?nd" unfolding doms_ok_def
  proof
    fix j
    have dj: "j \<in> doms (nd_conn nd) \<longleftrightarrow> (\<exists>q. map_of (nd_instances nd) j = Some q \<and> inst_state (obj q nd) = RUNNING)"
      using assms(1) by (simp add: node_inv_def doms_ok_def)
    show "j \<in> doms (nd_conn ?nd) \<longleftrightarrow> (\<exists>q. map_of (nd_instances ?nd) j = Some q \<and> inst_state (obj q ?nd) = RUNNING)"
    proof (cases "map_of (nd_instances nd) j")
      case None
      then have "j \<noteq> i" using assms(2) by auto
      then show ?thesis using None dj c(3) by simp
    next
      case (Some q)
      then have "q = r \<longleftrightarrow> j = i" by (rule same_object [OF assms(1,2)])
      then show ?thesis using Some dj c(3) assms(5) by (cases "j = i") (force simp: o)+
    qed
  qed
  moreover have "jobs_ok ?nd"
    using assms(1) j by (intro put_state_jobs) (simp_all add: node_inv_def)
  moreover have "timers_ok ?nd"
    using assms(1) t by (intro put_state_timers) (simp_all add: node_inv_def)
  ultimately show ?thesis using c(1,2) j t ti by (simp add: node_inv_def)
qed

end

lemma map_of_obj:
  assumes "node_inv ok doms nd" and "map_of (nd_instances nd) i = Some r"
  shows "r < length (nd_heap nd)" "named (obj r nd) i" "inst_name (obj r nd) = i" "\<not> is_destroyed (obj r nd)"
proof -
  show r: "r < length (nd_heap nd)" "named (obj r nd) i"
    using assms by (simp_all add: node_inv_def insts_ok_def)
  then show "inst_name (obj r nd) = i" by (simp add: named_def inst_name_def)
  have "obj r nd \<in> set (nd_heap nd)" using r(1) by (simp add: obj_def)
  then show "\<not> is_destroyed (obj r nd)"
    using assms(1) by (auto simp: node_inv_def insts_ok_def is_destroyed_def)
qed

lemma add_timer_inv:
  assumes "node_inv ok doms nd" and "map_of (nd_instances nd) i = Some r" and "inst_state (obj r nd) \<noteq> RUNNING"
    and "r \<notin> set (map fst (nd_jobs nd))" and "\<forall>t \<in> set (running_timers nd). tm_id t \<noteq> i"
    and "d < length (nd_deferreds nd)" and "nd_deferreds nd ! d = Waiting" and "d \<notin> set (map snd (nd_jobs nd))"
    and "\<forall>t \<in> set (running_timers nd). tm_deferred t \<noteq> d"
  shows "node_inv ok doms (nd\<lparr>nd_timers := nd_timers nd @ [\<lparr>tm_ref = r, tm_id = i, tm_deferred = d, tm_running = True\<rparr>]\<rparr>)"
    (is "node_inv ok doms ?nd")
proof -
  have "timers_ok nd" using assms(1) by (simp add: node_inv_def)
  then have "timers_ok ?nd" using assms(2-9) unfolding timers_ok_def obj_def by auto
  then show ?thesis using assms(1) by (simp add: node_inv_def insts_ok_def doms_ok_def jobs_ok_def obj_def)
qed

lemma filter_stopped:
  assumes "k < length ts" and "tm_running (ts ! k)"
  shows "filter tm_running ts = filter tm_running (take k ts) @ ts ! k # filter tm_running (drop (Suc k) ts)"
    and "filter tm_running (ts[k := (ts ! k)\<lparr>tm_running := False\<rparr>]) =
      filter tm_running (take k ts) @ filter tm_running (drop (Suc k) ts)"
proof -
  show "filter tm_running ts = filter tm_running (take k ts) @ ts ! k # filter tm_running (drop (Suc k) ts)"
    using arg_cong [OF id_take_nth_drop [OF assms(1)], of "filter tm_running"] assms(2)
    by (simp del: append_take_drop_id)
  show "filter tm_running (ts[k := (ts ! k)\<lparr>tm_running := False\<rparr>]) =
      filter tm_running (take k ts) @ filter tm_running (drop (Suc k) ts)"
    unfolding upd_conv_take_nth_drop [OF assms(1)] by simp
qed

text \<open>The end of a termination: the identifier is removed and its timer stopped.\<close>

lemma removal_inv:
  assumes "node_inv ok doms nd" and "k < length (nd_timers nd)" and "tm_running (nd_timers nd ! k)"
  defines "t \<equiv> nd_timers nd ! k"
  shows "node_inv ok doms (settle (tm_deferred t) Called ((stop_timer k nd)\<lparr>nd_instances := ddel (tm_id t) (nd_instances nd)\<rparr>))"
    (is "node_inv ok doms ?nd")
proof -
  let ?A = "filter tm_running (take k (nd_timers nd))" and ?B = "filter tm_running (drop (Suc k) (nd_timers nd))"
  have rt: "running_timers nd = ?A @ t # ?B" "running_timers ?nd = ?A @ ?B"
    using filter_stopped [OF assms(2,3)] by (simp_all add: t_def stop_timer_def)
  have tok: "timers_ok nd" using assms(1) by (simp add: node_inv_def)
  have mem: "x \<in> set (running_timers nd)" if "x \<in> set (running_timers ?nd)" for x
    unfolding rt(1) using that unfolding rt(2) by auto
  have o: "obj r ?nd = obj r nd" for r by (simp add: obj_def stop_timer_def)
  have t: "map_of (nd_instances nd) (tm_id t) = Some (tm_ref t)" "inst_state (obj (tm_ref t) nd) \<noteq> RUNNING"
      "tm_ref t \<notin> set (map fst (nd_jobs nd))"
    using tok rt(1) by (simp_all add: timers_ok_def)
  have dist: "distinct (map tm_id (?A @ t # ?B))" "distinct (map snd (nd_jobs nd) @ map tm_deferred (?A @ t # ?B))"
    using tok unfolding timers_ok_def rt(1) by blast+
  have f: "nd_instances ?nd = ddel (tm_id t) (nd_instances nd)" "nd_heap ?nd = nd_heap nd" "nd_conn ?nd = nd_conn nd"
    by (simp_all add: stop_timer_def)
  have "insts_ok nd" "doms_ok doms nd" using assms(1) by (simp_all add: node_inv_def)
  then have "insts_ok ?nd" unfolding insts_ok_def f o by simp
  moreover have "doms_ok doms ?nd" unfolding doms_ok_def f o
  proof
    fix i
    show "i \<in> doms (nd_conn nd) \<longleftrightarrow> (\<exists>r. map_of (ddel (tm_id t) (nd_instances nd)) i = Some r \<and> inst_state (obj r nd) = RUNNING)"
      using \<open>doms_ok doms nd\<close> t(1,2) by (cases "i = tm_id t") (simp_all add: doms_ok_def)
  qed
  moreover have "jobs_ok ?nd" unfolding jobs_ok_def
  proof (intro conjI ballI)
    show "distinct (map fst (nd_jobs ?nd))" using assms(1) by (simp add: node_inv_def jobs_ok_def stop_timer_def)
    fix x assume "x \<in> set (nd_jobs ?nd)"
    then have x: "x \<in> set (nd_jobs nd)" by (simp add: stop_timer_def)
    obtain r d where rd: "x = (r, d)" by fastforce
    then obtain i where i: "map_of (nd_instances nd) i = Some r" "d < length (nd_deferreds nd)" "inst_state (obj r nd) \<noteq> RUNNING"
      using assms(1) x by (fastforce simp: node_inv_def jobs_ok_def)
    have "r \<noteq> tm_ref t" using t(3) x rd by force
    then have "i \<noteq> tm_id t" using i(1) t(1) by auto
    then show "case x of (r, d) \<Rightarrow> d < length (nd_deferreds ?nd) \<and> inst_state (obj r ?nd) \<noteq> RUNNING \<and>
        (\<exists>i. map_of (nd_instances ?nd) i = Some r)"
      unfolding rd prod.case o f using i by (auto simp: stop_timer_def intro!: exI [of _ i])
  qed
  moreover have "timers_ok ?nd" unfolding timers_ok_def
  proof (intro conjI ballI)
    show "distinct (map tm_id (running_timers ?nd))" unfolding rt(2) using dist(1) by auto
    show "distinct (map snd (nd_jobs ?nd) @ map tm_deferred (running_timers ?nd))"
      unfolding rt(2) using dist(2) by (auto simp: stop_timer_def)
    fix x assume x: "x \<in> set (running_timers ?nd)"
    then have "tm_deferred x \<in> set (map tm_deferred (?A @ ?B))" "tm_id x \<in> set (map tm_id (?A @ ?B))"
      unfolding rt(2) by (simp_all only: set_map imageI)
    moreover have "tm_deferred t \<notin> set (map tm_deferred (?A @ ?B))" "tm_id t \<notin> set (map tm_id (?A @ ?B))"
      using dist by simp_all
    ultimately have "tm_deferred x \<noteq> tm_deferred t" "tm_id x \<noteq> tm_id t" by metis+
    then show "tm_deferred x < length (nd_deferreds ?nd)" "nd_deferreds ?nd ! tm_deferred x = Waiting"
        "map_of (nd_instances ?nd) (tm_id x) = Some (tm_ref x)" "inst_state (obj (tm_ref x) ?nd) \<noteq> RUNNING"
        "tm_ref x \<notin> set (map fst (nd_jobs ?nd))"
      unfolding o using tok mem [OF x] by (simp_all add: timers_ok_def stop_timer_def)
  qed
  ultimately show ?thesis using assms(1) by (simp add: node_inv_def stop_timer_def)
qed

context virt_host
begin

lemma terminate_inv:
  assumes "node_inv ok doms nd"
  shows "node_inv ok doms (snd (terminate_instance hv i nd))"
proof (cases "map_of (nd_instances nd) i")
  case None
  then show ?thesis using assms by (simp add: terminate_unknown)
next
  case (Some r)
  note r = map_of_obj [OF assms Some]
  define nd1 where "nd1 = nd\<lparr>nd_deferreds := nd_deferreds nd @ [Waiting]\<rparr>"
  have inv1: "node_inv ok doms nd1" unfolding nd1_def by (rule new_deferred_inv [OF assms])
  have same: "nd_instances nd1 = nd_instances nd" "obj r nd1 = obj r nd" "nd_conn nd1 = nd_conn nd"
      "nd_jobs nd1 = nd_jobs nd" "nd_timers nd1 = nd_timers nd" for r
    by (simp_all add: nd1_def obj_def)
  obtain q c where q: "hv_destroy hv i (nd_conn nd) = (q, c)" by fastforce
  have step: "snd (terminate_instance hv i nd) = (case q of
       Inl e \<Rightarrow> (put_state r SHUTDOWN nd1)\<lparr>nd_conn := c\<rparr>
     | Inr _ \<Rightarrow> (put_state r SHUTDOWN nd1)\<lparr>nd_conn := c,
         nd_timers := nd_timers nd @ [\<lparr>tm_ref = r, tm_id = i, tm_deferred = length (nd_deferreds nd), tm_running = True\<rparr>]\<rparr>)"
    using terminate_cases [OF Some r(4,3,1), of hv] q by (simp add: nd1_def Let_def split: sum.splits)
  show ?thesis
  proof (cases "inst_state (obj r nd) = RUNNING")
    case False
    then have "i \<notin> doms (nd_conn nd)" using not_running_no_domain assms Some by blast
    then obtain e where e: "q = Inl e" "c = nd_conn nd" using destroy_unknown assms q by (fastforce simp: node_inv_def)
    have "snd (terminate_instance hv i nd) = put_state r SHUTDOWN nd1"
      unfolding step e sum.case by (simp add: put_state_def nd1_def)
    then show ?thesis using put_state_stopped [OF inv1, of r SHUTDOWN] False same by simp
  next
    case True
    let ?d = "length (nd_deferreds nd)"
    let ?nd = "put_state r SHUTDOWN (nd1\<lparr>nd_conn := c\<rparr>)"
    have d: "q = Inr ()" "node_inv ok doms ?nd" "r \<notin> set (map fst (nd_jobs nd1))" "\<forall>t \<in> set (running_timers nd1). tm_id t \<noteq> i"
      using destroyed_inv [OF inv1, of i r q c SHUTDOWN] Some True q same by simp_all
    have lt: "\<forall>t \<in> set (running_timers nd). tm_deferred t < ?d" "\<forall>x \<in> set (map snd (nd_jobs nd)). x < ?d"
      using assms by (auto simp: node_inv_def timers_ok_def jobs_ok_def)
    have "node_inv ok doms (?nd\<lparr>nd_timers := nd_timers ?nd @ [\<lparr>tm_ref = r, tm_id = i, tm_deferred = ?d, tm_running = True\<rparr>]\<rparr>)"
    proof (rule add_timer_inv [OF d(2)])
      show "inst_state (obj r ?nd) \<noteq> RUNNING" using r(1) by (simp add: obj_put_state nd1_def)
      show "nd_deferreds ?nd ! ?d = Waiting" "?d < length (nd_deferreds ?nd)" by (simp_all add: nd1_def)
      show "?d \<notin> set (map snd (nd_jobs ?nd))" using lt(2) by (auto simp: nd1_def)
      show "\<forall>t \<in> set (running_timers ?nd). tm_deferred t \<noteq> ?d" using lt(1) by (auto simp: nd1_def)
    qed (use d Some in \<open>simp_all add: nd1_def\<close>)
    moreover have "(put_state r SHUTDOWN nd1)\<lparr>nd_conn := c, nd_timers := ts\<rparr> = ?nd\<lparr>nd_timers := ts\<rparr>" for ts
      by (simp add: put_state_def)
    ultimately show ?thesis unfolding step d(1) sum.case by (simp add: nd1_def)
  qed
qed

lemma reboot_inv:
  assumes "node_inv ok doms nd"
  shows "node_inv ok doms (snd (reboot_instance hv i nd))"
proof (cases "map_of (nd_instances nd) i")
  case None
  then show ?thesis using assms by (simp add: reboot_instance_def known_def bindS_def)
next
  case (Some r)
  note r = map_of_obj [OF assms Some]
  show ?thesis
  proof (cases "is_running (obj r nd)")
    case False
    then show ?thesis using assms Some by (simp add: reboot_instance_def known_def bindS_def inst_reboot_def)
  next
    case True
    obtain q c where q: "hv_destroy hv i (nd_conn nd) = (q, c)" by fastforce
    let ?nd = "put_state r NOSTATE (nd\<lparr>nd_conn := c\<rparr>)"
    have d: "q = Inr ()" "node_inv ok doms ?nd" "r \<notin> set (map fst (nd_jobs nd))" "\<forall>t \<in> set (running_timers nd). tm_ref t \<noteq> r"
      using destroyed_inv [OF assms Some _ q, of NOSTATE] True by (simp_all add: is_running_def)
    have n: "map_of (nd_instances ?nd) i = Some r" "inst_state (obj r ?nd) \<noteq> RUNNING"
      using Some r(1) by (simp_all add: obj_put_state)
    have same: "?nd\<lparr>nd_conn := c\<rparr> = ?nd" by (simp add: put_state_def)
    show ?thesis
    proof (cases "toXml (json_text (nd_world nd)) (obj r ?nd)")
      case (Inl e)
      then show ?thesis using reboot_cases [OF Some True r(3,1), of hv] q d(1,2) by (simp add: Let_def)
    next
      case (Inr xml)
      obtain q' c' where q': "hv_create hv xml c = (q', c')" by fastforce
      show ?thesis
      proof (cases q')
        case Inl': (Inl e)
        then have "c' = c" using q' create_fails by blast
        then show ?thesis using reboot_cases [OF Some True r(3,1), of hv] q q' Inr Inl' d(1,2) same by (simp add: Let_def)
      next
        case Inr': (Inr u)
        have "node_inv ok doms (put_state r RUNNING (?nd\<lparr>nd_conn := c'\<rparr>))"
          using created_inv [OF d(2) n _ _ Inr] d(3,4) q' Inr' by simp
        then show ?thesis using reboot_cases [OF Some True r(3,1), of hv] q q' Inr Inr' d(1) by (simp add: Let_def)
      qed
    qed
  qed
qed

lemma tick_inv:
  assumes "node_inv ok doms nd"
  shows "node_inv ok doms (tick hv k nd)"
proof (cases "k < length (nd_timers nd) \<and> tm_running (nd_timers nd ! k)")
  case True
  let ?t = "nd_timers nd ! k"
  have t: "map_of (nd_instances nd) (tm_id ?t) = Some (tm_ref ?t)" "inst_state (obj (tm_ref ?t) nd) \<noteq> RUNNING"
      "nd_deferreds nd ! tm_deferred ?t = Waiting"
    using assms True nth_mem by (fastforce simp: node_inv_def timers_ok_def)+
  let ?nd = "put_state (tm_ref ?t) SHUTDOWN nd"
  have inv: "node_inv ok doms ?nd" using put_state_stopped [OF assms t(2)] by simp
  have "tm_id ?t \<notin> doms (nd_conn nd)" by (rule not_running_no_domain [OF assms t(1,2)])
  then obtain e where "hv_info hv (tm_id ?t) (nd_conn nd) = Inl e"
    using info_iff [of "nd_conn nd"] assms by (cases "hv_info hv (tm_id ?t) (nd_conn nd)") (auto simp: node_inv_def)
  then have "tick hv k nd = settle (tm_deferred ?t) Called ((stop_timer k ?nd)\<lparr>nd_instances := ddel (tm_id ?t) (nd_instances ?nd)\<rparr>)"
    using True t map_of_obj(3) [OF assms t(1)]
    by (simp add: tick_def wait_for_shutdown_def call_removal_def stop_timer_def Let_def)
  then show ?thesis using removal_inv [OF inv] True by simp
next
  case False
  then show ?thesis using assms by (simp only: tick_def if_False)
qed

lemma world_inv: "node_inv ok doms nd \<Longrightarrow> node_inv ok doms (nd\<lparr>nd_world := w\<rparr>)"
  by (simp add: node_inv_defs obj_def)

lemma console_same: "snd (get_console_output fl i nd) = nd"
  by (simp add: get_console_output_def known_def bindS_def console_output_def wrap_exception_def
      on_node_world_def read_text_def liftR_def raiseS_def split: option.splits sum.splits json.splits)

lemma report_same: "\<exists>w. snd (node_report_state fl nd) = nd\<lparr>nd_world := w\<rparr>"
  by (auto simp: node_report_state_def describe_instances_def bindS_def on_node_world_def)

lemma step_inv:
  assumes "node_step fl hv nd nd'" and "node_inv ok doms nd"
  shows "node_inv ok doms nd'"
  using assms
proof cases
  case (Console i)
  then show ?thesis using assms by (simp add: console_same)
next
  case Report
  obtain w where "nd' = nd\<lparr>nd_world := w\<rparr>" using report_same Report by blast
  then show ?thesis using assms world_inv by simp
qed (use run_inv image_done_inv job_drop terminate_inv reboot_inv tick_inv in auto)

theorem reach_inv:
  assumes "node_reach fl hv nd nd'" and "node_inv ok doms nd"
  shows "node_inv ok doms nd'"
  using assms by (induction rule: rtranclp_induct) (auto intro: step_inv)

lemma init_inv: "ok c \<Longrightarrow> doms c = {} \<Longrightarrow> node_inv ok doms (node_init c w)"
  by (simp add: node_inv_defs node_init_def)

end

end
