(* ===== verification/NodeProps.thy ===== *)
theory NodeProps
  imports NodeLife
begin

text \<open>
  The properties of the compute node: what holds in every history, and how instances start, end and
  get lost.
\<close>

subsection \<open>Any history\<close>

text \<open>C2: Whatever requests, prepared images and timer ticks a node sees, in whatever order, and
  whatever the attributes of the instances are: the hypervisor runs exactly the domains whose instances
  are in state running, every instance is listed under its own name, none ever counts as destroyed,
  and an instance whose image is being prepared does not run and is prepared by one process only.\<close>

theorem node_lifecycle:
  assumes "virt_host hv ok doms" and "ok c" and "doms c = {}" and "node_reach fl hv (node_init c w) nd"
  shows "(\<forall>i. i \<in> doms (nd_conn nd) \<longleftrightarrow> (\<exists>r. map_of (nd_instances nd) i = Some r \<and> is_running (obj r nd))) \<and>
    (\<forall>i r. map_of (nd_instances nd) i = Some r \<longrightarrow> inst_name (obj r nd) = i \<and> \<not> is_destroyed (obj r nd)) \<and>
    distinct (map fst (nd_jobs nd)) \<and> (\<forall>(r, d) \<in> set (nd_jobs nd). \<not> is_running (obj r nd))"
proof -
  have inv: "node_inv ok doms nd"
    by (rule virt_host.reach_inv [OF assms(1,4) virt_host.init_inv [OF assms(1-3)]])
  then have "doms_ok doms nd" "jobs_ok nd" by (simp_all add: node_inv_def)
  then show ?thesis using map_of_obj(3,4) [OF inv]
    unfolding doms_ok_def jobs_ok_def is_running_def by (simp add: case_prod_beta)
qed

subsection \<open>Launching\<close>

text \<open>The values of the description hold no markup.\<close>

definition plain_attributes :: "attributes \<Rightarrow> bool" where
  "plain_attributes s \<longleftrightarrow> (\<forall>k \<in> {''basepath'', ''network_name'', ''bridge_name'', ''mac_address''}. plain_text (attr_text s k))"

lemma fake_create_plain:
  assumes "instance_init fl (JStr n) kwargs = Inr s" and "plain_content n" and "n \<noteq> []" and "plain_attributes s"
    and "plain_content (ser (JDict (set_state i s)))" and "ser (JDict (set_state i s)) \<noteq> []"
  shows "\<exists>xml c'. toXml ser (set_state i s) = Inr xml \<and> hv_create fake_hv xml c = (Inr (), c') \<and> describes xml n"
proof -
  obtain xml x where x: "toXml ser (set_state i s) = Inr xml" "parse_xml xml = Inr x" "find_text x ''name'' = Inr (Some n)"
    using xml_document [OF assms(1,2) assms(4) [unfolded plain_attributes_def], of ser i, OF assms(5,6)] assms(3) by auto
  then show ?thesis by (auto simp: describes_def fake_hv_def fake_createXML_def Let_def)
qed

lemma init_state_same: "instance_init fl (JStr n) kwargs = Inr s \<Longrightarrow> set_state NOSTATE s = s"
  using instance_init_Inr by (metis init_fields_lookup(21) set_state_def update_triv)

lemma image_done_last:
  assumes "length (nd_jobs nd) = k"
  shows "image_done hv k retvals (nd\<lparr>nd_jobs := nd_jobs nd @ [(r, d)]\<rparr>) = launch hv r d retvals nd"
  using assms by (simp add: image_done_def nth_append)


abbreviation demo_flags :: flags where "demo_flags \<equiv> default_flags ''/n'' ''h''"

abbreviation demo_node :: "fake_conn node" where "demo_node \<equiv> node_init new_conn quiet_world"

lemma demo_plain: "plain_content ''i-1''" "plain_attributes demo_instance" "plain_content ''{}''"
proof -
  have n: "plain_text ''/instances/i-1''" "plain_text ''default''" "plain_text ''br0''" "plain_text ''df:df:df:df:df:df''"
    by code_simp+
  show "plain_attributes demo_instance"
    using n by (simp add: plain_attributes_def attr_text_def demo_instance_def init_fields_lookup kw_def)
qed code_simp+

lemma demo_conn: "conn_ok new_conn" "conn_names new_conn = {}"
  by (simp_all add: conn_ok_def conn_names_def new_conn_def)


text \<open>The example: one request, and its image is prepared.\<close>

lemma demo_started:
  "\<exists>nd. node_reach demo_flags fake_hv demo_node nd \<and> conn_names (nd_conn nd) = {''i-1''} \<and>
     map_of (nd_instances nd) ''i-1'' = Some 0 \<and> is_running (obj 0 nd) \<and> nd_timers nd = []"
proof -
  let ?kw = "[(''security_group'', JList [JStr ''web''])]"
  define nd1 where "nd1 = snd (run_instance demo_flags ''i-1'' ?kw demo_node)"
  define nd2 where "nd2 = image_done fake_hv 0 None nd1"
  have nd1: "nd1 = demo_node\<lparr>nd_heap := [demo_instance], nd_instances := [(''i-1'', 0)],
      nd_deferreds := [Waiting], nd_jobs := [(0, 0)]\<rparr>"
    using run_instance_new [OF demo_instance_init, of demo_node] by (simp add: nd1_def node_init_def)
  have st: "set_state NOSTATE demo_instance = demo_instance" by (rule init_state_same [OF demo_instance_init])
  obtain xml c where xml: "toXml (json_text quiet_world) demo_instance = Inr xml" "hv_create fake_hv xml new_conn = (Inr (), c)"
      "describes xml ''i-1''"
    using fake_create_plain [OF demo_instance_init demo_plain(1) _ demo_plain(2), of "json_text quiet_world" NOSTATE new_conn]
      demo_plain(3) st by (auto simp: quiet_world_def)
  have c: "conn_names c = {''i-1''}" using fake_host.create_known [OF demo_conn(1) xml(2,3)] demo_conn(2) by simp
  have "nd2 = put_state 0 RUNNING (nd1\<lparr>nd_jobs := [], nd_conn := c\<rparr>)"
    using xml(1,2) by (simp add: nd2_def image_done_def launch_cases nd1 node_init_def obj_def)
  then have "conn_names (nd_conn nd2) = {''i-1''}" "map_of (nd_instances nd2) ''i-1'' = Some 0" "is_running (obj 0 nd2)" "nd_timers nd2 = []"
    using c by (simp_all add: nd1 is_running_def obj_put_state node_init_def)
  moreover have "node_step demo_flags fake_hv demo_node nd1"
    unfolding nd1_def by (rule Run [OF demo_plain(1)]) simp
  then have "node_reach demo_flags fake_hv demo_node nd2"
    unfolding nd2_def using Image_Done [of demo_flags fake_hv nd1 0 None] by (meson converse_rtranclp_into_rtranclp r_into_rtranclp)
  ultimately show ?thesis by blast
qed

theorem node_lifecycle_witness:
  "\<exists>nd. node_reach demo_flags fake_hv demo_node nd \<and> conn_names (nd_conn nd) = {''i-1''} \<and>
     (\<exists>r. map_of (nd_instances nd) ''i-1'' = Some r \<and> is_running (obj r nd))"
proof -
  obtain nd where nd: "node_reach demo_flags fake_hv demo_node nd" "conn_names (nd_conn nd) = {''i-1''}"
    using demo_started by blast
  from node_lifecycle [OF fake_host.virt_host_axioms demo_conn nd(1)] nd show ?thesis by blast
qed

subsection \<open>Termination\<close>

context virt_host
begin

lemma terminate_running:
  assumes "node_inv ok doms nd" and "map_of (nd_instances nd) i = Some r" and "is_running (obj r nd)"
  obtains c where "terminate_instance hv i nd = (Inr (length (nd_deferreds nd)),
      (put_state r SHUTDOWN (nd\<lparr>nd_deferreds := nd_deferreds nd @ [Waiting]\<rparr>))\<lparr>nd_conn := c,
        nd_timers := nd_timers nd @ [\<lparr>tm_ref = r, tm_id = i, tm_deferred = length (nd_deferreds nd), tm_running = True\<rparr>]\<rparr>)"
    and "ok c" and "doms c = doms (nd_conn nd) - {i}"
proof -
  have r: "inst_name (obj r nd) = i" "\<not> is_destroyed (obj r nd)" "r < length (nd_heap nd)"
    using map_of_obj [OF assms(1,2)] by simp_all
  have "i \<in> doms (nd_conn nd)" "ok (nd_conn nd)"
    using assms by (auto simp: node_inv_def doms_ok_def is_running_def)
  then obtain c where "hv_destroy hv i (nd_conn nd) = (Inr (), c)" "ok c" "doms c = doms (nd_conn nd) - {i}"
    using destroy_known by blast
  then show ?thesis using that terminate_cases [OF assms(2) r(2,1,3), of hv] by (simp add: Let_def)
qed

lemma terminate_stopped:
  assumes "node_inv ok doms nd" and "map_of (nd_instances nd) i = Some r" and "\<not> is_running (obj r nd)"
  shows "\<exists>e. fst (terminate_instance hv i nd) = Inl e"
proof -
  have r: "inst_name (obj r nd) = i" "\<not> is_destroyed (obj r nd)" "r < length (nd_heap nd)"
    using map_of_obj [OF assms(1,2)] by simp_all
  have "i \<notin> doms (nd_conn nd)" by (rule not_running_no_domain [OF assms(1,2)]) (use assms(3) in \<open>simp add: is_running_def\<close>)
  then obtain e where "hv_destroy hv i (nd_conn nd) = (Inl e, nd_conn nd)"
    using destroy_unknown assms(1) by (auto simp: node_inv_def)
  then show ?thesis using terminate_cases [OF assms(2) r(2,1,3), of hv] by (simp add: Let_def)
qed

lemma tick_removes:
  assumes "node_inv ok doms nd" and "k < length (nd_timers nd)"
    and "nd_timers nd ! k = \<lparr>tm_ref = r, tm_id = i, tm_deferred = d, tm_running = True\<rparr>"
  shows "tick hv k nd = settle d Called ((stop_timer k (put_state r SHUTDOWN nd))\<lparr>nd_instances := ddel i (nd_instances nd)\<rparr>)"
proof -
  have "nd_timers nd ! k \<in> set (running_timers nd)" using assms(2,3) nth_mem by fastforce
  then have t: "map_of (nd_instances nd) i = Some r" "inst_state (obj r nd) \<noteq> RUNNING" "nd_deferreds nd ! d = Waiting"
    using assms(1,3) by (force simp: node_inv_def timers_ok_def)+
  have "i \<notin> doms (nd_conn nd)" by (rule not_running_no_domain [OF assms(1) t(1,2)])
  then obtain e where "hv_info hv i (nd_conn nd) = Inl e"
    using info_iff [of "nd_conn nd" i] assms(1) by (cases "hv_info hv i (nd_conn nd)") (auto simp: node_inv_def)
  then show ?thesis using assms(2,3) t map_of_obj(3) [OF assms(1) t(1)]
    by (simp add: tick_def wait_for_shutdown_def call_removal_def stop_timer_def Let_def)
qed

end

text \<open>C13: Terminating an instance that runs destroys its domain at once and leaves it listed as
  shut down. The first tick of its timer, with any hypervisor that keeps the laws, removes it from the
  list and calls the deferred, and no other instance is affected; a second request before that tick
  is refused.\<close>

theorem terminate_and_tick:
  assumes "virt_host hv ok doms" and "node_inv ok doms nd" and "map_of (nd_instances nd) i = Some r"
    and "is_running (obj r nd)"
  shows "\<exists>d nd1. terminate_instance hv i nd = (Inr d, nd1) \<and> doms (nd_conn nd1) = doms (nd_conn nd) - {i} \<and>
    nd_instances nd1 = nd_instances nd \<and> inst_state (obj r nd1) = SHUTDOWN \<and> nd_deferreds nd1 ! d = Waiting \<and>
    (\<exists>e. fst (terminate_instance hv i nd1) = Inl e) \<and>
    (let nd2 = tick hv (length (nd_timers nd)) nd1 in
       nd_instances nd2 = ddel i (nd_instances nd) \<and> nd_deferreds nd2 ! d = Called \<and> nd_conn nd2 = nd_conn nd1 \<and>
       (\<forall>r'. r' \<noteq> r \<longrightarrow> obj r' nd2 = obj r' nd))"
proof -
  let ?d = "length (nd_deferreds nd)" and ?k = "length (nd_timers nd)"
  let ?t = "\<lparr>tm_ref = r, tm_id = i, tm_deferred = ?d, tm_running = True\<rparr>"
  obtain c where c: "terminate_instance hv i nd = (Inr ?d,
      (put_state r SHUTDOWN (nd\<lparr>nd_deferreds := nd_deferreds nd @ [Waiting]\<rparr>))\<lparr>nd_conn := c, nd_timers := nd_timers nd @ [?t]\<rparr>)"
      "doms c = doms (nd_conn nd) - {i}"
    by (rule virt_host.terminate_running [OF assms])
  define nd1 where "nd1 = snd (terminate_instance hv i nd)"
  have f: "nd_conn nd1 = c" "nd_instances nd1 = nd_instances nd" "nd_deferreds nd1 = nd_deferreds nd @ [Waiting]"
      "nd_timers nd1 = nd_timers nd @ [?t]" "nd_heap nd1 = nd_heap (put_state r SHUTDOWN nd)"
    by (simp_all add: nd1_def c(1) put_state_def)
  have o: "obj q nd1 = obj q (put_state r SHUTDOWN nd)" for q using f(5) by (simp add: obj_def)
  have r: "r < length (nd_heap nd)" using map_of_obj [OF assms(2,3)] by simp
  have s: "inst_state (obj r nd1) = SHUTDOWN" using o r by (simp add: obj_put_state)
  have inv: "node_inv ok doms nd1" unfolding nd1_def by (rule virt_host.terminate_inv [OF assms(1,2)])
  have "\<exists>e. fst (terminate_instance hv i nd1) = Inl e"
    by (rule virt_host.terminate_stopped [OF assms(1) inv, of i r]) (use f assms(3) s in \<open>simp_all add: is_running_def\<close>)
  moreover have "tick hv ?k nd1 = settle ?d Called ((stop_timer ?k (put_state r SHUTDOWN nd1))\<lparr>nd_instances := ddel i (nd_instances nd1)\<rparr>)"
    by (rule virt_host.tick_removes [OF assms(1) inv]) (simp_all add: f)
  moreover have "obj q (stop_timer ?k (put_state r SHUTDOWN nd1)\<lparr>nd_instances := x\<rparr>) = obj q nd" if "q \<noteq> r" for q x
    using that o by (simp add: stop_timer_def obj_put_state) (simp add: obj_def put_state_def f(5))
  moreover have "terminate_instance hv i nd = (Inr ?d, nd1)" unfolding nd1_def c(1) by simp
  ultimately show ?thesis
    by (intro exI [of _ ?d] exI [of _ nd1]) (simp add: f c(2) s nth_append Let_def stop_timer_def)
qed

theorem terminate_and_tick_witness:
  "\<exists>nd d nd1. node_reach demo_flags fake_hv demo_node nd \<and> terminate_instance fake_hv ''i-1'' nd = (Inr d, nd1) \<and>
     conn_names (nd_conn nd1) = {} \<and> nd_deferreds (tick fake_hv 0 nd1) ! d = Called"
proof -
  obtain nd where nd: "node_reach demo_flags fake_hv demo_node nd" "conn_names (nd_conn nd) = {''i-1''}"
      "map_of (nd_instances nd) ''i-1'' = Some 0" "is_running (obj 0 nd)" "nd_timers nd = []"
    using demo_started by blast
  have "node_inv conn_ok conn_names nd" by (rule fake_host.reach_inv [OF nd(1) fake_host.init_inv [OF demo_conn]])
  from terminate_and_tick [OF fake_host.virt_host_axioms this nd(3,4)] nd(1,2,5) show ?thesis
    by (auto simp: Let_def)
qed

subsection \<open>Instances that are lost\<close>

text \<open>An instance that does not run, whose image is not being prepared and that no timer
  watches.\<close>

definition lost :: "string \<Rightarrow> nat \<Rightarrow> 'c node \<Rightarrow> bool" where
  "lost i r nd \<longleftrightarrow> map_of (nd_instances nd) i = Some r \<and> \<not> is_running (obj r nd) \<and> r \<notin> set (map fst (nd_jobs nd)) \<and>
     (\<forall>t \<in> set (running_timers nd). tm_id t \<noteq> i)"

lemma lost_frame:
  assumes "lost i r nd" and "map_of (nd_instances nd') i = Some r" and "obj r nd' = obj r nd \<or> \<not> is_running (obj r nd')"
    and "r \<notin> set (map fst (nd_jobs nd'))" and "\<forall>t \<in> set (running_timers nd'). tm_id t \<noteq> i"
  shows "lost i r nd'"
  using assms by (auto simp: lost_def)

lemma lost_same_parts:
  assumes "lost i r nd" and "nd_instances nd' = nd_instances nd" and "nd_heap nd' = nd_heap nd"
    and "nd_jobs nd' = nd_jobs nd" and "nd_timers nd' = nd_timers nd"
  shows "lost i r nd'"
  using assms by (simp add: lost_def obj_def)

lemma lost_put_state:
  assumes "lost i r nd" and "q \<noteq> r \<or> x \<noteq> RUNNING"
  shows "lost i r (put_state q x nd)"
  by (rule lost_frame [OF assms(1)]) (use assms in \<open>auto simp: lost_def obj_put_state is_running_def\<close>)

lemma lost_launch:
  assumes "lost i r nd" and "q \<noteq> r"
  shows "lost i r (launch hv q d v nd)"
proof -
  have "lost i r (settle d x (nd\<lparr>nd_conn := c\<rparr>))" "lost i r (settle d x nd)" "lost i r (nd\<lparr>nd_conn := c\<rparr>)" for x c
    by (rule lost_same_parts [OF assms(1)]; simp)+
  then show ?thesis using assms(2)
    by (simp add: launch_cases lost_put_state split: option.splits sum.splits prod.splits)
qed

lemma lost_image_done:
  assumes "lost i r nd"
  shows "lost i r (image_done hv k v nd)"
proof (cases "k < length (nd_jobs nd)")
  case True
  obtain q d where qd: "nd_jobs nd ! k = (q, d)" by fastforce
  let ?js = "take k (nd_jobs nd) @ drop (Suc k) (nd_jobs nd)"
  have "(q, d) \<in> set (nd_jobs nd)" using True qd nth_mem by metis
  then have "q \<noteq> r" using assms by (auto simp: lost_def rev_image_eqI)
  moreover have "lost i r (nd\<lparr>nd_jobs := ?js\<rparr>)"
    by (rule lost_frame [OF assms]) (use assms in \<open>auto simp: lost_def obj_def dest: in_set_takeD in_set_dropD\<close>)
  ultimately show ?thesis using True qd lost_launch by (simp add: image_done_def)
qed (use assms in \<open>simp add: image_done_def\<close>)

lemma lost_reboot:
  assumes "lost i r nd" and "node_inv ok doms nd"
  shows "lost i r (snd (reboot_instance hv j nd))"
proof (cases "map_of (nd_instances nd) j")
  case (Some q)
  note q = map_of_obj [OF assms(2) Some]
  show ?thesis
  proof (cases "is_running (obj q nd)")
    case True
    then have "q \<noteq> r" using assms(1) by (auto simp: lost_def)
    have c: "lost i r (nd\<lparr>nd_conn := c\<rparr>)" for c by (rule lost_same_parts [OF assms(1)]; simp)
    have c2: "lost i r ((put_state q NOSTATE (nd\<lparr>nd_conn := c\<rparr>))\<lparr>nd_conn := c'\<rparr>)" for c c'
      by (rule lost_same_parts [OF lost_put_state [OF c [of c], of q NOSTATE]]) (simp_all add: \<open>q \<noteq> r\<close> put_state_def)
    show ?thesis using reboot_cases [OF Some True q(3,1), of hv] c c2 lost_put_state [OF c, of q NOSTATE] lost_put_state [OF c2, of q] \<open>q \<noteq> r\<close>
      by (simp add: Let_def split: sum.splits prod.splits)
  next
    case False
    then show ?thesis using assms(1) Some by (simp add: reboot_instance_def known_def bindS_def inst_reboot_def)
  qed
qed (use assms(1) in \<open>simp add: reboot_instance_def known_def bindS_def\<close>)

context virt_host
begin

lemma lost_terminate:
  assumes "lost i r nd" and "node_inv ok doms nd"
  shows "lost i r (snd (terminate_instance hv j nd))"
proof (cases "map_of (nd_instances nd) j")
  case (Some q)
  note q = map_of_obj [OF assms(2) Some]
  let ?nd = "put_state q SHUTDOWN (nd\<lparr>nd_deferreds := nd_deferreds nd @ [Waiting]\<rparr>)"
  have "lost i r (nd\<lparr>nd_deferreds := nd_deferreds nd @ [Waiting]\<rparr>)" by (rule lost_same_parts [OF assms(1)]; simp)
  then have s: "lost i r ?nd" by (rule lost_put_state) simp
  have c: "lost i r (?nd\<lparr>nd_conn := c\<rparr>)" for c by (rule lost_same_parts [OF s]; simp)
  have t: "lost i r (?nd\<lparr>nd_conn := c, nd_timers := nd_timers nd @ [\<lparr>tm_ref = q, tm_id = j, tm_deferred = d, tm_running = b\<rparr>]\<rparr>)"
    if "j \<noteq> i" for c d b
    by (rule lost_frame [OF s]) (use s that in \<open>auto simp: lost_def obj_def\<close>)
  show ?thesis
  proof (cases "j = i")
    case True
    then have "inst_state (obj q nd) \<noteq> RUNNING" using assms(1) Some by (auto simp: lost_def is_running_def)
    then have "j \<notin> doms (nd_conn nd)" using not_running_no_domain [OF assms(2) Some] by simp
    then obtain e where "hv_destroy hv j (nd_conn nd) = (Inl e, nd_conn nd)"
      using destroy_unknown assms(2) by (auto simp: node_inv_def)
    then show ?thesis using c terminate_cases [OF Some q(4,3,1), of hv] by (simp add: Let_def)
  next
    case False
    then show ?thesis using terminate_cases [OF Some q(4,3,1), of hv] c t [OF False]
      by (simp add: Let_def split: sum.splits prod.splits)
  qed
qed (use assms(1) in \<open>simp add: terminate_unknown\<close>)

lemma lost_tick:
  assumes "lost i r nd" and "node_inv ok doms nd"
  shows "lost i r (tick hv k nd)"
proof (cases "k < length (nd_timers nd) \<and> tm_running (nd_timers nd ! k)")
  case True
  obtain q j d where t: "nd_timers nd ! k = \<lparr>tm_ref = q, tm_id = j, tm_deferred = d, tm_running = True\<rparr>"
    using True by (cases "nd_timers nd ! k") auto
  then have m: "nd_timers nd ! k \<in> set (running_timers nd)" using True nth_mem by fastforce
  then have "j \<noteq> i" using assms(1) t by (auto simp: lost_def)
  moreover have "set (running_timers (stop_timer k nd')) \<subseteq> set (running_timers nd)" if "nd_timers nd' = nd_timers nd" for nd' :: "'a node"
    using filter_stopped [of k "nd_timers nd"] True that by (auto simp: stop_timer_def)
  moreover have "lost i r (put_state q SHUTDOWN nd)" by (rule lost_put_state [OF assms(1)]) simp
  ultimately show ?thesis
    unfolding tick_removes [OF assms(2) conjunct1 [OF True] t] by (auto simp: lost_def stop_timer_def obj_def)
qed (use assms(1) in \<open>simp only: tick_def if_False\<close>)

lemma lost_run:
  assumes "lost i r nd" and "node_inv ok doms nd"
  shows "lost i r (snd (run_instance fl j kwargs nd))"
proof (rule run_instance_cases [of fl j kwargs nd])
  fix e assume "run_instance fl j kwargs nd = (Inl e, nd)"
  then show ?thesis using assms(1) by simp
next
  fix s assume s: "map_of (nd_instances nd) j = None" "run_instance fl j kwargs nd = (Inr (length (nd_deferreds nd)),
       nd\<lparr>nd_heap := nd_heap nd @ [s], nd_instances := dput j (length (nd_heap nd)) (nd_instances nd),
          nd_deferreds := nd_deferreds nd @ [Waiting],
          nd_jobs := nd_jobs nd @ [(length (nd_heap nd), length (nd_deferreds nd))]\<rparr>)"
  have "r < length (nd_heap nd)" using assms map_of_obj by (auto simp: lost_def)
  moreover have "j \<noteq> i" using s(1) assms(1) by (auto simp: lost_def)
  ultimately show ?thesis using assms(1) unfolding s(2) by (auto simp: lost_def obj_def nth_append)
qed

lemma lost_step:
  assumes "node_step fl hv nd nd'" and "lost i r nd" and "node_inv ok doms nd"
  shows "lost i r nd'"
  using assms(1)
proof cases
  case (Image_Lost k)
  show ?thesis unfolding Image_Lost
    by (rule lost_frame [OF assms(2)]) (use assms(2) in \<open>auto simp: lost_def obj_def dest: in_set_takeD in_set_dropD\<close>)
next
  case (Console j)
  then show ?thesis using assms(2) by (simp add: console_same)
next
  case Report
  obtain w where "nd' = nd\<lparr>nd_world := w\<rparr>" using report_same Report by blast
  then show ?thesis by (intro lost_same_parts [OF assms(2)]) simp_all
qed (use assms(2,3) lost_run lost_image_done lost_terminate lost_reboot lost_tick in auto)

lemma lost_reach:
  assumes "node_reach fl hv nd nd'" and "lost i r nd" and "node_inv ok doms nd"
  shows "lost i r nd' \<and> node_inv ok doms nd'"
  using assms(1) by (induction rule: rtranclp_induct) (use assms(2,3) lost_step step_inv in auto)

end

text \<open>C37: An instance that does not run, whose image is not being prepared and that no timer watches,
  which is what a failed launch leaves behind, stays in the list for ever: whatever
  happens to the node afterwards, it is listed, it has no domain, terminating it fails, rebooting it fails, and its
  identifier cannot be used again.\<close>

theorem lost_for_ever:
  assumes "virt_host hv ok doms" and "node_inv ok doms nd" and "lost i r nd" and "node_reach fl hv nd nd'"
  shows "map_of (nd_instances nd') i = Some r \<and> i \<notin> doms (nd_conn nd') \<and>
    (\<exists>e. fst (terminate_instance hv i nd') = Inl e) \<and> (\<exists>e. reboot_instance hv i nd' = (Inl e, nd')) \<and>
    (\<exists>e. run_instance fl i kwargs nd' = (Inl e, nd'))"
proof -
  have l: "lost i r nd'" and inv: "node_inv ok doms nd'"
    using virt_host.lost_reach [OF assms(1,4,3,2)] by blast+
  then have m: "map_of (nd_instances nd') i = Some r" "\<not> is_running (obj r nd')" by (simp_all add: lost_def)
  moreover have "i \<notin> doms (nd_conn nd')"
    by (rule virt_host.not_running_no_domain [OF assms(1) inv m(1)]) (use m(2) in \<open>simp add: is_running_def\<close>)
  ultimately show ?thesis
    using virt_host.terminate_stopped [OF assms(1) inv m] run_instance_refused [of nd' i fl kwargs]
    by (simp add: reboot_instance_def known_def bindS_def inst_reboot_def)
qed

text \<open>The example: the preparation of the image fails.\<close>

theorem lost_for_ever_witness:
  "\<exists>nd. node_reach demo_flags fake_hv demo_node nd \<and> nd_deferreds nd = [Failed IOError] \<and>
     (\<exists>e. fst (terminate_instance fake_hv ''i-1'' nd) = Inl e)"
proof -
  let ?kw = "[(''security_group'', JList [JStr ''web''])]"
  define nd1 where "nd1 = snd (run_instance demo_flags ''i-1'' ?kw demo_node)"
  define nd2 where "nd2 = image_done fake_hv 0 (Some IOError) nd1"
  have s: "node_step demo_flags fake_hv demo_node nd1" "node_step demo_flags fake_hv nd1 nd2"
    unfolding nd1_def nd2_def by (intro Run [OF demo_plain(1)] Image_Done; simp)+
  then have r: "node_reach demo_flags fake_hv demo_node nd2" by (meson converse_rtranclp_into_rtranclp r_into_rtranclp)
  have nd1: "nd1 = demo_node\<lparr>nd_heap := [demo_instance], nd_instances := [(''i-1'', 0)],
      nd_deferreds := [Waiting], nd_jobs := [(0, 0)]\<rparr>"
    using run_instance_new [OF demo_instance_init, of demo_node] by (simp add: nd1_def node_init_def)
  have "\<not> is_running demo_instance"
    using init_name_state(2) [OF demo_instance_init] by (simp add: is_running_def)
  then have l: "lost ''i-1'' 0 nd2" and d: "nd_deferreds nd2 = [Failed IOError]"
    unfolding nd2_def nd1 by (simp_all add: image_done_def launch_cases lost_def node_init_def obj_def settle_def)
  have inv: "node_inv conn_ok conn_names nd2" by (rule fake_host.reach_inv [OF r fake_host.init_inv [OF demo_conn]])
  show ?thesis
    using lost_for_ever [OF fake_host.virt_host_axioms inv l, of demo_flags nd2] r d by blast
qed

end
