(* ===== verification/IPy.thy ===== *)
theory IPy
  imports World
begin

text \<open>
  \<^verbatim>\<open>nova/contrib/IPy.py\<close>, as far as the network code uses it: the parser of
  addresses and of networks (prefix length, netmask, first-last range), the printer, indexing,
  length, membership, netmask and broadcast address, for both versions of the protocol. The
  lemmas at the end give the readings that the network code relies on: printing an IPv4 address
  and parsing it again gives it back, and so does the text of an aligned range.
\<close>

unbundle bit_operations_syntax

record ip =
  ip_int :: int
  ip_version :: int
  ip_prefixlen :: int

subsection \<open>Numerals in base 16\<close>

text \<open>The digits of \<^verbatim>\<open>hex(n)\<close> for \<^verbatim>\<open>n\<close> that is not negative.\<close>

function str_hex :: "int \<Rightarrow> string" where
  "str_hex n = (if n < 16 then [hex_digit (nat n)] else str_hex (n div 16) @ [hex_digit (nat (n mod 16))])"
  by pat_completeness auto
termination str_hex
  by (relation "measure nat") auto

declare str_hex.simps [simp del]

text \<open>\<^verbatim>\<open>"%04x" % n\<close>\<close>

definition hex4 :: "int \<Rightarrow> string" where
  "hex4 n = (let s = str_hex n in replicate (4 - length s) CHR ''0'' @ s)"

subsection \<open>Parsing an address\<close>

fun check_bytes :: "int list \<Rightarrow> unit res" where
  "check_bytes [] = Inr ()"
| "check_bytes (x # xs) = (if x > 255 \<or> x < 0 then Inl ValueError else check_bytes xs)"

text \<open>The branch of \<^verbatim>\<open>parseAddress\<close> that takes the text for dotted bytes, with missing
  bytes read as zero.\<close>

definition parse_dotted :: "string \<Rightarrow> (int \<times> int) res" where
  "parse_dotted s =
     (let bytes = py_split CHR ''.'' s in
      if length bytes > 4 then Inl ValueError
      else bindR (mapR py_long (bytes @ replicate (4 - length bytes) ''0'')) (\<lambda>bs.
           bindR (check_bytes bs) (\<lambda>_.
           Inr (push_bit 24 (bs ! 0) + push_bit 16 (bs ! 1) + push_bit 8 (bs ! 2) + bs ! 3, 4))))"

definition max128 :: int where "max128 = 0xffffffffffffffffffffffffffffffff"

definition parse_0x :: "string \<Rightarrow> (int \<times> int) res" where
  "parse_0x s = bindR (py_long16 (drop 2 s)) (\<lambda>ret.
     if ret > max128 then Inl ValueError
     else if ret < 0x100000000 then Inr (ret, 4) else Inr (ret, 6))"

text \<open>The branches for a text without a colon.\<close>

definition parse_plain :: "string \<Rightarrow> (int \<times> int) res" where
  "parse_plain s =
     (if length s = 32 then bindR (py_long16 s) (\<lambda>i. Inr (i, 6))
      else bindR (if CHR ''.'' \<in> set s then Inr True
                  else if length s < 4 then bindR (py_int s) (\<lambda>i. Inr (i < 256)) else Inr False)
        (\<lambda>dotted. if dotted then parse_dotted s
           else bindR (py_long s) (\<lambda>ret.
             if ret > max128 then Inl ValueError
             else if ret \<le> 0xffffffff then Inr (ret, 4) else Inr (ret, 6))))"

text \<open>The loop of \<^verbatim>\<open>_parseAddressIPv6\<close>, on the text from \<^verbatim>\<open>index\<close> on:
  the items before each colon and the position of the double colon.\<close>

function ipv6_items :: "string \<Rightarrow> string list \<Rightarrow> nat option \<Rightarrow> (string list \<times> nat option) res" where
  "ipv6_items text items fill_pos =
     (if text = [] then Inr (items, fill_pos)
      else if startswith text ''::'' then
        (if fill_pos \<noteq> None then Inl ValueError
         else ipv6_items (drop 2 text) items (Some (length items)))
      else if CHR '':'' \<in> set text then
        (let pre = takeWhile (\<lambda>c. c \<noteq> CHR '':'') text;
             rest = dropWhile (\<lambda>c. c \<noteq> CHR '':'') text;
             nxt = (if startswith rest ''::'' then rest else drop 1 rest) in
         if pre = [] then Inl ValueError
         else if nxt = [] then Inl ValueError
         else ipv6_items nxt (items @ [pre]) fill_pos)
      else Inr (items @ [text], fill_pos))"
  by pat_completeness auto

lemma length_dropWhile_less:
  assumes "takeWhile P xs \<noteq> []"
  shows "length (dropWhile P xs) < length xs"
proof -
  have "length (takeWhile P xs) + length (dropWhile P xs) = length xs"
    by (metis length_append takeWhile_dropWhile_id)
  moreover have "0 < length (takeWhile P xs)" using assms by simp
  ultimately show ?thesis by linarith
qed

termination ipv6_items
proof (relation "measure (\<lambda>(tx, _, _). length tx)")
  fix tx :: string and items :: "string list" and fill_pos :: "nat option" and pre rest nxt
  assume "pre = takeWhile (\<lambda>c. c \<noteq> CHR '':'') tx" "pre \<noteq> []"
    and rest: "rest = dropWhile (\<lambda>c. c \<noteq> CHR '':'') tx"
    and nxt: "nxt = (if startswith rest ''::'' then rest else drop 1 rest)"
  then have "length rest < length tx" using length_dropWhile_less by blast
  then show "((nxt, items @ [pre], fill_pos), (tx, items, fill_pos)) \<in> measure (\<lambda>(tx, _, _). length tx)"
    by (auto simp: nxt)
qed auto

declare ipv6_items.simps [simp del]

fun ipv6_value :: "int \<Rightarrow> string list \<Rightarrow> int res" where
  "ipv6_value v [] = Inr v"
| "ipv6_value v (x # xs) = (case py_int16 x of
      Inl e \<Rightarrow> Inl ValueError
    | Inr i \<Rightarrow> if 0 \<le> i \<and> i \<le> 0xffff then ipv6_value (push_bit 16 v + i) xs else Inl ValueError)"

text \<open>The last item may be a dotted IPv4 address; it has no colon.\<close>

definition ipv6_expand_v4 :: "string list \<Rightarrow> nat option \<Rightarrow> string list res" where
  "ipv6_expand_v4 items fill_pos =
     (if items \<noteq> [] \<and> CHR ''.'' \<in> set (last items) then
        if (case fill_pos of None \<Rightarrow> False | Some f \<Rightarrow> f > length items - 1) then Inl ValueError
        else bindR (if startswith (last items) ''0x'' then parse_0x (last items) else parse_plain (last items))
          (\<lambda>(v, _). Inr (butlast items @ [hex4 (drop_bit 16 v), hex4 (v AND 0xffff)]))
      else Inr items)"

definition ipv6_fill :: "string list \<Rightarrow> nat option \<Rightarrow> string list res" where
  "ipv6_fill items fill_pos = (case fill_pos of
      None \<Rightarrow> Inr items
    | Some f \<Rightarrow> if length items \<ge> 8 then Inl ValueError
        else Inr (take f items @ replicate (8 - length items) ''0'' @ drop f items))"

definition parseAddressIPv6 :: "string \<Rightarrow> int res" where
  "parseAddressIPv6 s =
     bindR (ipv6_items s [] None) (\<lambda>(items, fill_pos).
     bindR (ipv6_expand_v4 items fill_pos) (\<lambda>items.
     bindR (ipv6_fill items fill_pos) (\<lambda>items.
       if length items \<noteq> 8 then Inl ValueError else ipv6_value 0 items)))"

definition parseAddress :: "string \<Rightarrow> (int \<times> int) res" where
  "parseAddress s =
     (if startswith s ''0x'' then parse_0x s
      else if CHR '':'' \<in> set s then bindR (parseAddressIPv6 s) (\<lambda>i. Inr (i, 6))
      else parse_plain s)"

subsection \<open>Printing an address\<close>

fun v4_loop :: "nat \<Rightarrow> int \<Rightarrow> string \<Rightarrow> string" where
  "v4_loop 0 ip ret = ret"
| "v4_loop (Suc l) ip ret = v4_loop l (drop_bit 8 ip) (str_int (ip AND 0xff) @ ''.'' @ ret)"

text \<open>The loop over the last 32 hexadecimal digits, the last one first.\<close>

fun v6_loop :: "nat \<Rightarrow> nat \<Rightarrow> string \<Rightarrow> string \<Rightarrow> string" where
  "v6_loop 0 x l ret = ret"
| "v6_loop (Suc n) x l ret =
     (let ret = l ! (length l - x) # ret
      in v6_loop n (Suc x) l (if x mod 4 = 0 then CHR '':'' # ret else ret))"

definition intToIp :: "int \<Rightarrow> int \<Rightarrow> string res" where
  "intToIp ip version =
     (if ip < 0 then Inl ValueError
      else if version = 4 then
        (if ip > 0xffffffff then Inl ValueError else Inr (butlast (v4_loop 4 ip [])))
      else if version = 6 then
        (if ip > max128 then Inl ValueError
         else Inr (drop 1 (v6_loop 32 1 (replicate 32 CHR ''0'' @ str_hex ip) [])))
      else Inl ValueError)"

subsection \<open>Bits of masks\<close>

function count1Bits :: "int \<Rightarrow> int" where
  "count1Bits num = (if num > 0 then 1 + count1Bits (drop_bit 1 num) else 0)"
  by pat_completeness auto
termination count1Bits
  by (relation "measure nat") (auto simp: drop_bit_eq_div)

declare count1Bits.simps [simp del]

function count0Bits_loop :: "int \<Rightarrow> int" where
  "count0Bits_loop num =
     (if num > 0 then if num AND 1 = 1 then 0 else 1 + count0Bits_loop (drop_bit 1 num) else 0)"
  by pat_completeness auto
termination count0Bits_loop
  by (relation "measure nat") (auto simp: drop_bit_eq_div)

declare count0Bits_loop.simps [simp del]

definition count0Bits :: "int \<Rightarrow> int res" where
  "count0Bits num = (if num < 0 then Inl ValueError else Inr (count0Bits_loop num))"

text \<open>The two loops of \<^verbatim>\<open>_checkNetmask\<close>: drop the zero bits at the end, then only
  ones may remain.\<close>

fun drop_zero_bits :: "nat \<Rightarrow> int \<Rightarrow> int \<times> nat" where
  "drop_zero_bits 0 num = (num, 0)"
| "drop_zero_bits (Suc bits) num =
     (if num AND 1 = 0 then drop_zero_bits bits (drop_bit 1 num) else (num, Suc bits))"

fun only_ones :: "nat \<Rightarrow> int \<Rightarrow> bool" where
  "only_ones 0 num = True"
| "only_ones (Suc bits) num = (num AND 1 \<noteq> 0 \<and> only_ones bits (drop_bit 1 num))"

definition checkNetmask :: "int \<Rightarrow> int \<Rightarrow> unit res" where
  "checkNetmask netmask masklen =
     (let (num, bits) = drop_zero_bits (nat masklen) netmask
      in if only_ones bits num then Inr () else Inl ValueError)"

definition netmaskToPrefixlen :: "int \<Rightarrow> int res" where
  "netmaskToPrefixlen netmask =
     bindR (count0Bits netmask) (\<lambda>netlen.
     bindR (checkNetmask netmask (count1Bits netmask)) (\<lambda>_. Inr (count1Bits netmask - netlen)))"

definition ipVersionToLen :: "int \<Rightarrow> int res" where
  "ipVersionToLen version =
     (if version = 4 then Inr 32 else if version = 6 then Inr 128 else Inl ValueError)"

text \<open>A negative shift count is a \<^verbatim>\<open>ValueError\<close>.\<close>

definition prefixlenToNetmask :: "int \<Rightarrow> int \<Rightarrow> int res" where
  "prefixlenToNetmask prefixlen version =
     (if prefixlen = 0 then Inr 0
      else if prefixlen < 0 then Inl ValueError
      else bindR (ipVersionToLen version) (\<lambda>len.
        if len - prefixlen < 0 then Inl ValueError
        else Inr (push_bit (nat (len - prefixlen)) (push_bit (nat (prefixlen - 1)) 2 - 1))))"

definition checkNetaddrWorksWithPrefixlen :: "int \<Rightarrow> int \<Rightarrow> int \<Rightarrow> bool res" where
  "checkNetaddrWorksWithPrefixlen net prefixlen version =
     bindR (prefixlenToNetmask prefixlen version) (\<lambda>m. Inr (net AND m = net))"

subsection \<open>Address objects\<close>

text \<open>\<^verbatim>\<open>len\<close>; an object with a version other than 4 and 6 cannot be built.\<close>

definition ip_len :: "ip \<Rightarrow> int" where
  "ip_len a = 2 ^ nat ((if ip_version a = 4 then 32 else 128) - ip_prefixlen a)"

definition ip_of_int :: "int \<Rightarrow> ip" where
  "ip_of_int i =
     (if i < 0x100000000 then \<lparr>ip_int = i, ip_version = 4, ip_prefixlen = 32\<rparr>
      else \<lparr>ip_int = i, ip_version = 6, ip_prefixlen = 128\<rparr>)"

text \<open>\<^verbatim>\<open>IP.broadcast\<close>, \<^verbatim>\<open>IP.netmask\<close> and \<^verbatim>\<open>IP.__getitem__\<close>
  build their results from integers, and so guess the version from the size.\<close>

definition ip_broadcast :: "ip \<Rightarrow> ip" where
  "ip_broadcast a = ip_of_int (ip_int a + ip_len a - 1)"

definition ip_netmask :: "ip \<Rightarrow> ip" where
  "ip_netmask a = ip_of_int (push_bit (nat ((if ip_version a = 4 then 32 else 128) - ip_prefixlen a))
     (2 ^ nat (ip_prefixlen a) - 1))"

definition ip_getitem :: "ip \<Rightarrow> int \<Rightarrow> ip res" where
  "ip_getitem a key =
     bindR (if key < 0 then (if \<bar>key\<bar> \<le> ip_len a then Inr (ip_len a - \<bar>key\<bar>) else Inl IndexError)
            else if key \<ge> ip_len a then Inl IndexError else Inr key)
       (\<lambda>k. Inr (ip_of_int (ip_int a + k)))"

text \<open>\<^verbatim>\<open>__len__\<close>: \<^verbatim>\<open>len(a)\<close> must fit a signed machine word.\<close>

definition ip_dunder_len :: "ip \<Rightarrow> int res" where
  "ip_dunder_len a = (if ip_len a < 2 ^ 63 then Inr (ip_len a) else Inl (PyException ''OverflowError''))"

text \<open>
  The end of \<^verbatim>\<open>IPint.__init__\<close> for a string: the address is parsed, the version and
  the prefix length get their defaults, the prefix length (text or number) becomes a number, and the
  address must have no bits beyond it.
\<close>

definition init_finish :: "string \<Rightarrow> (string + int) option \<Rightarrow> int \<Rightarrow> int \<Rightarrow> bool \<Rightarrow> ip res" where
  "init_finish ip prefix netbits ipversion make_net =
     bindR (parseAddress ip) (\<lambda>(i, parsed).
     let version = (if ipversion = 0 then parsed else ipversion) in
     bindR (case prefix of
         None \<Rightarrow> if version = 4 then Inr (32 - netbits) else if version = 6 then Inr (128 - netbits)
           else Inl ValueError
       | Some (Inl s) \<Rightarrow> py_int s
       | Some (Inr n) \<Rightarrow> Inr n) (\<lambda>prefixlen.
     bindR (if make_net then bindR (prefixlenToNetmask prefixlen version) (\<lambda>m. Inr (i AND m)) else Inr i) (\<lambda>i.
     bindR (checkNetaddrWorksWithPrefixlen i prefixlen version) (\<lambda>ok.
       if ok then Inr \<lparr>ip_int = i, ip_version = version, ip_prefixlen = prefixlen\<rparr> else Inl ValueError))))"

text \<open>The branch for a text without a dash: at most one slash, before a prefix length or a
  dotted netmask.\<close>

definition init_slash :: "string \<Rightarrow> int \<Rightarrow> bool \<Rightarrow> ip res" where
  "init_slash data ipversion make_net = (case py_split CHR ''/'' data of
      [ip] \<Rightarrow> init_finish ip None 0 ipversion make_net
    | [ip, prefix] \<Rightarrow>
        if CHR ''.'' \<in> set prefix then
          bindR (parseAddress prefix) (\<lambda>(netmask, vers).
            if vers \<noteq> 4 then Inl ValueError
            else bindR (netmaskToPrefixlen netmask) (\<lambda>p. init_finish ip (Some (Inr p)) 0 ipversion make_net))
        else init_finish ip (Some (Inl prefix)) 0 ipversion make_net
    | _ \<Rightarrow> Inl ValueError)"

definition init_range :: "string \<Rightarrow> string \<Rightarrow> int \<Rightarrow> bool \<Rightarrow> ip res" where
  "init_range ip last_text ipversion make_net =
     bindR (parseAddress ip) (\<lambda>(i, parsed).
     if parsed \<noteq> 4 then Inl ValueError
     else bindR (parseAddress last_text) (\<lambda>(l, lastversion).
     if lastversion \<noteq> 4 then Inl ValueError
     else if l < i then Inl ValueError
     else let netbits = count1Bits (l - i) in
     bindR (init_slash (ip @ ''/'' @ str_int (32 - netbits)) 0 False) (\<lambda>a.
     if ip_int (ip_broadcast a) \<noteq> l then Inl ValueError
     else init_finish ip None netbits ipversion make_net)))"

definition IP_str :: "string \<Rightarrow> int \<Rightarrow> bool \<Rightarrow> ip res" where
  "IP_str data ipversion make_net = (case py_split CHR ''-'' data of
      [ip, l] \<Rightarrow> init_range ip l ipversion make_net
    | [_] \<Rightarrow> init_slash data ipversion make_net
    | _ \<Rightarrow> Inl ValueError)"

text \<open>\<^verbatim>\<open>IP(data)\<close>\<close>

abbreviation IP :: "string \<Rightarrow> ip res" where
  "IP data \<equiv> IP_str data 0 False"

text \<open>\<^verbatim>\<open>item in a\<close> for a text.\<close>

definition ip_contains :: "ip \<Rightarrow> string \<Rightarrow> bool res" where
  "ip_contains a item = bindR (IP item) (\<lambda>b.
     Inr (ip_int a \<le> ip_int b \<and> ip_int b < ip_int a + ip_len a - ip_len b + 1))"

subsection \<open>Texts of address objects\<close>

text \<open>\<^verbatim>\<open>_printPrefix\<close>, with the two attributes of the object at the values that the
  constructor gives them.\<close>

definition print_prefix :: "ip \<Rightarrow> nat option \<Rightarrow> string res" where
  "print_prefix a want =
     (let single = (ip_version a = 4 \<and> ip_prefixlen a = 32) \<or> (ip_version a = 6 \<and> ip_prefixlen a = 128);
          want = (if single then 0 else case want of None \<Rightarrow> 1 | Some n \<Rightarrow> n) in
      if want = 0 then Inr []
      else if want = 2 then
        bindR (intToIp (ip_int (ip_netmask a)) (ip_version a)) (\<lambda>s. Inr (''/'' @ s))
      else if want = 3 then
        bindR (intToIp (ip_int a + ip_len a - 1) (ip_version a)) (\<lambda>s. Inr (''-'' @ s))
      else Inr (''/'' @ str_int (ip_prefixlen a)))"

definition default_want :: "nat option \<Rightarrow> nat \<Rightarrow> nat option" where
  "default_want want d = (case want of None \<Rightarrow> Some d | Some n \<Rightarrow> Some n)"

definition strFullsize :: "ip \<Rightarrow> nat option \<Rightarrow> string res" where
  "strFullsize a want = bindR (intToIp (ip_int a) (ip_version a)) (\<lambda>s.
     bindR (print_prefix a (default_want want 1)) (\<lambda>p. Inr (lower s @ p)))"

definition hextets :: "ip \<Rightarrow> int list res" where
  "hextets a = bindR (strFullsize a (Some 0)) (\<lambda>s. mapR py_int16 (py_split CHR '':'' s))"

definition strNormal :: "ip \<Rightarrow> nat option \<Rightarrow> string res" where
  "strNormal a want =
     bindR (if ip_version a = 4 then strFullsize a (Some 0)
            else if ip_version a = 6 then
              bindR (hextets a) (\<lambda>hs. Inr (py_join '':'' (map str_hex hs)))
            else Inl ValueError) (\<lambda>s.
     bindR (print_prefix a (default_want want 1)) (\<lambda>p. Inr (s @ p)))"

fun countFollowingZeros :: "int list \<Rightarrow> nat" where
  "countFollowingZeros [] = 0"
| "countFollowingZeros (x # xs) = (if x \<noteq> 0 then 0 else 1 + countFollowingZeros xs)"

fun index_of :: "'a \<Rightarrow> 'a list \<Rightarrow> nat" where
  "index_of x [] = 0"
| "index_of x (y # ys) = (if y = x then 0 else Suc (index_of x ys))"

text \<open>The longest run of zero groups, cut out of the list of groups.\<close>

definition cut_zeros :: "nat \<Rightarrow> string list \<Rightarrow> string list" where
  "cut_zeros pos hs =
     (let hs = take pos hs @ dropWhile (\<lambda>h. h = ''0'') (drop pos hs);
          hs = take pos hs @ [] # drop pos hs;
          hs = (if pos + 1 \<ge> length hs then hs @ [[]] else hs)
      in if pos = 0 then [] # hs else hs)"

definition strCompressed :: "ip \<Rightarrow> nat option \<Rightarrow> string res" where
  "strCompressed a want =
     (let want = default_want want 1 in
      if ip_version a = 4 then strFullsize a want
      else if drop_bit 32 (ip_int a) = 0xffff then
        bindR (intToIp (ip_int a AND 0xffffffff) 4) (\<lambda>v4.
        bindR (print_prefix a want) (\<lambda>p. Inr (''::ffff:'' @ v4 @ p)))
      else bindR (hextets a) (\<lambda>hs.
        let zs = map (\<lambda>i. countFollowingZeros (drop i hs)) [0..<length hs];
            m = Max (set zs); pos = index_of m zs in
        if m > 1 then
          bindR (strNormal a (Some 0)) (\<lambda>s. bindR (print_prefix a want) (\<lambda>p.
            Inr (py_join '':'' (cut_zeros pos (py_split CHR '':'' s)) @ p)))
        else bindR (strNormal a (Some 0)) (\<lambda>s. bindR (print_prefix a want) (\<lambda>p. Inr (s @ p)))))"

text \<open>\<^verbatim>\<open>str(a)\<close>\<close>

definition ip_str :: "ip \<Rightarrow> string res" where
  "ip_str a = strCompressed a None"

subsection \<open>Printing and parsing IPv4\<close>

definition v4_text :: "nat \<Rightarrow> nat \<Rightarrow> nat \<Rightarrow> nat \<Rightarrow> string" where
  "v4_text a b c d = py_join ''.'' [str_nat a, str_nat b, str_nat c, str_nat d]"

definition v4_bytes :: "int \<Rightarrow> nat \<times> nat \<times> nat \<times> nat" where
  "v4_bytes i = (nat (i div 2 ^ 24), nat (i div 2 ^ 16 mod 256), nat (i div 2 ^ 8 mod 256), nat (i mod 256))"

lemma and_255: "(i::int) AND 255 = i mod 256"
  using take_bit_eq_mask [of 8 i] by (simp add: take_bit_eq_mod mask_eq_exp_minus_1)

lemma intToIp_v4:
  assumes "0 \<le> i" and "i < 2 ^ 32"
  shows "intToIp i 4 = (case v4_bytes i of (a, b, c, d) \<Rightarrow> Inr (v4_text a b c d))"
proof -
  have 1: "drop_bit 8 j = j div 256" "i div 256 div 256 = i div 2 ^ 16" "i div 2 ^ 16 div 256 = i div 2 ^ 24" for j :: int
    by (simp_all add: drop_bit_eq_div zdiv_zmult2_eq [symmetric])
  have 2: "i div 2 ^ 24 mod 256 = i div 2 ^ 24" using assms by (simp add: mod_pos_pos_trivial)
  have 3: "v4_loop 4 i [] = v4_loop (Suc (Suc (Suc (Suc 0)))) i []" by (simp add: eval_nat_numeral)
  have 4: "butlast (v4_loop 4 i []) = (case v4_bytes i of (a, b, c, d) \<Rightarrow> v4_text a b c d)"
    using assms unfolding 3
    by (simp only: v4_loop.simps 1 and_255 2) (simp add: v4_text_def v4_bytes_def str_int_nonneg butlast_append)
  show ?thesis using assms 4 by (simp add: intToIp_def case_prod_beta)
qed

lemma div_less_256: "i < 4294967296 \<Longrightarrow> (i::int) div 16777216 < 256"
  by presburger

lemma nat_mod_256: "nat ((i::int) mod 256) < 256"
  using pos_mod_bound [of 256 i] by linarith

lemma v4_bytes_bounds:
  assumes "0 \<le> i" and "i < 2 ^ 32" and "v4_bytes i = (a, b, c, d)"
  shows "a < 256" "b < 256" "c < 256" "d < 256"
    "i = 2 ^ 24 * int a + 2 ^ 16 * int b + 2 ^ 8 * int c + int d"
proof -
  have a: "a = nat (i div 2 ^ 24)" and b: "b = nat (i div 2 ^ 16 mod 256)"
    and c: "c = nat (i div 2 ^ 8 mod 256)" and d: "d = nat (i mod 256)"
    using assms(3) by (simp_all add: v4_bytes_def)
  have "i div 2 ^ 24 < 256" using assms(1,2) by (auto intro: div_less_256)
  then show "a < 256" using a assms(1) by simp
  show "b < 256" "c < 256" "d < 256" unfolding b c d by (rule nat_mod_256)+
  have n: "int a = i div 16777216" "int b = i div 65536 mod 256" "int c = i div 256 mod 256" "int d = i mod 256"
    unfolding a b c d using assms(1) by (auto simp: pos_imp_zdiv_nonneg_iff)
  have "i div 256 div 256 = i div 65536" "i div 65536 div 256 = i div 16777216"
    by (simp_all add: zdiv_zmult2_eq [symmetric])
  then have "i = 256 * (i div 256) + i mod 256"
      "i div 256 = 256 * (i div 65536) + i div 256 mod 256"
      "i div 65536 = 256 * (i div 16777216) + i div 65536 mod 256"
    using div_mult_mod_eq [of i 256] div_mult_mod_eq [of "i div 256" 256] div_mult_mod_eq [of "i div 65536" 256]
    by linarith+
  then have "i = 16777216 * (i div 16777216) + 65536 * (i div 65536 mod 256) + 256 * (i div 256 mod 256) + i mod 256"
    by linarith
  moreover have "(2::int) ^ 24 = 16777216" "(2::int) ^ 16 = 65536" "(2::int) ^ 8 = 256" by simp_all
  ultimately show "i = 2 ^ 24 * int a + 2 ^ 16 * int b + 2 ^ 8 * int c + int d"
    unfolding n by (simp only:)
qed

lemma v4_text_split: "py_split CHR ''.'' (v4_text a b c d) = [str_nat a, str_nat b, str_nat c, str_nat d]"
  unfolding v4_text_def by (rule py_split_join) (auto simp: str_nat_chars)

lemma v4_text_chars:
  "x \<in> set (v4_text a b c d) \<Longrightarrow> is_digit x \<or> x = CHR ''.''"
  using str_nat_digits by (auto simp: v4_text_def)

lemma parse_dotted_text:
  assumes "a < 256" "b < 256" "c < 256" "d < 256"
  shows "parse_dotted (v4_text a b c d) = Inr (2 ^ 24 * int a + 2 ^ 16 * int b + 2 ^ 8 * int c + int d, 4)"
  using assms by (simp add: parse_dotted_def v4_text_split push_bit_eq_mult)

lemma str_nat_short: "n < 256 \<Longrightarrow> length (str_nat n) \<le> 3"
proof -
  assume n: "n < 256"
  have 1: "k < 10 \<Longrightarrow> length (str_nat k) = 1" for k by (subst str_nat.simps) simp
  have 2: "k < 100 \<Longrightarrow> length (str_nat k) \<le> 2" for k
    using 1 [of "k div 10"] 1 [of k] by (subst str_nat.simps) simp
  show ?thesis using 2 [of "n div 10"] 1 [of n] n by (subst str_nat.simps) simp
qed

lemma parse_v4_text:
  assumes "a < 256" "b < 256" "c < 256" "d < 256"
  shows "parseAddress (v4_text a b c d) = Inr (2 ^ 24 * int a + 2 ^ 16 * int b + 2 ^ 8 * int c + int d, 4)"
proof -
  have "CHR ''x'' \<notin> set (v4_text a b c d)" "CHR '':'' \<notin> set (v4_text a b c d)"
    using v4_text_chars [of _ a b c d] digit_not_special by blast+
  moreover from this(1) have "\<not> startswith (v4_text a b c d) ''0x''" by (auto simp: startswith_iff)
  moreover have "length (v4_text a b c d) \<noteq> 32"
    using str_nat_short [OF assms(1)] str_nat_short [OF assms(2)] str_nat_short [OF assms(3)]
      str_nat_short [OF assms(4)] by (simp add: v4_text_def)
  moreover have "CHR ''.'' \<in> set (v4_text a b c d)" by (simp add: v4_text_def)
  ultimately show ?thesis
    using parse_dotted_text [OF assms] by (simp add: parseAddress_def parse_plain_def)
qed

definition v4_str :: "int \<Rightarrow> string" where
  "v4_str i = (case v4_bytes i of (a, b, c, d) \<Rightarrow> v4_text a b c d)"

lemma intToIp_v4_str: "0 \<le> i \<Longrightarrow> i < 2 ^ 32 \<Longrightarrow> intToIp i 4 = Inr (v4_str i)"
  by (simp add: intToIp_v4 v4_str_def case_prod_beta)

lemma parse_v4_str:
  "0 \<le> i \<Longrightarrow> i < 2 ^ 32 \<Longrightarrow> parseAddress (v4_str i) = Inr (i, 4)"
proof -
  assume i: "0 \<le> i" "i < 2 ^ 32"
  obtain a b c d where v: "v4_bytes i = (a, b, c, d)" by (cases "v4_bytes i") auto
  note w = v4_bytes_bounds [OF i v]
  show ?thesis using parse_v4_text [OF w(1-4)] unfolding w(5) [symmetric] by (simp add: v4_str_def v)
qed

lemma v4_str_inj:
  assumes "0 \<le> i" "i < 2 ^ 32" "0 \<le> j" "j < 2 ^ 32" "v4_str i = v4_str j"
  shows "i = j"
  using parse_v4_str [OF assms(1,2)] parse_v4_str [OF assms(3,4)] assms(5)
  by (metis prod.inject sum.inject(2))

lemma v4_str_chars:
  "x \<in> set (v4_str i) \<Longrightarrow> is_digit x \<or> x = CHR ''.''"
proof -
  assume x: "x \<in> set (v4_str i)"
  obtain a b c d where "v4_bytes i = (a, b, c, d)" by (cases "v4_bytes i") auto
  then show ?thesis using x v4_text_chars [of x a b c d] by (simp add: v4_str_def)
qed

lemma v4_str_plain: "CHR ''-'' \<notin> set (v4_str i)" "CHR ''/'' \<notin> set (v4_str i)"
  using v4_str_chars [of _ i] digit_not_special by blast+

lemma lower_v4_str [simp]: "lower (v4_str i) = v4_str i"
proof -
  have "to_lower x = x" if "x \<in> set (v4_str i)" for x
    using v4_str_chars [OF that] by (auto simp: to_lower_def is_upper_def is_digit_def)
  then show ?thesis by (simp add: map_idI)
qed

lemma ip_str_v4:
  assumes "0 \<le> i" "i < 2 ^ 32"
  shows "ip_str (ip_of_int i) = Inr (v4_str i)"
proof -
  have "intToIp i 4 = Inr (v4_str i)" using assms by (rule intToIp_v4_str)
  then show ?thesis
    using assms by (simp add: ip_str_def ip_of_int_def strCompressed_def strFullsize_def print_prefix_def Let_def)
qed

subsection \<open>Networks\<close>

lemma and_netmask_iff:
  "(i::int) AND push_bit k (2 ^ p - 1) = i \<longleftrightarrow> 0 \<le> i \<and> i < 2 ^ (k + p) \<and> 2 ^ k dvd i"
proof -
  have and_eq: "i AND push_bit k (2 ^ p - 1) = push_bit k (take_bit p (drop_bit k i))"
    by (rule bit_eqI)
      (auto simp: bit_and_iff bit_push_bit_iff bit_take_bit_iff bit_drop_bit_eq bit_mask_iff
        mask_eq_exp_minus_1 [symmetric])
  show ?thesis
  proof (cases "2 ^ k dvd i")
    case True
    then obtain j where j: "i = j * 2 ^ k" by (auto simp: dvd_def mult.commute)
    have "take_bit p j = j \<longleftrightarrow> 0 \<le> j \<and> j < 2 ^ p"
      by (simp add: take_bit_int_eq_self_iff)
    moreover have "0 \<le> i \<longleftrightarrow> 0 \<le> j" "i < 2 ^ (k + p) \<longleftrightarrow> j < 2 ^ p"
      by (simp_all add: j zero_le_mult_iff power_add mult.commute)
    ultimately show ?thesis
      unfolding and_eq by (simp add: j push_bit_eq_mult drop_bit_eq_div)
  next
    case False
    then show ?thesis unfolding and_eq by (metis dvd_triv_right push_bit_eq_mult)
  qed
qed

definition ip_bits :: "int \<Rightarrow> nat" where
  "ip_bits version = (if version = 4 then 32 else 128)"

definition ip_ok :: "ip \<Rightarrow> bool" where
  "ip_ok a \<longleftrightarrow> ip_version a \<in> {4, 6} \<and> 0 \<le> ip_prefixlen a \<and> ip_prefixlen a \<le> int (ip_bits (ip_version a)) \<and>
     0 \<le> ip_int a \<and> ip_int a + ip_len a \<le> 2 ^ ip_bits (ip_version a) \<and> ip_len a dvd ip_int a"

lemma check_net_iff:
  assumes "version \<in> {4, 6}"
  shows "checkNetaddrWorksWithPrefixlen i p version = Inr True \<longleftrightarrow>
    0 \<le> p \<and> p \<le> int (ip_bits version) \<and> 0 \<le> i \<and> i < 2 ^ ip_bits version \<and>
    2 ^ nat (int (ip_bits version) - p) dvd i"
proof -
  have len: "ipVersionToLen version = Inr (int (ip_bits version))"
    using assms by (auto simp: ipVersionToLen_def ip_bits_def)
  consider "p < 0" | "p = 0" | "0 < p" "p \<le> int (ip_bits version)" | "p > int (ip_bits version)" by linarith
  then show ?thesis
  proof cases
    case 2
    have "(0 = i) \<longleftrightarrow> (0 \<le> i \<and> i < 2 ^ ip_bits version \<and> 2 ^ ip_bits version dvd i)"
      using zdvd_imp_le [of "2 ^ ip_bits version" i] by force
    with 2 show ?thesis
      by (simp add: checkNetaddrWorksWithPrefixlen_def prefixlenToNetmask_def)
  next
    case 3
    have "push_bit (nat (p - 1)) (2::int) = 2 ^ nat p"
      using 3 by (simp add: push_bit_eq_mult power_Suc [symmetric] Suc_nat_eq_nat_zadd1 mult.commute del: power_Suc)
    moreover have "nat (int (ip_bits version) - p) + nat p = ip_bits version" using 3 by simp
    ultimately show ?thesis
      using 3 and_netmask_iff [of i "nat (int (ip_bits version) - p)" "nat p"]
      by (simp add: checkNetaddrWorksWithPrefixlen_def prefixlenToNetmask_def len)
  qed (auto simp: checkNetaddrWorksWithPrefixlen_def prefixlenToNetmask_def len)
qed

lemma pow_dvd_le:
  assumes "0 \<le> i" "i < 2 ^ n" "(2::int) ^ k dvd i" "k \<le> n"
  shows "i + 2 ^ k \<le> 2 ^ n"
proof -
  obtain j where j: "i = 2 ^ k * j" using assms(3) by (auto simp: dvd_def)
  have n: "(2::int) ^ n = 2 ^ k * 2 ^ (n - k)" using assms(4) by (simp add: power_add [symmetric])
  have "j < 2 ^ (n - k)" using assms(2) j n by simp
  then have "2 ^ k * (j + 1) \<le> 2 ^ k * (2::int) ^ (n - k)" by (intro mult_left_mono) auto
  then show ?thesis unfolding n j by (simp add: algebra_simps)
qed

lemma init_finish_iff:
  "init_finish s pre netbits v make_net = Inr a \<Longrightarrow> ip_version a \<in> {4, 6} \<Longrightarrow> ip_ok a"
proof -
  assume a: "init_finish s pre netbits v make_net = Inr a" and v: "ip_version a \<in> {4, 6}"
  have "checkNetaddrWorksWithPrefixlen (ip_int a) (ip_prefixlen a) (ip_version a) = Inr True"
    using a by (auto simp: init_finish_def Let_def split: if_splits)
  note c = this [unfolded check_net_iff [OF v]]
  have len: "ip_len a = 2 ^ nat (int (ip_bits (ip_version a)) - ip_prefixlen a)"
    by (simp add: ip_len_def ip_bits_def)
  have "nat (int (ip_bits (ip_version a)) - ip_prefixlen a) \<le> ip_bits (ip_version a)" using c by linarith
  then show ?thesis using c v pow_dvd_le unfolding ip_ok_def len by blast
qed

lemma parse_version: "parseAddress s = Inr (i, v) \<Longrightarrow> v \<in> {4, 6}"
  by (auto simp: parseAddress_def parse_0x_def parse_plain_def parse_dotted_def Let_def split: if_splits)

text \<open>Whatever text the constructor accepts, the object it builds is a network: the address
  has no bits beyond the prefix, and the whole network fits the version.\<close>

lemma init_finish_ok: "init_finish s pre netbits 0 make_net = Inr a \<Longrightarrow> ip_ok a"
proof -
  assume a: "init_finish s pre netbits 0 make_net = Inr a"
  then obtain i v where "parseAddress s = Inr (i, v)" "ip_version a = v"
    by (auto simp: init_finish_def Let_def case_prod_beta split: if_splits)
  then show ?thesis using a parse_version [of s i v] init_finish_iff by simp
qed

lemma IP_ok:
  assumes "IP s = Inr a"
  shows "ip_ok a"
proof -
  have slash: "init_slash t 0 mk = Inr b \<Longrightarrow> ip_ok b" for t mk b
    by (auto simp: init_slash_def split: list.splits if_splits intro: init_finish_ok)
  show ?thesis
    using assms
    by (auto simp: IP_str_def init_range_def Let_def split: list.splits if_splits
        intro: init_finish_ok slash)
qed

lemma count1Bits_pow: "count1Bits (2 ^ n - 1) = int n"
proof (induction n)
  case 0
  then show ?case by (subst count1Bits.simps) simp
next
  case (Suc n)
  have "drop_bit 1 (2 ^ Suc n - 1) = (2 ^ n - 1 :: int)" by (simp add: drop_bit_eq_div)
  moreover have "(0::int) < 2 ^ Suc n - 1" using one_less_power [of "2::int" "Suc n"] by simp
  ultimately show ?case using Suc by (subst count1Bits.simps) (simp del: power_Suc)
qed

lemma split_v4_str:
  "py_split CHR ''-'' (v4_str i @ CHR ''-'' # v4_str j) = [v4_str i, v4_str j]"
  "py_split CHR ''/'' (v4_str i @ CHR ''/'' # str_nat p) = [v4_str i, str_nat p]"
  "py_split CHR ''/'' (v4_str i) = [v4_str i]" "py_split CHR ''-'' (v4_str i) = [v4_str i]"
  using v4_str_plain str_nat_chars by (simp_all add: py_split_append_sep py_split_no_sep)

lemma init_finish_v4:
  assumes i: "0 \<le> i" "i < 2 ^ 32" and n: "n \<le> 32" "2 ^ n dvd i"
    and pre: "pre = None \<and> netbits = int n \<or> pre = Some (Inl t) \<and> py_int t = Inr (32 - int n)"
  shows "init_finish (v4_str i) pre netbits 0 False = Inr \<lparr>ip_int = i, ip_version = 4, ip_prefixlen = 32 - int n\<rparr>"
proof -
  have "checkNetaddrWorksWithPrefixlen i (32 - int n) 4 = Inr True"
    using i n by (subst check_net_iff) (auto simp: ip_bits_def)
  then show ?thesis
    using pre by (elim disjE) (simp_all add: init_finish_def parse_v4_str [OF i] Let_def)
qed

lemma IP_v4_str: "0 \<le> i \<Longrightarrow> i < 2 ^ 32 \<Longrightarrow> IP (v4_str i) = Inr (ip_of_int i)"
  using init_finish_v4 [where n = 0 and pre = None and netbits = 0]
  by (simp add: IP_str_def init_slash_def split_v4_str ip_of_int_def)

lemma IP_v4_slash:
  assumes "0 \<le> i" "i < 2 ^ 32" "n \<le> 32" "2 ^ n dvd i"
  shows "init_slash (v4_str i @ ''/'' @ str_nat (32 - n)) 0 False =
    Inr \<lparr>ip_int = i, ip_version = 4, ip_prefixlen = 32 - int n\<rparr>"
  using assms init_finish_v4 [where n = n and pre = "Some (Inl (str_nat (32 - n)))" and t = "str_nat (32 - n)"] str_nat_chars
  by (simp add: init_slash_def split_v4_str)

text \<open>The text \<^verbatim>\<open>first-last\<close> of an aligned block of \<open>2 ^ n\<close> addresses.\<close>

lemma IP_v4_range:
  assumes "0 \<le> i" "n \<le> 32" "i + 2 ^ n \<le> 2 ^ 32" "2 ^ n dvd i"
  shows "IP (v4_str i @ ''-'' @ v4_str (i + 2 ^ n - 1)) =
    Inr \<lparr>ip_int = i, ip_version = 4, ip_prefixlen = 32 - int n\<rparr>"
proof -
  have one: "(1::int) \<le> 2 ^ n" by simp
  then have b: "i < 2 ^ 32" "0 \<le> i + 2 ^ n - 1" "i + 2 ^ n - 1 < 2 ^ 32" using assms by linarith+
  have "count1Bits (i + 2 ^ n - 1 - i) = int n" using count1Bits_pow [of n] by (simp add: algebra_simps)
  moreover have "str_int (32 - int n) = str_nat (32 - n)"
    using assms(2) by (simp add: str_int_nonneg nat_diff_distrib')
  moreover have "ip_int (ip_broadcast \<lparr>ip_int = i, ip_version = 4, ip_prefixlen = 32 - int n\<rparr>) = i + 2 ^ n - 1"
    by (simp add: ip_broadcast_def ip_len_def ip_of_int_def)
  ultimately show ?thesis
    using one b assms(1,2,4) IP_v4_slash [of i n] init_finish_v4 [where i = i and n = n and pre = None and netbits = "int n"]
    by (simp add: IP_str_def split_v4_str init_range_def parse_v4_str Let_def not_less)
qed

lemma ip_getitem_v4:
  assumes "ip_ok a" "ip_version a = 4" "- ip_len a \<le> k" "k < ip_len a"
  shows "ip_getitem a k = Inr (ip_of_int (ip_int a + (if k < 0 then ip_len a + k else k)))"
  using assms by (auto simp: ip_getitem_def)

lemma ip_getitem_out: "k < - ip_len a \<or> ip_len a \<le> k \<Longrightarrow> ip_getitem a k = Inl IndexError"
  by (auto simp: ip_getitem_def ip_len_def)

lemma ip_len_pos [simp]: "0 < ip_len a"
  by (simp add: ip_len_def)

lemma ip_contains_v4:
  assumes "0 \<le> i" "i < 2 ^ 32"
  shows "ip_contains a (v4_str i) = Inr (ip_int a \<le> i \<and> i < ip_int a + ip_len a)"
proof -
  have "ip_int (ip_of_int i) = i" "ip_len (ip_of_int i) = 1" using assms by (simp_all add: ip_of_int_def ip_len_def)
  then show ?thesis using assms by (auto simp: ip_contains_def IP_v4_str)
qed

subsection \<open>Properties\<close>

text \<open>C36: Every IPv4 address prints as a text that parses back to it, both as an address and
  as an address object, whose own text it is.\<close>

theorem v4_print_parse:
  assumes "0 \<le> i" and "i < 2 ^ 32"
  shows "\<exists>s. intToIp i 4 = Inr s \<and> parseAddress s = Inr (i, 4) \<and> IP s = Inr (ip_of_int i) \<and>
    ip_str (ip_of_int i) = Inr s"
  using intToIp_v4_str [OF assms] parse_v4_str [OF assms] IP_v4_str [OF assms] ip_str_v4 [OF assms] by blast

theorem v4_print_parse_witness: "parseAddress (projr (intToIp 3325459584 4)) = Inr (3325459584, 4)"
  using v4_print_parse [of 3325459584] by auto

text \<open>Whatever text the constructor accepts, in any of its notations and in either
  version, the object is a network: version 4 or 6, a prefix length within the version, a first
  address that is a multiple of the size, and the whole network within the address space.\<close>

theorem constructor_gives_network:
  assumes "IP s = Inr a"
  shows "ip_version a \<in> {4, 6} \<and> 0 \<le> ip_prefixlen a \<and> ip_prefixlen a \<le> int (ip_bits (ip_version a)) \<and>
    0 \<le> ip_int a \<and> ip_int a + ip_len a \<le> 2 ^ ip_bits (ip_version a) \<and> ip_len a dvd ip_int a"
  using IP_ok [OF assms] by (simp add: ip_ok_def)

theorem constructor_gives_network_witness:
  "\<exists>a. IP ''198.10.124.128-198.10.124.191'' = Inr a \<and> ip_len a dvd ip_int a \<and> ip_int a + ip_len a \<le> 2 ^ 32"
proof -
  have "IP ''198.10.124.128-198.10.124.191'' = Inr \<lparr>ip_int = 3322576000, ip_version = 4, ip_prefixlen = 26\<rparr>"
    by code_simp
  from this constructor_gives_network [OF this] show ?thesis by (auto simp: ip_bits_def)
qed

end
