(* ===== verification/Datastore.thy ===== *)
theory Datastore
  imports World
begin

text \<open>
  \<^verbatim>\<open>nova/datastore.py\<close>: a keeper writes each item as JSON text into the file
  \<^verbatim>\<open>datastore_path/prefix item\<close>. Every read parses the file again, so two reads never
  share an object. The first part is the code, over text files and a JSON codec (which the
  repository does not contain, hence the two arguments); the second part is the store of
  values that the other components use, and the proof that the code implements it for every
  codec that reads back what it wrote.
\<close>

subsection \<open>The keeper over files\<close>

definition keeper_path :: "flags \<Rightarrow> string \<Rightarrow> string \<Rightarrow> string" where
  "keeper_path fl prefix item = datastore_path fl @ ''/'' @ prefix @ item"

definition keeper_getitem ::
  "('t \<Rightarrow> json res) \<Rightarrow> flags \<Rightarrow> string \<Rightarrow> (string \<rightharpoonup> 't) \<Rightarrow> string \<Rightarrow> json res" where
  "keeper_getitem deser fl prefix fs item =
     (case fs (keeper_path fl prefix item) of None \<Rightarrow> Inr JNull | Some t \<Rightarrow> deser t)"

definition keeper_setitem ::
  "(json \<Rightarrow> 't) \<Rightarrow> flags \<Rightarrow> string \<Rightarrow> string \<Rightarrow> json \<Rightarrow> (string \<rightharpoonup> 't) \<Rightarrow> (string \<rightharpoonup> 't)" where
  "keeper_setitem ser fl prefix item v fs = fs(keeper_path fl prefix item \<mapsto> ser v)"

definition keeper_delitem ::
  "flags \<Rightarrow> string \<Rightarrow> string \<Rightarrow> (string \<rightharpoonup> 't) \<Rightarrow> (string \<rightharpoonup> 't)" where
  "keeper_delitem fl prefix item fs =
     (if fs (keeper_path fl prefix item) \<noteq> None then fs(keeper_path fl prefix item := None) else fs)"

subsection \<open>The store of values\<close>

definition kget :: "string \<Rightarrow> kstore \<Rightarrow> string \<Rightarrow> json" where
  "kget prefix K item = (case K (prefix @ item) of None \<Rightarrow> JNull | Some v \<Rightarrow> v)"

definition kset :: "string \<Rightarrow> string \<Rightarrow> json \<Rightarrow> kstore \<Rightarrow> kstore" where
  "kset prefix item v K = K(prefix @ item \<mapsto> v)"

definition kdel :: "string \<Rightarrow> string \<Rightarrow> kstore \<Rightarrow> kstore" where
  "kdel prefix item K = K(prefix @ item := None)"

text \<open>The values that the text files of the datastore directory hold.\<close>

definition decode_store :: "('t \<Rightarrow> json res) \<Rightarrow> flags \<Rightarrow> (string \<rightharpoonup> 't) \<Rightarrow> kstore" where
  "decode_store deser fl fs = (\<lambda>k. case fs (datastore_path fl @ ''/'' @ k) of
      None \<Rightarrow> None
    | Some t \<Rightarrow> (case deser t of Inl e \<Rightarrow> None | Inr v \<Rightarrow> Some v))"

text \<open>Every file of the directory parses.\<close>

definition well_stored :: "('t \<Rightarrow> json res) \<Rightarrow> flags \<Rightarrow> (string \<rightharpoonup> 't) \<Rightarrow> bool" where
  "well_stored deser fl fs \<longleftrightarrow>
     (\<forall>k t. fs (datastore_path fl @ ''/'' @ k) = Some t \<longrightarrow> (\<exists>v. deser t = Inr v))"

lemma keeper_path_inj [simp]:
  "keeper_path fl p i = keeper_path fl q j \<longleftrightarrow> p @ i = q @ j"
  "datastore_path fl @ ''/'' @ k = keeper_path fl q j \<longleftrightarrow> k = q @ j"
  "datastore_path fl @ CHR ''/'' # k = keeper_path fl q j \<longleftrightarrow> k = q @ j"
  by (simp_all add: keeper_path_def)

lemma well_stored_set:
  assumes "\<And>v. deser (ser v) = Inr v" and "well_stored deser fl fs"
  shows "well_stored deser fl (keeper_setitem ser fl p i v fs)"
  using assms by (auto simp: well_stored_def keeper_setitem_def)

lemma well_stored_del:
  "well_stored deser fl fs \<Longrightarrow> well_stored deser fl (keeper_delitem fl p i fs)"
  by (auto simp: well_stored_def keeper_delitem_def)

lemma keeper_get_refines:
  "well_stored deser fl fs \<Longrightarrow>
   keeper_getitem deser fl p fs i = Inr (kget p (decode_store deser fl fs) i)"
  unfolding well_stored_def keeper_getitem_def kget_def decode_store_def keeper_path_def
  by (auto split: option.splits sum.splits) fastforce+

lemma keeper_set_refines:
  "(\<And>v. deser (ser v) = Inr v) \<Longrightarrow>
   decode_store deser fl (keeper_setitem ser fl p i v fs) = kset p i v (decode_store deser fl fs)"
  by (rule ext) (auto simp: decode_store_def keeper_setitem_def kset_def)

lemma keeper_del_refines:
  "decode_store deser fl (keeper_delitem fl p i fs) = kdel p i (decode_store deser fl fs)"
  by (rule ext) (auto simp: decode_store_def keeper_delitem_def kdel_def keeper_path_def)

subsection \<open>The interface of a keeper\<close>

text \<open>
  What the clients of one keeper rely on: \<^verbatim>\<open>KEEPER[k]\<close> is the value last
  written and not deleted since, and \<^verbatim>\<open>None\<close> otherwise.
\<close>

locale keeper =
  fixes get :: "'s \<Rightarrow> string \<Rightarrow> json"
    and put :: "string \<Rightarrow> json \<Rightarrow> 's \<Rightarrow> 's"
    and del :: "string \<Rightarrow> 's \<Rightarrow> 's"
  assumes get_put: "get (put k v s) k' = (if k' = k then v else get s k')"
    and get_del: "get (del k s) k' = (if k' = k then JNull else get s k')"
begin

lemma get_put_same: "get (put k v s) k = v"
  by (simp add: get_put)

lemma get_put_other: "k' \<noteq> k \<Longrightarrow> get (put k v s) k' = get s k'"
  by (simp add: get_put)

lemma put_put: "get (put k v (put k u s)) k' = get (put k v s) k'"
  by (simp add: get_put)

lemma put_then_del: "get (del k (put k v s)) k' = get (del k s) k'"
  by (simp add: get_put get_del)

text \<open>Writes to distinct keys commute for every reader.\<close>

lemma put_commute: "i \<noteq> j \<Longrightarrow> get (put i v (put j u s)) k = get (put j u (put i v s)) k"
  by (simp add: get_put)

text \<open>A sequence of writes leaves each key with the last value written to it.\<close>

lemma get_fold_put:
  "get (fold (\<lambda>(k, v). put k v) kvs s) k =
   (case map_of (rev kvs) k of None \<Rightarrow> get s k | Some v \<Rightarrow> v)"
proof (induction kvs arbitrary: s)
  case (Cons kv kvs)
  then show ?case
    by (cases kv) (auto simp: get_put map_add_def split: option.splits)
qed simp

end

interpretation keep: keeper "kget p" "kset p" "kdel p" for p
  by unfold_locales (simp_all add: kget_def kset_def kdel_def)

lemmas keeper_simps [simp] = keep.get_put keep.get_del

text \<open>Keepers whose prefixes start differently never touch each other's items.\<close>

lemma kget_other_prefix:
  assumes "p \<noteq> []" and "q \<noteq> []" and "hd p \<noteq> hd q"
  shows "kget p (kset q i v K) k = kget p K k" and "kget p (kdel q i K) k = kget p K k"
proof -
  have "p @ k \<noteq> q @ i" using assms by (cases p; cases q) auto
  then show "kget p (kset q i v K) k = kget p K k" and "kget p (kdel q i K) k = kget p K k"
    by (simp_all add: kget_def kset_def kdel_def)
qed

text \<open>The prefixes of the program's four keepers.\<close>

abbreviation net_prefix :: string where "net_prefix \<equiv> ''net''"
abbreviation user_prefix :: string where "user_prefix \<equiv> ''user''"
abbreviation ldap_prefix :: string where "ldap_prefix \<equiv> ''fakeldap''"
abbreviation storage_prefix :: string where "storage_prefix \<equiv> ''storage''"

lemma keepers_independent [simp]:
  "kget ''user'' (kset ''net'' i v K) k = kget ''user'' K k"
  "kget ''fakeldap'' (kset ''net'' i v K) k = kget ''fakeldap'' K k"
  "kget ''storage'' (kset ''net'' i v K) k = kget ''storage'' K k"
  "kget ''user'' (kdel ''net'' i K) k = kget ''user'' K k"
  "kget ''fakeldap'' (kdel ''net'' i K) k = kget ''fakeldap'' K k"
  "kget ''net'' (kset ''user'' i v K) k = kget ''net'' K k"
  "kget ''fakeldap'' (kset ''user'' i v K) k = kget ''fakeldap'' K k"
  "kget ''net'' (kset ''fakeldap'' i v K) k = kget ''net'' K k"
  "kget ''user'' (kset ''fakeldap'' i v K) k = kget ''user'' K k"
  "kget ''fakeldap'' (kset ''storage'' i v K) k = kget ''fakeldap'' K k"
  by (simp_all add: kget_other_prefix)

subsection \<open>A run of writes and deletions\<close>

datatype keeper_op = Set_Item string string json | Del_Item string string

primrec file_op :: "(json \<Rightarrow> 't) \<Rightarrow> flags \<Rightarrow> keeper_op \<Rightarrow> (string \<rightharpoonup> 't) \<Rightarrow> (string \<rightharpoonup> 't)" where
  "file_op ser fl (Set_Item p i v) fs = keeper_setitem ser fl p i v fs"
| "file_op ser fl (Del_Item p i) fs = keeper_delitem fl p i fs"

primrec store_op :: "keeper_op \<Rightarrow> kstore \<Rightarrow> kstore" where
  "store_op (Set_Item p i v) K = kset p i v K"
| "store_op (Del_Item p i) K = kdel p i K"

lemma file_ops_refine:
  assumes "\<And>v. deser (ser v) = Inr v" and "well_stored deser fl fs"
  shows "well_stored deser fl (fold (file_op ser fl) ops fs) \<and>
    decode_store deser fl (fold (file_op ser fl) ops fs) = fold store_op ops (decode_store deser fl fs)"
  using assms(2)
proof (induction ops arbitrary: fs)
  case (Cons op ops)
  have "well_stored deser fl (file_op ser fl op fs)"
    using assms(1) Cons.prems by (cases op) (simp_all add: well_stored_set well_stored_del)
  moreover have "decode_store deser fl (file_op ser fl op fs) = store_op op (decode_store deser fl fs)"
    using assms(1) by (cases op) (simp_all add: keeper_set_refines keeper_del_refines)
  ultimately show ?case using Cons.IH by simp
qed simp



end
