(* ===== verification/FakeLdap.thy ===== *)
theory FakeLdap
  imports Datastore
begin

text \<open>
  \<^verbatim>\<open>nova/auth/fakeldap.py\<close>: the directory the program uses with
  \<^verbatim>\<open>fake_users\<close>, one dictionary from distinguished names to attribute
  dictionaries kept as the item \<^verbatim>\<open>objects\<close> of its keeper.
\<close>

type_synonym attrs = "(string, string list) dict"
type_synonym objs = "(string, attrs) dict"

definition attrs_json :: "attrs \<Rightarrow> json" where
  "attrs_json a = JDict (map (\<lambda>(k, vs). (k, JList (map JStr vs))) a)"

definition json_attrs :: "json \<Rightarrow> attrs res" where
  "json_attrs j = bindR (jdict j) (mapR (\<lambda>(k, v).
     bindR (jlist v) (\<lambda>l. bindR (mapR jstr l) (\<lambda>ss. Inr (k, ss)))))"

definition objs_json :: "objs \<Rightarrow> json" where
  "objs_json d = JDict (map (\<lambda>(cn, a). (cn, attrs_json a)) d)"

definition json_objs :: "json \<Rightarrow> objs res" where
  "json_objs j = bindR (jdict j) (mapR (\<lambda>(cn, v). bindR (json_attrs v) (\<lambda>a. Inr (cn, a))))"

lemma json_attrs_inv [simp]: "json_attrs (attrs_json a) = Inr a"
  by (auto simp: json_attrs_def attrs_json_def mapR_id intro!: mapR_id)

lemma json_objs_inv [simp]: "json_objs (objs_json d) = Inr d"
  by (auto simp: json_objs_def objs_json_def intro!: mapR_id)

text \<open>The module's start: \<^verbatim>\<open>if KEEPER['objects'] is None: KEEPER['objects'] = {}\<close>.\<close>

definition fakeldap_module :: "kstore \<Rightarrow> kstore" where
  "fakeldap_module K =
     (if kget ldap_prefix K ''objects'' = JNull then kset ldap_prefix ''objects'' (objs_json []) K else K)"

definition load_objects :: "kstore \<Rightarrow> objs res" where
  "load_objects K = json_objs (kget ldap_prefix K ''objects'')"

definition save_objects :: "objs \<Rightarrow> kstore \<Rightarrow> kstore" where
  "save_objects d K = kset ldap_prefix ''objects'' (objs_json d) K"

text \<open>
  \<^verbatim>\<open>search_s(dn, scope, query)\<close>. Without a query the name
  \<^verbatim>\<open>objects\<close> is never bound; a query that is not of the form
  \<^verbatim>\<open>(k=v)\<close> with one equals sign does not unpack.
\<close>

definition search_s :: "kstore \<Rightarrow> string \<Rightarrow> string option \<Rightarrow> objs res" where
  "search_s K dn query =
     bindR (load_objects K) (\<lambda>d.
       let filtered = filter (\<lambda>(cn, a). last_slice cn (length dn) = dn) d in
       case query of
         None \<Rightarrow> Inl NameError
       | Some q \<Rightarrow>
           if q = [] then Inl NameError
           else (case py_split CHR ''='' (butlast (tl q)) of
               [k, v] \<Rightarrow>
                 (let objects = filter (\<lambda>(cn, a).
                        case map_of a k of None \<Rightarrow> False | Some vs \<Rightarrow> v \<in> set vs) filtered
                  in if objects = [] then Inl NO_SUCH_OBJECT else Inr objects)
             | _ \<Rightarrow> Inl ValueError))"

text \<open>\<^verbatim>\<open>add_s\<close> does not look whether the name exists; the attributes come as a
  list of pairs whose values are lists.\<close>

definition add_s :: "string \<Rightarrow> attrs \<Rightarrow> (kstore, unit) act" where
  "add_s cn attr = (\<lambda>K. case load_objects K of
      Inl e \<Rightarrow> (Inl e, K)
    | Inr d \<Rightarrow> (Inr (), save_objects (dput cn (fold (\<lambda>(k, v). dput k v) attr []) d) K))"

definition delete_s :: "string \<Rightarrow> (kstore, unit) act" where
  "delete_s cn = (\<lambda>K. case load_objects K of
      Inl e \<Rightarrow> (Inl e, K)
    | Inr d \<Rightarrow> (if has_key d cn then (Inr (), save_objects (ddel cn d) K) else (Inl KeyError, K)))"

lemma load_save [simp]: "load_objects (save_objects d K) = Inr d"
  by (simp add: load_objects_def save_objects_def)

lemma save_save [simp]: "save_objects d (save_objects d' K) = save_objects d K"
  by (simp add: save_objects_def kset_def)

lemma kget_save_other [simp]:
  "kget ''net'' (save_objects d K) k = kget ''net'' K k"
  "kget ''user'' (save_objects d K) k = kget ''user'' K k"
  by (simp_all add: save_objects_def)

lemma load_other_keeper [simp]:
  "load_objects (kset ''net'' i v K) = load_objects K"
  "load_objects (kdel ''net'' i K) = load_objects K"
  "load_objects (kset ''user'' i v K) = load_objects K"
  "load_objects (kset ''storage'' i v K) = load_objects K"
  by (simp_all add: load_objects_def)

lemma search_other_keeper [simp]:
  "search_s (kset ''net'' i v K) dn q = search_s K dn q"
  "search_s (kdel ''net'' i K) dn q = search_s K dn q"
  "search_s (kset ''user'' i v K) dn q = search_s K dn q"
  by (simp_all add: search_s_def)

text \<open>A search for one class reads the entries below a name that carry the class.\<close>

lemma search_s_query:
  assumes "load_objects K = Inr d" and "CHR ''='' \<notin> set k" and "CHR ''='' \<notin> set v"
  shows "search_s K dn (Some (''('' @ k @ ''='' @ v @ '')'')) =
    (let objects = filter (\<lambda>(cn, a). last_slice cn (length dn) = dn \<and>
           (case map_of a k of None \<Rightarrow> False | Some vs \<Rightarrow> v \<in> set vs)) d
     in if objects = [] then Inl NO_SUCH_OBJECT else Inr objects)"
proof -
  have "py_split CHR ''='' (k @ CHR ''='' # v) = [k, v]"
    using assms(2,3) by (simp add: py_split_append_sep py_split_no_sep)
  moreover have "butlast (tl (''('' @ k @ ''='' @ v @ '')'')) = k @ CHR ''='' # v"
    by (simp add: butlast_append)
  moreover have "(\<lambda>x. (case x of (cn, a) \<Rightarrow> case map_of a k of None \<Rightarrow> False | Some vs \<Rightarrow> v \<in> set vs) \<and>
        (case x of (cn, a) \<Rightarrow> last_slice cn (length dn) = dn)) =
      (\<lambda>(cn, a). last_slice cn (length dn) = dn \<and>
        (case map_of a k of None \<Rightarrow> False | Some vs \<Rightarrow> v \<in> set vs))"
    by (auto simp: fun_eq_iff)
  ultimately show ?thesis
    using assms(1) by (simp add: search_s_def Let_def conj_commute)
qed

end
