(* ===== verification/Access.thy ===== *)
theory Access
  imports Prelude
begin

text \<open>
  \<^verbatim>\<open>nova/auth/access.py\<close>: the rule of an action is the module function
  \<^verbatim>\<open>allow_\<close> followed by the action's name; an action without a rule is a missing
  key of \<^verbatim>\<open>globals()\<close>. No rule looks at its arguments.
\<close>

definition access_rules :: "(string, bool) dict" where
  "access_rules =
    [(''allow_describe_images'', True),
     (''allow_describe_instances'', True),
     (''allow_describe_addresses'', True),
     (''allow_run_instances'', True),
     (''allow_terminate_instances'', True),
     (''allow_get_console_output'', True),
     (''allow_allocate_address'', True),
     (''allow_associate_address'', True),
     (''allow_register'', False)]"

text \<open>\<^verbatim>\<open>'allow_%s' % action\<close>, where the default action is \<^verbatim>\<open>None\<close>.\<close>

definition rule_name :: "string option \<Rightarrow> string" where
  "rule_name action = ''allow_'' @ (case action of None \<Rightarrow> ''None'' | Some a \<Rightarrow> a)"

definition is_allowed :: "string option \<Rightarrow> bool res" where
  "is_allowed action = dget access_rules (rule_name action)"

lemma is_allowed_None [simp]: "is_allowed None = Inl KeyError"
  by (simp add: is_allowed_def rule_name_def access_rules_def)

lemma is_allowed_register: "is_allowed (Some ''register'') = Inr False"
  by (simp add: is_allowed_def rule_name_def access_rules_def dget_def)

end
