(* ===== verification/Users.thy ===== *)
theory Users
  imports FakeLdap Access
begin

text \<open>
  \<^verbatim>\<open>nova/auth/users.py\<close> over the directory of \<^verbatim>\<open>fakeldap.py\<close>: the wrapper
  that turns directory entries into users and key pairs, the user manager, and what a user
  object decides itself (authorization, the VPN port). The state is the datastore.
\<close>

record user =
  u_id :: string
  u_name :: string
  u_access :: string
  u_secret :: string
  u_admin :: bool

record key_pair =
  kp_owner :: string
  kp_name :: string
  kp_public_key :: string
  kp_fingerprint :: string

subsection \<open>The directory wrapper\<close>

definition user_dn :: "flags \<Rightarrow> string \<Rightarrow> string" where
  "user_dn fl name = ''uid='' @ name @ '','' @ ldap_subtree fl"

definition key_dn :: "flags \<Rightarrow> string \<Rightarrow> string \<Rightarrow> string" where
  "key_dn fl key_name uid = ''cn='' @ key_name @ '',uid='' @ uid @ '','' @ ldap_subtree fl"

text \<open>\<^verbatim>\<open>find_objects\<close> catches every exception of the search.\<close>

definition find_objects :: "kstore \<Rightarrow> string \<Rightarrow> string option \<Rightarrow> attrs list" where
  "find_objects K dn query = (case search_s K dn query of Inl e \<Rightarrow> [] | Inr res \<Rightarrow> map snd res)"

definition find_object :: "kstore \<Rightarrow> string \<Rightarrow> string option \<Rightarrow> attrs option" where
  "find_object K dn query = (case find_objects K dn query of [] \<Rightarrow> None | x # _ \<Rightarrow> Some x)"

definition attr0 :: "attrs \<Rightarrow> string \<Rightarrow> string res" where
  "attr0 a k = bindR (dget a k) (\<lambda>vs. case vs of [] \<Rightarrow> Inl IndexError | v # _ \<Rightarrow> Inr v)"

definition attrs_user :: "attrs \<Rightarrow> user res" where
  "attrs_user a =
     bindR (attr0 a ''uid'') (\<lambda>i. bindR (attr0 a ''accessKey'') (\<lambda>acc.
     bindR (attr0 a ''secretKey'') (\<lambda>sec. bindR (attr0 a ''isAdmin'') (\<lambda>adm.
       Inr \<lparr>u_id = i, u_name = i, u_access = acc, u_secret = sec, u_admin = (adm = ''TRUE'')\<rparr>))))"

fun to_user :: "attrs option \<Rightarrow> user option res" where
  "to_user None = Inr None"
| "to_user (Some a) = bindR (attrs_user a) (\<lambda>u. Inr (Some u))"

definition attrs_key_pair :: "string \<Rightarrow> attrs \<Rightarrow> key_pair res" where
  "attrs_key_pair owner a =
     bindR (attr0 a ''cn'') (\<lambda>n. bindR (attr0 a ''sshPublicKey'') (\<lambda>pub.
     bindR (attr0 a ''keyFingerprint'') (\<lambda>fp.
       Inr \<lparr>kp_owner = owner, kp_name = n, kp_public_key = pub, kp_fingerprint = fp\<rparr>)))"

fun to_key_pair :: "string \<Rightarrow> attrs option \<Rightarrow> key_pair option res" where
  "to_key_pair owner None = Inr None"
| "to_key_pair owner (Some a) = bindR (attrs_key_pair owner a) (\<lambda>k. Inr (Some k))"

definition find_users :: "flags \<Rightarrow> kstore \<Rightarrow> user list res" where
  "find_users fl K = mapR attrs_user (find_objects K (ldap_subtree fl) (Some ''(objectclass=novaUser)''))"

definition find_user :: "flags \<Rightarrow> kstore \<Rightarrow> string \<Rightarrow> user option res" where
  "find_user fl K name = to_user (find_object K (user_dn fl name) (Some ''(objectclass=novaUser)''))"

definition user_exists :: "flags \<Rightarrow> kstore \<Rightarrow> string \<Rightarrow> bool res" where
  "user_exists fl K name = bindR (find_user fl K name) (\<lambda>u. Inr (u \<noteq> None))"

definition find_key_pairs :: "flags \<Rightarrow> kstore \<Rightarrow> string \<Rightarrow> key_pair list res" where
  "find_key_pairs fl K uid =
     mapR (attrs_key_pair uid) (find_objects K (user_dn fl uid) (Some ''(objectclass=novaKeyPair)''))"

definition find_key_pair :: "flags \<Rightarrow> kstore \<Rightarrow> string \<Rightarrow> string \<Rightarrow> key_pair option res" where
  "find_key_pair fl K uid key_name =
     to_key_pair uid (find_object K (key_dn fl key_name uid) (Some ''(objectclass=novaKeyPair)''))"

definition key_pair_exists :: "flags \<Rightarrow> kstore \<Rightarrow> string \<Rightarrow> string \<Rightarrow> bool res" where
  "key_pair_exists fl K uid key_name = bindR (find_key_pair fl K uid key_name) (\<lambda>k. Inr (k \<noteq> None))"

definition find_user_by_access_key :: "flags \<Rightarrow> kstore \<Rightarrow> string \<Rightarrow> user option res" where
  "find_user_by_access_key fl K access =
     to_user (find_object K (ldap_subtree fl) (Some (''(accessKey='' @ access @ '')'')))"

definition user_attrs :: "flags \<Rightarrow> string \<Rightarrow> string \<Rightarrow> string \<Rightarrow> bool \<Rightarrow> attrs" where
  "user_attrs fl name access_key secret_key is_admin =
    [(''objectclass'', [''person'', ''organizationalPerson'', ''inetOrgPerson'', ''novaUser'']),
     (''ou'', [user_unit fl]),
     (''uid'', [name]),
     (''sn'', [name]),
     (''cn'', [name]),
     (''secretKey'', [secret_key]),
     (''accessKey'', [access_key]),
     (''isAdmin'', [if is_admin then ''TRUE'' else ''FALSE''])]"

definition key_attrs :: "string \<Rightarrow> string \<Rightarrow> string \<Rightarrow> attrs" where
  "key_attrs key_name public_key fingerprint =
    [(''objectclass'', [''novaKeyPair'']),
     (''cn'', [key_name]),
     (''sshPublicKey'', [public_key]),
     (''keyFingerprint'', [fingerprint])]"

definition ldap_create_user ::
  "flags \<Rightarrow> string \<Rightarrow> string \<Rightarrow> string \<Rightarrow> bool \<Rightarrow> (kstore, user) act" where
  "ldap_create_user fl name access_key secret_key is_admin =
     bindS (\<lambda>K. (user_exists fl K name, K)) (\<lambda>ex.
       if ex then raiseS (UserError (''LDAP user '' @ name @ '' already exists'') ''Unknown'')
       else bindS (add_s (user_dn fl name) (user_attrs fl name access_key secret_key is_admin)) (\<lambda>_.
         liftR (attrs_user (user_attrs fl name access_key secret_key is_admin))))"

definition ldap_create_key_pair ::
  "flags \<Rightarrow> string \<Rightarrow> string \<Rightarrow> string \<Rightarrow> string \<Rightarrow> (kstore, key_pair) act" where
  "ldap_create_key_pair fl uid key_name public_key fingerprint =
     bindS (add_s (key_dn fl key_name uid) (key_attrs key_name public_key fingerprint)) (\<lambda>_.
       liftR (attrs_key_pair uid (key_attrs key_name public_key fingerprint)))"

definition ldap_delete_key_pair :: "flags \<Rightarrow> string \<Rightarrow> string \<Rightarrow> (kstore, unit) act" where
  "ldap_delete_key_pair fl uid key_name =
     bindS (\<lambda>K. (key_pair_exists fl K uid key_name, K)) (\<lambda>ex.
       if \<not> ex then raiseS (UserError (''Key Pair '' @ key_name @ '' doesn't exist for user '' @ uid) ''Unknown'')
       else delete_s (key_dn fl key_name uid))"

definition ldap_delete_key_pairs :: "flags \<Rightarrow> string \<Rightarrow> (kstore, unit) act" where
  "ldap_delete_key_pairs fl uid =
     bindS (\<lambda>K. (find_key_pairs fl K uid, K)) (\<lambda>ks.
       forS ks (\<lambda>k. ldap_delete_key_pair fl uid (kp_name k)))"

definition ldap_delete_user :: "flags \<Rightarrow> string \<Rightarrow> (kstore, unit) act" where
  "ldap_delete_user fl name =
     bindS (\<lambda>K. (user_exists fl K name, K)) (\<lambda>ex.
       if \<not> ex then raiseS (UserError (''User '' @ name @ '' doesn't exist'') ''Unknown'')
       else bindS (ldap_delete_key_pairs fl name) (\<lambda>_. delete_s (user_dn fl name)))"

subsection \<open>The user manager\<close>

text \<open>
  Each call opens a wrapper and delegates. \<^verbatim>\<open>create_user\<close> draws missing keys with
  \<^verbatim>\<open>uuid4\<close>: the two values it would draw are an argument.
\<close>

definition get_user :: "flags \<Rightarrow> kstore \<Rightarrow> string \<Rightarrow> user option res" where
  "get_user fl K uid = find_user fl K uid"

definition get_user_from_access_key :: "flags \<Rightarrow> kstore \<Rightarrow> string \<Rightarrow> user option res" where
  "get_user_from_access_key fl K access_key = find_user_by_access_key fl K access_key"

definition get_users :: "flags \<Rightarrow> kstore \<Rightarrow> user list res" where
  "get_users fl K = find_users fl K"

definition create_user ::
  "flags \<Rightarrow> string \<times> string \<Rightarrow> string \<Rightarrow> string option \<Rightarrow> string option \<Rightarrow> bool \<Rightarrow> (kstore, user) act" where
  "create_user fl uuids uid access secret admin =
     ldap_create_user fl uid (case access of None \<Rightarrow> fst uuids | Some a \<Rightarrow> a)
       (case secret of None \<Rightarrow> snd uuids | Some s \<Rightarrow> s) admin"

definition delete_user :: "flags \<Rightarrow> string \<Rightarrow> (kstore, unit) act" where
  "delete_user fl uid = ldap_delete_user fl uid"

definition create_key_pair ::
  "flags \<Rightarrow> string \<Rightarrow> string \<Rightarrow> string \<Rightarrow> string \<Rightarrow> (kstore, key_pair) act" where
  "create_key_pair fl uid key_name public_key fingerprint =
     ldap_create_key_pair fl uid key_name public_key fingerprint"

definition get_key_pair :: "flags \<Rightarrow> kstore \<Rightarrow> string \<Rightarrow> string \<Rightarrow> key_pair option res" where
  "get_key_pair fl K uid key_name = find_key_pair fl K uid key_name"

definition get_key_pairs :: "flags \<Rightarrow> kstore \<Rightarrow> string \<Rightarrow> key_pair list res" where
  "get_key_pairs fl K uid = find_key_pairs fl K uid"

definition delete_key_pair :: "flags \<Rightarrow> string \<Rightarrow> string \<Rightarrow> (kstore, unit) act" where
  "delete_key_pair fl uid key_name = ldap_delete_key_pair fl uid key_name"

text \<open>
  The key material comes from \<^verbatim>\<open>ssh-keygen\<close>
  (\<^verbatim>\<open>crypto.generate_key_pair\<close>): private key, public key and fingerprint are an
  argument.
\<close>

definition generate_key_pair ::
  "flags \<Rightarrow> string \<times> string \<times> string \<Rightarrow> string \<Rightarrow> string \<Rightarrow> (kstore, string \<times> string) act" where
  "generate_key_pair fl crypto uid key_name =
     bindS (\<lambda>K. (user_exists fl K uid, K)) (\<lambda>ue.
       if \<not> ue then raiseS (UserError (''User '' @ uid @ '' doesn't exist'') ''Unknown'')
       else bindS (\<lambda>K. (key_pair_exists fl K uid key_name, K)) (\<lambda>ke.
         if ke then raiseS (InvalidKeyPair (''The keypair '' @ [CHR 0x27] @ key_name @ [CHR 0x27] @ '' already exists.'') ''Duplicate'')
         else (case crypto of (private_key, public_key, fingerprint) \<Rightarrow>
           bindS (create_key_pair fl uid key_name public_key fingerprint) (\<lambda>_.
             retS (private_key, fingerprint)))))"

text \<open>\<^verbatim>\<open>UserManager.__init__\<close>: the three accounts of a fake directory, each
  exception ending the attempt.\<close>

definition user_manager_init :: "flags \<Rightarrow> kstore \<Rightarrow> kstore" where
  "user_manager_init fl K =
     (if fake_users fl then
        snd (bindS (create_user fl ([], []) ''fake'' (Some ''fake'') (Some ''fake'') False) (\<lambda>_.
             bindS (create_user fl ([], []) ''user'' (Some ''user'') (Some ''user'') False) (\<lambda>_.
             create_user fl ([], []) ''admin'' (Some ''admin'') (Some ''admin'') True)) K)
      else K)"

text \<open>\<^verbatim>\<open>has_role\<close> and \<^verbatim>\<open>add_role\<close> look the group up as the flag
  \<^verbatim>\<open>ldap_\<close>role and then ask the wrapper, whose membership test is a stub.\<close>

definition ldap_flag_names :: "string list" where
  "ldap_flag_names = [''url'', ''password'', ''subtree'', ''sysadmin'', ''netadmin'', ''cloudadmin'', ''itsec'']"

definition manager_has_role :: "string \<Rightarrow> bool res" where
  "manager_has_role role = (if role \<in> set ldap_flag_names then Inr True else Inl KeyError)"

subsection \<open>The user object\<close>

text \<open>\<^verbatim>\<open>User.has_role\<close> passes the global name \<^verbatim>\<open>user\<close>, which the
  module does not define.\<close>

definition user_has_role :: "user \<Rightarrow> string \<Rightarrow> bool res" where
  "user_has_role u role = Inl NameError"

definition is_authorized :: "user \<Rightarrow> string option \<Rightarrow> string option \<Rightarrow> bool res" where
  "is_authorized u owner_id action =
     (if u_admin u \<or> owner_id = Some (u_id u) then Inr True else is_allowed action)"

definition ports_json :: "(string, int) dict \<Rightarrow> json" where
  "ports_json d = JDict (map (\<lambda>(k, p). (k, JInt p)) d)"

definition json_ports :: "json \<Rightarrow> (string, int) dict res" where
  "json_ports j = (if \<not> truthy j then Inr []
     else bindR (jdict j) (mapR (\<lambda>(k, v). bindR (jint v) (\<lambda>p. Inr (k, p)))))"

definition load_ports :: "kstore \<Rightarrow> (string, int) dict res" where
  "load_ports K = json_ports (kget user_prefix K ''vpn_ports'')"

definition next_port :: "(string, int) dict \<Rightarrow> int" where
  "next_port d = (if d = [] then 8000 else Max (set (vals d)) + 1)"

text \<open>\<^verbatim>\<open>User.vpn_port\<close>: a user without a port gets the one after the largest.\<close>

definition vpn_port :: "string \<Rightarrow> (kstore, int) act" where
  "vpn_port uid = (\<lambda>K. case load_ports K of
      Inl e \<Rightarrow> (Inl e, K)
    | Inr d \<Rightarrow>
        (let d' = (if has_key d uid then d else dput uid (next_port d) d);
             K' = kset user_prefix ''vpn_ports'' (ports_json d') K
         in (bindR (load_ports K') (\<lambda>m. dget m uid), K')))"

subsection \<open>Names in the directory\<close>

text \<open>
  A search matches the end of a distinguished name, so the lemmas about it need names
  without an equals sign: then the end of a name is the whole name it was built from.
\<close>

definition name_ok :: "string \<Rightarrow> bool" where
  "name_ok n \<longleftrightarrow> CHR ''='' \<notin> set n"

lemma append_Cons_first:
  "c \<notin> set xs \<Longrightarrow> c \<notin> set ys \<Longrightarrow> xs @ c # u = ys @ c # v \<longleftrightarrow> xs = ys \<and> u = v"
proof (induction xs arbitrary: ys)
  case Nil
  then show ?case by (cases ys) auto
next
  case (Cons x xs)
  then show ?case by (cases ys) auto
qed

lemma append_Cons_last:
  assumes "c \<notin> set a" and "c \<notin> set b"
  shows "x @ c # a = y @ c # b \<longleftrightarrow> x = y \<and> a = b"
proof -
  have "x @ c # a = y @ c # b \<longleftrightarrow> rev (x @ c # a) = rev (y @ c # b)"
    by (simp only: rev_is_rev_conv)
  also have "\<dots> \<longleftrightarrow> rev a = rev b \<and> rev x = rev y"
    using assms append_Cons_first [of c "rev a" "rev b" "rev x" "rev y"] by simp
  finally show ?thesis by auto
qed

lemma user_dn_nonempty [simp]: "user_dn fl n \<noteq> []" "key_dn fl k n \<noteq> []"
  by (simp_all add: user_dn_def key_dn_def)

lemma dn_suffix:
  "user_dn fl b = t @ user_dn fl a \<longleftrightarrow> ''uid'' @ CHR ''='' # b = (t @ ''uid'') @ CHR ''='' # a"
  "key_dn fl k b = t @ user_dn fl a \<longleftrightarrow>
     (''cn='' @ k @ '',uid'') @ CHR ''='' # b = (t @ ''uid'') @ CHR ''='' # a"
  "key_dn fl l b = t @ key_dn fl k a \<longleftrightarrow>
     (''cn='' @ l @ '',uid'') @ CHR ''='' # b = (t @ ''cn='' @ k @ '',uid'') @ CHR ''='' # a"
proof -
  let ?s = "'','' @ ldap_subtree fl"
  have u: "t @ user_dn fl n = ((t @ ''uid'') @ CHR ''='' # n) @ ?s" for t n
    by (simp add: user_dn_def)
  have k: "t @ key_dn fl m n = ((t @ ''cn='' @ m @ '',uid'') @ CHR ''='' # n) @ ?s" for t m n
    by (simp add: key_dn_def)
  show "user_dn fl b = t @ user_dn fl a \<longleftrightarrow> ''uid'' @ CHR ''='' # b = (t @ ''uid'') @ CHR ''='' # a"
    using u [of "[]" b] u [of t a] by (metis append_Nil append_same_eq)
  show "key_dn fl k b = t @ user_dn fl a \<longleftrightarrow>
     (''cn='' @ k @ '',uid'') @ CHR ''='' # b = (t @ ''uid'') @ CHR ''='' # a"
    using k [of "[]" k b] u [of t a] by (metis append_Nil append_same_eq)
  show "key_dn fl l b = t @ key_dn fl k a \<longleftrightarrow>
     (''cn='' @ l @ '',uid'') @ CHR ''='' # b = (t @ ''cn='' @ k @ '',uid'') @ CHR ''='' # a"
    using k [of "[]" l b] k [of t k a] by (metis append_Nil append_same_eq)
qed

lemma key_suffix:
  "''cn='' @ l @ '',uid'' = t @ ''cn='' @ k @ '',uid'' \<longleftrightarrow>
   ''cn'' @ CHR ''='' # l = (t @ ''cn'') @ CHR ''='' # k"
proof -
  have k: "t @ ''cn='' @ k @ '',uid'' = ((t @ ''cn'') @ CHR ''='' # k) @ '',uid''" for t k
    by simp
  show ?thesis using k [of "[]" l] k [of t k] by (metis append_Nil append_same_eq)
qed

lemma user_dn_suffix_user:
  assumes "name_ok a" and "name_ok b"
  shows "last_slice (user_dn fl b) (length (user_dn fl a)) = user_dn fl a \<longleftrightarrow> a = b"
proof -
  have "(\<exists>t. user_dn fl b = t @ user_dn fl a) \<longleftrightarrow>
      (\<exists>t. ''uid'' @ CHR ''='' # b = (t @ ''uid'') @ CHR ''='' # a)"
    by (simp only: dn_suffix)
  also have "\<dots> \<longleftrightarrow> (\<exists>t. ''uid'' = t @ ''uid'' \<and> b = a)"
    by (simp only: append_Cons_last [OF assms(2,1) [unfolded name_ok_def]])
  finally show ?thesis by (simp add: last_slice_eq_iff) auto
qed

lemma user_dn_suffix_key:
  assumes "name_ok a" and "name_ok b"
  shows "last_slice (key_dn fl k b) (length (user_dn fl a)) = user_dn fl a \<longleftrightarrow> a = b"
proof -
  have "(\<exists>t. key_dn fl k b = t @ user_dn fl a) \<longleftrightarrow>
      (\<exists>t. (''cn='' @ k @ '',uid'') @ CHR ''='' # b = (t @ ''uid'') @ CHR ''='' # a)"
    by (simp only: dn_suffix)
  also have "\<dots> \<longleftrightarrow> (\<exists>t. ''cn='' @ k @ '',uid'' = t @ ''uid'' \<and> b = a)"
    by (simp only: append_Cons_last [OF assms(2,1) [unfolded name_ok_def]])
  also have "\<dots> \<longleftrightarrow> b = a"
    by (metis append_Cons append_Nil append_assoc)
  finally show ?thesis by (simp add: last_slice_eq_iff) auto
qed

lemma key_dn_suffix_key:
  assumes "name_ok a" and "name_ok b" and "name_ok k" and "name_ok l"
  shows "last_slice (key_dn fl l b) (length (key_dn fl k a)) = key_dn fl k a \<longleftrightarrow> a = b \<and> k = l"
proof -
  have "(\<exists>t. key_dn fl l b = t @ key_dn fl k a) \<longleftrightarrow>
      (\<exists>t. (''cn='' @ l @ '',uid'') @ CHR ''='' # b = (t @ ''cn='' @ k @ '',uid'') @ CHR ''='' # a)"
    by (simp only: dn_suffix)
  also have "\<dots> \<longleftrightarrow> (\<exists>t. ''cn='' @ l @ '',uid'' = t @ ''cn='' @ k @ '',uid'' \<and> b = a)"
    by (simp only: append_Cons_last [OF assms(2,1) [unfolded name_ok_def]])
  also have "\<dots> \<longleftrightarrow> (\<exists>t. ''cn'' @ CHR ''='' # l = (t @ ''cn'') @ CHR ''='' # k \<and> b = a)"
    by (simp only: key_suffix)
  also have "\<dots> \<longleftrightarrow> (\<exists>t. ''cn'' = t @ ''cn'' \<and> l = k \<and> b = a)"
    by (simp only: append_Cons_last [OF assms(4,3) [unfolded name_ok_def]] conj_ac)
  finally show ?thesis by (simp add: last_slice_eq_iff) auto
qed

lemma user_dn_inj [simp]: "user_dn fl a = user_dn fl b \<longleftrightarrow> a = b"
  by (simp add: user_dn_def)

lemma user_dn_key_dn [simp]: "user_dn fl a \<noteq> key_dn fl k b" "key_dn fl k b \<noteq> user_dn fl a"
  by (simp_all add: user_dn_def key_dn_def)

lemma key_dn_inj:
  "name_ok a \<Longrightarrow> name_ok b \<Longrightarrow> name_ok k \<Longrightarrow> name_ok l \<Longrightarrow>
   key_dn fl k a = key_dn fl l b \<longleftrightarrow> a = b \<and> k = l"
  using key_dn_suffix_key [of a b k l fl] last_slice_append [of "key_dn fl k a" "[]"] by force

subsection \<open>What the directory holds\<close>

definition user_entry :: "flags \<Rightarrow> string \<Rightarrow> attrs \<Rightarrow> bool" where
  "user_entry fl cn a \<longleftrightarrow>
     (\<exists>n acc sec adm. name_ok n \<and> cn = user_dn fl n \<and> a = user_attrs fl n acc sec adm)"

definition key_entry :: "flags \<Rightarrow> string \<Rightarrow> attrs \<Rightarrow> bool" where
  "key_entry fl cn a \<longleftrightarrow>
     (\<exists>k n pub fp. name_ok k \<and> name_ok n \<and> cn = key_dn fl k n \<and> a = key_attrs k pub fp)"

definition ldap_ok :: "flags \<Rightarrow> objs \<Rightarrow> bool" where
  "ldap_ok fl d \<longleftrightarrow> distinct (keys d) \<and> (\<forall>(cn, a) \<in> set d. user_entry fl cn a \<or> key_entry fl cn a)"

text \<open>The abstract directory: the user of a name, the key pair of a user and a name.\<close>

definition dir_user :: "flags \<Rightarrow> objs \<Rightarrow> string \<Rightarrow> user option" where
  "dir_user fl d n = (case map_of d (user_dn fl n) of None \<Rightarrow> None
     | Some a \<Rightarrow> (case attrs_user a of Inl e \<Rightarrow> None | Inr u \<Rightarrow> Some u))"

definition dir_key :: "flags \<Rightarrow> objs \<Rightarrow> string \<Rightarrow> string \<Rightarrow> key_pair option" where
  "dir_key fl d n k = (case map_of d (key_dn fl k n) of None \<Rightarrow> None
     | Some a \<Rightarrow> (case attrs_key_pair n a of Inl e \<Rightarrow> None | Inr u \<Rightarrow> Some u))"

definition mk_user :: "string \<Rightarrow> string \<Rightarrow> string \<Rightarrow> bool \<Rightarrow> user" where
  "mk_user n acc sec adm = \<lparr>u_id = n, u_name = n, u_access = acc, u_secret = sec, u_admin = adm\<rparr>"

lemma attrs_user_user_attrs [simp]: "attrs_user (user_attrs fl n acc sec adm) = Inr (mk_user n acc sec adm)"
  by (simp add: attrs_user_def attr0_def user_attrs_def dget_def mk_user_def)

lemma attrs_key_pair_key_attrs [simp]:
  "attrs_key_pair u (key_attrs k pub fp) =
   Inr \<lparr>kp_owner = u, kp_name = k, kp_public_key = pub, kp_fingerprint = fp\<rparr>"
  by (simp add: attrs_key_pair_def attr0_def key_attrs_def dget_def)

lemma fold_dput_attrs [simp]:
  "fold (\<lambda>(k, v). dput k v) (user_attrs fl n acc sec adm) [] = user_attrs fl n acc sec adm"
  "fold (\<lambda>(k, v). dput k v) (key_attrs k pub fp) [] = key_attrs k pub fp"
  by (simp_all add: user_attrs_def key_attrs_def)

lemma classes [simp]:
  "map_of (user_attrs fl n acc sec adm) ''objectclass'' =
     Some [''person'', ''organizationalPerson'', ''inetOrgPerson'', ''novaUser'']"
  "map_of (key_attrs k pub fp) ''objectclass'' = Some [''novaKeyPair'']"
  by (simp_all add: user_attrs_def key_attrs_def)

lemma ldap_ok_empty: "ldap_ok fl []"
  by (simp add: ldap_ok_def)

lemma ldap_ok_distinct: "ldap_ok fl d \<Longrightarrow> distinct (keys d)"
  by (simp add: ldap_ok_def)

lemma ldap_ok_put:
  "ldap_ok fl d \<Longrightarrow> user_entry fl cn a \<or> key_entry fl cn a \<Longrightarrow> ldap_ok fl (dput cn a d)"
  unfolding ldap_ok_def by (auto dest!: in_set_dput)

lemma ldap_ok_del: "ldap_ok fl d \<Longrightarrow> ldap_ok fl (ddel cn d)"
  unfolding ldap_ok_def by (auto simp: AList.delete_eq distinct_map_filter)

lemma ldap_ok_entry:
  "ldap_ok fl d \<Longrightarrow> map_of d cn = Some a \<Longrightarrow> user_entry fl cn a \<or> key_entry fl cn a"
  by (auto simp: ldap_ok_def dest: map_of_SomeD)

lemma ldap_ok_user:
  assumes "ldap_ok fl d" and "map_of d (user_dn fl n) = Some a"
  shows "\<exists>acc sec adm. a = user_attrs fl n acc sec adm"
  using ldap_ok_entry [OF assms] by (auto simp: user_entry_def key_entry_def)

lemma ldap_ok_key:
  assumes "ldap_ok fl d" and "map_of d (key_dn fl k n) = Some a" and "name_ok k" and "name_ok n"
  shows "\<exists>pub fp. a = key_attrs k pub fp"
  using ldap_ok_entry [OF assms(1,2)] assms(3,4)
  by (fastforce simp: user_entry_def key_entry_def key_dn_inj)

lemma dir_user_iff:
  "ldap_ok fl d \<Longrightarrow> dir_user fl d n = None \<longleftrightarrow> map_of d (user_dn fl n) = None"
  by (auto simp: dir_user_def split: option.splits sum.splits dest: ldap_ok_user)

lemma dir_key_iff:
  "ldap_ok fl d \<Longrightarrow> name_ok k \<Longrightarrow> name_ok n \<Longrightarrow> dir_key fl d n k = None \<longleftrightarrow> map_of d (key_dn fl k n) = None"
  by (auto simp: dir_key_def split: option.splits sum.splits dest: ldap_ok_key)

subsection \<open>Lookups\<close>

lemma find_objects_user:
  assumes "load_objects K = Inr d" and ok: "ldap_ok fl d" and n: "name_ok n"
  shows "find_objects K (user_dn fl n) (Some ''(objectclass=novaUser)'') =
    (case map_of d (user_dn fl n) of None \<Rightarrow> [] | Some a \<Rightarrow> [a])"
proof -
  let ?Q = "\<lambda>a. case map_of a ''objectclass'' of None \<Rightarrow> False | Some vs \<Rightarrow> ''novaUser'' \<in> set vs"
  have "filter (\<lambda>(cn, a). last_slice cn (length (user_dn fl n)) = user_dn fl n \<and> ?Q a) d =
      filter (\<lambda>(cn, a). cn = user_dn fl n \<and> True) d"
    using ok n
    by (intro filter_cong refl) (fastforce simp: ldap_ok_def user_entry_def key_entry_def user_dn_suffix_user)
  then show ?thesis
    using assms(1) search_s_query [of K d "''objectclass''" "''novaUser''" "user_dn fl n"]
      filter_key_distinct [OF ldap_ok_distinct [OF ok], of "user_dn fl n" "\<lambda>_. True"]
    by (auto simp: find_objects_def Let_def split: option.splits)
qed

lemma find_user_spec:
  assumes "load_objects K = Inr d" and "ldap_ok fl d" and "name_ok n"
  shows "find_user fl K n = Inr (dir_user fl d n)"
  using assms ldap_ok_user [OF assms(2), of n]
  by (auto simp: find_user_def find_object_def find_objects_user dir_user_def split: option.splits)

lemma find_objects_keys:
  assumes "load_objects K = Inr d" and ok: "ldap_ok fl d" and n: "name_ok n"
  shows "set (find_objects K (user_dn fl n) (Some ''(objectclass=novaKeyPair)'')) =
    {a. \<exists>k. name_ok k \<and> map_of d (key_dn fl k n) = Some a}"
proof -
  let ?Q = "\<lambda>a. case map_of a ''objectclass'' of None \<Rightarrow> False | Some vs \<Rightarrow> ''novaKeyPair'' \<in> set vs"
  let ?F = "filter (\<lambda>(cn, a). last_slice cn (length (user_dn fl n)) = user_dn fl n \<and> ?Q a) d"
  have "find_objects K (user_dn fl n) (Some ''(objectclass=novaKeyPair)'') = map snd ?F"
    using assms(1) search_s_query [of K d "''objectclass''" "''novaKeyPair''" "user_dn fl n"]
    by (auto simp: find_objects_def Let_def)
  moreover have "snd ` set ?F = {a. \<exists>k. name_ok k \<and> map_of d (key_dn fl k n) = Some a}"
    using ok n
    by (fastforce simp: ldap_ok_def user_entry_def key_entry_def user_dn_suffix_key image_iff)
  ultimately show ?thesis by simp
qed

lemma find_objects_key:
  assumes "load_objects K = Inr d" and ok: "ldap_ok fl d" and n: "name_ok n" "name_ok k"
  shows "find_objects K (key_dn fl k n) (Some ''(objectclass=novaKeyPair)'') =
    (case map_of d (key_dn fl k n) of None \<Rightarrow> [] | Some a \<Rightarrow> [a])"
proof -
  let ?Q = "\<lambda>a. case map_of a ''objectclass'' of None \<Rightarrow> False | Some vs \<Rightarrow> ''novaKeyPair'' \<in> set vs"
  have "filter (\<lambda>(cn, a). last_slice cn (length (key_dn fl k n)) = key_dn fl k n \<and> ?Q a) d =
      filter (\<lambda>(cn, a). cn = key_dn fl k n \<and> True) d"
    using ok n
    by (intro filter_cong refl)
      (fastforce simp: ldap_ok_def user_entry_def key_entry_def key_dn_suffix_key key_dn_inj)
  then show ?thesis
    using assms(1) search_s_query [of K d "''objectclass''" "''novaKeyPair''" "key_dn fl k n"]
      filter_key_distinct [OF ldap_ok_distinct [OF ok], of "key_dn fl k n" "\<lambda>_. True"]
    by (auto simp: find_objects_def Let_def split: option.splits)
qed

lemma find_key_pair_spec:
  assumes "load_objects K = Inr d" and "ldap_ok fl d" and "name_ok n" and "name_ok k"
  shows "find_key_pair fl K n k = Inr (dir_key fl d n k)"
  using assms ldap_ok_key [OF assms(2) _ assms(4,3)]
  by (auto simp: find_key_pair_def find_object_def find_objects_key dir_key_def split: option.splits)

subsection \<open>Changes of the directory\<close>

definition users_inv :: "flags \<Rightarrow> kstore \<Rightarrow> bool" where
  "users_inv fl K \<longleftrightarrow> (\<exists>d. load_objects K = Inr d \<and> ldap_ok fl d)"

lemma users_inv_init: "users_inv fl (fakeldap_module Map.empty)"
proof -
  have "kget ldap_prefix Map.empty ''objects'' = JNull" by (simp add: kget_def)
  then show ?thesis
    by (simp add: users_inv_def fakeldap_module_def load_objects_def ldap_ok_empty)
qed

lemma get_user_spec:
  "load_objects K = Inr d \<Longrightarrow> ldap_ok fl d \<Longrightarrow> name_ok n \<Longrightarrow> get_user fl K n = Inr (dir_user fl d n)"
  by (simp add: get_user_def find_user_spec)

lemma dir_user_put [simp]:
  "dir_user fl (dput (user_dn fl n) (user_attrs fl n acc sec adm) d) m =
     (if m = n then Some (mk_user n acc sec adm) else dir_user fl d m)"
  "dir_user fl (dput (key_dn fl k n) a d) m = dir_user fl d m"
  by (simp_all add: dir_user_def)

lemma dir_user_del [simp]:
  "dir_user fl (ddel (user_dn fl n) d) m = (if m = n then None else dir_user fl d m)"
  "dir_user fl (ddel (key_dn fl k n) d) m = dir_user fl d m"
  by (simp_all add: dir_user_def)

lemma create_user_new:
  assumes "load_objects K = Inr d" and "ldap_ok fl d" and "name_ok n" and "dir_user fl d n = None"
  shows "ldap_create_user fl n acc sec adm K =
    (Inr (mk_user n acc sec adm), save_objects (dput (user_dn fl n) (user_attrs fl n acc sec adm) d) K)"
  using assms by (simp add: ldap_create_user_def bindS_def user_exists_def find_user_spec add_s_def)

lemma create_user_again:
  assumes "load_objects K = Inr d" and "ldap_ok fl d" and "name_ok n" and "dir_user fl d n \<noteq> None"
  shows "ldap_create_user fl n acc sec adm K =
    (Inl (UserError (''LDAP user '' @ n @ '' already exists'') ''Unknown''), K)"
  using assms by (auto simp: ldap_create_user_def bindS_def user_exists_def find_user_spec)

lemma find_key_pairs_spec:
  assumes load: "load_objects K = Inr d" and ok: "ldap_ok fl d" and n: "name_ok n"
  shows "\<exists>ks. find_key_pairs fl K n = Inr ks \<and> distinct (map kp_name ks) \<and>
    (\<forall>k \<in> set ks. name_ok (kp_name k) \<and> map_of d (key_dn fl (kp_name k) n) \<noteq> None) \<and>
    (\<forall>k. name_ok k \<longrightarrow> map_of d (key_dn fl k n) \<noteq> None \<longrightarrow> k \<in> kp_name ` set ks)"
proof -
  let ?Q = "\<lambda>a. case map_of a ''objectclass'' of None \<Rightarrow> False | Some vs \<Rightarrow> ''novaKeyPair'' \<in> set vs"
  define F where "F = filter (\<lambda>(cn, a). last_slice cn (length (user_dn fl n)) = user_dn fl n \<and> ?Q a) d"
  let ?kp = "\<lambda>a. projr (attrs_key_pair n a)"
  have objs: "find_objects K (user_dn fl n) (Some ''(objectclass=novaKeyPair)'') = map snd F"
    unfolding F_def using load search_s_query [of K d "''objectclass''" "''novaKeyPair''" "user_dn fl n"]
    by (auto simp: find_objects_def Let_def)
  have inF: "\<exists>k pub fp. name_ok k \<and> cn = key_dn fl k n \<and> a = key_attrs k pub fp" if "(cn, a) \<in> set F" for cn a
    using that ok n unfolding F_def by (fastforce simp: ldap_ok_def user_entry_def key_entry_def user_dn_suffix_key)
  have "mapR (attrs_key_pair n) (map snd F) = Inr (map (\<lambda>x. ?kp (snd x)) F)"
    by (rule mapR_map) (use inF in fastforce)
  then have ks: "find_key_pairs fl K n = Inr (map (\<lambda>x. ?kp (snd x)) F)"
    by (simp add: find_key_pairs_def objs)
  have dn: "fst x = key_dn fl (kp_name (?kp (snd x))) n \<and> name_ok (kp_name (?kp (snd x)))"
    if "x \<in> set F" for x
    using inF [of "fst x" "snd x"] that by auto
  have dF: "distinct (map fst F)"
    unfolding F_def using ldap_ok_distinct [OF ok] by (rule distinct_map_filter)
  then have "distinct (map (\<lambda>x. kp_name (?kp (snd x))) F)"
    unfolding distinct_map inj_on_def using dn by metis
  moreover have "map_of d (key_dn fl (kp_name (?kp (snd x))) n) \<noteq> None" if "x \<in> set F" for x
    using dn [OF that] that unfolding F_def by (metis (no_types, lifting) filter_is_subset map_of_eq_None_iff image_eqI subsetD)
  moreover have "k \<in> (\<lambda>x. kp_name (?kp (snd x))) ` set F"
    if "name_ok k" and "map_of d (key_dn fl k n) \<noteq> None" for k
  proof -
    obtain a where a: "map_of d (key_dn fl k n) = Some a" using \<open>map_of d (key_dn fl k n) \<noteq> None\<close> by auto
    obtain pub fp where "a = key_attrs k pub fp" using ldap_ok_key [OF ok a \<open>name_ok k\<close> n] by auto
    then have "(key_dn fl k n, key_attrs k pub fp) \<in> set F"
      using map_of_SomeD [OF a] n that(1) unfolding F_def by (simp add: user_dn_suffix_key)
    then show ?thesis by (force simp: image_iff)
  qed
  ultimately show ?thesis using ks dn by (auto simp: comp_def image_image)
qed

lemma delete_key_pair_known:
  assumes "load_objects K = Inr d" and "ldap_ok fl d" and "name_ok n" and "name_ok k"
    and "map_of d (key_dn fl k n) \<noteq> None"
  shows "ldap_delete_key_pair fl n k K = (Inr (), save_objects (ddel (key_dn fl k n) d) K)"
  using assms dir_key_iff [OF assms(2,4,3)]
  by (simp add: ldap_delete_key_pair_def bindS_def key_pair_exists_def find_key_pair_spec delete_s_def)

lemma delete_key_pair_unknown:
  assumes "load_objects K = Inr d" and "ldap_ok fl d" and "name_ok n" and "name_ok k"
    and "map_of d (key_dn fl k n) = None"
  shows "ldap_delete_key_pair fl n k K =
    (Inl (UserError (''Key Pair '' @ k @ '' doesn't exist for user '' @ n) ''Unknown''), K)"
  using assms dir_key_iff [OF assms(2,4,3)]
  by (simp add: ldap_delete_key_pair_def bindS_def key_pair_exists_def find_key_pair_spec)

lemma delete_loop:
  assumes "load_objects K = Inr d" and "ldap_ok fl d" and "name_ok n" and "distinct (map kp_name ks)"
    and "\<forall>k \<in> set ks. name_ok (kp_name k) \<and> map_of d (key_dn fl (kp_name k) n) \<noteq> None"
  shows "\<exists>K'. forS ks (\<lambda>k. ldap_delete_key_pair fl n (kp_name k)) K = (Inr (), K') \<and>
    load_objects K' = Inr (fold (\<lambda>k. ddel (key_dn fl (kp_name k) n)) ks d) \<and>
    (\<forall>D. save_objects D K' = save_objects D K)"
  using assms
proof (induction ks arbitrary: d K)
  case (Cons k ks)
  let ?d = "ddel (key_dn fl (kp_name k) n) d"
  have "ldap_delete_key_pair fl n (kp_name k) K = (Inr (), save_objects ?d K)"
    using Cons.prems by (intro delete_key_pair_known) auto
  moreover have "\<forall>j \<in> set ks. name_ok (kp_name j) \<and> map_of ?d (key_dn fl (kp_name j) n) \<noteq> None"
    using Cons.prems by (auto simp: key_dn_inj image_iff)
  then have "\<exists>K'. forS ks (\<lambda>k. ldap_delete_key_pair fl n (kp_name k)) (save_objects ?d K) = (Inr (), K') \<and>
    load_objects K' = Inr (fold (\<lambda>k. ddel (key_dn fl (kp_name k) n)) ks ?d) \<and>
    (\<forall>D. save_objects D K' = save_objects D (save_objects ?d K))"
    using Cons.prems by (intro Cons.IH) (auto intro: ldap_ok_del)
  ultimately show ?case by (auto simp: bindS_def)
qed simp

lemma ldap_ok_fold_ddel: "ldap_ok fl d \<Longrightarrow> ldap_ok fl (fold (\<lambda>k. ddel (f k)) ks d)"
  by (induction ks arbitrary: d) (auto intro: ldap_ok_del)

lemma delete_user_unknown:
  assumes "load_objects K = Inr d" and "ldap_ok fl d" and "name_ok n" and "dir_user fl d n = None"
  shows "ldap_delete_user fl n K = (Inl (UserError (''User '' @ n @ '' doesn't exist'') ''Unknown''), K)"
  using assms by (simp add: ldap_delete_user_def bindS_def user_exists_def find_user_spec)

lemma delete_user_known:
  assumes load: "load_objects K = Inr d" and ok: "ldap_ok fl d" and n: "name_ok n"
    and ex: "dir_user fl d n \<noteq> None"
  shows "\<exists>d'. ldap_delete_user fl n K = (Inr (), save_objects d' K) \<and> ldap_ok fl d' \<and>
    (\<forall>m. dir_user fl d' m = (if m = n then None else dir_user fl d m)) \<and>
    (\<forall>m k. name_ok m \<longrightarrow> name_ok k \<longrightarrow> dir_key fl d' m k = (if m = n then None else dir_key fl d m k))"
proof -
  obtain ks where ks: "find_key_pairs fl K n = Inr ks" "distinct (map kp_name ks)"
      "\<forall>k \<in> set ks. name_ok (kp_name k) \<and> map_of d (key_dn fl (kp_name k) n) \<noteq> None"
    and all: "\<forall>k. name_ok k \<longrightarrow> map_of d (key_dn fl k n) \<noteq> None \<longrightarrow> k \<in> kp_name ` set ks"
    using find_key_pairs_spec [OF load ok n] by blast
  let ?d1 = "fold (\<lambda>k. ddel (key_dn fl (kp_name k) n)) ks d"
  let ?d2 = "ddel (user_dn fl n) ?d1"
  obtain K1 where K1: "forS ks (\<lambda>k. ldap_delete_key_pair fl n (kp_name k)) K = (Inr (), K1)"
      "load_objects K1 = Inr ?d1" "\<forall>D. save_objects D K1 = save_objects D K"
    using delete_loop [OF load ok n ks(2,3)] by blast
  have m1: "map_of ?d1 x = (if x \<in> (\<lambda>k. key_dn fl (kp_name k) n) ` set ks then None else map_of d x)" for x
    by (rule map_of_fold_ddel)
  have "map_of ?d1 (user_dn fl n) \<noteq> None"
    using ex dir_user_iff [OF ok, of n] by (auto simp: m1)
  then have del: "ldap_delete_user fl n K = (Inr (), save_objects ?d2 K)"
    using load ok n ex ks(1) K1
    by (simp add: ldap_delete_user_def ldap_delete_key_pairs_def bindS_def user_exists_def
        find_user_spec delete_s_def)
  have "dir_user fl ?d2 m = (if m = n then None else dir_user fl d m)" for m
    by (auto simp: dir_user_def m1)
  moreover have "dir_key fl ?d2 m k = (if m = n then None else dir_key fl d m k)"
    if "name_ok m" "name_ok k" for m k
  proof -
    have "key_dn fl k m \<in> (\<lambda>k. key_dn fl (kp_name k) n) ` set ks \<longleftrightarrow> m = n \<and> k \<in> kp_name ` set ks"
      using ks(3) n that by (auto simp: key_dn_inj)
    moreover have "map_of d (key_dn fl k n) = None" if "k \<notin> kp_name ` set ks"
      using all that \<open>name_ok k\<close> by blast
    ultimately show ?thesis by (auto simp: dir_key_def m1)
  qed
  ultimately show ?thesis
    using del ok by (intro exI [of _ ?d2]) (auto intro!: ldap_ok_del ldap_ok_fold_ddel)
qed

subsection \<open>The directory as an interface\<close>

text \<open>
  What the controllers rely on when they create, look up and delete users: the laws over
  an arbitrary directory state. A law speaks of the names for which \<open>ok\<close> holds.
\<close>

locale user_directory =
  fixes inv :: "'s \<Rightarrow> bool"
    and ok :: "string \<Rightarrow> bool"
    and lookup :: "'s \<Rightarrow> string \<Rightarrow> user option res"
    and create :: "string \<Rightarrow> string \<Rightarrow> string \<Rightarrow> bool \<Rightarrow> ('s, user) act"
    and delete :: "string \<Rightarrow> ('s, unit) act"
  assumes lookup_returns: "inv s \<Longrightarrow> ok n \<Longrightarrow> \<exists>r. lookup s n = Inr r"
    and create_fresh: "inv s \<Longrightarrow> ok n \<Longrightarrow> lookup s n = Inr None \<Longrightarrow>
      \<exists>s'. create n acc sec adm s = (Inr (mk_user n acc sec adm), s') \<and> inv s' \<and>
        (\<forall>m. ok m \<longrightarrow> lookup s' m = (if m = n then Inr (Some (mk_user n acc sec adm)) else lookup s m))"
    and create_taken: "inv s \<Longrightarrow> ok n \<Longrightarrow> lookup s n = Inr (Some u) \<Longrightarrow>
      \<exists>e. create n acc sec adm s = (Inl e, s)"
    and delete_known: "inv s \<Longrightarrow> ok n \<Longrightarrow> lookup s n = Inr (Some u) \<Longrightarrow>
      \<exists>s'. delete n s = (Inr (), s') \<and> inv s' \<and>
        (\<forall>m. ok m \<longrightarrow> lookup s' m = (if m = n then Inr None else lookup s m))"
    and delete_unknown: "inv s \<Longrightarrow> ok n \<Longrightarrow> lookup s n = Inr None \<Longrightarrow> \<exists>e. delete n s = (Inl e, s)"
begin

lemma create_keeps_inv:
  assumes "inv s" and "ok n"
  shows "inv (snd (create n acc sec adm s))"
proof -
  obtain r where "lookup s n = Inr r" using lookup_returns assms by blast
  then show ?thesis
    using create_fresh [OF assms, of acc sec adm] create_taken [OF assms, of _ acc sec adm] assms
    by (cases r) auto
qed

lemma delete_keeps_inv:
  assumes "inv s" and "ok n"
  shows "inv (snd (delete n s))"
proof -
  obtain r where "lookup s n = Inr r" using lookup_returns assms by blast
  then show ?thesis
    using delete_known [OF assms] delete_unknown [OF assms] assms by (cases r) auto
qed

text \<open>A created user is found with what was given, cannot be created again, and is gone
  after a deletion, which restores every lookup.\<close>

lemma create_lookup:
  assumes "inv s" "ok n" "lookup s n = Inr None"
  shows "lookup (snd (create n acc sec adm s)) n = Inr (Some (mk_user n acc sec adm))"
  using create_fresh [OF assms, of acc sec adm] assms(2) by auto

lemma create_twice:
  assumes "inv s" "ok n" "lookup s n = Inr None"
  shows "\<exists>e. fst (create n acc' sec' adm' (snd (create n acc sec adm s))) = Inl e"
  using create_fresh [OF assms, of acc sec adm] create_taken [of _ n] assms(2) by (metis fst_conv snd_conv)

lemma create_delete:
  assumes "inv s" "ok n" "lookup s n = Inr None" "ok m"
  shows "lookup (snd (delete n (snd (create n acc sec adm s)))) m = lookup s m"
proof -
  obtain s1 where s1: "create n acc sec adm s = (Inr (mk_user n acc sec adm), s1)" "inv s1"
      "\<forall>m. ok m \<longrightarrow> lookup s1 m = (if m = n then Inr (Some (mk_user n acc sec adm)) else lookup s m)"
    using create_fresh [OF assms(1-3), of acc sec adm] by blast
  then have "lookup s1 n = Inr (Some (mk_user n acc sec adm))" using assms(2) by simp
  then obtain s2 where "delete n s1 = (Inr (), s2)"
      "\<forall>m. ok m \<longrightarrow> lookup s2 m = (if m = n then Inr None else lookup s1 m)"
    using delete_known [OF s1(2) assms(2)] by blast
  then show ?thesis using s1 assms by auto
qed

text \<open>Any sequence of creations and deletions keeps the directory well formed.\<close>

lemma run_keeps_inv:
  assumes "inv s" and "\<forall>op \<in> set ops. (\<exists>n acc sec adm. ok n \<and> op = (\<lambda>s. snd (create n acc sec adm s))) \<or>
    (\<exists>n. ok n \<and> op = (\<lambda>s. snd (delete n s)))"
  shows "inv (fold (\<lambda>op. op) ops s)"
  using assms
proof (induction ops arbitrary: s)
  case (Cons op ops)
  then have "inv (op s)" using create_keeps_inv delete_keeps_inv by fastforce
  with Cons show ?case by simp
qed simp

end

interpretation dir: user_directory "users_inv fl" name_ok "get_user fl"
  "\<lambda>n acc sec adm. ldap_create_user fl n acc sec adm" "ldap_delete_user fl" for fl
proof unfold_locales
  fix s n assume "users_inv fl s" "name_ok n"
  then show "\<exists>r. get_user fl s n = Inr r" by (auto simp: users_inv_def get_user_spec)
next
  fix s n acc sec adm assume inv: "users_inv fl s" and n: "name_ok n" and none: "get_user fl s n = Inr None"
  then obtain d where d: "load_objects s = Inr d" "ldap_ok fl d" "dir_user fl d n = None"
    by (auto simp: users_inv_def get_user_spec)
  let ?d = "dput (user_dn fl n) (user_attrs fl n acc sec adm) d"
  have "ldap_ok fl ?d" using d n by (intro ldap_ok_put) (auto simp: user_entry_def)
  then show "\<exists>s'. ldap_create_user fl n acc sec adm s = (Inr (mk_user n acc sec adm), s') \<and> users_inv fl s' \<and>
      (\<forall>m. name_ok m \<longrightarrow> get_user fl s' m = (if m = n then Inr (Some (mk_user n acc sec adm)) else get_user fl s m))"
    using d n by (auto simp: create_user_new users_inv_def get_user_spec intro!: exI [of _ "save_objects ?d s"])
next
  fix s n u acc sec adm assume "users_inv fl s" "name_ok n" "get_user fl s n = Inr (Some u)"
  then show "\<exists>e. ldap_create_user fl n acc sec adm s = (Inl e, s)"
    by (auto simp: users_inv_def get_user_spec create_user_again)
next
  fix s n u assume "users_inv fl s" and n: "name_ok n" and "get_user fl s n = Inr (Some u)"
  then obtain d where d: "load_objects s = Inr d" "ldap_ok fl d" "dir_user fl d n \<noteq> None"
    by (auto simp: users_inv_def get_user_spec)
  obtain d' where "ldap_delete_user fl n s = (Inr (), save_objects d' s)" "ldap_ok fl d'"
      "\<forall>m. dir_user fl d' m = (if m = n then None else dir_user fl d m)"
    using delete_user_known [OF d(1,2) n d(3)] by blast
  then show "\<exists>s'. ldap_delete_user fl n s = (Inr (), s') \<and> users_inv fl s' \<and>
      (\<forall>m. name_ok m \<longrightarrow> get_user fl s' m = (if m = n then Inr None else get_user fl s m))"
    using d by (auto simp: users_inv_def get_user_spec intro!: exI [of _ "save_objects d' s"])
next
  fix s n assume "users_inv fl s" "name_ok n" "get_user fl s n = Inr None"
  then show "\<exists>e. ldap_delete_user fl n s = (Inl e, s)"
    by (auto simp: users_inv_def get_user_spec delete_user_unknown)
qed

subsection \<open>VPN ports\<close>

definition ports_ok :: "(string, int) dict \<Rightarrow> bool" where
  "ports_ok d \<longleftrightarrow> distinct (keys d) \<and> distinct (vals d) \<and> (\<forall>p \<in> set (vals d). 8000 \<le> p)"

lemma json_ports_inv [simp]: "json_ports (ports_json d) = Inr d"
  by (auto simp: json_ports_def ports_json_def intro!: mapR_id)

lemma load_ports_set [simp]: "load_ports (kset ''user'' ''vpn_ports'' (ports_json d) K) = Inr d"
  by (simp add: load_ports_def)

lemma next_port_fresh:
  assumes "p \<in> set (vals d)"
  shows "p < next_port d"
proof -
  have "p \<le> Max (set (vals d))" using assms by (intro Max_ge) auto
  then show ?thesis using assms by (auto simp: next_port_def)
qed

lemma dput_fresh: "map_of d k = None \<Longrightarrow> dput k v d = d @ [(k, v)]"
  by (induction d) (auto split: if_splits)

lemma next_port_ge:
  assumes "ports_ok d"
  shows "8000 \<le> next_port d"
proof (cases "d = []")
  case False
  then have "Max (set (vals d)) \<in> set (vals d)" by (intro Max_in) auto
  then have "8000 \<le> Max (set (vals d))" using assms unfolding ports_ok_def by blast
  then show ?thesis using False by (simp add: next_port_def)
qed (simp add: next_port_def)

lemma ports_ok_add:
  assumes "ports_ok d" and "map_of d u = None"
  shows "ports_ok (dput u (next_port d) d)"
  using assms next_port_ge [OF assms(1)] next_port_fresh [of "next_port d" d]
  by (auto simp: ports_ok_def dput_fresh map_of_eq_None_iff)

lemma vpn_port_spec:
  assumes "load_ports K = Inr d" and "ports_ok d"
  shows "\<exists>p d'. vpn_port u K = (Inr p, kset ''user'' ''vpn_ports'' (ports_json d') K) \<and> ports_ok d' \<and>
    map_of d' u = Some p \<and> (\<forall>v. v \<noteq> u \<longrightarrow> map_of d' v = map_of d v) \<and> (\<forall>q. map_of d u = Some q \<longrightarrow> p = q)"
proof (cases "map_of d u")
  case None
  then show ?thesis
    using assms ports_ok_add [OF assms(2) None]
    by (auto simp: vpn_port_def Let_def intro!: exI [of _ "next_port d"] exI [of _ "dput u (next_port d) d"])
next
  case (Some q)
  then show ?thesis using assms by (auto simp: vpn_port_def Let_def intro!: exI [of _ d])
qed

text \<open>The ports a sequence of reads returns.\<close>

fun vpn_ports_run :: "string list \<Rightarrow> (kstore, int list) act" where
  "vpn_ports_run [] = retS []"
| "vpn_ports_run (u # us) =
     bindS (vpn_port u) (\<lambda>p. bindS (vpn_ports_run us) (\<lambda>ps. retS (p # ps)))"

lemma vpn_ports_run_spec:
  assumes "load_ports K = Inr d" and "ports_ok d"
  shows "\<exists>ps K' d'. vpn_ports_run us K = (Inr ps, K') \<and> load_ports K' = Inr d' \<and> ports_ok d' \<and>
    ps = map (\<lambda>u. the (map_of d' u)) us \<and> (\<forall>u \<in> set us. map_of d' u \<noteq> None) \<and>
    (\<forall>v q. map_of d v = Some q \<longrightarrow> map_of d' v = Some q)"
  using assms
proof (induction us arbitrary: K d)
  case (Cons u us)
  obtain p d1 where 1: "vpn_port u K = (Inr p, kset ''user'' ''vpn_ports'' (ports_json d1) K)"
      "ports_ok d1" "map_of d1 u = Some p" "\<forall>v. v \<noteq> u \<longrightarrow> map_of d1 v = map_of d v"
      "\<forall>q. map_of d u = Some q \<longrightarrow> p = q"
    using vpn_port_spec [OF Cons.prems, of u] by blast
  obtain ps K' d' where 2: "vpn_ports_run us (kset ''user'' ''vpn_ports'' (ports_json d1) K) = (Inr ps, K')"
      "load_ports K' = Inr d'" "ports_ok d'" "ps = map (\<lambda>u. the (map_of d' u)) us"
      "\<forall>u \<in> set us. map_of d' u \<noteq> None" "\<forall>v q. map_of d1 v = Some q \<longrightarrow> map_of d' v = Some q"
    using Cons.IH [OF load_ports_set [of d1 K] 1(2)] by blast
  have keep: "map_of d' v = Some q" if "map_of d v = Some q" for v q
  proof -
    have "map_of d1 v = Some q" using that 1(3-5) by (cases "v = u") auto
    then show ?thesis using 2(6) by blast
  qed
  have run: "vpn_ports_run (u # us) K = (Inr (p # ps), K')"
    using 1(1) 2(1) by (simp add: bindS_def)
  have u: "map_of d' u = Some p" using 1(3) 2(6) by blast
  show ?case
  proof (intro exI conjI)
    show "p # ps = map (\<lambda>u. the (map_of d' u)) (u # us)" by (simp only: 2(4) u list.map option.sel)
    show "\<forall>w \<in> set (u # us). map_of d' w \<noteq> None" using u 2(5) by auto
    show "\<forall>v q. map_of d v = Some q \<longrightarrow> map_of d' v = Some q" using keep by blast
  qed (use run 2(2,3) in auto)
qed simp

lemma ports_ok_inj:
  assumes "ports_ok d" and "map_of d u = Some p" and "map_of d v = Some p"
  shows "u = v"
proof -
  have "(u, p) \<in> set d" "(v, p) \<in> set d" using assms by (auto dest: map_of_SomeD)
  then show ?thesis
    using assms(1) unfolding ports_ok_def
    by (metis (no_types, lifting) distinct_map inj_on_def prod.inject snd_conv)
qed

subsection \<open>Properties\<close>


lemma empty_directory:
  "users_inv fl (fakeldap_module Map.empty)" "get_user fl (fakeldap_module Map.empty) n = Inr None"
proof -
  have "load_objects (fakeldap_module Map.empty) = Inr []"
    by (simp add: fakeldap_module_def kget_def [of _ Map.empty] load_objects_def)
  then show "users_inv fl (fakeldap_module Map.empty)" "get_user fl (fakeldap_module Map.empty) n = Inr None"
    by (auto simp: users_inv_def ldap_ok_empty get_user_def find_user_def find_object_def find_objects_def
        search_s_def split: list.splits)
qed




text \<open>C30: However often and in whatever order users ask for their VPN port, each always
  gets the same port, two users never the same one, ports start at 8000, and a port given earlier
  stays.\<close>

theorem vpn_ports_stable_distinct:
  assumes "load_ports K = Inr d" and "ports_ok d"
  shows "\<exists>ps K'. vpn_ports_run us K = (Inr ps, K') \<and> length ps = length us \<and>
    (\<forall>i < length us. \<forall>j < length us. ps ! i = ps ! j \<longleftrightarrow> us ! i = us ! j) \<and>
    (\<forall>i < length us. 8000 \<le> ps ! i \<and> (\<forall>q. map_of d (us ! i) = Some q \<longrightarrow> ps ! i = q))"
proof -
  obtain ps K' d' where spec: "vpn_ports_run us K = (Inr ps, K') \<and> load_ports K' = Inr d' \<and> ports_ok d' \<and>
      ps = map (\<lambda>u. the (map_of d' u)) us \<and> (\<forall>u \<in> set us. map_of d' u \<noteq> None) \<and>
      (\<forall>v q. map_of d v = Some q \<longrightarrow> map_of d' v = Some q)"
    using vpn_ports_run_spec [OF assms, of us] by (elim exE)
  then have run: "vpn_ports_run us K = (Inr ps, K')" "ports_ok d'"
      "ps = map (\<lambda>u. the (map_of d' u)) us" "\<forall>u \<in> set us. map_of d' u \<noteq> None"
      "\<forall>v q. map_of d v = Some q \<longrightarrow> map_of d' v = Some q"
    by (blast dest: conjunct1 conjunct2)+
  have at: "map_of d' (us ! i) = Some (ps ! i)" if "i < length us" for i
    using that run(4) by (simp add: run(3))
  have "8000 \<le> ps ! i" if "i < length us" for i
  proof -
    have "ps ! i \<in> set (vals d')" using map_of_SomeD [OF at [OF that]] by force
    then show ?thesis using run(2) unfolding ports_ok_def by blast
  qed
  moreover have "ps ! i = ps ! j \<longleftrightarrow> us ! i = us ! j" if "i < length us" "j < length us" for i j
  proof
    assume eq: "ps ! i = ps ! j"
    have "map_of d' (us ! j) = Some (ps ! i)" unfolding at [OF that(2)] eq ..
    with at [OF that(1)] show "us ! i = us ! j" by (rule ports_ok_inj [OF run(2)])
  next
    assume eq: "us ! i = us ! j"
    have "map_of d' (us ! j) = Some (ps ! i)" using at [OF that(1)] unfolding eq .
    then show "ps ! i = ps ! j" unfolding at [OF that(2)] by simp
  qed
  moreover have "ps ! i = q" if "i < length us" "map_of d (us ! i) = Some q" for i q
  proof -
    have "map_of d' (us ! i) = Some q" using run(5) that(2) by blast
    then show ?thesis using at [OF that(1)] by simp
  qed
  moreover have "length ps = length us" by (simp add: run(3))
  ultimately show ?thesis using run(1) by blast
qed

theorem vpn_ports_stable_distinct_witness:
  "\<exists>a b. fst (vpn_ports_run [''b'', ''a'', ''b''] (kset ''user'' ''vpn_ports'' (ports_json [(''a'', 8000)]) Map.empty)) =
     Inr [b, a, b] \<and> a = 8000 \<and> b \<noteq> a"
proof -
  have "ports_ok [(''a'', 8000)]" by (simp add: ports_ok_def)
  from vpn_ports_stable_distinct [OF load_ports_set [of "[(''a'', 8000)]" Map.empty] this,
      of "[''b'', ''a'', ''b'']"]
  obtain ps K' where ps: "vpn_ports_run [''b'', ''a'', ''b''] (kset ''user'' ''vpn_ports'' (ports_json [(''a'', 8000)]) Map.empty) = (Inr ps, K')"
      "length ps = 3"
      and eq: "\<forall>i < 3. \<forall>j < 3. ps ! i = ps ! j \<longleftrightarrow> [''b'', ''a'', ''b''] ! i = [''b'', ''a'', ''b''] ! j"
      and old: "\<forall>i < 3. \<forall>q. map_of [(''a'', 8000)] ([''b'', ''a'', ''b''] ! i) = Some q \<longrightarrow> ps ! i = q"
    by (auto simp: numeral_3_eq_3)
  obtain x y z where xyz: "ps = [x, y, z]" using ps(2) by (auto simp: numeral_3_eq_3 length_Suc_conv)
  have "x = z" using eq [rule_format, of 0 2] by (simp add: xyz)
  moreover have "x \<noteq> y" using eq [rule_format, of 0 1] by (simp add: xyz)
  moreover have "y = 8000" using old [rule_format, of 1 8000] by (simp add: xyz)
  ultimately show ?thesis using ps(1) by (simp add: xyz)
qed

text \<open>A check of authorization without an action, as the listing operations make it,
  grants it to an administrator and to the owner, and for anyone else raises a missing key instead of
  answering false.\<close>

theorem is_authorized_default:
  "is_authorized u owner None =
     (if u_admin u \<or> owner = Some (u_id u) then Inr True else Inl KeyError)"
  by (simp add: is_authorized_def)

end
