(* ===== verification/Network.thy ===== *)
theory Network
  imports IPy Users
begin

text \<open>
  The networks of \<^verbatim>\<open>nova/compute/network.py\<close>: the class hierarchy from
  \<^verbatim>\<open>Network\<close> to \<^verbatim>\<open>PrivateNetwork\<close> and \<^verbatim>\<open>PublicNetwork\<close> with
  their host tables and the commands they run, and the two pools that hand out VLANs and blocks of
  addresses. The controller that owns them is in the theory \<open>NetController\<close>.
\<close>

subsection \<open>Host tables\<close>

text \<open>
  An entry of \<^verbatim>\<open>hosts\<close>. The code sets \<^verbatim>\<open>private_ip\<close> and
  \<^verbatim>\<open>instance_id\<close> together, hence one field for both.
\<close>

record host =
  h_address :: string
  h_user_id :: string
  h_mac :: "string option"
  h_assoc :: "(string \<times> string) option"

type_synonym hosts = "(string, host) dict"

definition new_host :: "string \<Rightarrow> string \<Rightarrow> string option \<Rightarrow> host" where
  "new_host address user_id mac =
     \<lparr>h_address = address, h_user_id = user_id, h_mac = mac, h_assoc = None\<rparr>"

definition host_json :: "host \<Rightarrow> json" where
  "host_json h = JDict
     ([(''address'', JStr (h_address h)), (''user_id'', JStr (h_user_id h)), (''mac'', opt_json (h_mac h))] @
      (case h_assoc h of None \<Rightarrow> []
       | Some (p, i) \<Rightarrow> [(''private_ip'', JStr p), (''instance_id'', JStr i)]))"

definition json_host :: "json \<Rightarrow> host res" where
  "json_host j = bindR (jdict j) (\<lambda>d.
     bindR (bindR (dget d ''address'') jstr) (\<lambda>a.
     bindR (bindR (dget d ''user_id'') jstr) (\<lambda>u.
     bindR (bindR (dget d ''mac'') jopt) (\<lambda>m.
     bindR (if has_key d ''private_ip'' then
              bindR (bindR (dget d ''private_ip'') jstr) (\<lambda>p.
              bindR (bindR (dget d ''instance_id'') jstr) (\<lambda>i. Inr (Some (p, i))))
            else Inr None) (\<lambda>x.
     Inr \<lparr>h_address = a, h_user_id = u, h_mac = m, h_assoc = x\<rparr>)))))"

definition hosts_json :: "hosts \<Rightarrow> json" where
  "hosts_json hs = JDict (map (\<lambda>(k, h). (k, host_json h)) hs)"

definition json_hosts :: "json \<Rightarrow> hosts res" where
  "json_hosts j = bindR (jdict j) (mapR (\<lambda>(k, v). bindR (json_host v) (\<lambda>h. Inr (k, h))))"

lemma json_host_inv [simp]: "json_host (host_json h) = Inr h"
  by (cases h) (auto simp: json_host_def host_json_def dget_def split: option.splits)

lemma json_hosts_inv [simp]: "json_hosts (hosts_json hs) = Inr hs"
  by (auto simp: json_hosts_def hosts_json_def intro!: mapR_id)

subsection \<open>Network objects\<close>

text \<open>The classes; a private network also has the address and port of its VPN.\<close>

datatype net_class =
    BaseNetwork
  | VlanNetwork
  | VirtNetwork
  | DHCPNetwork
  | PrivateNetwork string int
  | PublicNetwork

text \<open>\<^verbatim>\<open>name\<close>, \<^verbatim>\<open>bridge_name\<close>, \<^verbatim>\<open>netmask\<close> and
  \<^verbatim>\<open>broadcast\<close> are functions of the fields below.\<close>

record net =
  n_class :: net_class
  n_network_str :: string
  n_network :: ip
  n_gateway :: ip
  n_vlan :: int
  n_hosts :: hosts

definition n_name :: "net \<Rightarrow> string" where
  "n_name n = ''nova-'' @ str_int (n_vlan n)"

definition n_bridge_name :: "net \<Rightarrow> string" where
  "n_bridge_name n = ''br'' @ str_int (n_vlan n)"

definition n_bridge_gets_ip :: "net \<Rightarrow> bool" where
  "n_bridge_gets_ip n = (case n_class n of DHCPNetwork \<Rightarrow> True | PrivateNetwork _ _ \<Rightarrow> True | _ \<Rightarrow> False)"

text \<open>\<^verbatim>\<open>Network.__init__\<close>: the gateway is the second address, so a network of one
  address raises.\<close>

definition net_init :: "flags \<Rightarrow> net_class \<Rightarrow> string \<Rightarrow> int \<Rightarrow> hosts \<Rightarrow> (world, net) act" where
  "net_init fl cls network vlan hs =
     bindS (liftR (IP network)) (\<lambda>a.
     bindS (liftR (ip_getitem a 1)) (\<lambda>g.
     (\<lambda>w. (Inr \<lparr>n_class = cls, n_network_str = network, n_network = a, n_gateway = g, n_vlan = vlan,
              n_hosts = hs\<rparr>, emit (Makedirs (networks_path fl)) w))))"

definition net_to_dict :: "net \<Rightarrow> (string, json) dict" where
  "net_to_dict n =
     [(''vlan'', JInt (n_vlan n)), (''network'', JStr (n_network_str n)), (''hosts'', hosts_json (n_hosts n))] @
     (case n_class n of
        PrivateNetwork ip port \<Rightarrow> [(''external_vpn_ip'', JStr ip), (''external_vpn_port'', JInt port)]
      | _ \<Rightarrow> [])"

subsection \<open>Commands\<close>

definition confirm_rule :: "string \<Rightarrow> world \<Rightarrow> world" where
  "confirm_rule cmd w = exec (''sudo iptables -I '' @ cmd) (exec (''sudo iptables --delete '' @ cmd) w)"

definition remove_rule :: "string \<Rightarrow> world \<Rightarrow> world" where
  "remove_rule cmd w = exec (''sudo iptables --delete '' @ cmd) w"

definition vlan_express :: "flags \<Rightarrow> net \<Rightarrow> world \<Rightarrow> world" where
  "vlan_express fl n w =
     exec (''sudo ifconfig vlan'' @ str_int (n_vlan n) @ '' up'')
    (exec (''sudo vconfig add '' @ bridge_dev fl @ '' '' @ str_int (n_vlan n))
    (exec ''sudo vconfig set_name_type VLAN_PLUS_VID_NO_PAD'' w))"

text \<open>The formatting of the addresses is inside the \<^verbatim>\<open>try\<close> block.\<close>

definition virt_express :: "flags \<Rightarrow> net \<Rightarrow> world \<Rightarrow> world" where
  "virt_express fl n w =
     (let w = vlan_express fl n w; br = n_bridge_name n in
      if fake_network fl then w
      else
        let w = exec (''sudo brctl addif '' @ br @ '' vlan'' @ str_int (n_vlan n))
               (exec (''sudo brctl addbr '' @ br) w) in
        if n_bridge_gets_ip n then
          (case mapR ip_str [n_gateway n, ip_broadcast (n_network n), ip_netmask (n_network n)] of
             Inl e \<Rightarrow> w
           | Inr ips \<Rightarrow>
               confirm_rule (''FORWARD --in-interface '' @ br @ '' -j ACCEPT'')
                (exec (''sudo ifconfig '' @ br @ '' '' @ ips ! 0 @ '' broadcast '' @ ips ! 1 @
                       '' netmask '' @ ips ! 2 @ '' up'') w))
        else exec (''sudo ifconfig '' @ br @ '' up'') w)"

definition net_item :: "net \<Rightarrow> int \<Rightarrow> string res" where
  "net_item n k = bindR (ip_getitem (n_network n) k) ip_str"

definition mac_text :: "string option \<Rightarrow> string" where
  "mac_text m = (case m of None \<Rightarrow> ''None'' | Some s \<Rightarrow> s)"

definition hostDHCP :: "net \<Rightarrow> host \<Rightarrow> string" where
  "hostDHCP n h =
     mac_text (h_mac h) @ '','' @ h_user_id h @ ''-'' @ str_int (n_vlan n) @ ''-'' @
     last (py_split CHR ''.'' (h_address h)) @ ''.novalocal,'' @ h_address h"

definition dnsmasq_cmd :: "flags \<Rightarrow> net \<Rightarrow> string \<Rightarrow> string res" where
  "dnsmasq_cmd fl n conf_file =
     (let base = networks_path fl @ ''/nova-'' @ str_int (n_vlan n) in
      bindR (net_item n 1) (\<lambda>a. bindR (net_item n 3) (\<lambda>b. bindR (net_item n (-2)) (\<lambda>c.
        Inr (''sudo dnsmasq --strict-order --bind-interfaces --pid-file='' @ base @ ''.pid'' @
             '' --conf-file=  --listen-address '' @ a @ '' --except-interface lo'' @
             '' --dhcp-range '' @ b @ '','' @ c @ '',120s --dhcp-lease-max=61 '' @
             '' --dhcp-hostsfile='' @ conf_file @ '' --dhcp-leasefile='' @ base @ ''.leases'')))))"

text \<open>\<^verbatim>\<open>os.kill(int(open(pid_file).read()), sig)\<close>, and whether it went through.\<close>

definition kill_pid :: "string \<Rightarrow> string \<Rightarrow> world \<Rightarrow> bool \<times> world" where
  "kill_pid pid_text sig w = (case py_int pid_text of
      Inl e \<Rightarrow> (False, w)
    | Inr pid \<Rightarrow> (let w' = emit (Kill (str_int pid) sig) w in (os_ok w (trace w'), w')))"

definition start_dnsmasq :: "flags \<Rightarrow> net \<Rightarrow> (world, unit) act" where
  "start_dnsmasq fl n w =
     (let base = networks_path fl @ ''/nova-'' @ str_int (n_vlan n);
          conf_file = base @ ''.conf'';
          w = write_file conf_file (py_join ''\<newline>'' (map (hostDHCP n) (vals (n_hosts n)))) w;
          (hup, w) = (case text_files w (base @ ''.pid'') of
              None \<Rightarrow> (False, w) | Some t \<Rightarrow> kill_pid t ''SIGHUP'' w) in
      if hup then (Inr (), w)
      else (let w = unlink (base @ ''.leases'') w in
        case dnsmasq_cmd fl n conf_file of
          Inl e \<Rightarrow> (Inl e, w)
        | Inr cmd \<Rightarrow> (Inr (), emit (Popen (py_split CHR '' '' cmd)) w)))"

definition stop_dnsmasq :: "flags \<Rightarrow> net \<Rightarrow> world \<Rightarrow> world" where
  "stop_dnsmasq fl n w =
     (let base = networks_path fl @ ''/nova-'' @ str_int (n_vlan n) in
      unlink (base @ ''.leases'')
        (case text_files w (base @ ''.pid'') of None \<Rightarrow> w | Some t \<Rightarrow> snd (kill_pid t ''SIGTERM'' w)))"

definition dhcp_express :: "flags \<Rightarrow> net \<Rightarrow> (world, unit) act" where
  "dhcp_express fl n w =
     (if fake_network fl then (Inr (), w)
      else (let w = virt_express fl n w in
        if length (vals (n_hosts n)) > 0 then start_dnsmasq fl n w else (Inr (), w)))"

definition cloudpipe_express :: "net \<Rightarrow> string \<Rightarrow> int \<Rightarrow> (world, unit) act" where
  "cloudpipe_express n vip vport w = (case net_item n 2 of
      Inl e \<Rightarrow> (Inl e, w)
    | Inr private_ip \<Rightarrow>
        (Inr (),
         confirm_rule (''PREROUTING -t nat -d '' @ vip @ '' -p udp --dport '' @ str_int vport @
                       '' -j DNAT --to '' @ private_ip @ '':1194'')
        (confirm_rule (''FORWARD -d '' @ private_ip @ '' -p udp --dport 1194 -j ACCEPT'') w)))"

definition nat_ports :: "(string \<times> string) list" where
  "nat_ports = [(''tcp'', ''80''), (''tcp'', ''22''), (''udp'', ''1194''), (''tcp'', ''443'')]"

text \<open>The rules that bind a public address to a private one.\<close>

definition public_rules :: "string \<Rightarrow> string \<Rightarrow> string list" where
  "public_rules public_ip private_ip =
     [''PREROUTING -t nat -d '' @ public_ip @ '' -j DNAT --to '' @ private_ip,
      ''POSTROUTING -t nat -s '' @ private_ip @ '' -j SNAT --to '' @ public_ip,
      ''FORWARD -d '' @ private_ip @ '' -p icmp -j ACCEPT''] @
     map (\<lambda>(protocol, port). ''FORWARD -d '' @ private_ip @ '' -p '' @ protocol @ '' --dport '' @ port @ '' -j ACCEPT'')
       nat_ports"

definition express_host :: "flags \<Rightarrow> host \<Rightarrow> world \<Rightarrow> world" where
  "express_host fl h w = (case h_assoc h of
      None \<Rightarrow> w
    | Some (private_ip, _) \<Rightarrow>
        fold confirm_rule (public_rules (h_address h) private_ip)
          (runthis (''sudo ip addr add '' @ h_address h @ '' dev '' @ public_interface fl) w))"

definition public_express :: "flags \<Rightarrow> net \<Rightarrow> string option \<Rightarrow> (world, unit) act" where
  "public_express fl n address w = (case address of
      None \<Rightarrow> (Inr (), fold (express_host fl) (vals (n_hosts n)) w)
    | Some a \<Rightarrow>
        if a = [] then (Inr (), fold (express_host fl) (vals (n_hosts n)) w)
        else (case dget (n_hosts n) a of
            Inl e \<Rightarrow> (Inl e, w)
          | Inr h \<Rightarrow> (Inr (), express_host fl h w)))"

text \<open>\<^verbatim>\<open>net.express(address)\<close>, dispatched on the class.\<close>

definition express :: "flags \<Rightarrow> string option \<Rightarrow> net \<Rightarrow> (world, unit) act" where
  "express fl address n = (case n_class n of
      BaseNetwork \<Rightarrow> retS ()
    | VlanNetwork \<Rightarrow> (\<lambda>w. (Inr (), vlan_express fl n w))
    | VirtNetwork \<Rightarrow> (\<lambda>w. (Inr (), virt_express fl n w))
    | DHCPNetwork \<Rightarrow> dhcp_express fl n
    | PrivateNetwork vip vport \<Rightarrow> bindS (dhcp_express fl n) (\<lambda>_. cloudpipe_express n vip vport)
    | PublicNetwork \<Rightarrow> public_express fl n address)"

text \<open>
  \<^verbatim>\<open>net.deexpress(address)\<close>. The public network looks the address up in the table
  of hosts; a key that is itself a dictionary is not hashable, a \<^verbatim>\<open>TypeError\<close>.
\<close>

datatype deexpress_arg = Address string | Host_Entry host

definition deexpress :: "flags \<Rightarrow> deexpress_arg \<Rightarrow> net \<Rightarrow> (world, unit) act" where
  "deexpress fl arg n = (case n_class n of
      PublicNetwork \<Rightarrow> (case arg of
          Host_Entry h \<Rightarrow> raiseS TypeError
        | Address a \<Rightarrow>
            bindS (liftR (dget (n_hosts n) a)) (\<lambda>h. case h_assoc h of
                None \<Rightarrow> raiseS KeyError
              | Some (private_ip, _) \<Rightarrow>
                  (\<lambda>w. (Inr (), fold remove_rule (public_rules (h_address h) private_ip) w))))
    | DHCPNetwork \<Rightarrow> (\<lambda>w. (Inr (), if n_hosts n = [] then stop_dnsmasq fl n w else w))
    | PrivateNetwork _ _ \<Rightarrow> (\<lambda>w. (Inr (), if n_hosts n = [] then stop_dnsmasq fl n w else w))
    | _ \<Rightarrow> retS ())"

subsection \<open>Operations on a network\<close>

text \<open>The state of an operation is the object and the world.\<close>

type_synonym 'a net_act = "(net \<times> world, 'a) act"

definition on_world :: "(net \<Rightarrow> (world, 'a) act) \<Rightarrow> 'a net_act" where
  "on_world f = (\<lambda>(n, w). let (r, w') = f n w in (r, n, w'))"

definition set_hosts :: "(hosts \<Rightarrow> hosts) \<Rightarrow> unit net_act" where
  "set_hosts f = (\<lambda>(n, w). (Inr (), n\<lparr>n_hosts := f (n_hosts n)\<rparr>, w))"

definition get_hosts :: "hosts net_act" where
  "get_hosts = (\<lambda>(n, w). (Inr (n_hosts n), n, w))"

text \<open>The indices of \<^verbatim>\<open>range\<close>: the first three and the last two addresses of a
  network are never handed out.\<close>

definition range_indices :: "ip \<Rightarrow> int list res" where
  "range_indices a = bindR (ip_dunder_len a) (\<lambda>n. Inr [3..n - 3])"

text \<open>The loop of \<^verbatim>\<open>allocate_ip\<close>: the first address that is not a key of the table.\<close>

fun first_free :: "ip \<Rightarrow> hosts \<Rightarrow> int list \<Rightarrow> string res" where
  "first_free a hs [] = Inl NoMoreAddresses"
| "first_free a hs (idx # idxs) =
     bindR (bindR (ip_getitem a idx) ip_str) (\<lambda>address.
       if has_key hs address then first_free a hs idxs else Inr address)"

definition next_address :: "ip \<Rightarrow> hosts \<Rightarrow> string res" where
  "next_address a hs = bindR (range_indices a) (first_free a hs)"

text \<open>\<^verbatim>\<open>allocate_ip\<close>, the same code in \<^verbatim>\<open>Network\<close> and
  \<^verbatim>\<open>PublicNetwork\<close>.\<close>

definition allocate_ip :: "flags \<Rightarrow> string \<Rightarrow> string option \<Rightarrow> string net_act" where
  "allocate_ip fl user_id mac =
     bindS (\<lambda>(n, w). (next_address (n_network n) (n_hosts n), n, w)) (\<lambda>address.
     bindS (set_hosts (dput address (new_host address user_id mac))) (\<lambda>_.
     bindS (on_world (express fl (Some address))) (\<lambda>_. retS address)))"

definition deallocate_ip :: "flags \<Rightarrow> string \<Rightarrow> unit net_act" where
  "deallocate_ip fl address =
     bindS get_hosts (\<lambda>hs.
       if \<not> has_key hs address then raiseS (AddressNotAllocated [])
       else bindS (set_hosts (ddel address)) (\<lambda>_. on_world (deexpress fl (Address address))))"

text \<open>\<^verbatim>\<open>PrivateNetwork(...)\<close> and \<^verbatim>\<open>PublicNetwork(...)\<close>: the constructors
  run \<^verbatim>\<open>express\<close>.\<close>

definition private_init :: "flags \<Rightarrow> string \<Rightarrow> int \<Rightarrow> string \<Rightarrow> int \<Rightarrow> hosts \<Rightarrow> (world, net) act" where
  "private_init fl vip vport network vlan hs =
     bindS (net_init fl (PrivateNetwork vip vport) network vlan hs) (\<lambda>n.
     bindS (express fl None n) (\<lambda>_. retS n))"

definition public_init :: "flags \<Rightarrow> string \<Rightarrow> int \<Rightarrow> hosts \<Rightarrow> (world, net) act" where
  "public_init fl network vlan hs =
     bindS (net_init fl PublicNetwork network vlan hs) (\<lambda>n.
     bindS (express fl None n) (\<lambda>_. retS n))"

text \<open>The keyword arguments that a stored dictionary gives the constructor; a missing one takes
  its default, and a private network without its VPN fields is a \<^verbatim>\<open>TypeError\<close>.\<close>

definition kw_network :: "(string, json) dict \<Rightarrow> string \<Rightarrow> string res" where
  "kw_network d dflt = (case map_of d ''network'' of None \<Rightarrow> Inr dflt | Some j \<Rightarrow> jstr j)"

definition kw_vlan :: "(string, json) dict \<Rightarrow> int res" where
  "kw_vlan d = (case map_of d ''vlan'' of None \<Rightarrow> Inr 100 | Some j \<Rightarrow> jint j)"

definition kw_hosts :: "(string, json) dict \<Rightarrow> hosts res" where
  "kw_hosts d = (case map_of d ''hosts'' of None \<Rightarrow> Inr [] | Some j \<Rightarrow> json_hosts j)"

definition private_from_dict :: "flags \<Rightarrow> json \<Rightarrow> (world, net) act" where
  "private_from_dict fl j =
     bindS (liftR (jdict j)) (\<lambda>d.
     if \<not> has_key d ''external_vpn_ip'' \<or> \<not> has_key d ''external_vpn_port'' then raiseS TypeError
     else
       bindS (liftR (bindR (dget d ''external_vpn_ip'') jstr)) (\<lambda>vip.
       bindS (liftR (bindR (dget d ''external_vpn_port'') jint)) (\<lambda>vport.
       bindS (liftR (kw_network d ''192.168.100.0/24'')) (\<lambda>network.
       bindS (liftR (kw_vlan d)) (\<lambda>vlan.
       bindS (liftR (kw_hosts d)) (\<lambda>hs.
         private_init fl vip vport network vlan hs))))))"

definition public_from_dict :: "flags \<Rightarrow> json \<Rightarrow> (world, net) act" where
  "public_from_dict fl j =
     bindS (liftR (jdict j)) (\<lambda>d.
     bindS (liftR (kw_network d ''192.168.216.0/24'')) (\<lambda>network.
     bindS (liftR (kw_vlan d)) (\<lambda>vlan.
     bindS (liftR (kw_hosts d)) (\<lambda>hs. public_init fl network vlan hs))))"

text \<open>\<^verbatim>\<open>PrivateNetwork.get_vpn_ip\<close>: the address with index 2 is the VPN's.\<close>

definition get_vpn_ip :: "flags \<Rightarrow> string \<Rightarrow> string option \<Rightarrow> string net_act" where
  "get_vpn_ip fl user_id mac =
     bindS (\<lambda>(n, w). (net_item n 2, n, w)) (\<lambda>address.
     bindS (set_hosts (dput address (new_host address user_id mac))) (\<lambda>_.
     bindS (on_world (express fl None)) (\<lambda>_. retS address)))"

definition public_associate :: "flags \<Rightarrow> string \<Rightarrow> string \<Rightarrow> string \<Rightarrow> unit net_act" where
  "public_associate fl public_ip private_ip instance_id =
     bindS get_hosts (\<lambda>hs. case map_of hs public_ip of
         None \<Rightarrow> raiseS (AddressNotAllocated [])
       | Some h \<Rightarrow>
           if \<exists>a \<in> set (vals hs). map_option fst (h_assoc a) = Some private_ip then raiseS AddressAlreadyAssociated
           else if h_assoc h \<noteq> None then raiseS AddressAlreadyAssociated
           else bindS (set_hosts (dput public_ip (h\<lparr>h_assoc := Some (private_ip, instance_id)\<rparr>))) (\<lambda>_.
                on_world (express fl (Some public_ip))))"

text \<open>The rules are to be removed before the two fields are; \<^verbatim>\<open>deexpress\<close> gets the
  entry of the table instead of its key.\<close>

definition public_disassociate :: "flags \<Rightarrow> string \<Rightarrow> unit net_act" where
  "public_disassociate fl public_ip =
     bindS get_hosts (\<lambda>hs. case map_of hs public_ip of
         None \<Rightarrow> raiseS (AddressNotAllocated [])
       | Some h \<Rightarrow>
           if h_assoc h = None then raiseS AddressNotAssociated
           else bindS (on_world (deexpress fl (Host_Entry h))) (\<lambda>_.
                set_hosts (dput public_ip (h\<lparr>h_assoc := None\<rparr>))))"

subsection \<open>Pools\<close>

record net_pool =
  np_network :: ip
  np_netsize :: int
  np_startvlan :: int

definition net_pool_init :: "int \<Rightarrow> int \<Rightarrow> string \<Rightarrow> net_pool res" where
  "net_pool_init netsize startvlan network =
     bindR (IP network) (\<lambda>a.
       if netsize \<notin> {4, 8, 16, 32, 64, 128, 256, 512, 1024} then Inl NotValidNetworkSize
       else Inr \<lparr>np_network = a, np_netsize = netsize, np_startvlan = startvlan\<rparr>)"

definition get_from_vlan :: "net_pool \<Rightarrow> int \<Rightarrow> string res" where
  "get_from_vlan p vlan =
     (let start = (vlan - np_startvlan p) * np_netsize p in
      bindR (bindR (ip_getitem (np_network p) start) ip_str) (\<lambda>a.
      bindR (bindR (ip_getitem (np_network p) (start + np_netsize p - 1)) ip_str) (\<lambda>b.
        Inr (a @ ''-'' @ b))))"

record vlan_pool =
  vp_start :: int
  vp_end :: int
  vp_vlans :: "(string, int) dict"
  vp_vlanpool :: "(int, string) dict"

definition vlan_pool_init :: "int \<Rightarrow> int \<Rightarrow> (string, int) dict \<Rightarrow> vlan_pool" where
  "vlan_pool_init s e vlans =
     \<lparr>vp_start = s, vp_end = e, vp_vlans = vlans,
      vp_vlanpool = fold (\<lambda>(user_id, vlan). dput vlan user_id) vlans []\<rparr>"

definition vlan_pool_to_dict :: "vlan_pool \<Rightarrow> json" where
  "vlan_pool_to_dict p = JDict
     [(''vlans'', JDict (map (\<lambda>(u, v). (u, JInt v)) (vp_vlans p))), (''start'', JInt (vp_start p)),
      (''end'', JInt (vp_end p))]"

definition vlan_pool_from_dict :: "flags \<Rightarrow> json \<Rightarrow> vlan_pool res" where
  "vlan_pool_from_dict fl j = bindR (jdict j) (\<lambda>d.
     bindR (case map_of d ''start'' of None \<Rightarrow> Inr (vlan_start fl) | Some x \<Rightarrow> jint x) (\<lambda>s.
     bindR (case map_of d ''end'' of None \<Rightarrow> Inr (vlan_end fl) | Some x \<Rightarrow> jint x) (\<lambda>e.
     bindR (case map_of d ''vlans'' of None \<Rightarrow> Inr []
            | Some x \<Rightarrow> bindR (jdict x) (mapR (\<lambda>(u, v). bindR (jint v) (\<lambda>i. Inr (u, i))))) (\<lambda>vlans.
     Inr (vlan_pool_init s e vlans)))))"

definition assign_vlan :: "string \<Rightarrow> int \<Rightarrow> vlan_pool \<Rightarrow> vlan_pool" where
  "assign_vlan user_id vlan p =
     p\<lparr>vp_vlans := dput user_id vlan (vp_vlans p), vp_vlanpool := dput vlan user_id (vp_vlanpool p)\<rparr>"

text \<open>The first entry whose user does not exist any more.\<close>

fun stale_vlan :: "flags \<Rightarrow> kstore \<Rightarrow> (string, int) dict \<Rightarrow> (string \<times> int) option res" where
  "stale_vlan fl K [] = Inr None"
| "stale_vlan fl K ((old_user_id, vlan) # rest) =
     bindR (get_user fl K old_user_id) (\<lambda>u. case u of
         None \<Rightarrow> Inr (Some (old_user_id, vlan))
       | Some _ \<Rightarrow> stale_vlan fl K rest)"

text \<open>\<^verbatim>\<open>VlanPool.next\<close>; the datastore is part of the state.\<close>

definition vlan_pool_next :: "flags \<Rightarrow> string \<Rightarrow> (vlan_pool \<times> kstore, int) act" where
  "vlan_pool_next fl user_id = (\<lambda>(p, K). case stale_vlan fl K (vp_vlans p) of
      Inl e \<Rightarrow> (Inl e, p, K)
    | Inr (Some (old_user_id, vlan)) \<Rightarrow>
        (Inr vlan, assign_vlan user_id vlan p,
         kdel net_prefix (old_user_id @ ''-default'')
           (kset net_prefix (old_user_id @ ''-default'') (JDict []) K))
    | Inr None \<Rightarrow>
        (let nextvlan = Max (set (keys (vp_vlanpool p) @ [vp_start p])) + 1 in
         if nextvlan = vp_end p then (Inl (AddressNotAllocated ''Out of VLANs''), p, K)
         else (Inr nextvlan, assign_vlan user_id nextvlan p, K)))"

subsection \<open>What the operations leave alone\<close>

lemma json_text_exec [simp]: "json_text (exec c w) = json_text w"
  by (simp add: execute_def Let_def)

lemma confirm_rule_store [simp]: "store (confirm_rule c w) = store w" "store (remove_rule c w) = store w"
  "json_text (confirm_rule c w) = json_text w" "json_text (remove_rule c w) = json_text w"
  by (simp_all add: confirm_rule_def remove_rule_def)

lemma fold_rules_store [simp]:
  "store (fold confirm_rule cs w) = store w" "store (fold remove_rule cs w) = store w"
  by (induction cs arbitrary: w) simp_all

lemma vlan_express_store [simp]: "store (vlan_express fl n w) = store w"
  by (simp add: vlan_express_def)

lemma virt_express_store [simp]: "store (virt_express fl n w) = store w"
  by (auto simp: virt_express_def Let_def split: sum.splits)

lemma write_file_store [simp]: "store (write_file p c w) = store w" "store (unlink p w) = store w"
  by (simp_all add: write_file_def unlink_def)

lemma kill_pid_store [simp]: "store (snd (kill_pid t s w)) = store w"
  by (auto simp: kill_pid_def Let_def split: sum.splits)

lemma start_dnsmasq_store [simp]: "store (snd (start_dnsmasq fl n w)) = store w"
  by (auto simp: start_dnsmasq_def Let_def case_prod_beta split: sum.splits option.splits)

lemma stop_dnsmasq_store [simp]: "store (stop_dnsmasq fl n w) = store w"
  by (auto simp: stop_dnsmasq_def Let_def split: option.splits)

lemma dhcp_express_store [simp]: "store (snd (dhcp_express fl n w)) = store w"
  by (auto simp: dhcp_express_def Let_def)

lemma cloudpipe_express_store [simp]: "store (snd (cloudpipe_express n vip vport w)) = store w"
  by (auto simp: cloudpipe_express_def split: sum.splits)

lemma express_host_store [simp]: "store (express_host fl h w) = store w"
  by (auto simp: express_host_def split: option.splits)

lemma fold_express_host_store [simp]: "store (fold (express_host fl) hs w) = store w"
  by (induction hs arbitrary: w) simp_all

lemma public_express_store [simp]: "store (snd (public_express fl n a w)) = store w"
  by (auto simp: public_express_def split: option.splits sum.splits)

lemma snd_bindS_keeps:
  assumes "\<And>s. f (snd (m s)) = f s" and "\<And>x s. f (snd (g x s)) = f s"
  shows "f (snd (bindS m g s)) = f s"
  using assms by (auto simp: bindS_def split: prod.splits sum.splits) (metis snd_conv)+

lemma express_store [simp]: "store (snd (express fl a n w)) = store w"
  unfolding express_def by (auto split: net_class.splits intro!: snd_bindS_keeps [of store])

lemma deexpress_store [simp]: "store (snd (deexpress fl a n w)) = store w"
  unfolding deexpress_def
  by (auto split: net_class.splits deexpress_arg.splits option.splits intro!: snd_bindS_keeps [of store])

lemma net_init_store [simp]: "store (snd (net_init fl c s v hs w)) = store w"
  unfolding net_init_def by (intro snd_bindS_keeps [of store]) auto

lemma private_init_store [simp]: "store (snd (private_init fl vip vport s v hs w)) = store w"
  unfolding private_init_def by (intro snd_bindS_keeps [of store]) auto

subsection \<open>The addresses of a network\<close>

text \<open>An IPv4 network with at least four addresses; the constructor of a network object and the
  sizes of the pool give nothing smaller.\<close>

definition v4_net :: "ip \<Rightarrow> bool" where
  "v4_net a \<longleftrightarrow> ip_ok a \<and> ip_version a = 4 \<and> 4 \<le> ip_len a"

text \<open>The addresses that \<^verbatim>\<open>range\<close> yields, in order.\<close>

definition range_addresses :: "ip \<Rightarrow> string list" where
  "range_addresses a = map (\<lambda>i. v4_str (ip_int a + i)) [3..ip_len a - 3]"

lemma v4_net_bounds:
  assumes "v4_net a"
  shows "0 \<le> ip_int a" "ip_int a + ip_len a \<le> 2 ^ 32" "4 \<le> ip_len a" "ip_len a \<le> 2 ^ 32"
  using assms by (auto simp: v4_net_def ip_ok_def ip_bits_def)

lemma v4_net_item:
  assumes "v4_net a" and "- ip_len a \<le> k" and "k < ip_len a"
  shows "bindR (ip_getitem a k) ip_str = Inr (v4_str (ip_int a + (if k < 0 then ip_len a + k else k)))"
proof -
  have "ip_str (ip_of_int i) = Inr (v4_str i)" if "ip_int a \<le> i" "i < ip_int a + ip_len a" for i
    using v4_net_bounds [OF assms(1)] that by (intro ip_str_v4) auto
  then show ?thesis
    using ip_getitem_v4 [of a k] assms by (simp add: v4_net_def)
qed

lemma range_indices_v4: "v4_net a \<Longrightarrow> range_indices a = Inr [3..ip_len a - 3]"
  using v4_net_bounds [of a] by (simp add: range_indices_def ip_dunder_len_def)

lemma first_free_spec:
  assumes "v4_net a" and "\<And>i. i \<in> set is \<Longrightarrow> 0 \<le> i \<and> i < ip_len a"
  shows "first_free a hs is = (case filter (\<lambda>x. \<not> has_key hs x) (map (\<lambda>i. v4_str (ip_int a + i)) is) of
      [] \<Rightarrow> Inl NoMoreAddresses | x # _ \<Rightarrow> Inr x)"
  using assms(2)
proof (induction "is")
  case (Cons i "is")
  have "bindR (ip_getitem a i) ip_str = Inr (v4_str (ip_int a + i))"
    using v4_net_item [OF assms(1), of i] Cons.prems [of i] v4_net_bounds [OF assms(1)] by (auto simp del: bindR_Inr)
  then show ?case using Cons by (simp del: bindR_Inr)
qed simp

lemma next_address_spec:
  assumes "v4_net a"
  shows "next_address a hs = (case filter (\<lambda>x. \<not> has_key hs x) (range_addresses a) of
      [] \<Rightarrow> Inl NoMoreAddresses | x # _ \<Rightarrow> Inr x)"
  using first_free_spec [OF assms, of "[3..ip_len a - 3]" hs] range_indices_v4 [OF assms]
  by (simp add: next_address_def range_addresses_def)

lemma length_range_addresses: "length (range_addresses a) = nat (ip_len a - 5)"
  by (simp add: range_addresses_def)

lemma distinct_range_addresses:
  assumes "v4_net a"
  shows "distinct (range_addresses a)"
proof -
  have "inj_on (\<lambda>i. v4_str (ip_int a + i)) (set [3..ip_len a - 3])"
  proof (rule inj_onI)
    fix i j assume "i \<in> set [3..ip_len a - 3]" "j \<in> set [3..ip_len a - 3]"
      and eq: "v4_str (ip_int a + i) = v4_str (ip_int a + j)"
    then have "ip_int a + i = ip_int a + j"
      using v4_net_bounds [OF assms] by (intro v4_str_inj [OF _ _ _ _ eq]) auto
    then show "i = j" by simp
  qed
  then show ?thesis by (simp add: range_addresses_def distinct_map)
qed

lemma range_addresses_in:
  assumes "v4_net a" and "x \<in> set (range_addresses a)"
  shows "ip_contains a x = Inr True"
proof -
  obtain i where "x = v4_str (ip_int a + i)" "3 \<le> i" "i \<le> ip_len a - 3"
    using assms(2) by (auto simp: range_addresses_def)
  then show ?thesis
    using v4_net_bounds [OF assms(1)] ip_contains_v4 [of "ip_int a + i" a] by simp
qed

subsection \<open>Expressing a network succeeds\<close>

lemma net_item_v4:
  assumes "v4_net (n_network n)" and "k \<in> {1, 2, 3, -2}"
  shows "\<exists>s. net_item n k = Inr s"
  using v4_net_item [OF assms(1), of k] v4_net_bounds(3) [OF assms(1)] assms(2)
  by (auto simp: net_item_def)

lemma start_dnsmasq_ok:
  assumes "v4_net (n_network n)"
  shows "\<exists>w'. start_dnsmasq fl n w = (Inr (), w')"
proof -
  have "\<exists>cmd. dnsmasq_cmd fl n c = Inr cmd" for c
    using net_item_v4 [OF assms, of 1] net_item_v4 [OF assms, of 3] net_item_v4 [OF assms, of "-2"]
    by (auto simp: dnsmasq_cmd_def Let_def)
  then show ?thesis
    by (auto simp: start_dnsmasq_def Let_def case_prod_beta split: sum.splits) (metis Inl_Inr_False)
qed

lemma private_express_ok:
  assumes "v4_net (n_network n)" and "n_class n = PrivateNetwork vip vport"
  shows "\<exists>w'. express fl a n w = (Inr (), w')"
proof -
  obtain w1 where w1: "dhcp_express fl n w = (Inr (), w1)"
    using start_dnsmasq_ok [OF assms(1), of fl "virt_express fl n w"]
    unfolding dhcp_express_def Let_def by metis
  have "\<exists>w2. cloudpipe_express n vip vport w1 = (Inr (), w2)"
    using net_item_v4 [OF assms(1), of 2] by (auto simp: cloudpipe_express_def)
  then show ?thesis using w1 assms(2) by (auto simp: express_def bindS_def)
qed

lemma public_express_ok:
  assumes "n_class n = PublicNetwork" and "\<And>x. a = Some x \<Longrightarrow> has_key (n_hosts n) x"
  shows "\<exists>w'. express fl a n w = (Inr (), w')"
  using assms by (cases a) (auto simp: express_def public_express_def)

subsection \<open>The host table as a pool of addresses\<close>

text \<open>A row of allocations, one for each user of a list.\<close>

fun allocs :: "(string \<Rightarrow> string option \<Rightarrow> ('s, string) act) \<Rightarrow> string list \<Rightarrow> ('s, string list) act" where
  "allocs alloc [] = retS []"
| "allocs alloc (u # us) = bindS (alloc u None) (\<lambda>x. bindS (allocs alloc us) (\<lambda>xs. retS (x # xs)))"

text \<open>
  What a client of a network relies on: an allocation takes the first address of the pool that is
  not taken and fails only when there is none; a deallocation frees the address whatever it
  returns, and is refused for an address that is not taken.
\<close>

locale address_pool =
  fixes ok :: "'s \<Rightarrow> bool"
    and pool :: "'s \<Rightarrow> string list"
    and taken :: "'s \<Rightarrow> string set"
    and alloc :: "string \<Rightarrow> string option \<Rightarrow> ('s, string) act"
    and dealloc :: "string \<Rightarrow> ('s, unit) act"
  assumes pool_distinct: "ok s \<Longrightarrow> distinct (pool s)"
    and alloc_some: "ok s \<Longrightarrow> filter (\<lambda>x. x \<notin> taken s) (pool s) = x # xs \<Longrightarrow>
      \<exists>s'. alloc u m s = (Inr x, s') \<and> ok s' \<and> pool s' = pool s \<and> taken s' = insert x (taken s)"
    and alloc_none: "ok s \<Longrightarrow> filter (\<lambda>x. x \<notin> taken s) (pool s) = [] \<Longrightarrow>
      alloc u m s = (Inl NoMoreAddresses, s)"
    and dealloc_taken: "ok s \<Longrightarrow> x \<in> taken s \<Longrightarrow>
      ok (snd (dealloc x s)) \<and> pool (snd (dealloc x s)) = pool s \<and> taken (snd (dealloc x s)) = taken s - {x}"
    and dealloc_free: "ok s \<Longrightarrow> x \<notin> taken s \<Longrightarrow> dealloc x s = (Inl (AddressNotAllocated []), s)"
begin

lemma alloc_fresh:
  assumes "ok s" and "alloc u m s = (Inr x, s')"
  shows "x \<in> set (pool s)" "x \<notin> taken s" "taken s' = insert x (taken s)" "ok s'" "pool s' = pool s"
proof -
  obtain y ys where y: "filter (\<lambda>x. x \<notin> taken s) (pool s) = y # ys"
    using alloc_none [OF assms(1), of u m] assms(2) by (cases "filter (\<lambda>x. x \<notin> taken s) (pool s)") auto
  have "y \<in> set (filter (\<lambda>x. x \<notin> taken s) (pool s))" by (simp add: y)
  then show "x \<in> set (pool s)" "x \<notin> taken s" "taken s' = insert x (taken s)" "ok s'" "pool s' = pool s"
    using alloc_some [OF assms(1) y, of u m] assms(2) by auto
qed

lemma alloc_full_iff:
  assumes "ok s"
  shows "(\<exists>e s'. alloc u m s = (Inl e, s')) \<longleftrightarrow> set (pool s) \<subseteq> taken s"
proof (cases "filter (\<lambda>x. x \<notin> taken s) (pool s)")
  case Nil
  then show ?thesis using alloc_none [OF assms Nil, of u m] by (auto simp: filter_empty_conv)
next
  case (Cons x xs)
  then have "x \<in> set (filter (\<lambda>x. x \<notin> taken s) (pool s))" by simp
  then show ?thesis using alloc_some [OF assms Cons, of u m] by auto
qed

lemma alloc_dealloc:
  assumes "ok s" and "alloc u m s = (Inr x, s')"
  shows "taken (snd (dealloc x s')) = taken s"
  using alloc_fresh [OF assms] dealloc_taken [of s' x] by auto

lemma dealloc_alloc_first:
  assumes "ok s" and "taken s = set (pool s)" and "x \<in> set (pool s)"
  shows "\<exists>s'. alloc u m (snd (dealloc x s)) = (Inr x, s')"
proof -
  let ?t = "snd (dealloc x s)"
  have t: "ok ?t" "pool ?t = pool s" "taken ?t = taken s - {x}" using dealloc_taken assms by auto
  have "filter (\<lambda>y. y = x) ys = [x]" if "distinct ys" "x \<in> set ys" for ys
    using that by (induction ys) (auto simp: filter_empty_conv)
  moreover have "filter (\<lambda>y. y \<notin> taken ?t) (pool ?t) = filter (\<lambda>y. y = x) (pool s)"
    unfolding t assms(2) by (rule filter_cong) (use assms(3) in auto)
  ultimately have "filter (\<lambda>y. y \<notin> taken ?t) (pool ?t) = [x]" using pool_distinct assms(1,3) by simp
  then show ?thesis using alloc_some [OF t(1)] by blast
qed

lemma alloc_many_spec:
  assumes "ok s" and "length us \<le> length (filter (\<lambda>x. x \<notin> taken s) (pool s))"
  shows "\<exists>s'. allocs alloc us s = (Inr (take (length us) (filter (\<lambda>x. x \<notin> taken s) (pool s))), s') \<and> ok s'"
  using assms
proof (induction us arbitrary: s)
  case (Cons u us)
  obtain y ys where y: "filter (\<lambda>x. x \<notin> taken s) (pool s) = y # ys"
    using Cons.prems(2) by (cases "filter (\<lambda>x. x \<notin> taken s) (pool s)") auto
  obtain s1 where s1: "alloc u None s = (Inr y, s1)" "ok s1" "pool s1 = pool s" "taken s1 = insert y (taken s)"
    using alloc_some [OF Cons.prems(1) y] by blast
  have "distinct (y # ys)" using pool_distinct [OF Cons.prems(1)] distinct_filter y by metis
  moreover have "filter (\<lambda>x. x \<notin> taken s1) (pool s1) = filter (\<lambda>x. x \<noteq> y) (filter (\<lambda>x. x \<notin> taken s) (pool s))"
    unfolding s1 by (auto intro: filter_cong)
  ultimately have rest: "filter (\<lambda>x. x \<notin> taken s1) (pool s1) = ys" by (auto simp: y filter_id_conv)
  then obtain s2 where "allocs alloc us s1 = (Inr (take (length us) ys), s2)" "ok s2"
    using Cons.IH [OF s1(2)] Cons.prems(2) y by auto
  then show ?case using s1(1) y by (auto simp: bindS_def)
qed simp

end

text \<open>The two kinds of network the controller owns.\<close>

definition net_ok :: "net \<Rightarrow> bool" where
  "net_ok n \<longleftrightarrow> v4_net (n_network n) \<and> (n_class n = PublicNetwork \<or> (\<exists>vip vport. n_class n = PrivateNetwork vip vport))"

abbreviation state_ok :: "net \<times> world \<Rightarrow> bool" where
  "state_ok \<equiv> \<lambda>(n, w). net_ok n"

abbreviation state_pool :: "net \<times> world \<Rightarrow> string list" where
  "state_pool \<equiv> \<lambda>(n, w). range_addresses (n_network n)"

abbreviation state_taken :: "net \<times> world \<Rightarrow> string set" where
  "state_taken \<equiv> \<lambda>(n, w). set (keys (n_hosts n))"

lemma net_ok_express:
  assumes "net_ok n" and "\<And>x. a = Some x \<Longrightarrow> has_key (n_hosts n) x"
  shows "\<exists>w'. express fl a n w = (Inr (), w')"
proof (cases "n_class n = PublicNetwork")
  case True
  then show ?thesis using assms by (intro public_express_ok) auto
next
  case False
  then obtain vip vport where "n_class n = PrivateNetwork vip vport" using assms by (auto simp: net_ok_def)
  then show ?thesis using assms by (intro private_express_ok) (auto simp: net_ok_def)
qed

lemma net_ok_hosts [simp]: "net_ok (n\<lparr>n_hosts := hs\<rparr>) = net_ok n"
  by (simp add: net_ok_def)

lemma allocate_ip_some:
  assumes "net_ok n" and "filter (\<lambda>x. x \<notin> set (keys (n_hosts n))) (range_addresses (n_network n)) = x # xs"
  shows "\<exists>w'. allocate_ip fl u m (n, w) =
    (Inr x, n\<lparr>n_hosts := dput x (new_host x u m) (n_hosts n)\<rparr>, w') \<and> store w' = store w"
proof -
  let ?n = "n\<lparr>n_hosts := dput x (new_host x u m) (n_hosts n)\<rparr>"
  have "next_address (n_network n) (n_hosts n) = Inr x"
    using next_address_spec [of "n_network n" "n_hosts n"] assms
    by (simp add: net_ok_def map_of_eq_None_iff)
  moreover obtain w' where w': "express fl (Some x) ?n w = (Inr (), w')"
    using net_ok_express [of ?n "Some x" fl w] assms(1) by auto
  moreover have "store w' = store w" using express_store [of fl "Some x" ?n w] w' by simp
  ultimately show ?thesis
    by (auto simp: allocate_ip_def bindS_def set_hosts_def on_world_def)
qed

lemma allocate_ip_none:
  assumes "net_ok n" and "filter (\<lambda>x. x \<notin> set (keys (n_hosts n))) (range_addresses (n_network n)) = []"
  shows "allocate_ip fl u m (n, w) = (Inl NoMoreAddresses, n, w)"
  using next_address_spec [of "n_network n" "n_hosts n"] assms
  by (simp add: net_ok_def map_of_eq_None_iff allocate_ip_def bindS_def)

lemma deallocate_ip_state:
  "\<exists>w'. snd (deallocate_ip fl x (n, w)) = (n\<lparr>n_hosts := (if has_key (n_hosts n) x then ddel x (n_hosts n) else n_hosts n)\<rparr>, w')
     \<and> store w' = store w"
proof (cases "has_key (n_hosts n) x")
  case True
  let ?n = "n\<lparr>n_hosts := ddel x (n_hosts n)\<rparr>"
  have "store (snd (deexpress fl (Address x) ?n w)) = store w" by simp
  then show ?thesis
    using True by (auto simp: deallocate_ip_def bindS_def get_hosts_def set_hosts_def on_world_def case_prod_beta)
qed (auto simp: deallocate_ip_def bindS_def get_hosts_def)

lemma deallocate_ip_unknown:
  "\<not> has_key (n_hosts n) x \<Longrightarrow> deallocate_ip fl x (n, w) = (Inl (AddressNotAllocated []), n, w)"
  by (simp add: deallocate_ip_def bindS_def get_hosts_def)

lemma deallocate_ip_private:
  assumes "n_class n = PrivateNetwork vip vport" and "has_key (n_hosts n) x"
  shows "\<exists>w'. deallocate_ip fl x (n, w) = (Inr (), n\<lparr>n_hosts := ddel x (n_hosts n)\<rparr>, w') \<and> store w' = store w"
  using assms
  by (auto simp: deallocate_ip_def bindS_def get_hosts_def set_hosts_def on_world_def deexpress_def)

text \<open>A public address is taken out of the table before its rules are looked up there.\<close>

lemma deallocate_ip_public:
  assumes "n_class n = PublicNetwork" and "has_key (n_hosts n) x"
  shows "deallocate_ip fl x (n, w) = (Inl KeyError, n\<lparr>n_hosts := ddel x (n_hosts n)\<rparr>, w)"
  using assms
  by (auto simp: deallocate_ip_def bindS_def get_hosts_def set_hosts_def on_world_def deexpress_def)

interpretation host_table: address_pool state_ok state_pool state_taken "allocate_ip fl" "deallocate_ip fl" for fl
proof unfold_locales
  fix s :: "net \<times> world" assume "state_ok s"
  then show "distinct (state_pool s)" by (auto simp: net_ok_def intro: distinct_range_addresses)
next
  fix s :: "net \<times> world" and x xs u m
  assume "state_ok s" "filter (\<lambda>x. x \<notin> state_taken s) (state_pool s) = x # xs"
  then show "\<exists>s'. allocate_ip fl u m s = (Inr x, s') \<and> state_ok s' \<and> state_pool s' = state_pool s \<and>
      state_taken s' = insert x (state_taken s)"
    using allocate_ip_some [of "fst s" x xs fl u m "snd s"] by (auto simp: case_prod_beta)
next
  fix s :: "net \<times> world" and u m
  assume "state_ok s" "filter (\<lambda>x. x \<notin> state_taken s) (state_pool s) = []"
  then show "allocate_ip fl u m s = (Inl NoMoreAddresses, s)"
    using allocate_ip_none [of "fst s" fl u m "snd s"] by (auto simp: case_prod_beta)
next
  fix s :: "net \<times> world" and x assume ok: "state_ok s" "x \<in> state_taken s"
  obtain n w where s: "s = (n, w)" by fastforce
  have "has_key (n_hosts n) x" using ok by (simp only: s has_key_iff prod.case)
  then show "state_ok (snd (deallocate_ip fl x s)) \<and> state_pool (snd (deallocate_ip fl x s)) = state_pool s \<and>
      state_taken (snd (deallocate_ip fl x s)) = state_taken s - {x}"
    using deallocate_ip_state [of fl x n w] ok \<open>has_key (n_hosts n) x\<close> by (auto simp del: set_map simp: s)
next
  fix s :: "net \<times> world" and x assume "state_ok s" "x \<notin> state_taken s"
  then show "deallocate_ip fl x s = (Inl (AddressNotAllocated []), s)"
    using deallocate_ip_unknown [of "fst s" x fl "snd s"] by (auto simp: case_prod_beta map_of_eq_None_iff)
qed

subsection \<open>A stored network reads back\<close>

definition net_wf :: "net \<Rightarrow> bool" where
  "net_wf n \<longleftrightarrow> IP (n_network_str n) = Inr (n_network n) \<and> ip_getitem (n_network n) 1 = Inr (n_gateway n)"

lemma net_init_fields:
  "net_init fl c s v hs w = (Inr n, w') \<Longrightarrow>
   net_wf n \<and> n_class n = c \<and> n_network_str n = s \<and> n_vlan n = v \<and> n_hosts n = hs \<and>
   IP s = Inr (n_network n) \<and> ip_ok (n_network n)"
  by (auto simp: net_init_def net_wf_def bindS_Inr intro: IP_ok)

lemma net_init_wf:
  assumes "net_wf n"
  shows "net_init fl (n_class n) (n_network_str n) (n_vlan n) (n_hosts n) w =
    (Inr n, emit (Makedirs (networks_path fl)) w)"
  using assms by (simp add: net_init_def net_wf_def)

lemma private_init_wf:
  assumes "net_wf n" and "net_ok n" and "n_class n = PrivateNetwork vip vport"
  shows "\<exists>w'. private_init fl vip vport (n_network_str n) (n_vlan n) (n_hosts n) w = (Inr n, w') \<and> store w' = store w"
proof -
  obtain w' where "express fl None n (emit (Makedirs (networks_path fl)) w) = (Inr (), w')"
    using net_ok_express [OF assms(2), of None] by auto
  moreover have "store w' = store w"
    using calculation express_store [of fl None n "emit (Makedirs (networks_path fl)) w"] by simp
  ultimately show ?thesis
    using net_init_wf [OF assms(1), of fl w] assms(3) by (auto simp: private_init_def bindS_def)
qed

lemma private_from_to_dict:
  assumes "net_wf n" and "net_ok n" and "n_class n = PrivateNetwork vip vport"
  shows "\<exists>w'. private_from_dict fl (JDict (net_to_dict n)) w = (Inr n, w') \<and> store w' = store w"
  using private_init_wf [OF assms, of fl w] assms(3)
  by (simp add: private_from_dict_def net_to_dict_def kw_network_def kw_vlan_def kw_hosts_def)

subsection \<open>Associated public addresses\<close>

text \<open>No private address is bound to two public ones.\<close>

definition assoc_ok :: "hosts \<Rightarrow> bool" where
  "assoc_ok hs \<longleftrightarrow> (\<forall>x y p. map_option fst (Option.bind (map_of hs x) h_assoc) = Some p \<longrightarrow>
     map_option fst (Option.bind (map_of hs y) h_assoc) = Some p \<longrightarrow> x = y)"

lemma public_associate_ok:
  assumes "n_class n = PublicNetwork" and "map_of (n_hosts n) x = Some h" and "h_assoc h = None"
    and "\<forall>a \<in> set (vals (n_hosts n)). map_option fst (h_assoc a) \<noteq> Some p"
  shows "public_associate fl x p i (n, w) =
    (Inr (), n\<lparr>n_hosts := dput x (h\<lparr>h_assoc := Some (p, i)\<rparr>) (n_hosts n)\<rparr>,
     if x = [] then fold (express_host fl) (vals (dput x (h\<lparr>h_assoc := Some (p, i)\<rparr>) (n_hosts n))) w
     else express_host fl (h\<lparr>h_assoc := Some (p, i)\<rparr>) w)"
  using assms
  by (auto simp: public_associate_def bindS_def get_hosts_def set_hosts_def on_world_def express_def
      public_express_def)

lemma public_associate_keeps:
  assumes "assoc_ok (n_hosts n)" and "public_associate fl x p i (n, w) = (r, n', w')"
  shows "assoc_ok (n_hosts n')"
proof (cases "\<exists>h. map_of (n_hosts n) x = Some h \<and> h_assoc h = None \<and>
    (\<forall>a \<in> set (vals (n_hosts n)). map_option fst (h_assoc a) \<noteq> Some p)")
  case True
  then obtain h where h: "map_of (n_hosts n) x = Some h" "h_assoc h = None"
      "\<forall>a \<in> set (vals (n_hosts n)). map_option fst (h_assoc a) \<noteq> Some p" by blast
  then have n': "n_hosts n' = dput x (h\<lparr>h_assoc := Some (p, i)\<rparr>) (n_hosts n)"
    using assms(2)
    by (auto simp: public_associate_def bindS_def get_hosts_def set_hosts_def on_world_def case_prod_beta)
  have free: "map_option fst (Option.bind (map_of (n_hosts n) y) h_assoc) \<noteq> Some p" for y
  proof (cases "map_of (n_hosts n) y")
    case (Some a)
    then have "a \<in> set (vals (n_hosts n))" by (force dest: map_of_SomeD)
    then show ?thesis using h(3) Some by auto
  qed simp
  have new: "map_option fst (Option.bind (map_of (n_hosts n') y) h_assoc) =
      (if y = x then Some p else map_option fst (Option.bind (map_of (n_hosts n) y) h_assoc))" for y
    by (simp add: n')
  show ?thesis
    unfolding assoc_ok_def new using assms(1) [unfolded assoc_ok_def] free by metis
next
  case False
  have "public_associate fl x p i (n, w) = (fst (public_associate fl x p i (n, w)), n, w)"
  proof (cases "map_of (n_hosts n) x")
    case (Some h)
    with False have "(\<exists>a \<in> set (vals (n_hosts n)). map_option fst (h_assoc a) = Some p) \<or> h_assoc h \<noteq> None"
      by auto
    then show ?thesis
      using Some by (elim disjE) (auto simp: public_associate_def bindS_def get_hosts_def simp del: set_map)
  qed (simp add: public_associate_def bindS_def get_hosts_def)
  then have "n' = n" using assms(2) by simp
  then show ?thesis using assms(1) by simp
qed

lemma public_disassociate_stuck:
  assumes "n_class n = PublicNetwork" and "map_of (n_hosts n) x = Some h" and "h_assoc h = Some pi"
  shows "public_disassociate fl x (n, w) = (Inl TypeError, n, w)"
  using assms by (simp add: public_disassociate_def bindS_def get_hosts_def on_world_def deexpress_def)

subsection \<open>The blocks of the private pool\<close>

definition pool_ok :: "net_pool \<Rightarrow> bool" where
  "pool_ok p \<longleftrightarrow> ip_ok (np_network p) \<and> ip_version (np_network p) = 4 \<and> (\<exists>k. 2 \<le> k \<and> k \<le> 10 \<and> np_netsize p = 2 ^ k)"

text \<open>The VLANs for which the pool has a block.\<close>

definition pool_has :: "net_pool \<Rightarrow> int \<Rightarrow> bool" where
  "pool_has p vlan \<longleftrightarrow> np_startvlan p \<le> vlan \<and>
     (vlan - np_startvlan p + 1) * np_netsize p \<le> ip_len (np_network p)"

definition block_start :: "net_pool \<Rightarrow> int \<Rightarrow> int" where
  "block_start p vlan = ip_int (np_network p) + (vlan - np_startvlan p) * np_netsize p"

lemma net_pool_init_ok:
  "net_pool_init sz startv network = Inr p \<Longrightarrow> ip_version (np_network p) = 4 \<Longrightarrow> pool_ok p"
proof -
  assume a: "net_pool_init sz startv network = Inr p" and v: "ip_version (np_network p) = 4"
  have p: "IP network = Inr (np_network p)" "np_netsize p \<in> {4, 8, 16, 32, 64, 128, 256, 512, 1024}"
    using a by (auto simp: net_pool_init_def split: if_splits)
  have "\<exists>k. 2 \<le> k \<and> k \<le> (10::nat) \<and> np_netsize p = 2 ^ k"
  proof -
    have "np_netsize p \<in> (\<lambda>k. 2 ^ k) ` {2..10::nat}"
      using p(2) by (simp add: atLeastAtMost_upt upt_rec eval_nat_numeral)
    then show ?thesis by auto
  qed
  then show ?thesis using IP_ok [OF p(1)] v by (simp add: pool_ok_def)
qed

lemma get_from_vlan_spec:
  assumes "pool_ok p" and "pool_has p vlan"
  shows "\<exists>s a. get_from_vlan p vlan = Inr s \<and> IP s = Inr a \<and> ip_version a = 4 \<and>
    ip_int a = block_start p vlan \<and> ip_len a = np_netsize p"
proof -
  let ?net = "np_network p" and ?off = "(vlan - np_startvlan p) * np_netsize p"
  obtain k where k: "2 \<le> k" "k \<le> 10" "np_netsize p = 2 ^ k" using assms(1) by (auto simp: pool_ok_def)
  have ok: "ip_ok ?net" "ip_version ?net = 4" using assms(1) by (auto simp: pool_ok_def)
  obtain m where m: "ip_len ?net = 2 ^ m" by (auto simp: ip_len_def)
  have off: "0 \<le> ?off" "?off + np_netsize p \<le> ip_len ?net" and pos: "0 < np_netsize p"
    using assms(2) k(3) by (auto simp: pool_has_def algebra_simps)
  then have "(2::int) ^ k \<le> 2 ^ m" unfolding m k(3) [symmetric] by linarith
  then have "k \<le> m" by (simp add: power_le_imp_le_exp)
  then have "2 ^ k dvd ip_len ?net" by (simp add: m le_imp_power_dvd)
  then have dvd: "2 ^ k dvd block_start p vlan"
    using ok(1) dvd_trans by (auto simp: block_start_def ip_ok_def k(3))
  have bounds: "0 \<le> ip_int ?net" "ip_int ?net + ip_len ?net \<le> 2 ^ 32"
    using ok by (auto simp: ip_ok_def ip_bits_def)
  then have str: "ip_str (ip_of_int (ip_int ?net + j)) = Inr (v4_str (ip_int ?net + j))" if "0 \<le> j" "j < ip_len ?net" for j
    using that by (intro ip_str_v4) auto
  define off where "off = ?off"
  have o: "0 \<le> off" "off + 2 ^ k \<le> ip_len ?net" "block_start p vlan = ip_int ?net + off" "(1::int) \<le> 2 ^ k"
    using off k(3) by (simp_all add: off_def block_start_def)
  have items: "ip_getitem ?net off = Inr (ip_of_int (ip_int ?net + off))"
      "ip_getitem ?net (off + 2 ^ k - 1) = Inr (ip_of_int (ip_int ?net + (off + 2 ^ k - 1)))"
    using ip_getitem_v4 [OF ok, of off] ip_getitem_v4 [OF ok, of "off + 2 ^ k - 1"] o by auto
  have "get_from_vlan p vlan = Inr (v4_str (ip_int ?net + off) @ ''-'' @ v4_str (ip_int ?net + (off + 2 ^ k - 1)))"
    using items str [of off] str [of "off + 2 ^ k - 1"] o
    unfolding get_from_vlan_def off_def [symmetric] Let_def by (simp add: k(3))
  then have get: "get_from_vlan p vlan = Inr (v4_str (block_start p vlan) @ ''-'' @ v4_str (block_start p vlan + 2 ^ k - 1))"
    by (simp add: o(3) algebra_simps)
  have "IP (v4_str (block_start p vlan) @ ''-'' @ v4_str (block_start p vlan + 2 ^ k - 1)) =
      Inr \<lparr>ip_int = block_start p vlan, ip_version = 4, ip_prefixlen = 32 - int k\<rparr>"
    using k off bounds dvd by (intro IP_v4_range) (auto simp: block_start_def)
  with get show ?thesis by (auto simp: ip_len_def k)
qed

lemma blocks_disjoint:
  assumes "pool_ok p" and "u \<noteq> v"
  shows "block_start p u + np_netsize p \<le> block_start p v \<or> block_start p v + np_netsize p \<le> block_start p u"
proof -
  have pos: "0 \<le> np_netsize p" using assms(1) by (auto simp: pool_ok_def)
  have "(u - np_startvlan p + 1) * np_netsize p \<le> (v - np_startvlan p) * np_netsize p" if "u < v" for u v
    using that pos by (intro mult_right_mono) auto
  from this [of u v] this [of v u] show ?thesis
    using assms(2) by (cases "u < v") (auto simp: block_start_def algebra_simps)
qed

subsection \<open>The pool of VLANs\<close>

text \<open>No two users have the same VLAN, and the reverse table is the inverse of the table.\<close>

definition vlans_ok :: "vlan_pool \<Rightarrow> bool" where
  "vlans_ok p \<longleftrightarrow> distinct (keys (vp_vlans p)) \<and> distinct (vals (vp_vlans p)) \<and>
     set (keys (vp_vlanpool p)) = set (vals (vp_vlans p)) \<and>
     (\<forall>v \<in> set (vals (vp_vlans p)). vp_start p < v \<and> v < vp_end p)"

lemma vlan_pool_init_keys: "set (keys (fold (\<lambda>(u, v). dput v u) vs d)) = set (keys d) \<union> set (vals vs)"
  by (induction vs arbitrary: d) (simp_all add: case_prod_beta)

lemma vlan_pool_roundtrip:
  assumes "distinct (keys (vp_vlans p))"
  shows "vlan_pool_from_dict fl (vlan_pool_to_dict p) = Inr (vlan_pool_init (vp_start p) (vp_end p) (vp_vlans p))"
proof -
  have "mapR (\<lambda>(u, v). bindR (jint v) (\<lambda>i. Inr (u, i))) (map (\<lambda>(u, v). (u, JInt v)) (vp_vlans p)) = Inr (vp_vlans p)"
    by (rule mapR_id) auto
  then show ?thesis by (simp add: vlan_pool_from_dict_def vlan_pool_to_dict_def)
qed

lemma vlans_ok_init:
  "vlans_ok p \<Longrightarrow> vlans_ok (vlan_pool_init (vp_start p) (vp_end p) (vp_vlans p))"
  using vlan_pool_init_keys [of "vp_vlans p" "[]"] by (simp add: vlans_ok_def vlan_pool_init_def)

lemma next_vlan_above:
  "v \<in> set (keys (vp_vlanpool p)) \<or> v = vp_start p \<Longrightarrow> v < Max (set (keys (vp_vlanpool p) @ [vp_start p])) + 1"
proof -
  assume "v \<in> set (keys (vp_vlanpool p)) \<or> v = vp_start p"
  then have "v \<le> Max (set (keys (vp_vlanpool p) @ [vp_start p]))" by (intro Max_ge) auto
  then show ?thesis by linarith
qed

lemma vals_dput_new: "map_of d k = None \<Longrightarrow> vals (dput k v d) = vals d @ [v]"
  by (simp add: dput_fresh)

lemma vlan_next_fresh:
  assumes ok: "vlans_ok p" and live: "stale_vlan fl K (vp_vlans p) = Inr None"
    and new: "map_of (vp_vlans p) u = None" and run: "vlan_pool_next fl u (p, K) = (Inr v, p', K')"
    and start: "vp_start p + 1 < vp_end p"
  shows "vlans_ok p' \<and> K' = K \<and> vp_vlans p' = dput u v (vp_vlans p) \<and> v \<notin> set (vals (vp_vlans p)) \<and>
    vp_start p' = vp_start p \<and> vp_end p' = vp_end p"
proof -
  let ?v = "Max (set (keys (vp_vlanpool p) @ [vp_start p])) + 1"
  have v: "v = ?v" "p' = assign_vlan u v p" "K' = K" "v \<noteq> vp_end p"
    using run live by (auto simp: vlan_pool_next_def Let_def split: if_splits)
  have keys: "set (keys (vp_vlanpool p)) = set (vals (vp_vlans p))" using ok by (simp add: vlans_ok_def)
  have above: "w < v" if "w \<in> set (vals (vp_vlans p)) \<or> w = vp_start p" for w
    unfolding v(1) by (rule next_vlan_above) (use that keys in simp)
  have "Max (set (keys (vp_vlanpool p) @ [vp_start p])) \<in> set (keys (vp_vlanpool p) @ [vp_start p])"
    by (intro Max_in) auto
  then have "Max (set (keys (vp_vlanpool p) @ [vp_start p])) < vp_end p"
    using ok start keys by (auto simp: vlans_ok_def)
  then have "v < vp_end p" using v(1,4) by linarith
  moreover have "v \<notin> set (vals (vp_vlans p))" using above by blast
  moreover have "vp_start p < v" using above by blast
  ultimately show ?thesis
    using ok new v(2,3) keys by (auto simp: vlans_ok_def assign_vlan_def vals_dput_new)
qed

text \<open>The entry of a deleted user stays in the table, so the VLAN of that user goes to every
  user that asks after it.\<close>

lemma stale_vlan_again:
  assumes "stale_vlan fl K d = Inr (Some (old, v))" and "get_user fl K u = Inr (Some x)"
  shows "stale_vlan fl K (dput u v' d) = Inr (Some (old, v))"
  using assms(1)
proof (induction d)
  case (Cons kv d)
  obtain k w where kv: "kv = (k, w)" by fastforce
  obtain y where y: "get_user fl K k = Inr y"
    using Cons.prems by (cases "get_user fl K k") (auto simp: kv)
  show ?case
  proof (cases y)
    case None
    then have "k \<noteq> u" using y assms(2) by auto
    then have "get_user fl K k = Inr None" using y None by simp
    then show ?thesis using Cons.prems \<open>k \<noteq> u\<close> by (auto simp: kv)
  next
    case (Some z)
    then have "stale_vlan fl K d = Inr (Some (old, v))" using Cons.prems y by (simp add: kv)
    then show ?thesis using Cons.IH Some y by (cases "k = u") (simp_all add: kv)
  qed
qed simp

lemma get_user_net_store [simp]:
  "get_user fl (kset ''net'' i v K) n = get_user fl K n" "get_user fl (kdel ''net'' i K) n = get_user fl K n"
  "stale_vlan fl (kset ''net'' i v K) d = stale_vlan fl K d"
  "stale_vlan fl (kdel ''net'' i K) d = stale_vlan fl K d"
proof -
  have 1: "load_objects (kset ''net'' i v K) = load_objects K" "load_objects (kdel ''net'' i K) = load_objects K"
    by (simp_all add: load_objects_def)
  show u: "get_user fl (kset ''net'' i v K) n = get_user fl K n" "get_user fl (kdel ''net'' i K) n = get_user fl K n" for n
    by (simp_all add: get_user_def find_user_def find_object_def find_objects_def search_s_def 1)
  show "stale_vlan fl (kset ''net'' i v K) d = stale_vlan fl K d"
    "stale_vlan fl (kdel ''net'' i K) d = stale_vlan fl K d"
    by (induction d) (auto simp: u split: option.splits)
qed

lemma vlan_next_shared:
  assumes "stale_vlan fl K (vp_vlans p) = Inr (Some (old, v))" and "get_user fl K u1 = Inr (Some x)"
    and "vlan_pool_next fl u1 (p, K) = (r1, p1, K1)" and "vlan_pool_next fl u2 (p1, K1) = (r2, p2, K2)"
  shows "r1 = Inr v \<and> r2 = Inr v \<and> map_of (vp_vlans p2) u1 = Some v \<and> map_of (vp_vlans p2) u2 = Some v"
proof -
  have 1: "r1 = Inr v" "p1 = assign_vlan u1 v p"
      "K1 = kdel ''net'' (old @ ''-default'') (kset ''net'' (old @ ''-default'') (JDict []) K)"
    using assms(1,3) by (auto simp: vlan_pool_next_def)
  have "stale_vlan fl K1 (vp_vlans p1) = Inr (Some (old, v))"
    using stale_vlan_again [OF assms(1,2), of v] by (simp add: 1 assign_vlan_def)
  then have "r2 = Inr v" "p2 = assign_vlan u2 v p1" using assms(4) by (auto simp: vlan_pool_next_def)
  then show ?thesis using 1 by (simp add: assign_vlan_def)
qed

subsection \<open>Properties\<close>

text \<open>On a network without hosts, any number of users up to the size of the network less
  five gets the addresses from index 3 on in order, all distinct and inside the network; one more
  allocation is refused with no change.\<close>

theorem allocation_order:
  assumes "net_ok n" and "n_hosts n = []" and "int (length us) \<le> ip_len (n_network n) - 5"
  shows "\<exists>s'. allocs (allocate_ip fl) us (n, w) = (Inr (take (length us) (range_addresses (n_network n))), s') \<and>
    distinct (range_addresses (n_network n)) \<and>
    (\<forall>x \<in> set (range_addresses (n_network n)). ip_contains (n_network n) x = Inr True)"
proof -
  have free: "filter (\<lambda>x. x \<notin> state_taken (n, w)) (state_pool (n, w)) = range_addresses (n_network n)"
    using assms(2) by simp
  have "\<exists>s'. allocs (allocate_ip fl) us (n, w) = (Inr (take (length us) (range_addresses (n_network n))), s')"
  proof -
    have "length us \<le> length (range_addresses (n_network n))"
      unfolding length_range_addresses using assms(3) by linarith
    then show ?thesis
      using host_table.alloc_many_spec [of "(n, w)" us fl] assms(1) unfolding free by auto
  qed
  moreover have "v4_net (n_network n)" using assms(1) by (simp add: net_ok_def)
  ultimately show ?thesis using distinct_range_addresses range_addresses_in by blast
qed

definition demo_net :: net where
  "demo_net = \<lparr>n_class = PrivateNetwork ''127.0.0.1'' 8000, n_network_str = ''10.128.0.8-10.128.0.15'',
     n_network = \<lparr>ip_int = 176160776, ip_version = 4, ip_prefixlen = 29\<rparr>,
     n_gateway = ip_of_int 176160777, n_vlan = 2021, n_hosts = []\<rparr>"

lemma demo_net_ok: "net_ok demo_net" "net_wf demo_net"
proof -
  show "net_ok demo_net"
    by (simp add: net_ok_def demo_net_def v4_net_def ip_ok_def ip_bits_def ip_len_def)
  have "IP ''10.128.0.8-10.128.0.15'' = Inr \<lparr>ip_int = 176160776, ip_version = 4, ip_prefixlen = 29\<rparr>"
    by code_simp
  then show "net_wf demo_net" by (simp add: net_wf_def demo_net_def ip_getitem_def ip_len_def)
qed

lemma demo_range: "range_addresses (n_network demo_net) = [''10.128.0.11'', ''10.128.0.12'', ''10.128.0.13'']"
  by code_simp

theorem allocation_order_witness:
  "\<forall>w fl. \<exists>s'. allocs (allocate_ip fl) [''joe'', ''ann''] (demo_net, w) = (Inr [''10.128.0.11'', ''10.128.0.12''], s')"
proof (intro allI)
  fix w fl
  show "\<exists>s'. allocs (allocate_ip fl) [''joe'', ''ann''] (demo_net, w) = (Inr [''10.128.0.11'', ''10.128.0.12''], s')"
    using allocation_order [OF demo_net_ok(1), of "[''joe'', ''ann'']" fl w] demo_range
    by (simp add: demo_net_def ip_len_def)
qed




definition demo_public :: "(string \<times> string) option \<Rightarrow> net" where
  "demo_public a = demo_net\<lparr>n_class := PublicNetwork, n_hosts :=
     [(''10.128.0.11'', \<lparr>h_address = ''10.128.0.11'', h_user_id = ''joe'', h_mac = None, h_assoc = a\<rparr>)]\<rparr>"


text \<open>A public address that is bound to an instance can never be unbound: the call
  raises a type error, runs no command and changes nothing; and a public address cannot be given back
  without an error: whatever its state, the call raises a missing key after the entry is gone.\<close>

theorem public_release_fails:
  assumes "n_class n = PublicNetwork" and "map_of (n_hosts n) x = Some h"
  shows "(h_assoc h \<noteq> None \<longrightarrow> public_disassociate fl x (n, w) = (Inl TypeError, n, w)) \<and>
    deallocate_ip fl x (n, w) = (Inl KeyError, n\<lparr>n_hosts := ddel x (n_hosts n)\<rparr>, w)"
  using public_disassociate_stuck [OF assms] deallocate_ip_public [OF assms(1)] assms(2) by auto

theorem public_release_fails_witness:
  "\<forall>w fl. public_disassociate fl ''10.128.0.11'' (demo_public (Some (''10.0.0.5'', ''i-1'')), w) =
    (Inl TypeError, demo_public (Some (''10.0.0.5'', ''i-1'')), w)"
proof (intro allI)
  fix w fl
  show "public_disassociate fl ''10.128.0.11'' (demo_public (Some (''10.0.0.5'', ''i-1'')), w) =
    (Inl TypeError, demo_public (Some (''10.0.0.5'', ''i-1'')), w)"
    using public_release_fails [of "demo_public (Some (''10.0.0.5'', ''i-1''))" "''10.128.0.11''"]
    by (simp add: demo_public_def)
qed


definition demo_pool :: net_pool where
  "demo_pool = \<lparr>np_network = \<lparr>ip_int = 176160768, ip_version = 4, ip_prefixlen = 12\<rparr>, np_netsize = 256,
     np_startvlan = 2020\<rparr>"


text \<open>While every user with a VLAN exists, a new user gets a VLAN between the bounds that
  no one else has, the datastore stays as it is, and the table keeps one user for each VLAN.\<close>

theorem next_vlan_is_fresh:
  assumes "vlans_ok p" and "stale_vlan fl K (vp_vlans p) = Inr None" and "map_of (vp_vlans p) u = None"
    and "vlan_pool_next fl u (p, K) = (Inr v, p', K')" and "vp_start p + 1 < vp_end p"
  shows "vlans_ok p' \<and> K' = K \<and> vp_vlans p' = dput u v (vp_vlans p) \<and> v \<notin> set (vals (vp_vlans p)) \<and>
    vp_start p < v \<and> v < vp_end p"
proof -
  note f = vlan_next_fresh [OF assms]
  have "v \<in> set (vals (vp_vlans p'))" using f by (simp add: dput_fresh assms(3))
  then have "vp_start p' < v \<and> v < vp_end p'" using f unfolding vlans_ok_def by blast
  then show ?thesis using f by simp
qed

theorem next_vlan_is_fresh_witness:
  "\<forall>K fl. \<exists>v p'. vlan_pool_next fl ''joe'' (vlan_pool_init 2020 2039 [], K) = (Inr v, p', K) \<and> vlans_ok p'"
proof (intro allI)
  fix K fl
  show "\<exists>v p'. vlan_pool_next fl ''joe'' (vlan_pool_init 2020 2039 [], K) = (Inr v, p', K) \<and> vlans_ok p'"
  proof -
    have run: "vlan_pool_next fl ''joe'' (vlan_pool_init 2020 2039 [], K) =
        (Inr 2021, assign_vlan ''joe'' 2021 (vlan_pool_init 2020 2039 []), K)"
      by (simp add: vlan_pool_next_def vlan_pool_init_def)
    have "vlans_ok (vlan_pool_init 2020 2039 [])" by (simp add: vlans_ok_def vlan_pool_init_def)
    from next_vlan_is_fresh [OF this _ _ run] show ?thesis using run by (simp add: vlan_pool_init_def)
  qed
qed

text \<open>Once a user with a VLAN is deleted, the VLAN of that user is given to every user
  that asks next: two different users that exist end up with the same VLAN, and so with the same block
  of addresses.\<close>

theorem deleted_users_vlan_is_shared:
  assumes "stale_vlan fl K (vp_vlans p) = Inr (Some (old, v))" and "get_user fl K u1 = Inr (Some x)"
    and "vlan_pool_next fl u1 (p, K) = (r1, p1, K1)" and "vlan_pool_next fl u2 (p1, K1) = (r2, p2, K2)"
  shows "r1 = Inr v \<and> r2 = Inr v \<and> map_of (vp_vlans p2) u1 = Some v \<and> map_of (vp_vlans p2) u2 = Some v"
  by (rule vlan_next_shared [OF assms])

definition demo_users :: "flags \<Rightarrow> string list \<Rightarrow> kstore" where
  "demo_users fl us = save_objects (map (\<lambda>u. (user_dn fl u, user_attrs fl u u u False)) us) Map.empty"

lemma demo_users_get:
  assumes "distinct us" and "\<forall>u \<in> set us. name_ok u" and "name_ok n"
  shows "get_user fl (demo_users fl us) n = Inr (if n \<in> set us then Some (mk_user n n n False) else None)"
proof -
  let ?d = "map (\<lambda>u. (user_dn fl u, user_attrs fl u u u False)) us"
  have "distinct (keys ?d)" using assms(1) by (simp add: comp_def distinct_map inj_on_def)
  then have ok: "ldap_ok fl ?d" using assms(2) by (auto simp: ldap_ok_def user_entry_def)
  have "map_of ?d (user_dn fl n) = (if n \<in> set us then Some (user_attrs fl n n n False) else None)"
    by (induction us) auto
  then have "dir_user fl ?d n = (if n \<in> set us then Some (mk_user n n n False) else None)"
    by (simp add: dir_user_def)
  then show ?thesis using get_user_spec [OF load_save ok assms(3)] by (simp add: demo_users_def)
qed

theorem deleted_users_vlan_is_shared_witness:
  "\<forall>fl. \<exists>p1 K1 p2 K2. vlan_pool_next fl ''ann'' (vlan_pool_init 2020 2039 [(''old'', 2021)], demo_users fl [''ann'', ''joe'']) = (Inr 2021, p1, K1) \<and>
     vlan_pool_next fl ''joe'' (p1, K1) = (Inr 2021, p2, K2)"
proof (intro allI)
  fix fl
  show "\<exists>p1 K1 p2 K2. vlan_pool_next fl ''ann'' (vlan_pool_init 2020 2039 [(''old'', 2021)], demo_users fl [''ann'', ''joe'']) = (Inr 2021, p1, K1) \<and>
     vlan_pool_next fl ''joe'' (p1, K1) = (Inr 2021, p2, K2)"
  proof -
    have n: "name_ok ''ann''" "name_ok ''joe''" "name_ok ''old''" by (simp_all add: name_ok_def)
    have g: "get_user fl (demo_users fl [''ann'', ''joe'']) ''ann'' = Inr (Some (mk_user ''ann'' ''ann'' ''ann'' False))"
        "get_user fl (demo_users fl [''ann'', ''joe'']) ''old'' = Inr None"
      using n by (simp_all add: demo_users_get)
    have "stale_vlan fl (demo_users fl [''ann'', ''joe'']) (vp_vlans (vlan_pool_init 2020 2039 [(''old'', 2021)])) =
        Inr (Some (''old'', 2021))"
      using g(2) by (simp add: vlan_pool_init_def)
    from deleted_users_vlan_is_shared [OF this g(1)] show ?thesis by (metis prod.collapse)
  qed
qed

end
