(* ===== verification/NetNode.thy ===== *)
theory NetNode
  imports Node Network
begin

text \<open>
  \<^verbatim>\<open>NetworkNode\<close> of \<^verbatim>\<open>compute/network.py\<close>: a node that also sets up the networks of its
  instances, each as a \<^verbatim>\<open>VirtNetwork\<close> under its name.
\<close>

record 'c network_node =
  nn_node :: "'c node"
  nn_nets :: "(string, net) dict"

type_synonym ('c, 'a) nn_act = "('c network_node, 'a) act"

definition on_nn_node :: "('c, 'a) node_act \<Rightarrow> ('c, 'a) nn_act" where
  "on_nn_node m nn = (let (r, nd) = m (nn_node nn) in (r, nn\<lparr>nn_node := nd\<rparr>))"

definition network_node_init :: "'c \<Rightarrow> world \<Rightarrow> 'c network_node" where
  "network_node_init conn w = \<lparr>nn_node = node_init conn w, nn_nets = []\<rparr>"

text \<open>\<^verbatim>\<open>VirtNetwork(conn=..., **net_dict)\<close>; without a VLAN or hosts the defaults are 100 and
  none, and keys that it does not know are ignored.\<close>

definition virt_network :: "flags \<Rightarrow> attributes \<Rightarrow> (world, net) act" where
  "virt_network fl d =
     (if has_key d ''conn'' then raiseS TypeError
      else
        bindS (liftR (kw_network d ''192.168.100.0/24'')) (\<lambda>n.
        bindS (liftR (kw_vlan d)) (\<lambda>vlan.
        bindS (liftR (kw_hosts d)) (\<lambda>hs. net_init fl VirtNetwork n vlan hs))))"

definition add_network :: "flags \<Rightarrow> json \<Rightarrow> ('c, json) nn_act" where
  "add_network fl net_dict =
     bindS (liftR (jdict net_dict)) (\<lambda>d.
     bindS (on_nn_node (on_node_world (virt_network fl d))) (\<lambda>n.
     bindS (\<lambda>nn. (Inr (), nn\<lparr>nn_nets := dput (n_name n) n (nn_nets nn)\<rparr>)) (\<lambda>_.
     bindS (on_nn_node (on_node_world (\<lambda>w. (Inr (), virt_express fl n w)))) (\<lambda>_.
       retS (JDict [(''retval'', JStr ''network added'')])))))"

definition express_all_networks :: "flags \<Rightarrow> ('c, json) nn_act" where
  "express_all_networks fl nn =
     bindS (forS (vals (nn_nets nn)) (\<lambda>n. on_nn_node (on_node_world (\<lambda>w. (Inr (), virt_express fl n w))))) (\<lambda>_.
       retS (JDict [(''retval'', JStr ''okay'')])) nn"

text \<open>\<^verbatim>\<open>run_instance\<close>: the network first, whatever becomes of the instance.\<close>

definition nn_run_instance :: "flags \<Rightarrow> string \<Rightarrow> attributes \<Rightarrow> ('c, nat) nn_act" where
  "nn_run_instance fl instance_id kwargs = wrap_exception
     (bindS (add_network fl (case map_of kwargs ''network_str'' of None \<Rightarrow> JDict [] | Some d \<Rightarrow> d)) (\<lambda>_.
       on_nn_node (run_instance fl instance_id kwargs)))"

end
