(* ===== verification/IPyOps.thy ===== *)
theory IPyOps
  imports IPy "HOL-Library.Product_Lexorder"
begin

text \<open>
  The operations of \<^verbatim>\<open>nova/contrib/IPy.py\<close> that the theory IPy leaves out: the binary,
  hexadecimal and decimal texts, the type of an address, comparison, overlap, the names of the reverse
  lookup, \<^verbatim>\<open>make_net\<close> and the sum of two networks. The lemmas relate them to the
  intervals of addresses that the objects stand for.
\<close>

subsection \<open>Indexing from either end\<close>

text \<open>\<^verbatim>\<open>xs[i]\<close> and \<^verbatim>\<open>xs[i:]\<close> with an index that may be negative.\<close>

definition py_item :: "'a list \<Rightarrow> int \<Rightarrow> 'a res" where
  "py_item xs i = (let j = (if i < 0 then i + int (length xs) else i) in
     if 0 \<le> j \<and> j < int (length xs) then Inr (xs ! nat j) else Inl IndexError)"

definition py_from :: "int \<Rightarrow> 'a list \<Rightarrow> 'a list" where
  "py_from i xs = drop (nat (if i < 0 then i + int (length xs) else i)) xs"

definition drop_l :: "string \<Rightarrow> string" where
  "drop_l s = (if s \<noteq> [] \<and> last s = CHR ''l'' then butlast s else s)"

subsection \<open>Binary texts\<close>

definition bit_table :: "(char, string) dict" where
  "bit_table =
    [(CHR ''0'', ''0000''), (CHR ''1'', ''0001''), (CHR ''2'', ''0010''), (CHR ''3'', ''0011''),
     (CHR ''4'', ''0100''), (CHR ''5'', ''0101''), (CHR ''6'', ''0110''), (CHR ''7'', ''0111''),
     (CHR ''8'', ''1000''), (CHR ''9'', ''1001''), (CHR ''a'', ''1010''), (CHR ''b'', ''1011''),
     (CHR ''c'', ''1100''), (CHR ''d'', ''1101''), (CHR ''e'', ''1110''), (CHR ''f'', ''1111'')]"

text \<open>\<^verbatim>\<open>hex(i)\<close>, without the letter that ends it if \<open>i\<close> is a long integer: all
  uses cut it off.\<close>

definition py_hex :: "int \<Rightarrow> string" where
  "py_hex i = (if i < 0 then ''-0x'' @ str_hex (- i) else ''0x'' @ str_hex i)"

fun strip_zeros :: "string \<Rightarrow> string" where
  "strip_zeros (c # d # cs) = (if c = CHR ''0'' then strip_zeros (d # cs) else c # d # cs)"
| "strip_zeros cs = cs"

definition intToBin :: "int \<Rightarrow> string res" where
  "intToBin val =
     (if val < 0 then Inl ValueError
      else bindR (mapR (\<lambda>x. case map_of bit_table x of None \<Rightarrow> Inl (PyException ''AssertionError'') | Some b \<Rightarrow> Inr b)
          (drop 2 (lower (py_hex val))))
        (\<lambda>bs. Inr (strip_zeros (concat bs))))"

definition strBin :: "ip \<Rightarrow> nat option \<Rightarrow> string res" where
  "strBin a want =
     bindR (if ip_version a = 4 then Inr 32 else if ip_version a = 6 then Inr 128 else Inl ValueError) (\<lambda>bits.
     bindR (intToBin (ip_int a)) (\<lambda>ret.
     bindR (print_prefix a (default_want want 0)) (\<lambda>p. Inr (replicate (bits - length ret) CHR ''0'' @ ret @ p))))"

definition strHex :: "ip \<Rightarrow> nat option \<Rightarrow> string res" where
  "strHex a want = bindR (print_prefix a (default_want want 0)) (\<lambda>p. Inr (lower (py_hex (ip_int a)) @ p))"

definition strDec :: "ip \<Rightarrow> nat option \<Rightarrow> string res" where
  "strDec a want = bindR (print_prefix a (default_want want 0)) (\<lambda>p. Inr (str_int (ip_int a) @ p))"

definition strNetmask :: "ip \<Rightarrow> string res" where
  "strNetmask a =
     (if ip_version a = 4 then intToIp (push_bit (nat (32 - ip_prefixlen a)) (2 ^ nat (ip_prefixlen a) - 1)) 4
      else if ip_version a = 6 then Inr (''/'' @ str_int (ip_prefixlen a))
      else Inl ValueError)"

definition ip_repr :: "ip \<Rightarrow> string res" where
  "ip_repr a = bindR (strCompressed a (Some 1)) (\<lambda>s. Inr (''IP('' @ [CHR 0x27] @ s @ [CHR 0x27] @ '')''))"

subsection \<open>The type of an address\<close>

definition IPv4ranges :: "(string, string) dict" where
  "IPv4ranges =
    [(''0'', ''PUBLIC''), (''00000000'', ''PRIVATE''), (''00001010'', ''PRIVATE''), (''01111111'', ''PRIVATE''),
     (''1'', ''PUBLIC''), (''1010100111111110'', ''PRIVATE''), (''101011000001'', ''PRIVATE''),
     (''1100000010101000'', ''PRIVATE''), (''11011111'', ''RESERVED''), (''111'', ''RESERVED'')]"

definition IPv6ranges :: "(string, string) dict" where
  "IPv6ranges =
    [(''00000000'', ''RESERVED''), (''00000001'', ''UNASSIGNED''), (''0000001'', ''NSAP''), (''0000010'', ''IPX''),
     (''0000011'', ''UNASSIGNED''), (''00001'', ''UNASSIGNED''), (''0001'', ''UNASSIGNED''),
     (''0010000000000000'', ''RESERVED''), (''0010000000000001'', ''ASSIGNABLE''),
     (''00100000000000010000000'', ''ASSIGNABLE IANA''), (''00100000000000010000001'', ''ASSIGNABLE APNIC''),
     (''00100000000000010000010'', ''ASSIGNABLE ARIN''), (''00100000000000010000011'', ''ASSIGNABLE RIPE''),
     (''0010000000000010'', ''6TO4''), (''0011111111111110'', ''6BONE''), (''0011111111111111'', ''RESERVED''),
     (''010'', ''GLOBAL-UNICAST''), (''011'', ''UNASSIGNED''), (''100'', ''GEO-UNICAST''), (''101'', ''UNASSIGNED''),
     (''110'', ''UNASSIGNED''), (''1110'', ''UNASSIGNED''), (''11110'', ''UNASSIGNED''), (''111110'', ''UNASSIGNED''),
     (''1111110'', ''UNASSIGNED''), (''111111100'', ''UNASSIGNED''), (''1111111010'', ''LINKLOCAL''),
     (''1111111011'', ''SITELOCAL''), (''11111111'', ''MULTICAST''),
     (replicate 96 CHR ''0'', ''IPV4COMP''), (replicate 80 CHR ''0'' @ replicate 16 CHR ''1'', ''IPV4MAP''),
     (replicate 128 CHR ''0'', ''UNSPECIFIED''), (replicate 127 CHR ''0'' @ ''1'', ''LOOPBACK'')]"

text \<open>The loop over the prefixes of the bits, the longest first.\<close>

fun longest_prefix :: "(string, string) dict \<Rightarrow> string \<Rightarrow> nat \<Rightarrow> string" where
  "longest_prefix ranges bits 0 = ''unknown''"
| "longest_prefix ranges bits (Suc i) =
     (case map_of ranges (take (Suc i) bits) of Some t \<Rightarrow> t | None \<Rightarrow> longest_prefix ranges bits i)"

definition iptype :: "ip \<Rightarrow> string res" where
  "iptype a =
     bindR (if ip_version a = 4 then Inr IPv4ranges else if ip_version a = 6 then Inr IPv6ranges else Inl ValueError) (\<lambda>iprange.
     bindR (strBin a None) (\<lambda>bits. Inr (longest_prefix iprange bits (length bits))))"

subsection \<open>Comparison, overlap, hash\<close>

definition ip_cmp :: "ip \<Rightarrow> ip \<Rightarrow> int" where
  "ip_cmp a b =
     (if ip_prefixlen a < ip_prefixlen b then ip_prefixlen b - ip_prefixlen a
      else if ip_prefixlen a > ip_prefixlen b then (ip_prefixlen a - ip_prefixlen b) * - 1
      else if ip_int a < ip_int b then - 1
      else if ip_int a > ip_int b then 1
      else if ip_version a \<noteq> ip_version b then (if ip_version a < ip_version b then - 1 else 1)
      else 0)"

definition overlaps :: "ip \<Rightarrow> string \<Rightarrow> int res" where
  "overlaps a item = bindR (IP item) (\<lambda>b.
     Inr (if ip_int b \<ge> ip_int a \<and> ip_int b < ip_int a + ip_len a then 1
       else if ip_int a \<ge> ip_int b \<and> ip_int a < ip_int b + ip_len b then - 1
       else 0))"

function hash_loop :: "int \<Rightarrow> int \<Rightarrow> int" where
  "hash_loop thehash ip = (if ip > 0 then hash_loop (thehash XOR (ip AND 0x7fffffff)) (drop_bit 32 ip) else thehash)"
  by pat_completeness auto
termination hash_loop
  by (relation "measure (\<lambda>(_, i). nat i)") (auto simp: drop_bit_eq_div)

declare hash_loop.simps [simp del]

definition ip_hash :: "ip \<Rightarrow> int" where
  "ip_hash a = hash_loop (- 1) (ip_int a) XOR ip_prefixlen a"

definition ip_net :: "ip \<Rightarrow> ip" where
  "ip_net a = \<lparr>ip_int = ip_int a, ip_version = ip_version a, ip_prefixlen = (if ip_version a = 4 then 32 else 128)\<rparr>"

subsection \<open>Names of the reverse lookup\<close>

definition nibble_part :: "string \<Rightarrow> string \<Rightarrow> string" where
  "nibble_part s t = drop_l (s @ ''-'' @ t) @ ''.''"

definition dots :: "string \<Rightarrow> string" where
  "dots s = py_join ''.'' (map (\<lambda>c. [c]) (rev s))"

definition reverseName :: "ip \<Rightarrow> string res" where
  "reverseName a =
     (let p = ip_prefixlen a in
      if ip_version a = 4 then
        bindR (strFullsize a (Some 0)) (\<lambda>s.
        let s = rev (py_split CHR ''.'' s); first_byte_index = 4 - p div 8 in
        bindR (if p mod 8 \<noteq> 0 then
            bindR (py_item s (3 - p div 8)) (\<lambda>b.
            bindR (intToIp (ip_int a + ip_len a - 1) 4) (\<lambda>l.
              Inr (nibble_part b (last (py_split CHR ''.'' l)))))
          else Inr []) (\<lambda>nibblepart.
        Inr (nibblepart @ py_join ''.'' (py_from first_byte_index s) @ ''.in-addr.arpa.'')))
      else if ip_version a = 6 then
        let s = drop_l (lower (drop 2 (py_hex (ip_int a))));
            nibblepart = (if p mod 4 \<noteq> 0 then
              nibble_part (py_from p s) (lower (drop 2 (py_hex (ip_int a + ip_len a - 1)))) else []);
            first_nibble_index = (32 - p div 4) * 2
        in Inr (nibblepart @ py_from first_nibble_index (dots s) @ ''.ip6.arpa.'')
      else Inl ValueError)"

text \<open>\<^verbatim>\<open>range(0, n, step)\<close>\<close>

definition py_range :: "int \<Rightarrow> int \<Rightarrow> int list" where
  "py_range n step = map (\<lambda>i. int i * step) [0..<nat ((n + step - 1) div step)]"

definition names_from :: "ip \<Rightarrow> int \<Rightarrow> nat \<Rightarrow> string list res" where
  "names_from a step skip = mapR (\<lambda>i. bindR (ip_getitem a i) (\<lambda>x. bindR (reverseName x) (\<lambda>s. Inr (drop skip s))))
     (py_range (ip_len a) step)"

definition reverseNames :: "ip \<Rightarrow> string list res" where
  "reverseNames a =
     (if ip_version a = 4 then
        (if ip_len a < 2 ^ 8 then names_from a 1 0
         else if ip_len a < 2 ^ 16 then names_from a (2 ^ 8) 2
         else if ip_len a < 2 ^ 24 then names_from a (2 ^ 16) 4
         else names_from a (2 ^ 24) 6)
      else if ip_version a = 6 then
        let s = drop_l (lower (drop 2 (py_hex (ip_int a)))); p = ip_prefixlen a in
        if p mod 4 \<noteq> 0 then Inl (PyException ''NotImplementedError'')
        else Inr [py_from ((32 - p div 4) * 2) (dots s) @ ''.ip6.arpa.'']
      else Inl ValueError)"

subsection \<open>Networks from addresses and from networks\<close>

definition make_net :: "ip \<Rightarrow> string \<Rightarrow> ip res" where
  "make_net a netmask =
     (if CHR ''/'' \<in> set netmask then Inl ValueError
      else bindR (ip_str a) (\<lambda>s. IP_str (s @ ''/'' @ netmask) 0 True))"

text \<open>The second test of \<^verbatim>\<open>__add__\<close> compares the method \<^verbatim>\<open>prefixlen\<close>, not
  its value, with 1; it never holds.\<close>

definition ip_add :: "ip \<Rightarrow> ip \<Rightarrow> ip res" where
  "ip_add a b =
     (if ip_prefixlen a \<noteq> ip_prefixlen b then Inl ValueError
      else if ip_version a \<noteq> ip_version b then Inl ValueError
      else let a = (if ip_cmp a b > 0 then b else a) in
        Inr ((ip_of_int (ip_int a))\<lparr>ip_prefixlen := ip_prefixlen a - 1\<rparr>))"

text \<open>\<^verbatim>\<open>_checkPrefix\<close>, whose result is None for a prefix length that the version does not have.\<close>

definition checkPrefix :: "int \<Rightarrow> int \<Rightarrow> int \<Rightarrow> bool option res" where
  "checkPrefix ip prefixlen version =
     bindR (ipVersionToLen version) (\<lambda>bits.
       if prefixlen < 0 \<or> prefixlen > bits then Inr None
       else bindR (if ip = 0 then Inr (bits + 1) else count0Bits ip) (\<lambda>zbits.
         Inr (Some (\<not> zbits < bits - prefixlen))))"

subsection \<open>The order of networks\<close>

text \<open>Networks with a longer prefix come first, then those with a smaller address; the version decides last.\<close>

definition ip_key :: "'a ip_scheme \<Rightarrow> int \<times> int \<times> int \<times> 'a" where
  "ip_key a = (- ip_prefixlen a, ip_int a, ip_version a, ip.more a)"

lemma ip_key_inj: "ip_key a = ip_key b \<longleftrightarrow> a = b"
  by (cases a; cases b) (auto simp: ip_key_def)

instantiation ip_ext :: (linorder) linorder
begin

definition less_eq_ip_ext :: "'a ip_scheme \<Rightarrow> 'a ip_scheme \<Rightarrow> bool" where
  "a \<le> b \<longleftrightarrow> ip_key a \<le> ip_key b"

definition less_ip_ext :: "'a ip_scheme \<Rightarrow> 'a ip_scheme \<Rightarrow> bool" where
  "a < b \<longleftrightarrow> ip_key a < ip_key b"

instance
  by standard (auto simp: less_eq_ip_ext_def less_ip_ext_def ip_key_inj [symmetric])

end

lemma ip_cmp_order: "ip_cmp a b < 0 \<longleftrightarrow> a < b" "ip_cmp a b = 0 \<longleftrightarrow> a = b" "ip_cmp a b > 0 \<longleftrightarrow> b < a"
  for a b :: ip
  by (auto simp: ip_cmp_def less_ip_ext_def ip_key_inj [symmetric]) (auto simp: ip_key_def)

subsection \<open>Networks as intervals\<close>

definition ip_range :: "ip \<Rightarrow> int set" where
  "ip_range a = {ip_int a..<ip_int a + ip_len a}"

lemma ip_range_first: "ip_int a \<in> ip_range a"
  by (simp add: ip_range_def)

lemma power_of_two_block:
  assumes "(2::int) ^ m dvd i" "2 ^ n dvd j" "n \<le> m" "i \<le> j" "j < i + 2 ^ m"
  shows "j + 2 ^ n \<le> i + 2 ^ m"
proof -
  have "2 ^ n dvd i + (2::int) ^ m" using assms(1,3) by (meson dvd_add dvd_trans le_imp_power_dvd dvd_refl)
  then have "2 ^ n dvd i + 2 ^ m - j" using assms(2) by (rule dvd_diff)
  then show ?thesis using zdvd_imp_le [of "2 ^ n" "i + 2 ^ m - j"] assms(5) by linarith
qed

lemma ip_len_pow: "ip_ok a \<Longrightarrow> \<exists>n. ip_len a = 2 ^ n"
  by (auto simp: ip_len_def)

text \<open>Two networks are disjoint or one is part of the other.\<close>

lemma ip_range_laminar:
  assumes "ip_ok a" and "ip_ok b" and "ip_range a \<inter> ip_range b \<noteq> {}"
  shows "ip_range a \<subseteq> ip_range b \<or> ip_range b \<subseteq> ip_range a"
proof -
  obtain m n where mn: "ip_len a = 2 ^ m" "ip_len b = 2 ^ n" using ip_len_pow assms(1,2) by blast
  have d: "2 ^ m dvd ip_int a" "2 ^ n dvd ip_int b" using assms(1,2) mn by (simp_all add: ip_ok_def)
  have nested: "ip_range y \<subseteq> ip_range x"
    if h: "ip_len x = 2 ^ k" "ip_len y = 2 ^ l" "2 ^ k dvd ip_int x" "2 ^ l dvd ip_int y" "l \<le> k" "ip_range x \<inter> ip_range y \<noteq> {}"
    for x y k l
  proof -
    obtain z where "z \<in> ip_range x" "z \<in> ip_range y" using h(6) by blast
    then have z: "ip_int x \<le> z" "z < ip_int x + 2 ^ k" "ip_int y \<le> z" "z < ip_int y + 2 ^ l"
      using h(1,2) by (simp_all add: ip_range_def)
    have "2 ^ l dvd ip_int x" using h(3,5) by (meson dvd_trans le_imp_power_dvd)
    then have "2 ^ l dvd ip_int x - ip_int y" using h(4) by (rule dvd_diff)
    then have "ip_int x \<le> ip_int y" using zdvd_imp_le [of "2 ^ l" "ip_int x - ip_int y"] z by linarith
    then show ?thesis using power_of_two_block [OF h(3,4,5)] z h(1,2) by (simp add: ip_range_def)
  qed
  show ?thesis
    using nested [OF mn d] nested [OF mn(2,1) d(2,1)] assms(3) by (cases "n \<le> m") (auto simp: Int_commute)
qed

lemma ip_contains_range:
  assumes "IP item = Inr b"
  shows "ip_contains a item = Inr (ip_range b \<subseteq> ip_range a)"
  using assms by (auto simp: ip_contains_def ip_range_def not_less [symmetric] simp del: not_less)

text \<open>Whether two networks overlap is found out, and on which side: 1 if the second network starts in the
  first, -1 if it only reaches into it, that is, contains all of it.\<close>

lemma overlaps_range:
  assumes "ip_ok a" and "IP item = Inr b"
  shows "overlaps a item = Inr (if ip_range a \<inter> ip_range b = {} then 0
    else if ip_range b \<subseteq> ip_range a \<or> ip_int a = ip_int b then 1 else - 1)"
proof -
  note lam = ip_range_laminar [OF assms(1) IP_ok [OF assms(2)]]
  note pos = ip_len_pos [of a] ip_len_pos [of b]
  have ov: "overlaps a item = Inr (if ip_int b \<in> ip_range a then 1 else if ip_int a \<in> ip_range b then - 1 else 0)"
    using assms(2) by (simp add: overlaps_def ip_range_def)
  consider "ip_range a \<inter> ip_range b = {}" | "ip_range b \<subseteq> ip_range a"
    | "ip_range a \<subseteq> ip_range b" "ip_range a \<inter> ip_range b \<noteq> {}" using lam by blast
  then show ?thesis
  proof cases
    case 1
    then have "ip_int b \<notin> ip_range a" "ip_int a \<notin> ip_range b" using ip_range_first by blast+
    then show ?thesis using 1 by (simp add: ov)
  next
    case 2
    then have "ip_int b \<in> ip_range a" "ip_range a \<inter> ip_range b \<noteq> {}" using ip_range_first by blast+
    then show ?thesis using 2 by (simp add: ov)
  next
    case 3
    then have "ip_int a \<in> ip_range b" using 3 ip_range_first by blast
    moreover have "ip_int b \<in> ip_range a \<longleftrightarrow> ip_int a = ip_int b"
      using pos \<open>ip_int a \<in> ip_range b\<close> by (auto simp: ip_range_def)
    moreover have "ip_range b \<subseteq> ip_range a \<longrightarrow> ip_int a = ip_int b"
      using pos \<open>ip_int a \<in> ip_range b\<close> by (auto simp: ip_range_def)
    ultimately show ?thesis using 3(2) by (cases "ip_int a = ip_int b") (simp_all add: ov)
  qed
qed

subsection \<open>Zeros at the end\<close>

lemma count0Bits_loop_dvd:
  "0 < i \<Longrightarrow> 0 \<le> count0Bits_loop i \<and> ((2::int) ^ n dvd i \<longleftrightarrow> int n \<le> count0Bits_loop i)"
proof (induction i arbitrary: n rule: count0Bits_loop.induct)
  case (1 i)
  have low: "i AND 1 = i mod 2" by (simp add: and_one_eq)
  show ?case
  proof (cases "i mod 2 = 1")
    case True
    then have odd: "\<not> 2 dvd i" by presburger
    have "count0Bits_loop i = 0" using 1(2) True by (subst count0Bits_loop.simps) (simp add: low)
    moreover have "2 ^ n dvd i \<longleftrightarrow> n = 0" using odd by (cases n) (auto dest: dvd_mult_left)
    ultimately show ?thesis by simp
  next
    case False
    have "drop_bit 1 i = i div 2" by (simp add: drop_bit_eq_div)
    moreover have half: "0 < i div 2" "i = 2 * (i div 2)" using 1(2) False by presburger+
    ultimately have ih: "0 \<le> count0Bits_loop (i div 2)" "\<And>n. 2 ^ n dvd i div 2 \<longleftrightarrow> int n \<le> count0Bits_loop (i div 2)"
      using 1(1) [of] 1(2) False by (simp_all add: low)
    have "count0Bits_loop i = 1 + count0Bits_loop (i div 2)"
      using 1(2) False by (subst count0Bits_loop.simps) (simp add: low drop_bit_eq_div)
    moreover have "2 ^ n dvd i \<longleftrightarrow> n = 0 \<or> 2 ^ (n - 1) dvd i div 2"
      using half(2) by (cases n) (simp, metis diff_Suc_1 dvd_mult_cancel_left half(2) nat.distinct(1) power_Suc zero_neq_numeral)
    ultimately show ?thesis using ih by (cases n) auto
  qed
qed

text \<open>\<^verbatim>\<open>_checkPrefix\<close> and the test of the constructor agree on all addresses of a version.\<close>

lemma checkPrefix_agrees:
  assumes "version \<in> {4, 6}" and "0 \<le> i" and "i < 2 ^ ip_bits version"
  shows "checkPrefix i p version = Inr (if p < 0 \<or> int (ip_bits version) < p then None
    else Some (checkNetaddrWorksWithPrefixlen i p version = Inr True))"
proof -
  let ?bits = "int (ip_bits version)"
  have len: "ipVersionToLen version = Inr ?bits" using assms(1) by (auto simp: ipVersionToLen_def ip_bits_def)
  have "\<not> count0Bits_loop i < ?bits - p \<longleftrightarrow> 2 ^ nat (?bits - p) dvd i" if "0 < i" "p \<le> ?bits"
    using count0Bits_loop_dvd [OF that(1), of "nat (?bits - p)"] that(2) by auto
  then show ?thesis
    using assms(2,3) check_net_iff [OF assms(1), of i p] by (cases "i = 0") (auto simp: checkPrefix_def len count0Bits_def)
qed

end
