(* ===== verification/IPyLaws.thy ===== *)
theory IPyLaws
  imports IPyOps
begin

text \<open>
  What the operations of the theory IPyOps compute: \<^verbatim>\<open>make_net\<close> rounds an address down,
  the sum of two halves is their network, the names of the reverse lookup cover exactly the network, and
  the type of an IPv4 address is the type of the block it is in.
\<close>

subsection \<open>Rounding an address to a network\<close>

lemma le_div_iff: "0 < s \<Longrightarrow> p * s \<le> i \<longleftrightarrow> p \<le> i div (s :: int)"
proof
  assume s: "0 < s"
  show "p \<le> i div s" if "p * s \<le> i" using zdiv_mono1 [OF that s] s by simp
  show "p * s \<le> i" if "p \<le> i div s"
    using mult_right_mono [OF that, of s] s div_mult_mod_eq [of i s] pos_mod_sign [OF s, of i] by linarith
qed

lemma mod_pow_nonneg: "0 \<le> i mod (2 ^ k :: int)"
  by simp

lemma and_mask_round:
  assumes "0 \<le> i" and "i < 2 ^ (k + p)"
  shows "(i::int) AND push_bit k (2 ^ p - 1) = i - i mod 2 ^ k"
proof -
  have "i AND push_bit k (2 ^ p - 1) = push_bit k (take_bit p (drop_bit k i))"
    by (rule bit_eqI) (auto simp: bit_and_iff bit_push_bit_iff bit_take_bit_iff bit_drop_bit_eq bit_mask_iff
        mask_eq_exp_minus_1 [symmetric])
  moreover have "i div 2 ^ k < 2 ^ p"
  proof (rule ccontr)
    assume "\<not> i div 2 ^ k < 2 ^ p"
    then have "2 ^ p * 2 ^ k \<le> i div 2 ^ k * 2 ^ k" by (intro mult_right_mono) simp_all
    also have "\<dots> \<le> i" using div_mult_mod_eq [of i "2 ^ k"] mod_pow_nonneg [of i k] by linarith
    finally show False using assms(2) by (simp add: power_add mult.commute)
  qed
  then have "take_bit p (i div 2 ^ k) = i div 2 ^ k"
    using assms(1) by (simp add: take_bit_int_eq_self pos_imp_zdiv_nonneg_iff)
  ultimately show ?thesis by (simp add: push_bit_eq_mult drop_bit_eq_div minus_mod_eq_div_mult)
qed

definition round_to :: "int \<Rightarrow> nat \<Rightarrow> ip" where
  "round_to i n = \<lparr>ip_int = i - i mod 2 ^ n, ip_version = 4, ip_prefixlen = 32 - int n\<rparr>"

lemma netmask_v4:
  assumes "n \<le> 32"
  shows "prefixlenToNetmask (32 - int n) 4 = Inr (push_bit n (2 ^ (32 - n) - 1))"
proof (cases "n = 32")
  case False
  then have n: "n < 32" using assms by simp
  then have "push_bit (nat (32 - int n - 1)) 2 = (2::int) ^ (32 - n)"
    by (simp add: push_bit_eq_mult power_Suc [symmetric] nat_diff_distrib' Suc_diff_Suc del: power_Suc)
  then show ?thesis using n by (simp add: prefixlenToNetmask_def ipVersionToLen_def)
qed (simp add: prefixlenToNetmask_def)

lemma init_finish_round:
  assumes i: "0 \<le> i" "i < 2 ^ 32" and n: "n \<le> 32"
    and pre: "pre = Inr (32 - int n) \<or> pre = Inl t \<and> py_int t = Inr (32 - int n)"
  shows "init_finish (v4_str i) (Some pre) netbits 0 True = Inr (round_to i n)"
proof -
  let ?i = "i - i mod 2 ^ n"
  have "i < 2 ^ (n + (32 - n))" using i(2) n by simp
  then have a: "i AND push_bit n (2 ^ (32 - n) - 1) = ?i" by (rule and_mask_round [OF i(1)])
  have "0 \<le> ?i" using i(1) by (simp add: minus_mod_eq_div_mult pos_imp_zdiv_nonneg_iff)
  moreover have "?i < 2 ^ 32" using i(2) mod_pow_nonneg [of i n] by linarith
  moreover have "2 ^ n dvd ?i" by (simp add: minus_mod_eq_div_mult)
  ultimately have "checkNetaddrWorksWithPrefixlen ?i (32 - int n) 4 = Inr True"
    using n by (subst check_net_iff) (auto simp: ip_bits_def)
  then show ?thesis
    using pre by (elim disjE) (simp_all add: init_finish_def parse_v4_str [OF i] netmask_v4 [OF n] a Let_def round_to_def)
qed

lemma make_net_prefix:
  assumes "0 \<le> i" "i < 2 ^ 32" "n \<le> 32"
  shows "make_net (ip_of_int i) (str_nat (32 - n)) = Inr (round_to i n)"
  using assms init_finish_round [where n = n and pre = "Inl (str_nat (32 - n))" and t = "str_nat (32 - n)"] str_nat_chars v4_str_plain
  by (simp add: make_net_def ip_str_v4 IP_str_def init_slash_def split_v4_str py_split_no_sep)

text \<open>The mask in dotted form gives the same network.\<close>

lemma shift_mask:
  assumes "0 < m" and "odd m"
  shows "count1Bits (push_bit n m) = count1Bits m + int n" "count0Bits_loop (push_bit n m) = int n"
    "drop_zero_bits (n + Suc k) (push_bit n m) = (m, Suc k)"
proof -
  have half: "drop_bit 1 (push_bit (Suc n) m) = push_bit n m" "push_bit (Suc n) m AND 1 = 0" "0 < push_bit n m" for n
    using assms(1) by (simp_all add: push_bit_eq_mult drop_bit_eq_div and_one_eq)
  have one: "m AND 1 = 1" using assms(2) by (simp add: and_one_eq odd_iff_mod_2_eq_one)
  show "count1Bits (push_bit n m) = count1Bits m + int n"
  proof (induction n)
    case (Suc n)
    then show ?case using half(1) [of n] half(3) [of "Suc n"] by (subst count1Bits.simps) simp
  qed simp
  show "count0Bits_loop (push_bit n m) = int n"
  proof (induction n)
    case 0
    show ?case using assms(1) one by (subst count0Bits_loop.simps) simp
  next
    case (Suc n)
    then show ?case using half(1,2) [of n] half(3) [of "Suc n"] by (subst count0Bits_loop.simps) simp
  qed
  show "drop_zero_bits (n + Suc k) (push_bit n m) = (m, Suc k)"
  proof (induction n)
    case (Suc n)
    then show ?case using half(1,2) [of n] by simp
  qed (simp add: one)
qed

lemma only_ones_mask: "only_ones k (2 ^ k - 1)"
proof (induction k)
  case (Suc k)
  have "(2 * x - 1) mod 2 = 1" for x :: int by presburger
  from this [of "2 ^ k"] have "(2 ^ Suc k - 1 :: int) mod 2 = 1" by (simp only: power_Suc)
  moreover have "drop_bit 1 (2 ^ Suc k - 1 :: int) = 2 ^ k - 1" by (simp add: drop_bit_eq_div)
  ultimately show ?case using Suc by (simp add: and_one_eq del: power_Suc)
qed simp

lemma netmaskToPrefixlen_mask:
  assumes "n \<le> 32"
  shows "netmaskToPrefixlen (push_bit n (2 ^ (32 - n) - 1)) = Inr (32 - int n)"
proof (cases "n = 32")
  case True
  then show ?thesis by (simp add: netmaskToPrefixlen_def count0Bits_def checkNetmask_def count0Bits_loop.simps count1Bits.simps)
next
  case False
  define m :: int where "m = 2 ^ (32 - n) - 1"
  obtain k where k: "32 - n = Suc k" using False assms by (cases "32 - n") auto
  have m: "0 < m" "odd m" unfolding m_def k using one_less_power [of "2::int" "Suc k"] by simp_all
  have c: "count1Bits (push_bit n m) = 32" "count0Bits_loop (push_bit n m) = int n"
    using shift_mask(1,2) [OF m, of n] assms by (simp_all add: m_def count1Bits_pow of_nat_diff)
  have e: "nat 32 = n + Suc k" using k by simp
  have "checkNetmask (push_bit n m) 32 = Inr ()"
    unfolding checkNetmask_def e shift_mask(3) [OF m] using only_ones_mask [of "Suc k"] by (simp add: m_def k del: power_Suc)
  moreover have "\<not> push_bit n m < 0" using m by (simp add: push_bit_eq_mult not_less)
  ultimately show ?thesis using c by (simp add: netmaskToPrefixlen_def count0Bits_def m_def)
qed

lemma make_net_dotted:
  assumes "0 \<le> i" "i < 2 ^ 32" "n \<le> 32"
  shows "make_net (ip_of_int i) (v4_str (push_bit n (2 ^ (32 - n) - 1))) = Inr (round_to i n)"
proof -
  define mask :: int where "mask = push_bit n (2 ^ (32 - n) - 1)"
  have "2 ^ n * (2 ^ (32 - n) - 1) = (2 ^ 32 - 2 ^ n :: int)"
    using assms(3) by (simp add: right_diff_distrib power_add [symmetric])
  then have m: "0 \<le> mask" "mask < 2 ^ 32"
    using power_increasing [of n 32 "2::int"] assms(3) by (simp_all add: mask_def push_bit_eq_mult mult.commute)
  have dot: "CHR ''.'' \<in> set (v4_str mask)" by (cases "v4_bytes mask") (simp add: v4_str_def v4_text_def)
  have split: "py_split CHR ''-'' (v4_str i @ CHR ''/'' # v4_str mask) = [v4_str i @ CHR ''/'' # v4_str mask]"
    "py_split CHR ''/'' (v4_str i @ CHR ''/'' # v4_str mask) = [v4_str i, v4_str mask]"
    using v4_str_plain by (simp_all add: py_split_no_sep py_split_append_sep)
  have "netmaskToPrefixlen mask = Inr (32 - int n)" unfolding mask_def by (rule netmaskToPrefixlen_mask [OF assms(3)])
  then show ?thesis
    using init_finish_round [OF assms, where pre = "Inr (32 - int n)" and netbits = 0] dot v4_str_plain
    unfolding mask_def [symmetric]
    by (simp add: make_net_def ip_str_v4 [OF assms(1,2)] IP_str_def init_slash_def split parse_v4_str [OF m])
qed

subsection \<open>The sum of two networks\<close>

text \<open>Two halves of an IPv4 network add up to it, in both orders.\<close>

lemma ip_add_halves:
  assumes "ip_ok a" "ip_ok b" "ip_version a = 4" "ip_version b = 4" "ip_prefixlen b = ip_prefixlen a"
    and "0 < ip_prefixlen a" and "2 * ip_len a dvd ip_int a" and "ip_int b = ip_int a + ip_len a"
  shows "\<exists>c. ip_add a b = Inr c \<and> ip_add b a = Inr c \<and> ip_ok c \<and> ip_range c = ip_range a \<union> ip_range b"
proof -
  let ?c = "\<lparr>ip_int = ip_int a, ip_version = 4, ip_prefixlen = ip_prefixlen a - 1\<rparr>"
  have len: "ip_len b = ip_len a" "ip_len ?c = 2 * ip_len a"
    using assms(1,3-6) by (simp_all add: ip_len_def ip_ok_def ip_bits_def power_Suc [symmetric] Suc_nat_eq_nat_zadd1 algebra_simps del: power_Suc)
  have less: "ip_int a < ip_int b" using assms(8) ip_len_pos [of a] by linarith
  have "ip_int a + ip_len a \<le> 2 ^ 32" using assms(1,3) by (simp add: ip_ok_def ip_bits_def)
  then have "ip_int a < 2 ^ 32" using ip_len_pos [of a] by linarith
  then have "ip_add a b = Inr ?c" "ip_add b a = Inr ?c"
    using assms(3-5) less by (simp_all add: ip_add_def ip_cmp_def ip_of_int_def)
  moreover have "ip_ok ?c"
    using assms len unfolding ip_ok_def by (auto simp: ip_bits_def)
  moreover have "ip_range ?c = ip_range a \<union> ip_range b"
    unfolding ip_range_def len using assms(8) ip_len_pos [of a] by auto
  ultimately show ?thesis by blast
qed

text \<open>But nothing tests that the networks are halves of one: the sum may not be a network.\<close>

lemma ip_add_not_network:
  "\<exists>a b c. IP ''10.0.1.0/24'' = Inr a \<and> IP ''10.0.2.0/24'' = Inr b \<and> ip_add a b = Inr c \<and> \<not> ip_ok c"
proof -
  have "ip_add \<lparr>ip_int = 167772416, ip_version = 4, ip_prefixlen = 24\<rparr> \<lparr>ip_int = 167772672, ip_version = 4, ip_prefixlen = 24\<rparr> =
      Inr \<lparr>ip_int = 167772416, ip_version = 4, ip_prefixlen = 23\<rparr>"
    by (simp add: ip_add_def ip_cmp_def ip_of_int_def)
  moreover have "IP ''10.0.1.0/24'' = Inr \<lparr>ip_int = 167772416, ip_version = 4, ip_prefixlen = 24\<rparr>"
      "IP ''10.0.2.0/24'' = Inr \<lparr>ip_int = 167772672, ip_version = 4, ip_prefixlen = 24\<rparr>"
    by code_simp+
  moreover have "\<not> ip_ok \<lparr>ip_int = 167772416, ip_version = 4, ip_prefixlen = 23\<rparr>" by (simp add: ip_ok_def ip_len_def)
  ultimately show ?thesis by blast
qed

subsection \<open>Names of the reverse lookup\<close>

text \<open>The labels of an IPv4 address, the last byte first, and the name of the zone that is left when the first
  \<open>k\<close> of them are dropped.\<close>

definition labels :: "int \<Rightarrow> string list" where
  "labels i = (case v4_bytes i of (a, b, c, d) \<Rightarrow> [str_nat d, str_nat c, str_nat b, str_nat a])"

definition zone :: "nat \<Rightarrow> int \<Rightarrow> string" where
  "zone k i = py_join ''.'' (drop k (labels i) @ [''in-addr'', ''arpa'', []])"

text \<open>A name is in a zone if it is its name or ends with it, after a dot.\<close>

definition in_zone :: "string \<Rightarrow> string \<Rightarrow> bool" where
  "in_zone s z \<longleftrightarrow> s = z \<or> (\<exists>t. s = t @ ''.'' @ z)"

lemma reverseName_single:
  assumes "0 \<le> i" "i < 2 ^ 32"
  shows "reverseName (ip_of_int i) = Inr (zone 0 i)"
proof -
  obtain a b c d where v: "v4_bytes i = (a, b, c, d)" by (cases "v4_bytes i") auto
  have i: "ip_of_int i = \<lparr>ip_int = i, ip_version = 4, ip_prefixlen = 32\<rparr>" using assms by (simp add: ip_of_int_def)
  have "strFullsize (ip_of_int i) (Some 0) = Inr (v4_str i)"
    using assms by (simp add: i strFullsize_def print_prefix_def intToIp_v4_str default_want_def)
  then show ?thesis
    by (simp add: reverseName_def i v v4_str_def v4_text_split zone_def labels_def py_from_def)
qed

lemma zone_drop:
  assumes "0 \<le> i" "k \<le> 3" "2 ^ (8 * k) dvd i"
  shows "drop (2 * k) (zone 0 i) = zone k i"
proof -
  obtain a b c d where v: "v4_bytes i = (a, b, c, d)" by (cases "v4_bytes i") auto
  have z: "str_nat 0 = ''0''" by code_simp
  consider "k = 0" | "k = 1" | "k = 2" | "k = 3" using assms(2) by linarith
  then show ?thesis
  proof cases
    case 2
    then have "i mod 256 = 0" using assms(3) by simp
    then have "d = 0" using v by (simp add: v4_bytes_def)
    then show ?thesis using 2 by (simp add: zone_def labels_def v z)
  next
    case 3
    then obtain q where "i = 256 * (256 * q)" using assms(3) by (auto simp: dvd_def)
    then have "i mod 256 = 0" "i div 256 mod 256 = 0" by simp_all
    then have "d = 0" "c = 0" using v by (auto simp: v4_bytes_def)
    then show ?thesis using 3 by (simp add: zone_def labels_def v z numeral_eq_Suc)
  next
    case 4
    then obtain q where "i = 256 * (256 * (256 * q))" using assms(3) by (auto simp: dvd_def)
    then have "i mod 256 = 0" "i div 256 mod 256 = 0" "i div 65536 mod 256 = 0" by simp_all
    then have "d = 0" "c = 0" "b = 0" using v by (auto simp: v4_bytes_def)
    then show ?thesis using 4 by (simp add: zone_def labels_def v z numeral_eq_Suc)
  qed simp
qed

lemma labels_drop_iff:
  assumes "0 \<le> i" "i < 2 ^ 32" "0 \<le> j" "j < 2 ^ 32" "k \<le> 3"
  shows "drop k (labels i) = drop k (labels j) \<longleftrightarrow> i div 2 ^ (8 * k) = j div 2 ^ (8 * k)"
proof -
  obtain a b c d where v: "v4_bytes i = (a, b, c, d)" by (cases "v4_bytes i") auto
  obtain a' b' c' d' where w: "v4_bytes j = (a', b', c', d')" by (cases "v4_bytes j") auto
  note vb = v4_bytes_bounds [OF assms(1,2) v] and wb = v4_bytes_bounds [OF assms(3,4) w]
  have dd: "x div 65536 = x div 256 div 256" "x div 16777216 = x div 256 div 256 div 256" for x :: int
    by (simp_all add: zdiv_zmult2_eq [symmetric])
  have byte: "(256 * q + int r) div 256 = q" if "r < 256" for q r using that by simp
  have i: "i = 256 * (256 * (256 * int a + int b) + int c) + int d"
    and j: "j = 256 * (256 * (256 * int a' + int b') + int c') + int d'" using vb(5) wb(5) by simp_all
  have i': "i div 256 = 256 * (256 * int a + int b) + int c" "i div 256 div 256 = 256 * int a + int b"
      "i div 256 div 256 div 256 = int a"
    and j': "j div 256 = 256 * (256 * int a' + int b') + int c'" "j div 256 div 256 = 256 * int a' + int b'"
      "j div 256 div 256 div 256 = int a'"
    unfolding i j by (simp_all only: byte [OF vb(4)] byte [OF vb(3)] byte [OF vb(2)] byte [OF wb(4)] byte [OF wb(3)] byte [OF wb(2)])
  have same: "256 * q + int r = 256 * q' + int r' \<longleftrightarrow> q = q' \<and> r = r'" if "r < 256" "r' < 256" for q q' r r'
    using that byte by (metis add_left_cancel of_nat_eq_iff)
  consider "k = 0" | "k = 1" | "k = 2" | "k = 3" using assms(5) by linarith
  then show ?thesis
  proof cases
    case 1
    have "i = j \<longleftrightarrow> d = d' \<and> c = c' \<and> b = b' \<and> a = a'"
      unfolding i j by (auto simp only: same vb(1-4) wb(1-4) of_nat_eq_iff)
    then show ?thesis using 1 by (simp add: labels_def v w)
  next
    case 2
    have "i div 256 = j div 256 \<longleftrightarrow> c = c' \<and> b = b' \<and> a = a'"
      unfolding i'(1) j'(1) by (auto simp only: same vb(1-4) wb(1-4) of_nat_eq_iff)
    then show ?thesis using 2 by (simp add: labels_def v w)
  next
    case 3
    have "i div 256 div 256 = j div 256 div 256 \<longleftrightarrow> b = b' \<and> a = a'"
      unfolding i'(2) j'(2) by (auto simp only: same vb(1-4) wb(1-4) of_nat_eq_iff)
    then show ?thesis using 3 by (simp add: labels_def v w dd numeral_2_eq_2)
  next
    case 4
    have "i div 256 div 256 div 256 = j div 256 div 256 div 256 \<longleftrightarrow> a = a'" unfolding i'(3) j'(3) by simp
    then show ?thesis using 4 by (simp add: labels_def v w dd numeral_3_eq_3)
  qed
qed

lemma labels_length [simp]: "length (labels i) = 4"
  by (simp add: labels_def case_prod_beta)

lemma zone_split: "py_split CHR ''.'' (zone k i) = drop k (labels i) @ [''in-addr'', ''arpa'', []]"
  unfolding zone_def
proof (rule py_split_join)
  fix x assume "x \<in> set (drop k (labels i) @ [''in-addr'', ''arpa'', []])"
  then have "x \<in> set (labels i) \<or> x \<in> {''in-addr'', ''arpa'', []}" using set_drop_subset [of k "labels i"] by auto
  then show "CHR ''.'' \<notin> set x" using str_nat_chars by (auto simp: labels_def case_prod_beta)
qed simp

lemma in_zone_iff:
  assumes "0 \<le> i" "i < 2 ^ 32" "0 \<le> j" "j < 2 ^ 32" "k \<le> 3"
  shows "in_zone (zone 0 i) (zone k j) \<longleftrightarrow> i div 2 ^ (8 * k) = j div 2 ^ (8 * k)"
proof -
  let ?t = "[''in-addr'', ''arpa'', []] :: string list"
  have "in_zone (zone 0 i) (zone k j) \<longleftrightarrow> drop k (labels i) = drop k (labels j)"
  proof
    assume "in_zone (zone 0 i) (zone k j)"
    then consider "zone 0 i = zone k j" | t where "zone 0 i = t @ ''.'' @ zone k j" unfolding in_zone_def by blast
    then have "\<exists>ts. labels i @ ?t = ts @ drop k (labels j) @ ?t"
    proof cases
      case 1
      then show ?thesis using zone_split [of 0 i] zone_split [of k j] by (intro exI [of _ "[]"]) simp
    next
      case (2 t)
      then show ?thesis using zone_split [of 0 i] py_split_append [of "CHR ''.''" t "zone k j"] zone_split [of k j]
        by (intro exI [of _ "py_split CHR ''.'' t"]) simp
    qed
    then obtain ts where ts: "labels i = ts @ drop k (labels j)" by auto
    then have "length (labels i) = length ts + length (drop k (labels j))" by (simp only: length_append)
    then have "length ts = k" using assms(5) by simp
    then show "drop k (labels i) = drop k (labels j)" by (simp add: ts)
  next
    assume eq: "drop k (labels i) = drop k (labels j)"
    have "labels i = take k (labels i) @ drop k (labels i)" by simp
    have join: "py_join ''.'' (xs @ ys) = py_join ''.'' xs @ ''.'' @ py_join ''.'' ys" if "xs \<noteq> []" "ys \<noteq> []" for xs ys
      using that
    proof (induction "''.''" xs rule: py_join.induct)
      case (2 x)
      then show ?case by (cases ys) auto
    qed simp_all
    show "in_zone (zone 0 i) (zone k j)"
    proof (cases "k = 0")
      case False
      then have "take k (labels i) \<noteq> []" by (metis labels_length length_0_conv take_eq_Nil zero_neq_numeral)
      moreover have "zone 0 i = py_join ''.'' (take k (labels i) @ drop k (labels i) @ ?t)"
        by (simp add: zone_def append_assoc [symmetric] del: append_assoc)
      ultimately have "zone 0 i = py_join ''.'' (take k (labels i)) @ ''.'' @ zone k j"
        using join [of "take k (labels i)" "drop k (labels i) @ ?t"] by (simp add: zone_def eq)
      then show ?thesis unfolding in_zone_def by blast
    qed (use eq in \<open>simp add: in_zone_def zone_def\<close>)
  qed
  then show ?thesis using labels_drop_iff [OF assms] by simp
qed

lemma names_from_zones:
  assumes "ip_ok a" "ip_version a = 4" "k \<le> 3" "2 ^ (8 * k) dvd ip_len a"
  shows "names_from a (2 ^ (8 * k)) (2 * k) =
    Inr (map (\<lambda>j. zone k (ip_int a + int j * 2 ^ (8 * k))) [0..<nat (ip_len a div 2 ^ (8 * k))])"
proof -
  let ?s = "2 ^ (8 * k) :: int"
  have d: "?s dvd ip_int a" using assms(1,4) by (auto simp: ip_ok_def intro: dvd_trans)
  obtain q where q: "ip_len a = ?s * q" using assms(4) by (auto simp: dvd_def)
  have n: "(ip_len a + ?s - 1) div ?s = ip_len a div ?s"
  proof -
    have "(?s * q + (?s - 1)) div ?s = q + (?s - 1) div ?s" by (rule div_mult_self4) simp
    moreover have "?s * q + ?s - 1 = ?s * q + (?s - 1)" by simp
    ultimately show ?thesis unfolding q by (simp only:) (simp add: div_pos_pos_trivial)
  qed
  have "ip_getitem a (int j * ?s) = Inr (ip_of_int (ip_int a + int j * ?s)) \<and>
      reverseName (ip_of_int (ip_int a + int j * ?s)) = Inr (zone 0 (ip_int a + int j * ?s)) \<and>
      drop (2 * k) (zone 0 (ip_int a + int j * ?s)) = zone k (ip_int a + int j * ?s)"
    if "j \<in> set [0..<nat (ip_len a div ?s)]" for j
  proof -
    have "int j < q" using that q by auto
    then have "int j * ?s < q * ?s" by simp
    then have j: "0 \<le> int j * ?s" "int j * ?s < ip_len a" using q by (simp_all add: mult.commute)
    then have b: "0 \<le> ip_int a + int j * ?s" "ip_int a + int j * ?s < 2 ^ 32"
      using assms(1,2) unfolding ip_ok_def ip_bits_def by (auto simp: )
    have "?s dvd ip_int a + int j * ?s" using d by simp
    then show ?thesis
      using ip_getitem_v4 [OF assms(1,2), of "int j * ?s"] j reverseName_single [OF b] zone_drop [OF b(1) assms(3)] ip_len_pos [of a]
      by simp
  qed
  then show ?thesis unfolding names_from_def py_range_def n by (intro mapR_map) auto
qed

text \<open>The zones of a network contain the names of its addresses and no others.\<close>

lemma zones_cover:
  assumes "ip_ok a" "ip_version a = 4" "k \<le> 3" "2 ^ (8 * k) dvd ip_len a" "0 \<le> i" "i < 2 ^ 32"
  shows "i \<in> ip_range a \<longleftrightarrow>
    (\<exists>j < nat (ip_len a div 2 ^ (8 * k)). in_zone (zone 0 i) (zone k (ip_int a + int j * 2 ^ (8 * k))))"
proof -
  let ?s = "2 ^ (8 * k) :: int"
  have "?s dvd ip_int a" using assms(1,4) by (auto simp: ip_ok_def intro: dvd_trans)
  then obtain p where p: "ip_int a = ?s * p" by (auto simp: dvd_def)
  obtain q where q: "ip_len a = ?s * q" using assms(4) by (auto simp: dvd_def)
  have s: "0 < ?s" by simp
  have inside: "0 \<le> ip_int a + int j * ?s \<and> ip_int a + int j * ?s < 2 ^ 32" if "int j < q" for j
  proof -
    have "int j * ?s < q * ?s" using that s by simp
    moreover have "0 \<le> int j * ?s" by simp
    moreover have "0 \<le> ip_int a" "ip_int a + q * ?s \<le> 2 ^ 32"
      using assms(1,2) q by (simp_all add: ip_ok_def ip_bits_def mult.commute)
    ultimately show ?thesis by linarith
  qed
  have block: "(ip_int a + int j * ?s) div ?s = p + int j" for j
    using s unfolding p by (simp add: distrib_left [symmetric] mult.commute [of _ ?s])
  have zone: "in_zone (zone 0 i) (zone k (ip_int a + int j * ?s)) \<longleftrightarrow> i div ?s = p + int j" if "int j < q" for j
    using in_zone_iff [OF assms(5,6) conjunct1 [OF inside [OF that]] conjunct2 [OF inside [OF that]] assms(3)]
    by (simp only: block)
  have "i \<in> ip_range a \<longleftrightarrow> p \<le> i div ?s \<and> i div ?s < p + q"
  proof -
    have "p * ?s \<le> i \<longleftrightarrow> p \<le> i div ?s" and "(p + q) * ?s \<le> i \<longleftrightarrow> p + q \<le> i div ?s"
      using le_div_iff [OF s] by blast+
    then show ?thesis by (auto simp: ip_range_def p q algebra_simps)
  qed
  also have "\<dots> \<longleftrightarrow> (\<exists>j. int j < q \<and> i div ?s = p + int j)"
  proof
    assume "p \<le> i div ?s \<and> i div ?s < p + q"
    then show "\<exists>j. int j < q \<and> i div ?s = p + int j" by (intro exI [of _ "nat (i div ?s - p)"]) auto
  qed auto
  also have "\<dots> \<longleftrightarrow> (\<exists>j < nat (ip_len a div ?s). in_zone (zone 0 i) (zone k (ip_int a + int j * ?s)))"
    using zone s by (auto simp: q zless_nat_eq_int_zless)
  finally show ?thesis .
qed

lemma reverseNames_zones:
  assumes "ip_ok a" "ip_version a = 4"
  obtains k where "k \<le> 3" "2 ^ (8 * k) dvd ip_len a"
    "reverseNames a = Inr (map (\<lambda>j. zone k (ip_int a + int j * 2 ^ (8 * k))) [0..<nat (ip_len a div 2 ^ (8 * k))])"
proof -
  obtain n where n: "ip_len a = 2 ^ n" using ip_len_pow assms(1) by blast
  define k :: nat where "k = (if ip_len a < 2 ^ 8 then 0 else if ip_len a < 2 ^ 16 then 1 else if ip_len a < 2 ^ 24 then 2 else 3)"
  have k: "k \<le> 3" by (simp add: k_def)
  have "8 * k \<le> n"
  proof (rule ccontr)
    assume "\<not> 8 * k \<le> n"
    then have "ip_len a < 2 ^ (8 * k)" unfolding n by (intro power_strict_increasing) auto
    then show False using ip_len_pos [of a] by (simp add: k_def del: ip_len_pos split: if_splits)
  qed
  then have d: "2 ^ (8 * k) dvd ip_len a" unfolding n by (rule le_imp_power_dvd)
  have "reverseNames a = names_from a (2 ^ (8 * k)) (2 * k)" using assms(2) by (simp add: reverseNames_def k_def)
  then show thesis using that [OF k d] names_from_zones [OF assms k d] by simp
qed

subsection \<open>Types of IPv4 addresses\<close>

fun bin :: "nat \<Rightarrow> int \<Rightarrow> string" where
  "bin 0 i = []"
| "bin (Suc k) i = bin k (i div 2) @ [if odd i then CHR ''1'' else CHR ''0'']"

lemma length_bin [simp]: "length (bin k i) = k"
  by (induction k arbitrary: i) auto

lemma bin_append: "bin (k + n) i = bin k (i div 2 ^ n) @ bin n i"
  by (induction n arbitrary: i) (simp_all add: zdiv_zmult2_eq)

lemma bin_eq: "bin k i = bin k j \<longleftrightarrow> i mod 2 ^ k = j mod 2 ^ k"
proof (induction k arbitrary: i j)
  case (Suc k)
  have split: "x mod 2 ^ Suc k = 2 * (x div 2 mod 2 ^ k) + x mod 2" for x :: int
    by (simp add: zmod_zmult2_eq)
  have low: "2 * x + i mod 2 = 2 * y + j mod 2 \<longleftrightarrow> x = y \<and> i mod 2 = j mod 2" for x y by presburger
  have "i mod 2 ^ Suc k = j mod 2 ^ Suc k \<longleftrightarrow> i div 2 mod 2 ^ k = j div 2 mod 2 ^ k \<and> i mod 2 = j mod 2"
    unfolding split by (rule low)
  moreover have "i mod 2 = j mod 2 \<longleftrightarrow> (odd i \<longleftrightarrow> odd j)" by presburger
  ultimately show ?case using Suc [of "i div 2" "j div 2"] by (auto simp del: power_Suc)
qed simp

lemma bin_zeros: "0 \<le> i \<Longrightarrow> i < 2 ^ k \<Longrightarrow> bin (m + k) i = replicate m CHR ''0'' @ bin k i"
proof -
  assume "0 \<le> i" "i < 2 ^ k"
  moreover have "bin m 0 = replicate m CHR ''0''" by (induction m) (simp_all add: replicate_append_same)
  ultimately show ?thesis by (simp add: bin_append)
qed

text \<open>The text of the bits.\<close>

lemma bit_table_bin:
  assumes "0 \<le> d" "d < 16"
  shows "map_of bit_table (hex_digit (nat d)) = Some (bin 4 d)"
proof -
  have "\<forall>d \<in> set [0..15]. map_of bit_table (hex_digit (nat d)) = Some (bin 4 d)" by code_simp
  then show ?thesis using assms by simp
qed

lemma lower_hex_digit: "0 \<le> d \<Longrightarrow> d < 16 \<Longrightarrow> to_lower (hex_digit (nat d)) = hex_digit (nat d)"
  by (auto simp: hex_digit_def to_lower_def is_upper_def of_char_of)

lemma mapR_append: "mapR f (xs @ ys) = bindR (mapR f xs) (\<lambda>a. bindR (mapR f ys) (\<lambda>b. Inr (a @ b)))"
proof (induction xs)
  case Nil
  show ?case by (cases "mapR f ys") simp_all
next
  case (Cons x xs)
  then show ?case by (cases "f x"; cases "mapR f xs"; cases "mapR f ys") simp_all
qed

lemma hex_bits:
  "0 \<le> i \<Longrightarrow> lower (str_hex i) = str_hex i \<and> (\<exists>bs.
    mapR (\<lambda>x. case map_of bit_table x of None \<Rightarrow> Inl (PyException ''AssertionError'') | Some b \<Rightarrow> Inr b) (str_hex i) = Inr bs \<and>
    concat bs = bin (4 * length (str_hex i)) i)"
proof (induction i rule: str_hex.induct)
  case (1 i)
  show ?case
  proof (cases "i < 16")
    case True
    then have "str_hex i = [hex_digit (nat i)]" by (subst str_hex.simps) simp
    then show ?thesis using 1(2) True by (simp add: bit_table_bin lower_hex_digit)
  next
    case False
    let ?d = "i mod 16"
    have s: "str_hex i = str_hex (i div 16) @ [hex_digit (nat ?d)]" using False by (subst str_hex.simps) simp
    obtain bs where ih: "lower (str_hex (i div 16)) = str_hex (i div 16)"
      "mapR (\<lambda>x. case map_of bit_table x of None \<Rightarrow> Inl (PyException ''AssertionError'') | Some b \<Rightarrow> Inr b) (str_hex (i div 16)) = Inr bs"
      "concat bs = bin (4 * length (str_hex (i div 16))) (i div 16)"
      using 1(1) [OF False] 1(2) by (auto simp: pos_imp_zdiv_nonneg_iff)
    have "bin 4 ?d = bin 4 i" by (simp add: bin_eq)
    then have "concat (bs @ [bin 4 ?d]) = bin (4 * length (str_hex i)) i"
      using bin_append [of "4 * length (str_hex (i div 16))" 4 i] by (simp add: s ih(3) add.commute)
    then show ?thesis
      using ih(1,2) by (simp add: s mapR_append bit_table_bin lower_hex_digit)
  qed
qed

lemma length_str_hex: "0 \<le> i \<Longrightarrow> i < 16 ^ k \<Longrightarrow> 0 < k \<Longrightarrow> length (str_hex i) \<le> k"
proof (induction k arbitrary: i)
  case (Suc k)
  show ?case
  proof (cases "i < 16")
    case False
    then have "0 < k" using Suc.prems by (cases k) auto
    moreover have "i div 16 < 16 ^ k" using Suc.prems(2) by simp
    ultimately have "length (str_hex (i div 16)) \<le> k" using Suc.IH [of "i div 16"] False by (simp add: pos_imp_zdiv_nonneg_iff)
    then show ?thesis using False by (subst str_hex.simps) simp
  qed (subst str_hex.simps, simp)
qed simp

lemma less_str_hex: "0 \<le> i \<Longrightarrow> i < 16 ^ length (str_hex i)"
proof (induction i rule: str_hex.induct)
  case (1 i)
  show ?case
  proof (cases "i < 16")
    case False
    then have "i div 16 < 16 ^ length (str_hex (i div 16))" using 1 by (simp add: pos_imp_zdiv_nonneg_iff)
    then have "i < 16 ^ Suc (length (str_hex (i div 16)))" by simp
    then show ?thesis using False by (subst str_hex.simps) simp
  qed (subst str_hex.simps, simp)
qed

lemma pad_strip_zeros:
  "s \<noteq> [] \<Longrightarrow> length s \<le> w \<Longrightarrow>
    replicate (w - length (strip_zeros s)) CHR ''0'' @ strip_zeros s = replicate (w - length s) CHR ''0'' @ s \<and>
    length (strip_zeros s) \<le> length s"
proof (induction s rule: strip_zeros.induct)
  case (1 c d cs)
  have "replicate (w - length (d # cs)) CHR ''0'' @ d # cs = replicate (w - length (c # d # cs)) CHR ''0'' @ CHR ''0'' # d # cs"
  proof -
    have "w - length (d # cs) = Suc (w - length (c # d # cs))" using 1(3) by simp
    then show ?thesis by (simp add: replicate_app_Cons_same)
  qed
  then show ?case using 1 by auto
qed auto

lemma strBin_bits:
  assumes "ip_version a \<in> {4, 6}" "0 \<le> ip_int a" "ip_int a < 2 ^ ip_bits (ip_version a)"
  shows "strBin a None = Inr (bin (ip_bits (ip_version a)) (ip_int a))"
proof -
  let ?i = "ip_int a" and ?w = "ip_bits (ip_version a)"
  obtain bs where bs: "lower (str_hex ?i) = str_hex ?i"
    "mapR (\<lambda>x. case map_of bit_table x of None \<Rightarrow> Inl (PyException ''AssertionError'') | Some b \<Rightarrow> Inr b) (str_hex ?i) = Inr bs"
    "concat bs = bin (4 * length (str_hex ?i)) ?i"
    using hex_bits [OF assms(2)] by blast
  define l where "l = 4 * length (str_hex ?i)"
  have "str_hex ?i \<noteq> []" by (subst str_hex.simps) simp
  then have l0: "bin l ?i \<noteq> []" unfolding l_def using length_bin [of l ?i] by (metis l_def length_0_conv mult_is_0 zero_neq_numeral)
  have "?i < 16 ^ (?w div 4)"
    using assms(1,3) by (auto simp: ip_bits_def power_mult [of "2::int" 4, symmetric, simplified])
  then have "length (str_hex ?i) \<le> ?w div 4" using assms(1,2) by (intro length_str_hex) (auto simp: ip_bits_def)
  then have l: "l \<le> ?w" unfolding l_def using assms(1) by (auto simp: ip_bits_def)
  have small: "?i < 2 ^ l"
  proof -
    have "?i < 16 ^ length (str_hex ?i)" by (rule less_str_hex [OF assms(2)])
    then show ?thesis by (simp add: l_def power_mult)
  qed
  have e: "intToBin ?i = Inr (strip_zeros (bin l ?i))"
    using assms(2) bs by (simp add: intToBin_def py_hex_def l_def to_lower_def)
  have "replicate (?w - length (strip_zeros (bin l ?i))) CHR ''0'' @ strip_zeros (bin l ?i) = bin ?w ?i"
    using pad_strip_zeros [OF l0, of ?w] l bin_zeros [OF assms(2) small, of "?w - l"] by simp
  then show ?thesis using assms(1) e by (auto simp: strBin_def print_prefix_def default_want_def ip_bits_def)
qed

lemma longest_prefix_skip:
  assumes "m \<le> n" "n \<le> length bits" "\<forall>k \<in> set (keys ranges). \<not> (m < length k \<and> length k \<le> n)"
  shows "longest_prefix ranges bits n = longest_prefix ranges bits m"
  using assms
proof (induction n)
  case (Suc n)
  show ?case
  proof (cases "m = Suc n")
    case False
    moreover have "\<forall>k \<in> set (keys ranges). \<not> (m < length k \<and> length k \<le> n)" using Suc.prems(3) le_SucI by blast
    ultimately have "longest_prefix ranges bits n = longest_prefix ranges bits m" using Suc.IH Suc.prems(1,2) by linarith
    moreover have "length (take (Suc n) bits) = Suc n" using Suc.prems(2) by simp
    then have "take (Suc n) bits \<notin> set (keys ranges)" using Suc.prems(1,3) False by (metis le_neq_implies_less order_refl)
    then have "map_of ranges (take (Suc n) bits) = None" by (simp only: map_of_eq_None_iff set_map not_False_eq_True)
    ultimately show ?thesis by simp
  qed simp
qed simp

lemma map_of_same_length: "map_of r t = map_of (filter (\<lambda>(k, v). length k = length t) r) t"
  by (induction r) auto

lemma prefix_type:
  assumes "n < w"
  shows "longest_prefix ranges (bin w i) (Suc n) =
    (case map_of (filter (\<lambda>(k, v). length k = Suc n) ranges) (bin (Suc n) (i div 2 ^ (w - Suc n))) of
       Some t \<Rightarrow> t | None \<Rightarrow> longest_prefix ranges (bin w i) n)"
proof -
  have "take (Suc n) (bin w i) = bin (Suc n) (i div 2 ^ (w - Suc n))"
    using bin_append [of "Suc n" "w - Suc n" i] assms by simp
  then show ?thesis
    using map_of_same_length [of ranges "bin (Suc n) (i div 2 ^ (w - Suc n))"] by (simp only: longest_prefix.simps length_bin)
qed

lemma prefix_type_at:
  assumes "0 < m" "m \<le> w" "filter (\<lambda>(k, v). length k = m) ranges = ks"
  shows "longest_prefix ranges (bin w i) m =
    (case map_of ks (bin m (i div 2 ^ (w - m))) of Some t \<Rightarrow> t | None \<Rightarrow> longest_prefix ranges (bin w i) (m - 1))"
proof (cases m)
  case (Suc n)
  then have "n < w" using assms(2) by simp
  from prefix_type [OF this, of ranges i] show ?thesis using assms(3) unfolding Suc by (simp only: diff_Suc_1)
qed (use assms(1) in simp)

lemma v4_key:
  assumes "0 \<le> i" "i < 2 ^ 32" "k \<le> 32" "0 \<le> c" "c < 2 ^ k" "key = bin k c"
  shows "bin k (i div 2 ^ (32 - k)) = key \<longleftrightarrow> i \<in> {c * 2 ^ (32 - k)..<(c + 1) * 2 ^ (32 - k)}"
proof -
  let ?s = "2 ^ (32 - k) :: int"
  have s: "0 < ?s" by simp
  have e: "2 ^ k * ?s = 2 ^ 32" using assms(3) by (simp add: power_add [symmetric])
  have b: "0 \<le> i div ?s" "i div ?s < 2 ^ k"
    using assms(1,2) le_div_iff [OF s, of "2 ^ k" i] e by (simp_all add: pos_imp_zdiv_nonneg_iff not_le [symmetric] del: not_le)
  have "bin k (i div ?s) = key \<longleftrightarrow> i div ?s = c" using b assms(4-6) by (simp add: bin_eq)
  also have "\<dots> \<longleftrightarrow> c \<le> i div ?s \<and> \<not> c + 1 \<le> i div ?s" by auto
  also have "\<dots> \<longleftrightarrow> i \<in> {c * ?s..<(c + 1) * ?s}" using le_div_iff [OF s] by (auto simp: not_le [symmetric] simp del: not_le)
  finally show ?thesis .
qed

lemma v4_keys:
  assumes "0 \<le> i" "i < 2 ^ 32"
  shows "bin 16 (i div 2 ^ 16) = ''1010100111111110'' \<longleftrightarrow> i \<in> {43518 * 2 ^ 16..<43519 * 2 ^ 16}"
    "bin 16 (i div 2 ^ 16) = ''1100000010101000'' \<longleftrightarrow> i \<in> {49320 * 2 ^ 16..<49321 * 2 ^ 16}"
    "bin 12 (i div 2 ^ 20) = ''101011000001'' \<longleftrightarrow> i \<in> {2753 * 2 ^ 20..<2754 * 2 ^ 20}"
    "bin 8 (i div 2 ^ 24) = ''00000000'' \<longleftrightarrow> i \<in> {0 * 2 ^ 24..<1 * 2 ^ 24}"
    "bin 8 (i div 2 ^ 24) = ''00001010'' \<longleftrightarrow> i \<in> {10 * 2 ^ 24..<11 * 2 ^ 24}"
    "bin 8 (i div 2 ^ 24) = ''01111111'' \<longleftrightarrow> i \<in> {127 * 2 ^ 24..<128 * 2 ^ 24}"
    "bin 8 (i div 2 ^ 24) = ''11011111'' \<longleftrightarrow> i \<in> {223 * 2 ^ 24..<224 * 2 ^ 24}"
    "bin 3 (i div 2 ^ 29) = ''111'' \<longleftrightarrow> i \<in> {7 * 2 ^ 29..<8 * 2 ^ 29}"
    "bin 1 (i div 2 ^ 31) = ''0'' \<longleftrightarrow> i \<in> {0 * 2 ^ 31..<1 * 2 ^ 31}"
    "bin 1 (i div 2 ^ 31) = ''1'' \<longleftrightarrow> i \<in> {1 * 2 ^ 31..<2 * 2 ^ 31}"
proof -
  note key = v4_key [OF assms]
  have k: "''1010100111111110'' = bin 16 43518" "''1100000010101000'' = bin 16 49320" "''101011000001'' = bin 12 2753"
      "''00000000'' = bin 8 0" "''00001010'' = bin 8 10" "''01111111'' = bin 8 127" "''11011111'' = bin 8 223"
      "''111'' = bin 3 7" "''0'' = bin 1 0" "''1'' = bin 1 1"
    by code_simp+
  note key [OF _ _ _ k(1)] key [OF _ _ _ k(2)] key [OF _ _ _ k(3)] key [OF _ _ _ k(4)] key [OF _ _ _ k(5)]
    key [OF _ _ _ k(6)] key [OF _ _ _ k(7)] key [OF _ _ _ k(8)] key [OF _ _ _ k(9)] key [OF _ _ _ k(10)]
  then show "bin 16 (i div 2 ^ 16) = ''1010100111111110'' \<longleftrightarrow> i \<in> {43518 * 2 ^ 16..<43519 * 2 ^ 16}"
    "bin 16 (i div 2 ^ 16) = ''1100000010101000'' \<longleftrightarrow> i \<in> {49320 * 2 ^ 16..<49321 * 2 ^ 16}"
    "bin 12 (i div 2 ^ 20) = ''101011000001'' \<longleftrightarrow> i \<in> {2753 * 2 ^ 20..<2754 * 2 ^ 20}"
    "bin 8 (i div 2 ^ 24) = ''00000000'' \<longleftrightarrow> i \<in> {0 * 2 ^ 24..<1 * 2 ^ 24}"
    "bin 8 (i div 2 ^ 24) = ''00001010'' \<longleftrightarrow> i \<in> {10 * 2 ^ 24..<11 * 2 ^ 24}"
    "bin 8 (i div 2 ^ 24) = ''01111111'' \<longleftrightarrow> i \<in> {127 * 2 ^ 24..<128 * 2 ^ 24}"
    "bin 8 (i div 2 ^ 24) = ''11011111'' \<longleftrightarrow> i \<in> {223 * 2 ^ 24..<224 * 2 ^ 24}"
    "bin 3 (i div 2 ^ 29) = ''111'' \<longleftrightarrow> i \<in> {7 * 2 ^ 29..<8 * 2 ^ 29}"
    "bin 1 (i div 2 ^ 31) = ''0'' \<longleftrightarrow> i \<in> {0 * 2 ^ 31..<1 * 2 ^ 31}"
    "bin 1 (i div 2 ^ 31) = ''1'' \<longleftrightarrow> i \<in> {1 * 2 ^ 31..<2 * 2 ^ 31}"
    by simp_all
qed

lemma v4_type:
  assumes "0 \<le> i" "i < 2 ^ 32"
  shows "longest_prefix IPv4ranges (bin 32 i) 32 =
    (if i \<in> {43518 * 2 ^ 16..<43519 * 2 ^ 16} \<or> i \<in> {49320 * 2 ^ 16..<49321 * 2 ^ 16} \<or> i \<in> {2753 * 2 ^ 20..<2754 * 2 ^ 20} \<or>
       i \<in> {0 * 2 ^ 24..<1 * 2 ^ 24} \<or> i \<in> {10 * 2 ^ 24..<11 * 2 ^ 24} \<or> i \<in> {127 * 2 ^ 24..<128 * 2 ^ 24} then ''PRIVATE''
     else if i \<in> {223 * 2 ^ 24..<224 * 2 ^ 24} \<or> i \<in> {7 * 2 ^ 29..<8 * 2 ^ 29} then ''RESERVED'' else ''PUBLIC'')"
proof -
  let ?bits = "bin 32 i"
  have skip: "longest_prefix IPv4ranges ?bits 32 = longest_prefix IPv4ranges ?bits 16"
    "longest_prefix IPv4ranges ?bits 15 = longest_prefix IPv4ranges ?bits 12"
    "longest_prefix IPv4ranges ?bits 11 = longest_prefix IPv4ranges ?bits 8"
    "longest_prefix IPv4ranges ?bits 7 = longest_prefix IPv4ranges ?bits 3"
    "longest_prefix IPv4ranges ?bits 2 = longest_prefix IPv4ranges ?bits 1"
    by (rule longest_prefix_skip; simp add: IPv4ranges_def)+
  have at: "longest_prefix IPv4ranges ?bits 16 = (if i \<in> {43518 * 2 ^ 16..<43519 * 2 ^ 16} \<or> i \<in> {49320 * 2 ^ 16..<49321 * 2 ^ 16}
        then ''PRIVATE'' else longest_prefix IPv4ranges ?bits 15)"
    "longest_prefix IPv4ranges ?bits 12 = (if i \<in> {2753 * 2 ^ 20..<2754 * 2 ^ 20} then ''PRIVATE'' else longest_prefix IPv4ranges ?bits 11)"
    "longest_prefix IPv4ranges ?bits 8 = (if i \<in> {0 * 2 ^ 24..<1 * 2 ^ 24} \<or> i \<in> {10 * 2 ^ 24..<11 * 2 ^ 24} \<or>
        i \<in> {127 * 2 ^ 24..<128 * 2 ^ 24} then ''PRIVATE'' else if i \<in> {223 * 2 ^ 24..<224 * 2 ^ 24} then ''RESERVED''
        else longest_prefix IPv4ranges ?bits 7)"
    "longest_prefix IPv4ranges ?bits 3 = (if i \<in> {7 * 2 ^ 29..<8 * 2 ^ 29} then ''RESERVED'' else longest_prefix IPv4ranges ?bits 2)"
    "longest_prefix IPv4ranges ?bits 1 = ''PUBLIC''"
  proof -
    have f: "filter (\<lambda>(k, v). length k = 16) IPv4ranges = [(''1010100111111110'', ''PRIVATE''), (''1100000010101000'', ''PRIVATE'')]"
      "filter (\<lambda>(k, v). length k = 12) IPv4ranges = [(''101011000001'', ''PRIVATE'')]"
      "filter (\<lambda>(k, v). length k = 8) IPv4ranges =
        [(''00000000'', ''PRIVATE''), (''00001010'', ''PRIVATE''), (''01111111'', ''PRIVATE''), (''11011111'', ''RESERVED'')]"
      "filter (\<lambda>(k, v). length k = 3) IPv4ranges = [(''111'', ''RESERVED'')]"
      "filter (\<lambda>(k, v). length k = 1) IPv4ranges = [(''0'', ''PUBLIC''), (''1'', ''PUBLIC'')]"
      by code_simp+
    note at = prefix_type_at [OF _ _ f(1), of 32 i] prefix_type_at [OF _ _ f(2), of 32 i]
      prefix_type_at [OF _ _ f(3), of 32 i] prefix_type_at [OF _ _ f(4), of 32 i] prefix_type_at [OF _ _ f(5), of 32 i]
    show "longest_prefix IPv4ranges ?bits 16 = (if i \<in> {43518 * 2 ^ 16..<43519 * 2 ^ 16} \<or> i \<in> {49320 * 2 ^ 16..<49321 * 2 ^ 16}
        then ''PRIVATE'' else longest_prefix IPv4ranges ?bits 15)"
      unfolding v4_keys(1,2) [OF assms, symmetric] using at(1) by simp
    show "longest_prefix IPv4ranges ?bits 12 = (if i \<in> {2753 * 2 ^ 20..<2754 * 2 ^ 20} then ''PRIVATE'' else longest_prefix IPv4ranges ?bits 11)"
      unfolding v4_keys(3) [OF assms, symmetric] using at(2) by simp
    show "longest_prefix IPv4ranges ?bits 8 = (if i \<in> {0 * 2 ^ 24..<1 * 2 ^ 24} \<or> i \<in> {10 * 2 ^ 24..<11 * 2 ^ 24} \<or>
        i \<in> {127 * 2 ^ 24..<128 * 2 ^ 24} then ''PRIVATE'' else if i \<in> {223 * 2 ^ 24..<224 * 2 ^ 24} then ''RESERVED''
        else longest_prefix IPv4ranges ?bits 7)"
      unfolding v4_keys(4-7) [OF assms, symmetric] using at(3) by simp
    show "longest_prefix IPv4ranges ?bits 3 = (if i \<in> {7 * 2 ^ 29..<8 * 2 ^ 29} then ''RESERVED'' else longest_prefix IPv4ranges ?bits 2)"
      unfolding v4_keys(8) [OF assms, symmetric] using at(4) by simp
    have "i \<in> {0 * 2 ^ 31..<1 * 2 ^ 31} \<or> i \<in> {1 * 2 ^ 31..<2 * 2 ^ 31}" using assms by auto
    then have "bin 1 (i div 2 ^ 31) = ''0'' \<or> bin 1 (i div 2 ^ 31) = ''1''" unfolding v4_keys(9,10) [OF assms] .
    then show "longest_prefix IPv4ranges ?bits 1 = ''PUBLIC''" using at(5) by auto
  qed
  show ?thesis
    unfolding skip(1) at(1) skip(2) at(2) skip(3) at(3) skip(4) at(4) skip(5) at(5) by auto
qed

text \<open>The type of an IPv4 address is the type of the block of addresses it is in: the blocks that the
  comments of the table name as private, the two that they name as reserved, and public otherwise.\<close>

lemma iptype_of_block:
  assumes "ip_version a = 4" and "0 \<le> ip_int a" and "ip_int a < 2 ^ 32"
  shows "iptype a = Inr
    (if \<exists>s \<in> {''0.0.0.0/8'', ''10.0.0.0/8'', ''127.0.0.0/8'', ''169.254.0.0/16'', ''172.16.0.0/12'', ''192.168.0.0/16''}.
        \<exists>n. IP s = Inr n \<and> ip_int a \<in> ip_range n then ''PRIVATE''
     else if \<exists>s \<in> {''223.0.0.0/8'', ''224.0.0.0/3''}. \<exists>n. IP s = Inr n \<and> ip_int a \<in> ip_range n then ''RESERVED''
     else ''PUBLIC'')"
proof -
  let ?i = "ip_int a"
  have type: "iptype a = Inr (longest_prefix IPv4ranges (bin 32 ?i) 32)"
    using strBin_bits [of a] assms by (simp add: iptype_def ip_bits_def)
  have block: "(\<exists>n. IP s = Inr n \<and> ?i \<in> ip_range n) \<longleftrightarrow> ?i \<in> {l..<u}"
    if "IP s = Inr \<lparr>ip_int = l, ip_version = 4, ip_prefixlen = p\<rparr>" "l + 2 ^ nat (32 - p) = u" for s l u p
    using that by (auto simp: ip_range_def ip_len_def)
  have nets: "IP ''0.0.0.0/8'' = Inr \<lparr>ip_int = 0, ip_version = 4, ip_prefixlen = 8\<rparr>"
      "IP ''10.0.0.0/8'' = Inr \<lparr>ip_int = 10 * 2 ^ 24, ip_version = 4, ip_prefixlen = 8\<rparr>"
      "IP ''127.0.0.0/8'' = Inr \<lparr>ip_int = 127 * 2 ^ 24, ip_version = 4, ip_prefixlen = 8\<rparr>"
      "IP ''169.254.0.0/16'' = Inr \<lparr>ip_int = 43518 * 2 ^ 16, ip_version = 4, ip_prefixlen = 16\<rparr>"
      "IP ''172.16.0.0/12'' = Inr \<lparr>ip_int = 2753 * 2 ^ 20, ip_version = 4, ip_prefixlen = 12\<rparr>"
      "IP ''192.168.0.0/16'' = Inr \<lparr>ip_int = 49320 * 2 ^ 16, ip_version = 4, ip_prefixlen = 16\<rparr>"
      "IP ''223.0.0.0/8'' = Inr \<lparr>ip_int = 223 * 2 ^ 24, ip_version = 4, ip_prefixlen = 8\<rparr>"
      "IP ''224.0.0.0/3'' = Inr \<lparr>ip_int = 7 * 2 ^ 29, ip_version = 4, ip_prefixlen = 3\<rparr>"
    by code_simp+
  note blocks = block [OF nets(1)] block [OF nets(2)] block [OF nets(3)] block [OF nets(4)] block [OF nets(5)]
    block [OF nets(6)] block [OF nets(7)] block [OF nets(8)]
  show ?thesis unfolding type v4_type [OF assms(2,3)] by (simp only: bex_simps blocks) auto
qed

text \<open>The names of the reverse lookup of an IPv4 network: an address is in the network exactly if its own name
  is in one of the zones that they name.\<close>

theorem reverse_names_cover:
  assumes "IP s = Inr a" "ip_version a = 4"
  shows "\<exists>names. reverseNames a = Inr names \<and> (\<forall>i. 0 \<le> i \<longrightarrow> i < 2 ^ 32 \<longrightarrow>
    (\<exists>n. reverseName (ip_of_int i) = Inr n \<and> (i \<in> ip_range a \<longleftrightarrow> (\<exists>z \<in> set names. in_zone n z))))"
proof -
  note ok = IP_ok [OF assms(1)]
  show ?thesis
  proof (rule reverseNames_zones [OF ok assms(2)])
    fix k assume k: "k \<le> 3" "2 ^ (8 * k) dvd ip_len a"
      "reverseNames a = Inr (map (\<lambda>j. zone k (ip_int a + int j * 2 ^ (8 * k))) [0..<nat (ip_len a div 2 ^ (8 * k))])"
    show ?thesis
    proof (intro exI conjI allI impI)
      show "reverseNames a = Inr (map (\<lambda>j. zone k (ip_int a + int j * 2 ^ (8 * k))) [0..<nat (ip_len a div 2 ^ (8 * k))])"
        by (rule k(3))
    next
      fix i :: int assume i: "0 \<le> i" "i < 2 ^ 32"
      show "reverseName (ip_of_int i) = Inr (zone 0 i)" by (rule reverseName_single [OF i])
      show "i \<in> ip_range a \<longleftrightarrow> (\<exists>z \<in> set (map (\<lambda>j. zone k (ip_int a + int j * 2 ^ (8 * k))) [0..<nat (ip_len a div 2 ^ (8 * k))]). in_zone (zone 0 i) z)"
        using zones_cover [OF ok assms(2) k(1,2) i] by auto
    qed
  qed
qed

end
