(* ===== verification/NetController.thy ===== *)
theory NetController
  imports Network
begin

text \<open>
  \<^verbatim>\<open>NetworkController\<close> of \<^verbatim>\<open>nova/compute/network.py\<close>: the private networks of
  the users, the public network, and the datastore that both are kept in. A user's network is read
  back from the datastore at every use, and each of these reads runs the commands of the network
  again.
\<close>

text \<open>\<^verbatim>\<open>public_net\<close> is set at the end of the constructor.\<close>

record controller =
  c_vlan_pool :: vlan_pool
  c_private_pool :: net_pool
  c_private_nets :: "(string, net) dict"
  c_public_net :: "net option"
  c_world :: world

datatype net_type = Private | Public

type_synonym 'a ctrl_act = "(controller, 'a) act"

definition ctrl_world :: "(world, 'a) act \<Rightarrow> 'a ctrl_act" where
  "ctrl_world m c = (let (r, w) = m (c_world c) in (r, c\<lparr>c_world := w\<rparr>))"

definition keeper_set :: "string \<Rightarrow> json \<Rightarrow> (world, unit) act" where
  "keeper_set k j w = (Inr (), w\<lparr>store := kset net_prefix k j (store w)\<rparr>)"

abbreviation keeper_item :: "world \<Rightarrow> string \<Rightarrow> json" where
  "keeper_item w k \<equiv> kget net_prefix (store w) k"

definition lookup_user :: "flags \<Rightarrow> string \<Rightarrow> (world, user option) act" where
  "lookup_user fl u w = (get_user fl (store w) u, w)"

text \<open>An operation on the public network, or on the private network of a user: the object that
  the controller holds is the one that changes.\<close>

definition on_public :: "'a net_act \<Rightarrow> 'a ctrl_act" where
  "on_public m c = (case c_public_net c of
      None \<Rightarrow> (Inl AttributeError, c)
    | Some n \<Rightarrow> (let (r, n', w') = m (n, c_world c) in (r, c\<lparr>c_public_net := Some n', c_world := w'\<rparr>)))"

definition on_private :: "string \<Rightarrow> net \<Rightarrow> 'a net_act \<Rightarrow> 'a ctrl_act" where
  "on_private u n m c =
     (let (r, n', w') = m (n, c_world c)
      in (r, c\<lparr>c_private_nets := dput u n' (c_private_nets c), c_world := w'\<rparr>))"

definition default_name :: "string \<Rightarrow> string" where
  "default_name user_id = user_id @ ''-default''"

definition get_network_from_name :: "flags \<Rightarrow> string \<Rightarrow> (world, net option) act" where
  "get_network_from_name fl network_name w =
     (if truthy (keeper_item w network_name)
      then bindS (private_from_dict fl (keeper_item w network_name)) (\<lambda>n. retS (Some n)) w
      else (Inr None, w))"

text \<open>The branch of \<^verbatim>\<open>get_users_network\<close> for a user without a stored network.\<close>

definition new_users_network :: "flags \<Rightarrow> string \<Rightarrow> net ctrl_act" where
  "new_users_network fl user_id =
     bindS (\<lambda>c. let (r, p, K) = vlan_pool_next fl user_id (c_vlan_pool c, store (c_world c))
                in (r, c\<lparr>c_vlan_pool := p, c_world := (c_world c)\<lparr>store := K\<rparr>\<rparr>)) (\<lambda>vlan.
     bindS (\<lambda>c. (get_from_vlan (c_private_pool c) vlan, c)) (\<lambda>network_str.
     bindS (ctrl_world (on_store (vpn_port user_id))) (\<lambda>port.
     bindS (\<lambda>c. (dget (vp_vlans (c_vlan_pool c)) user_id, c)) (\<lambda>user_vlan.
     bindS (ctrl_world (private_init fl (vpn_ip fl) port network_str user_vlan [])) (\<lambda>usernet.
     bindS (ctrl_world (keeper_set (default_name user_id) (JDict (net_to_dict usernet)))) (\<lambda>_.
       retS usernet))))))"

definition get_users_network :: "flags \<Rightarrow> string \<Rightarrow> net ctrl_act" where
  "get_users_network fl user_id =
     bindS (ctrl_world (lookup_user fl user_id)) (\<lambda>user. case user of
         None \<Rightarrow> raiseS (PyException (''User '' @ user_id @ '' doesn't exist, uhoh.''))
       | Some _ \<Rightarrow>
           bindS (ctrl_world (get_network_from_name fl (default_name user_id))) (\<lambda>stored.
           bindS (case stored of None \<Rightarrow> new_users_network fl user_id | Some n \<Rightarrow> retS n) (\<lambda>usernet.
             (\<lambda>c. (Inr usernet, c\<lparr>c_private_nets := dput user_id usernet (c_private_nets c)\<rparr>)))))"

subsection \<open>Saving\<close>

text \<open>\<^verbatim>\<open>str(network)\<close> is the JSON text of the dictionary.\<close>

fun save_loop :: "flags \<Rightarrow> controller \<Rightarrow> string list \<Rightarrow> (world, json list) act" where
  "save_loop fl c [] = retS []"
| "save_loop fl c (u # us) =
     bindS (lookup_user fl u) (\<lambda>user. case user of
         None \<Rightarrow> save_loop fl c us
       | Some _ \<Rightarrow>
           bindS (liftR (dget (c_private_nets c) u)) (\<lambda>n.
           bindS (liftR (dget (vp_vlans (c_vlan_pool c)) u)) (\<lambda>vlan.
           bindS (\<lambda>w. (Inr (json_text w (JDict (net_to_dict n))), w)) (\<lambda>network.
           bindS (keeper_set (default_name u) (JDict (net_to_dict n))) (\<lambda>_.
           bindS (save_loop fl c us) (\<lambda>rest.
             retS (JDict [(''user_id'', JStr u), (''network'', JStr network), (''vlan'', JInt vlan)] # rest)))))))"

definition save :: "flags \<Rightarrow> unit ctrl_act" where
  "save fl c = ctrl_world
     (bindS (save_loop fl c (keys (c_private_nets c))) (\<lambda>networks.
      bindS (keeper_set ''private'' (JDict [(''networks'', JList networks)])) (\<lambda>_.
      bindS (case c_public_net c of None \<Rightarrow> raiseS AttributeError
             | Some n \<Rightarrow> keeper_set ''public'' (JDict (net_to_dict n))) (\<lambda>_.
        keeper_set ''vlans'' (vlan_pool_to_dict (c_vlan_pool c)))))) c"

subsection \<open>The operations of the controller\<close>

definition allocate_address :: "flags \<Rightarrow> string \<Rightarrow> string option \<Rightarrow> net_type \<Rightarrow> (string \<times> string) ctrl_act" where
  "allocate_address fl user_id mac ty =
     bindS (case ty of
         Private \<Rightarrow> bindS (get_users_network fl user_id) (\<lambda>n.
           bindS (on_private user_id n (allocate_ip fl user_id mac)) (\<lambda>ip. retS (ip, n_name n)))
       | Public \<Rightarrow> bindS (on_public (allocate_ip fl user_id mac)) (\<lambda>ip.
           bindS (on_public (\<lambda>(n, w). (Inr (n_name n), n, w))) (\<lambda>name. retS (ip, name)))) (\<lambda>r.
     bindS (save fl) (\<lambda>_. retS r))"

fun deallocate_private :: "flags \<Rightarrow> string \<Rightarrow> string list \<Rightarrow> unit ctrl_act" where
  "deallocate_private fl address [] = raiseS (AddressNotAllocated [])"
| "deallocate_private fl address (u # us) =
     bindS (ctrl_world (lookup_user fl u)) (\<lambda>user. case user of
         None \<Rightarrow> deallocate_private fl address us
       | Some _ \<Rightarrow>
           bindS (get_users_network fl u) (\<lambda>n.
           bindS (liftR (ip_contains (n_network n) address)) (\<lambda>inside.
             if inside then
               bindS (get_users_network fl u) (\<lambda>n.
               bindS (on_private u n (deallocate_ip fl address)) (\<lambda>_. save fl))
             else deallocate_private fl address us)))"

definition deallocate_address :: "flags \<Rightarrow> string \<Rightarrow> unit ctrl_act" where
  "deallocate_address fl address =
     bindS (on_public (\<lambda>(n, w). (ip_contains (n_network n) address, n, w))) (\<lambda>inside.
       if inside then bindS (on_public (deallocate_ip fl address)) (\<lambda>_. save fl)
       else (\<lambda>c. deallocate_private fl address (keys (c_private_nets c)) c))"

fun private_addresses :: "flags \<Rightarrow> string list \<Rightarrow> host list ctrl_act" where
  "private_addresses fl [] = retS []"
| "private_addresses fl (u # us) =
     bindS (get_users_network fl u) (\<lambda>n.
     bindS (private_addresses fl us) (\<lambda>rest. retS (vals (n_hosts n) @ rest)))"

definition describe_addresses :: "flags \<Rightarrow> net_type \<Rightarrow> host list ctrl_act" where
  "describe_addresses fl ty = (case ty of
      Private \<Rightarrow> (\<lambda>c. private_addresses fl (keys (c_private_nets c)) c)
    | Public \<Rightarrow> on_public (\<lambda>(n, w). (Inr (vals (n_hosts n)), n, w)))"

text \<open>An address without an instance counts as one of the instance \<^verbatim>\<open>free\<close>.\<close>

definition get_public_ip_for_instance :: "flags \<Rightarrow> string \<Rightarrow> string option ctrl_act" where
  "get_public_ip_for_instance fl instance_id =
     bindS (describe_addresses fl Public) (\<lambda>hs.
       retS (map_option h_address
         (find (\<lambda>h. (case h_assoc h of None \<Rightarrow> ''free'' | Some (_, i) \<Rightarrow> i) = instance_id) hs)))"

definition get_cloudpipe_address :: "flags \<Rightarrow> string \<Rightarrow> string option \<Rightarrow> (string \<times> string) ctrl_act" where
  "get_cloudpipe_address fl user_id mac =
     bindS (get_users_network fl user_id) (\<lambda>n.
     bindS (on_private user_id n (get_vpn_ip fl user_id mac)) (\<lambda>ip.
     bindS (save fl) (\<lambda>_. retS (ip, n_name n))))"

definition associate_address :: "flags \<Rightarrow> string \<Rightarrow> string \<Rightarrow> string \<Rightarrow> unit ctrl_act" where
  "associate_address fl address private_ip instance_id =
     bindS (on_public (public_associate fl address private_ip instance_id)) (\<lambda>_. save fl)"

definition disassociate_address :: "flags \<Rightarrow> string \<Rightarrow> unit ctrl_act" where
  "disassociate_address fl address = bindS (on_public (public_disassociate fl address)) (\<lambda>_. save fl)"

definition reset :: "flags \<Rightarrow> unit ctrl_act" where
  "reset fl = ctrl_world
     (bindS (keeper_set ''public'' (JDict [(''vlan'', JInt (public_vlan fl)), (''network'', JStr (public_range fl))])) (\<lambda>_.
      bindS (keeper_set ''private'' (JDict [])) (\<lambda>_. keeper_set ''vlans'' (JDict []))))"

text \<open>The loop of the constructor over the stored private networks.\<close>

fun restore_nets :: "flags \<Rightarrow> json list \<Rightarrow> unit ctrl_act" where
  "restore_nets fl [] = retS ()"
| "restore_nets fl (j # js) =
     bindS (liftR (bindR (jget j ''user_id'') jstr)) (\<lambda>u.
     bindS (ctrl_world (lookup_user fl u)) (\<lambda>user.
     bindS (case user of None \<Rightarrow> retS ()
            | Some _ \<Rightarrow> bindS (get_users_network fl u) (\<lambda>_. retS ())) (\<lambda>_.
       restore_nets fl js)))"

definition keeper_default :: "string \<Rightarrow> json \<Rightarrow> (world, unit) act" where
  "keeper_default k j w = (if truthy (keeper_item w k) then (Inr (), w) else keeper_set k j w)"

definition controller_init :: "flags \<Rightarrow> int \<Rightarrow> (world, controller) act" where
  "controller_init fl netsize =
     bindS (keeper_default ''vlans'' (JDict [(''start'', JInt (vlan_start fl)), (''end'', JInt (vlan_end fl))])) (\<lambda>_.
     bindS (\<lambda>w. (vlan_pool_from_dict fl (keeper_item w ''vlans''), w)) (\<lambda>vlan_pool.
     bindS (\<lambda>w. (bindR (jget (keeper_item w ''vlans'') ''start'') jint, w)) (\<lambda>startvlan.
     bindS (liftR (net_pool_init netsize startvlan (private_range fl))) (\<lambda>private_pool.
     bindS (keeper_default ''private'' (JDict [(''networks'', JList [])])) (\<lambda>_.
     bindS (\<lambda>w. (bindR (jget (keeper_item w ''private'') ''networks'') jlist, w)) (\<lambda>networks.
     bindS (\<lambda>w. (let (r, c) = restore_nets fl networks
                     \<lparr>c_vlan_pool = vlan_pool, c_private_pool = private_pool, c_private_nets = [],
                      c_public_net = None, c_world = w\<rparr>
                 in (bindR r (\<lambda>_. Inr c), c_world c))) (\<lambda>c.
     bindS (keeper_default ''public'' (JDict [(''vlan'', JInt (public_vlan fl)), (''network'', JStr (public_range fl))])) (\<lambda>_.
     bindS (\<lambda>w. public_from_dict fl (keeper_item w ''public'') w) (\<lambda>public_net.
       (\<lambda>w. (Inr (c\<lparr>c_public_net := Some public_net, c_world := w\<rparr>), w)))))))))))"

subsection \<open>The controller and its datastore agree\<close>

definition live :: "flags \<Rightarrow> world \<Rightarrow> string \<Rightarrow> bool" where
  "live fl w u \<longleftrightarrow> (\<exists>x. get_user fl (store w) u = Inr (Some x))"

definition private_ok :: "net \<Rightarrow> bool" where
  "private_ok n \<longleftrightarrow> net_wf n \<and> net_ok n \<and> (\<exists>vip vport. n_class n = PrivateNetwork vip vport)"

definition stored :: "controller \<Rightarrow> string \<Rightarrow> net \<Rightarrow> bool" where
  "stored c u n \<longleftrightarrow> keeper_item (c_world c) (default_name u) = JDict (net_to_dict n)"

text \<open>
  The invariant: the public network is set; every private network is well formed and its user has a
  VLAN; and the network of a user that exists is the one in the datastore.
\<close>

definition net_entry_ok :: "flags \<Rightarrow> controller \<Rightarrow> string \<Rightarrow> net \<Rightarrow> bool" where
  "net_entry_ok fl c u n \<longleftrightarrow> private_ok n \<and> has_key (vp_vlans (c_vlan_pool c)) u \<and>
     (\<exists>r. get_user fl (store (c_world c)) u = Inr r) \<and> (live fl (c_world c) u \<longrightarrow> stored c u n)"

definition ctrl_ok :: "flags \<Rightarrow> controller \<Rightarrow> bool" where
  "ctrl_ok fl c \<longleftrightarrow>
     (\<exists>pub. c_public_net c = Some pub \<and> net_ok pub \<and> n_class pub = PublicNetwork) \<and>
     (\<forall>u n. map_of (c_private_nets c) u = Some n \<longrightarrow> net_entry_ok fl c u n)"

lemma default_name_inj [simp]: "default_name u = default_name v \<longleftrightarrow> u = v"
  by (simp add: default_name_def)

lemma default_name_other [simp]:
  "default_name u \<noteq> ''private''" "default_name u \<noteq> ''public''" "default_name u \<noteq> ''vlans''"
  "''private'' \<noteq> default_name u" "''public'' \<noteq> default_name u" "''vlans'' \<noteq> default_name u"
proof -
  have last: "last (default_name u) = CHR ''t''" by (simp add: default_name_def)
  show 1: "default_name u \<noteq> ''private''" "default_name u \<noteq> ''public''" "default_name u \<noteq> ''vlans''"
    using last by auto
  show "''private'' \<noteq> default_name u" "''public'' \<noteq> default_name u" "''vlans'' \<noteq> default_name u"
    using 1 by metis+
qed

lemma net_to_dict_nonempty [simp]: "net_to_dict n \<noteq> []"
  by (simp add: net_to_dict_def)

lemma get_users_network_stored:
  assumes "live fl (c_world c) u" and "stored c u n" and "private_ok n"
  shows "\<exists>w'. get_users_network fl u c = (Inr n, c\<lparr>c_private_nets := dput u n (c_private_nets c), c_world := w'\<rparr>)
    \<and> store w' = store (c_world c)"
proof -
  obtain w' where w': "private_from_dict fl (JDict (net_to_dict n)) (c_world c) = (Inr n, w')"
      "store w' = store (c_world c)"
    using private_from_to_dict assms(3) unfolding private_ok_def by blast
  then have "get_network_from_name fl (default_name u) (c_world c) = (Inr (Some n), w')"
    using assms(2) by (simp add: get_network_from_name_def stored_def bindS_def)
  moreover obtain x where "get_user fl (store (c_world c)) u = Inr (Some x)" using assms(1) by (auto simp: live_def)
  ultimately show ?thesis
    using w'(2)
    by (intro exI [of _ w']) (simp add: get_users_network_def bindS_def ctrl_world_def lookup_user_def)
qed

lemma save_loop_spec:
  assumes "\<forall>u \<in> set us. has_key (c_private_nets c) u \<and> has_key (vp_vlans (c_vlan_pool c)) u \<and>
    (\<exists>r. get_user fl (store w) u = Inr r)"
  shows "\<exists>js w'. save_loop fl c us w = (Inr js, w') \<and>
    (\<forall>n. get_user fl (store w') n = get_user fl (store w) n) \<and>
    (\<forall>u \<in> set us. live fl w u \<longrightarrow>
      keeper_item w' (default_name u) = JDict (net_to_dict (the (map_of (c_private_nets c) u)))) \<and>
    (\<forall>k. (\<forall>u \<in> set us. live fl w u \<longrightarrow> k \<noteq> default_name u) \<longrightarrow> keeper_item w' k = keeper_item w k)"
  using assms
proof (induction us arbitrary: w)
  case (Cons u us)
  obtain n vlan where n: "map_of (c_private_nets c) u = Some n" "map_of (vp_vlans (c_vlan_pool c)) u = Some vlan"
    using Cons.prems by auto
  show ?case
  proof (cases "live fl w u")
    case False
    then have "get_user fl (store w) u = Inr None"
      using Cons.prems by (auto simp: live_def split: option.splits)
    then show ?thesis using Cons False by (auto simp: bindS_def lookup_user_def)
  next
    case True
    define w1 where "w1 = snd (keeper_set (default_name u) (JDict (net_to_dict n)) w)"
    have w1: "store w1 = kset ''net'' (default_name u) (JDict (net_to_dict n)) (store w)"
      by (simp add: w1_def keeper_set_def)
    have "\<forall>u \<in> set us. has_key (c_private_nets c) u \<and> has_key (vp_vlans (c_vlan_pool c)) u \<and>
        (\<exists>r. get_user fl (store w1) u = Inr r)"
      using Cons.prems by (simp add: w1)
    from Cons.IH [OF this] obtain js w' where
      w': "save_loop fl c us w1 = (Inr js, w')" "\<forall>n. get_user fl (store w') n = get_user fl (store w) n"
        "\<forall>u \<in> set us. live fl w u \<longrightarrow>
          keeper_item w' (default_name u) = JDict (net_to_dict (the (map_of (c_private_nets c) u)))"
        "\<forall>k. (\<forall>u \<in> set us. live fl w u \<longrightarrow> k \<noteq> default_name u) \<longrightarrow> keeper_item w' k = keeper_item w1 k"
      by (auto simp: w1 live_def)
    have "keeper_item w' (default_name u) = JDict (net_to_dict n)"
    proof (cases "u \<in> set us")
      case True
      then show ?thesis using w'(3) n(1) \<open>live fl w u\<close> by simp
    next
      case False
      then have "\<forall>v \<in> set us. live fl w v \<longrightarrow> default_name u \<noteq> default_name v" by auto
      then show ?thesis using w'(4) by (simp add: w1)
    qed
    moreover have "keeper_item w' k = keeper_item w k" if "\<forall>v \<in> set (u # us). live fl w v \<longrightarrow> k \<noteq> default_name v" for k
      using w'(4) that True by (auto simp: w1)
    moreover have "save_loop fl c (u # us) w = (Inr (JDict [(''user_id'', JStr u),
        (''network'', JStr (json_text w (JDict (net_to_dict n)))), (''vlan'', JInt vlan)] # js), w')"
      using True n w'(1) by (auto simp: live_def bindS_def lookup_user_def w1_def keeper_set_def)
    ultimately show ?thesis using w'(2,3) n(1) by auto
  qed
qed simp

lemma save_spec:
  assumes "\<forall>u n. map_of (c_private_nets c) u = Some n \<longrightarrow> has_key (vp_vlans (c_vlan_pool c)) u \<and>
      (\<exists>r. get_user fl (store (c_world c)) u = Inr r)"
    and "c_public_net c = Some pub"
  shows "\<exists>w'. save fl c = (Inr (), c\<lparr>c_world := w'\<rparr>) \<and>
    (\<forall>n. get_user fl (store w') n = get_user fl (store (c_world c)) n) \<and>
    (\<forall>u n. map_of (c_private_nets c) u = Some n \<longrightarrow> live fl (c_world c) u \<longrightarrow>
       keeper_item w' (default_name u) = JDict (net_to_dict n)) \<and>
    (\<forall>u. map_of (c_private_nets c) u = None \<longrightarrow> keeper_item w' (default_name u) = keeper_item (c_world c) (default_name u)) \<and>
    keeper_item w' ''public'' = JDict (net_to_dict pub) \<and>
    keeper_item w' ''vlans'' = vlan_pool_to_dict (c_vlan_pool c)"
proof -
  let ?us = "keys (c_private_nets c)"
  have keys: "u \<in> set ?us \<longleftrightarrow> has_key (c_private_nets c) u" for u by (simp only: has_key_iff)
  have "\<forall>u \<in> set ?us. has_key (c_private_nets c) u \<and> has_key (vp_vlans (c_vlan_pool c)) u \<and>
      (\<exists>r. get_user fl (store (c_world c)) u = Inr r)"
    unfolding keys using assms(1) by (intro ballI) (simp only: keys not_None_eq, blast)
  from save_loop_spec [OF this] obtain js w1 where
    w1: "save_loop fl c ?us (c_world c) = (Inr js, w1)"
      "\<forall>n. get_user fl (store w1) n = get_user fl (store (c_world c)) n"
      "\<forall>u \<in> set ?us. live fl (c_world c) u \<longrightarrow>
        keeper_item w1 (default_name u) = JDict (net_to_dict (the (map_of (c_private_nets c) u)))"
      "\<forall>k. (\<forall>u \<in> set ?us. live fl (c_world c) u \<longrightarrow> k \<noteq> default_name u) \<longrightarrow>
        keeper_item w1 k = keeper_item (c_world c) k"
    by blast
  define w' where "w' = w1\<lparr>store := kset ''net'' ''vlans'' (vlan_pool_to_dict (c_vlan_pool c))
      (kset ''net'' ''public'' (JDict (net_to_dict pub))
        (kset ''net'' ''private'' (JDict [(''networks'', JList js)]) (store w1)))\<rparr>"
  have run: "save fl c = (Inr (), c\<lparr>c_world := w'\<rparr>)"
    using w1(1) assms(2) by (simp add: save_def ctrl_world_def bindS_def keeper_set_def w'_def)
  have same: "keeper_item w' (default_name u) = keeper_item w1 (default_name u)" for u
    by (simp add: w'_def)
  have "keeper_item w' (default_name u) = JDict (net_to_dict n)"
    if "map_of (c_private_nets c) u = Some n" "live fl (c_world c) u" for u n
  proof -
    have "u \<in> set ?us" unfolding keys using that(1) by simp
    then show ?thesis unfolding same using w1(3) that by (simp only: option.sel)
  qed
  moreover have "keeper_item w' (default_name u) = keeper_item (c_world c) (default_name u)"
    if "map_of (c_private_nets c) u = None" for u
  proof -
    have "u \<notin> set ?us" unfolding keys using that by simp
    then have "\<forall>v \<in> set ?us. live fl (c_world c) v \<longrightarrow> default_name u \<noteq> default_name v"
      by (metis default_name_inj)
    then show ?thesis unfolding same using w1(4) by blast
  qed
  moreover have "keeper_item w' ''public'' = JDict (net_to_dict pub)"
      "keeper_item w' ''vlans'' = vlan_pool_to_dict (c_vlan_pool c)"
      "\<forall>n. get_user fl (store w') n = get_user fl (store (c_world c)) n"
    using w1(2) by (simp_all add: w'_def)
  ultimately show ?thesis using run by blast
qed

lemma save_ok:
  assumes "\<exists>pub. c_public_net c = Some pub \<and> net_ok pub \<and> n_class pub = PublicNetwork"
    and "\<forall>u n. map_of (c_private_nets c) u = Some n \<longrightarrow> private_ok n \<and> has_key (vp_vlans (c_vlan_pool c)) u \<and>
      (\<exists>r. get_user fl (store (c_world c)) u = Inr r)"
  shows "\<exists>w'. save fl c = (Inr (), c\<lparr>c_world := w'\<rparr>) \<and> ctrl_ok fl (c\<lparr>c_world := w'\<rparr>) \<and>
    (\<forall>n. get_user fl (store w') n = get_user fl (store (c_world c)) n)"
proof -
  obtain pub where pub: "c_public_net c = Some pub" using assms(1) by blast
  have "\<forall>u n. map_of (c_private_nets c) u = Some n \<longrightarrow> has_key (vp_vlans (c_vlan_pool c)) u \<and>
      (\<exists>r. get_user fl (store (c_world c)) u = Inr r)"
    using assms(2) by blast
  from save_spec [OF this pub] obtain w' where
    w': "save fl c = (Inr (), c\<lparr>c_world := w'\<rparr>)" "\<forall>n. get_user fl (store w') n = get_user fl (store (c_world c)) n"
      "\<forall>u n. map_of (c_private_nets c) u = Some n \<longrightarrow> live fl (c_world c) u \<longrightarrow>
         keeper_item w' (default_name u) = JDict (net_to_dict n)"
    by blast
  have "ctrl_ok fl (c\<lparr>c_world := w'\<rparr>)"
    using assms w'(2,3) by (auto simp: ctrl_ok_def net_entry_ok_def stored_def live_def)
  then show ?thesis using w'(1,2) by blast
qed

text \<open>
  The allocation of a private address: it is the first free one, the table of the user's network in
  the datastore has it afterwards, and the networks of the others stay.
\<close>

lemma allocate_private:
  assumes ok: "ctrl_ok fl c" and live: "live fl (c_world c) u" and st: "stored c u n" "private_ok n"
    and vlan: "has_key (vp_vlans (c_vlan_pool c)) u"
    and free: "filter (\<lambda>x. x \<notin> set (keys (n_hosts n))) (range_addresses (n_network n)) = x # xs"
  shows "\<exists>c'. allocate_address fl u m Private c = (Inr (x, n_name n), c') \<and> ctrl_ok fl c' \<and>
    map_of (c_private_nets c') u = Some (n\<lparr>n_hosts := dput x (new_host x u m) (n_hosts n)\<rparr>) \<and>
    (\<forall>v. v \<noteq> u \<longrightarrow> map_of (c_private_nets c') v = map_of (c_private_nets c) v) \<and>
    (\<forall>v. get_user fl (store (c_world c')) v = get_user fl (store (c_world c)) v)"
proof -
  let ?n = "n\<lparr>n_hosts := dput x (new_host x u m) (n_hosts n)\<rparr>"
  obtain w1 where w1: "get_users_network fl u c =
      (Inr n, c\<lparr>c_private_nets := dput u n (c_private_nets c), c_world := w1\<rparr>)" "store w1 = store (c_world c)"
    using get_users_network_stored [OF live st] by blast
  obtain w2 where w2: "allocate_ip fl u m (n, w1) = (Inr x, ?n, w2)" "store w2 = store w1"
    using allocate_ip_some [of n x xs fl u m w1] st(2) free by (auto simp: private_ok_def)
  define c2 where "c2 = c\<lparr>c_private_nets := dput u ?n (dput u n (c_private_nets c)), c_world := w2\<rparr>"
  have n: "private_ok ?n" using st(2) by (simp add: private_ok_def net_wf_def)
  have user: "\<exists>r. get_user fl (store w2) u = Inr r" using live w1(2) w2(2) by (auto simp: live_def)
  have pub: "\<exists>pub. c_public_net c2 = Some pub \<and> net_ok pub \<and> n_class pub = PublicNetwork"
    using ok by (simp add: ctrl_ok_def c2_def)
  have nets: "\<forall>v n. map_of (c_private_nets c2) v = Some n \<longrightarrow> private_ok n \<and>
      has_key (vp_vlans (c_vlan_pool c2)) v \<and> (\<exists>r. get_user fl (store (c_world c2)) v = Inr r)"
    using ok n vlan user w1(2) w2(2) by (auto simp: ctrl_ok_def net_entry_ok_def c2_def)
  obtain w3 where w3: "save fl c2 = (Inr (), c2\<lparr>c_world := w3\<rparr>)" "ctrl_ok fl (c2\<lparr>c_world := w3\<rparr>)"
      "\<forall>v. get_user fl (store w3) v = get_user fl (store (c_world c2)) v"
    using save_ok [OF pub nets] by blast
  have "allocate_address fl u m Private c = (Inr (x, n_name n), c2\<lparr>c_world := w3\<rparr>)"
    using w1(1) w2(1) w3(1) by (simp add: allocate_address_def bindS_def on_private_def c2_def)
  then show ?thesis
    using w3(2,3) w1(2) w2(2) by (intro exI [of _ "c2\<lparr>c_world := w3\<rparr>"]) (simp add: c2_def)
qed

lemma stored_after:
  assumes "ctrl_ok fl c" and "live fl (c_world c) u" and "map_of (c_private_nets c) u = Some n"
  shows "stored c u n" "private_ok n" "has_key (vp_vlans (c_vlan_pool c)) u"
  using assms by (auto simp: ctrl_ok_def net_entry_ok_def)

text \<open>A full network refuses, and nothing is written.\<close>

lemma allocate_private_full:
  assumes live: "live fl (c_world c) u" and st: "stored c u n" "private_ok n"
    and full: "filter (\<lambda>x. x \<notin> set (keys (n_hosts n))) (range_addresses (n_network n)) = []"
  shows "\<exists>c'. allocate_address fl u m Private c = (Inl NoMoreAddresses, c') \<and>
    store (c_world c') = store (c_world c)"
proof -
  obtain w1 where w1: "get_users_network fl u c =
      (Inr n, c\<lparr>c_private_nets := dput u n (c_private_nets c), c_world := w1\<rparr>)" "store w1 = store (c_world c)"
    using get_users_network_stored [OF live st] by blast
  have "allocate_ip fl u m (n, w1) = (Inl NoMoreAddresses, n, w1)"
    using allocate_ip_none [of n fl u m w1] st(2) full by (auto simp: private_ok_def)
  then show ?thesis using w1 by (simp add: allocate_address_def bindS_def on_private_def)
qed

lemma get_users_network_keeps:
  assumes "get_users_network fl v c = (Inr n, c')" and "stored c v n" and "live fl (c_world c) v" and "private_ok n"
  shows "c' = c\<lparr>c_private_nets := dput v n (c_private_nets c), c_world := c_world c'\<rparr>"
    "store (c_world c') = store (c_world c)"
  using get_users_network_stored [OF assms(3,2,4)] assms(1) by auto

text \<open>The loop of \<^verbatim>\<open>deallocate_address\<close> reaches the user whose network has the address.\<close>

lemma deallocate_private_spec:
  assumes "ctrl_ok fl c" and "u \<in> set us" and "\<forall>v \<in> set us. has_key (c_private_nets c) v"
    and "live fl (c_world c) u" and "map_of (c_private_nets c) u = Some n"
    and "ip_contains (n_network n) x = Inr True" and "has_key (n_hosts n) x"
    and "\<forall>v n'. v \<noteq> u \<longrightarrow> live fl (c_world c) v \<longrightarrow> map_of (c_private_nets c) v = Some n' \<longrightarrow>
      ip_contains (n_network n') x = Inr False"
  shows "\<exists>c'. deallocate_private fl x us c = (Inr (), c') \<and> ctrl_ok fl c' \<and>
    map_of (c_private_nets c') u = Some (n\<lparr>n_hosts := ddel x (n_hosts n)\<rparr>) \<and>
    (\<forall>v. v \<noteq> u \<longrightarrow> map_of (c_private_nets c') v = map_of (c_private_nets c) v) \<and>
    (\<forall>v. get_user fl (store (c_world c')) v = get_user fl (store (c_world c)) v)"
  using assms
proof (induction us arbitrary: c)
  case (Cons v us)
  note ok = Cons.prems(1)
  obtain nv where nv: "map_of (c_private_nets c) v = Some nv" using Cons.prems(3) by auto
  show ?case
  proof (cases "live fl (c_world c) v")
    case False
    then have "v \<noteq> u" using Cons.prems(4) by auto
    obtain r where r: "get_user fl (store (c_world c)) v = Inr r"
      using ok nv by (auto simp: ctrl_ok_def net_entry_ok_def)
    then have "get_user fl (store (c_world c)) v = Inr None"
      using False by (cases r) (auto simp: live_def)
    then show ?thesis using Cons \<open>v \<noteq> u\<close> by (simp add: bindS_def ctrl_world_def lookup_user_def)
  next
    case True
    note st = stored_after [OF ok True nv]
    obtain w1 where w1: "get_users_network fl v c =
        (Inr nv, c\<lparr>c_private_nets := dput v nv (c_private_nets c), c_world := w1\<rparr>)" "store w1 = store (c_world c)"
      using get_users_network_stored [OF True st(1,2)] by blast
    define c1 where "c1 = c\<lparr>c_private_nets := dput v nv (c_private_nets c), c_world := w1\<rparr>"
    have same: "map_of (c_private_nets c1) = map_of (c_private_nets c)" using nv by (auto simp: c1_def)
    have ok1: "ctrl_ok fl c1"
      using ok w1(2) unfolding ctrl_ok_def same
      by (simp add: net_entry_ok_def live_def stored_def c1_def)
    have live1: "live fl (c_world c1) y = live fl (c_world c) y" for y using w1(2) by (simp add: live_def c1_def)
    have user: "\<exists>y. get_user fl (store (c_world c)) v = Inr (Some y)" using True by (simp add: live_def)
    show ?thesis
    proof (cases "v = u")
      case False
      have "ip_contains (n_network nv) x = Inr False" using Cons.prems(8) False True nv by blast
      then have step: "deallocate_private fl x (v # us) c = deallocate_private fl x us c1"
        using user w1(1) by (auto simp: bindS_def ctrl_world_def lookup_user_def c1_def)
      have "\<exists>c'. deallocate_private fl x us c1 = (Inr (), c') \<and> ctrl_ok fl c' \<and>
          map_of (c_private_nets c') u = Some (n\<lparr>n_hosts := ddel x (n_hosts n)\<rparr>) \<and>
          (\<forall>v. v \<noteq> u \<longrightarrow> map_of (c_private_nets c') v = map_of (c_private_nets c1) v) \<and>
          (\<forall>v. get_user fl (store (c_world c')) v = get_user fl (store (c_world c1)) v)"
        using Cons.prems False by (intro Cons.IH) (simp_all only: same live1 ok1, auto)
      moreover have "store (c_world c1) = store (c_world c)" using w1(2) by (simp add: c1_def)
      ultimately show ?thesis unfolding step by (simp only: same)
    next
      case v: True
      have nvn: "nv = n" using nv Cons.prems(5) v by simp
      have st1: "stored c1 u n" using st(1) w1(2) by (simp add: stored_def c1_def v nvn)
      obtain w2 where w2: "get_users_network fl u c1 =
          (Inr n, c1\<lparr>c_private_nets := dput u n (c_private_nets c1), c_world := w2\<rparr>)" "store w2 = store (c_world c1)"
        using get_users_network_stored [OF _ st1] st(2) live1 Cons.prems(4) nvn by blast
      let ?n = "n\<lparr>n_hosts := ddel x (n_hosts n)\<rparr>"
      obtain vip vport where "n_class n = PrivateNetwork vip vport" using st(2) nvn by (auto simp: private_ok_def)
      then obtain w3 where w3: "deallocate_ip fl x (n, w2) = (Inr (), ?n, w3)" "store w3 = store w2"
        using deallocate_ip_private Cons.prems(7) by blast
      define c3 where "c3 = c1\<lparr>c_private_nets := dput u ?n (dput u n (c_private_nets c1)), c_world := w3\<rparr>"
      have n: "private_ok ?n" using st(2) nvn by (simp add: private_ok_def net_wf_def)
      have stores: "store (c_world c3) = store (c_world c)" using w1(2) w2(2) w3(2) by (simp add: c3_def c1_def)
      have pub: "\<exists>pub. c_public_net c3 = Some pub \<and> net_ok pub \<and> n_class pub = PublicNetwork"
        using ok by (simp add: ctrl_ok_def c3_def c1_def)
      have nets: "\<forall>y n. map_of (c_private_nets c3) y = Some n \<longrightarrow> private_ok n \<and>
          has_key (vp_vlans (c_vlan_pool c3)) y \<and> (\<exists>r. get_user fl (store (c_world c3)) y = Inr r)"
        using ok n st(3) user v stores same by (auto simp: ctrl_ok_def net_entry_ok_def c3_def) (auto simp: c1_def)
      obtain w4 where w4: "save fl c3 = (Inr (), c3\<lparr>c_world := w4\<rparr>)" "ctrl_ok fl (c3\<lparr>c_world := w4\<rparr>)"
          "\<forall>y. get_user fl (store w4) y = get_user fl (store (c_world c3)) y"
        using save_ok [OF pub nets] by blast
      have "deallocate_private fl x (v # us) c = (Inr (), c3\<lparr>c_world := w4\<rparr>)"
        using user w1(1) w2(1) w3(1) w4(1) Cons.prems(6) v nvn
        by (auto simp: bindS_def ctrl_world_def lookup_user_def on_private_def c1_def c3_def)
      then show ?thesis
        using w4(2,3) stores same by (intro exI [of _ "c3\<lparr>c_world := w4\<rparr>"]) (simp add: c3_def)
    qed
  qed
qed simp

subsection \<open>Properties\<close>

text \<open>Allocating a private address for an existing user whose network has a free address
  gives the first free one and the name of the network; afterwards the datastore holds the user's
  network with the new entry, so that the next read of the network has it, the networks of the other
  users are as before, and controller and datastore agree again. With no free address the call is
  refused and the datastore does not change.\<close>

theorem allocate_private_address:
  assumes "ctrl_ok fl c" and "live fl (c_world c) u" and "map_of (c_private_nets c) u = Some n"
  shows "case filter (\<lambda>x. x \<notin> set (keys (n_hosts n))) (range_addresses (n_network n)) of
      [] \<Rightarrow> \<exists>c'. allocate_address fl u m Private c = (Inl NoMoreAddresses, c') \<and> store (c_world c') = store (c_world c)
    | x # _ \<Rightarrow> \<exists>c'. allocate_address fl u m Private c = (Inr (x, n_name n), c') \<and> ctrl_ok fl c' \<and>
        stored c' u (n\<lparr>n_hosts := dput x (new_host x u m) (n_hosts n)\<rparr>) \<and>
        (\<forall>v. v \<noteq> u \<longrightarrow> map_of (c_private_nets c') v = map_of (c_private_nets c) v)"
proof (cases "filter (\<lambda>x. x \<notin> set (keys (n_hosts n))) (range_addresses (n_network n))")
  case Nil
  then show ?thesis
    using allocate_private_full [OF assms(2) stored_after(1,2) [OF assms] Nil] by simp
next
  case (Cons x xs)
  obtain c' where c': "allocate_address fl u m Private c = (Inr (x, n_name n), c')" "ctrl_ok fl c'"
      "map_of (c_private_nets c') u = Some (n\<lparr>n_hosts := dput x (new_host x u m) (n_hosts n)\<rparr>)"
      "\<forall>v. v \<noteq> u \<longrightarrow> map_of (c_private_nets c') v = map_of (c_private_nets c) v"
      "\<forall>v. get_user fl (store (c_world c')) v = get_user fl (store (c_world c)) v"
    using allocate_private [OF assms(1,2) stored_after [OF assms] Cons] by blast
  have "live fl (c_world c') u" using assms(2) c'(5) by (simp add: live_def)
  then have "stored c' u (n\<lparr>n_hosts := dput x (new_host x u m) (n_hosts n)\<rparr>)"
    using stored_after(1) [OF c'(2) _ c'(3)] by blast
  then show ?thesis unfolding Cons list.case using c'(1,2,4) by blast
qed

text \<open>Deallocating an address of a private network removes exactly this entry from the
  table of its user in the datastore, wherever the user comes in the order of the controller's
  networks, provided that no other network of an existing user contains the address; the other
  networks stay and controller and datastore agree.\<close>

theorem deallocate_private_address:
  assumes "ctrl_ok fl c" and "live fl (c_world c) u" and "map_of (c_private_nets c) u = Some n"
    and "has_key (n_hosts n) x" and "ip_contains (n_network n) x = Inr True"
    and "\<forall>v n'. v \<noteq> u \<longrightarrow> live fl (c_world c) v \<longrightarrow> map_of (c_private_nets c) v = Some n' \<longrightarrow>
      ip_contains (n_network n') x = Inr False"
    and "\<forall>pub. c_public_net c = Some pub \<longrightarrow> ip_contains (n_network pub) x = Inr False"
  shows "\<exists>c'. deallocate_address fl x c = (Inr (), c') \<and> ctrl_ok fl c' \<and>
    stored c' u (n\<lparr>n_hosts := ddel x (n_hosts n)\<rparr>) \<and>
    (\<forall>v. v \<noteq> u \<longrightarrow> map_of (c_private_nets c') v = map_of (c_private_nets c) v)"
proof -
  obtain pub where pub: "c_public_net c = Some pub" using assms(1) by (auto simp: ctrl_ok_def)
  have same: "c\<lparr>c_public_net := Some pub\<rparr> = c" using pub by (cases c) simp
  have step: "deallocate_address fl x c = deallocate_private fl x (keys (c_private_nets c)) c"
    using pub assms(7) by (simp add: deallocate_address_def bindS_def on_public_def) (simp only: same)
  have keys: "v \<in> set (keys (c_private_nets c)) \<longleftrightarrow> has_key (c_private_nets c) v" for v
    by (simp only: has_key_iff)
  have "u \<in> set (keys (c_private_nets c))" unfolding keys using assms(3) by simp
  moreover have "\<forall>v \<in> set (keys (c_private_nets c)). has_key (c_private_nets c) v" using keys by blast
  ultimately obtain c' where c': "deallocate_private fl x (keys (c_private_nets c)) c = (Inr (), c')" "ctrl_ok fl c'"
      "map_of (c_private_nets c') u = Some (n\<lparr>n_hosts := ddel x (n_hosts n)\<rparr>)"
      "\<forall>v. v \<noteq> u \<longrightarrow> map_of (c_private_nets c') v = map_of (c_private_nets c) v"
      "\<forall>v. get_user fl (store (c_world c')) v = get_user fl (store (c_world c)) v"
    using deallocate_private_spec [OF assms(1) _ _ assms(2,3,5,4,6)] by blast
  have "live fl (c_world c') u" using assms(2) c'(5) by (simp add: live_def)
  then have "stored c' u (n\<lparr>n_hosts := ddel x (n_hosts n)\<rparr>)"
    using stored_after(1) [OF c'(2) _ c'(3)] by blast
  then show ?thesis using step c' by metis
qed

definition demo_controller :: "flags \<Rightarrow> net \<Rightarrow> controller" where
  "demo_controller fl n = \<lparr>c_vlan_pool = vlan_pool_init 2020 2039 [(''joe'', 2021)], c_private_pool = demo_pool,
     c_private_nets = [(''joe'', n)], c_public_net = Some (demo_net\<lparr>n_class := PublicNetwork,
       n_network := \<lparr>ip_int = 3322576000, ip_version = 4, ip_prefixlen = 26\<rparr>\<rparr>),
     c_world = \<lparr>store = kset ''net'' (default_name ''joe'') (JDict (net_to_dict n)) (demo_users fl [''joe'']),
       trace = [], text_files = Map.empty, shell = (\<lambda>_. ([], [])), os_ok = (\<lambda>_. True), file_size = (\<lambda>_ _. None),
       json_text = (\<lambda>_. []),
       clock = (\<lambda>_. []), s3_json = (\<lambda>_. JNull), rng = (\<lambda>_. 0)\<rparr>\<rparr>"

lemma demo_controller_ok:
  assumes "private_ok n"
  shows "ctrl_ok fl (demo_controller fl n)" "live fl (c_world (demo_controller fl n)) ''joe''"
    "map_of (c_private_nets (demo_controller fl n)) ''joe'' = Some n"
proof -
  have "name_ok ''joe''" by (simp add: name_ok_def)
  then have "get_user fl (demo_users fl [''joe'']) ''joe'' = Inr (Some (mk_user ''joe'' ''joe'' ''joe'' False))"
    by (simp add: demo_users_get)
  then show "ctrl_ok fl (demo_controller fl n)" "live fl (c_world (demo_controller fl n)) ''joe''"
    "map_of (c_private_nets (demo_controller fl n)) ''joe'' = Some n"
    using assms
    by (simp_all add: ctrl_ok_def net_entry_ok_def live_def stored_def demo_controller_def vlan_pool_init_def
        net_ok_def v4_net_def ip_ok_def ip_bits_def ip_len_def)
qed

lemma demo_private_ok: "private_ok demo_net"
  using demo_net_ok by (simp add: private_ok_def) (simp add: demo_net_def)

theorem allocate_private_address_witness:
  "\<forall>fl. \<exists>c'. allocate_address fl ''joe'' None Private (demo_controller fl demo_net) = (Inr (''10.128.0.11'', ''nova-2021''), c') \<and>
     ctrl_ok fl c'"
proof (intro allI)
  fix fl
  show "\<exists>c'. allocate_address fl ''joe'' None Private (demo_controller fl demo_net) = (Inr (''10.128.0.11'', ''nova-2021''), c') \<and>
     ctrl_ok fl c'"
  proof -
    have "n_name demo_net = ''nova-2021''" by code_simp
    moreover have "filter (\<lambda>x. x \<notin> set (keys (n_hosts demo_net))) (range_addresses (n_network demo_net)) =
        [''10.128.0.11'', ''10.128.0.12'', ''10.128.0.13'']"
      unfolding demo_range by (simp add: demo_net_def)
    ultimately show ?thesis
      using allocate_private_address [OF demo_controller_ok [OF demo_private_ok], of fl None] by auto
  qed
qed

lemma demo_used_ok: "private_ok (demo_net\<lparr>n_hosts := hs\<rparr>)"
  using demo_private_ok by (simp add: private_ok_def net_wf_def)

theorem deallocate_private_address_witness:
  "\<forall>fl. \<exists>c'. deallocate_address fl ''10.128.0.11''
     (demo_controller fl (demo_net\<lparr>n_hosts := [(''10.128.0.11'', new_host ''10.128.0.11'' ''joe'' None)]\<rparr>)) = (Inr (), c')"
proof (intro allI)
  fix fl
  show "\<exists>c'. deallocate_address fl ''10.128.0.11''
     (demo_controller fl (demo_net\<lparr>n_hosts := [(''10.128.0.11'', new_host ''10.128.0.11'' ''joe'' None)]\<rparr>)) = (Inr (), c')"
  proof -
    let ?n = "demo_net\<lparr>n_hosts := [(''10.128.0.11'', new_host ''10.128.0.11'' ''joe'' None)]\<rparr>"
    have in1: "ip_contains (n_network demo_net) ''10.128.0.11'' = Inr True" by code_simp
    have in2: "ip_contains \<lparr>ip_int = 3322576000, ip_version = 4, ip_prefixlen = 26\<rparr> ''10.128.0.11'' = Inr False"
      by code_simp
    show ?thesis
      using deallocate_private_address [OF demo_controller_ok [OF demo_used_ok], of _ "''10.128.0.11''" fl] in1 in2
      by (force simp: demo_controller_def)
  qed
qed

end
