(* ===== verification/Signer.thy ===== *)
theory Signer
  imports Users "HOL-Library.List_Lexorder" "HOL-Library.Char_ord"
begin

text \<open>
  \<^verbatim>\<open>nova/auth/signer.py\<close> and the authentication of a request
  (\<^verbatim>\<open>UserManager.authenticate\<close>). The keyed hashes of the standard library, with the
  base 64 encoding of the digest, are two arguments: from a secret and a message to the text
  of the signature.
\<close>

type_synonym params = "(string, string) dict"
type_synonym mac = "string \<Rightarrow> string \<Rightarrow> string"

subsection \<open>Percent encoding\<close>

definition always_safe :: "char \<Rightarrow> bool" where
  "always_safe c \<longleftrightarrow> is_upper c \<or> is_lower c \<or> is_digit c \<or> c \<in> set ''_.-''"

definition HEX_digit :: "nat \<Rightarrow> char" where
  "HEX_digit n = (if n < 10 then char_of (48 + n) else char_of (55 + n))"

definition quote_char :: "string \<Rightarrow> char \<Rightarrow> string" where
  "quote_char safe c =
     (if always_safe c \<or> c \<in> set safe then [c]
      else [CHR ''%'', HEX_digit (of_char c div 16), HEX_digit (of_char c mod 16)])"

text \<open>\<^verbatim>\<open>urllib.quote(s, safe)\<close>\<close>

definition quote :: "string \<Rightarrow> string \<Rightarrow> string" where
  "quote safe s = concat (map (quote_char safe) s)"

subsection \<open>The three signature versions\<close>

definition message_0 :: "params \<Rightarrow> string res" where
  "message_0 p = bindR (dget p ''Action'') (\<lambda>a. bindR (dget p ''Timestamp'') (\<lambda>t. Inr (a @ t)))"

text \<open>Version 1 sorts by the lower case of the key and feeds keys and values to the hash
  one after the other.\<close>

definition message_1 :: "params \<Rightarrow> string" where
  "message_1 p = concat (map (\<lambda>k. k @ the (map_of p k)) (sort_key lower (keys p)))"

definition query_string :: "params \<Rightarrow> string" where
  "query_string p = py_join ''&''
     (map (\<lambda>k. quote [] k @ ''='' @ quote ''-_~'' (the (map_of p k))) (sort (keys p)))"

definition string_to_sign :: "string \<Rightarrow> string \<Rightarrow> string \<Rightarrow> params \<Rightarrow> string" where
  "string_to_sign verb server_string path p =
     verb @ ''\<newline>'' @ server_string @ ''\<newline>'' @ path @ ''\<newline>'' @ query_string p"

text \<open>
  \<^verbatim>\<open>Signer(secret).generate(params, verb, server_string, path)\<close>. Version 2 puts the
  signature method into the parameters. An unknown version builds its error message from
  \<^verbatim>\<open>self.SignatureVersion\<close>, an attribute that a signer does not have.
\<close>

definition generate :: "mac \<Rightarrow> mac \<Rightarrow> string \<Rightarrow> params \<Rightarrow> string \<Rightarrow> string \<Rightarrow> string \<Rightarrow> string res" where
  "generate sha1 sha256 secret p verb server_string path =
     bindR (dget p ''SignatureVersion'') (\<lambda>v.
       if v = ''0'' then bindR (message_0 p) (\<lambda>m. Inr (sha1 secret m))
       else if v = ''1'' then Inr (sha1 secret (message_1 p))
       else if v = ''2'' then
         Inr (sha256 secret (string_to_sign verb server_string path
                (dput ''SignatureMethod'' ''HmacSHA256'' p)))
       else Inl AttributeError)"

definition authenticate ::
  "mac \<Rightarrow> mac \<Rightarrow> flags \<Rightarrow> kstore \<Rightarrow> params \<Rightarrow> string \<Rightarrow> string \<Rightarrow> string \<Rightarrow> string \<Rightarrow> user option res" where
  "authenticate sha1 sha256 fl K p signature verb server_string path =
     bindR (dget p ''AWSAccessKeyId'') (\<lambda>access_key.
     bindR (get_user_from_access_key fl K access_key) (\<lambda>u. case u of
         None \<Rightarrow> Inr None
       | Some user \<Rightarrow>
           bindR (generate sha1 sha256 (u_secret user) p verb server_string path) (\<lambda>expected.
             Inr (if signature = expected then Some user else None))))"

subsection \<open>Encoding is injective\<close>

lemma of_char_HEX:
  "n < 16 \<Longrightarrow> (of_char (HEX_digit n) :: nat) = (if n < 10 then 48 + n else 55 + n)"
  by (simp add: HEX_digit_def take_bit_eq_mod)

lemma HEX_digit_inj:
  assumes "m < 16" and "n < 16"
  shows "HEX_digit m = HEX_digit n \<longleftrightarrow> m = n"
proof
  assume "HEX_digit m = HEX_digit n"
  then have "(of_char (HEX_digit m) :: nat) = of_char (HEX_digit n)" by (rule arg_cong)
  then have "(if m < 10 then 48 + m else 55 + m) = (if n < 10 then 48 + n else 55 + n)"
    by (simp only: of_char_HEX assms)
  then show "m = n" by (simp split: if_splits)
qed simp

lemma HEX_digit_safe: "n < 16 \<Longrightarrow> always_safe (HEX_digit n)"
  by (auto simp: HEX_digit_def always_safe_def is_digit_def is_upper_def)

lemma special_not_safe:
  "\<not> always_safe CHR ''%''" "\<not> always_safe CHR ''&''" "\<not> always_safe CHR ''=''"
  "\<not> always_safe CHR ''\<newline>''"
  by (simp_all add: always_safe_def is_upper_def is_lower_def is_digit_def)

lemma nibbles_eq: "m div 16 = n div 16 \<Longrightarrow> m mod 16 = n mod 16 \<Longrightarrow> m = (n::nat)"
  by (metis div_mult_mod_eq)

lemma of_char_less: "(of_char c :: nat) < 256"
  by (simp add: of_char_def)

lemma quote_chars:
  assumes "c \<in> set (quote safe s)"
  shows "always_safe c \<or> c \<in> set safe \<or> c = CHR ''%''"
proof -
  obtain d where d: "c \<in> set (quote_char safe d)" using assms by (auto simp: quote_def)
  have "(of_char d :: nat) div 16 < 16" using of_char_less [of d] by linarith
  then show ?thesis
    using d HEX_digit_safe [of "of_char d div 16"] HEX_digit_safe [of "of_char d mod 16"]
    by (auto simp: quote_char_def split: if_splits)
qed

lemma quote_inj:
  assumes "CHR ''%'' \<notin> set safe"
  shows "quote safe s = quote safe t \<longleftrightarrow> s = t"
proof
  show "quote safe s = quote safe t \<Longrightarrow> s = t"
  proof (induction s arbitrary: t)
    case Nil
    then show ?case by (cases t) (auto simp: quote_def quote_char_def split: if_splits)
  next
    case (Cons c s)
    obtain d u where t: "t = d # u"
      using Cons.prems by (cases t) (auto simp: quote_def quote_char_def split: if_splits)
    have eq: "quote_char safe c @ quote safe s = quote_char safe d @ quote safe u"
      using Cons.prems t by (simp add: quote_def)
    have "(of_char c :: nat) div 16 < 16" "(of_char d :: nat) div 16 < 16"
      using of_char_less [of c] of_char_less [of d] by linarith+
    then have "c = d \<and> quote safe s = quote safe u"
      using eq assms special_not_safe(1) nibbles_eq [of "of_char c" "of_char d"]
      by (auto simp: quote_char_def HEX_digit_inj split: if_splits)
    then show ?case using Cons.IH t by auto
  qed
qed simp

subsection \<open>The signed text determines the request\<close>

definition pair_text :: "string \<times> string \<Rightarrow> string" where
  "pair_text kv = quote [] (fst kv) @ CHR ''='' # quote ''-_~'' (snd kv)"

lemma pair_text_inj: "inj pair_text"
proof (rule injI)
  fix x y assume eq: "pair_text x = pair_text y"
  have no: "CHR ''='' \<notin> set (quote [] k)" for k
    using quote_chars [of "CHR ''=''" "[]" k] special_not_safe by auto
  have "quote [] (fst x) = quote [] (fst y) \<and> quote ''-_~'' (snd x) = quote ''-_~'' (snd y)"
    using eq append_Cons_first [OF no no] by (simp add: pair_text_def)
  then show "x = y" using quote_inj by (auto simp: prod_eq_iff)
qed

lemma pair_text_no_amp: "CHR ''&'' \<notin> set (pair_text kv)"
  using quote_chars [of "CHR ''&''" "[]" "fst kv"] quote_chars [of "CHR ''&''" "''-_~''" "snd kv"]
    special_not_safe
  by (auto simp: pair_text_def)

definition sorted_items :: "params \<Rightarrow> (string \<times> string) list" where
  "sorted_items p = map (\<lambda>k. (k, the (map_of p k))) (sort (keys p))"

lemma query_string_items: "query_string p = py_join ''&'' (map pair_text (sorted_items p))"
  by (simp add: query_string_def sorted_items_def pair_text_def comp_def)

lemma query_string_no_newline: "CHR ''\<newline>'' \<notin> set (query_string p)"
proof -
  have "CHR ''\<newline>'' \<notin> set (pair_text kv)" for kv
    using quote_chars [of "CHR ''\<newline>''" "[]" "fst kv"] quote_chars [of "CHR ''\<newline>''" "''-_~''" "snd kv"]
      special_not_safe
    by (auto simp: pair_text_def)
  then show ?thesis
    using set_py_join [of "''&''" "map pair_text (sorted_items p)"] by (auto simp: query_string_items)
qed

lemma py_join_nonempty: "x \<in> set xs \<Longrightarrow> x \<noteq> [] \<Longrightarrow> py_join sep xs \<noteq> []"
  by (induction sep xs rule: py_join.induct) auto

lemma query_string_inj_items:
  assumes "query_string p = query_string q"
  shows "sorted_items p = sorted_items q"
proof -
  have empty: "query_string r = [] \<longleftrightarrow> sorted_items r = []" for r
  proof (cases "sorted_items r")
    case Nil
    then show ?thesis by (simp add: query_string_items)
  next
    case (Cons x xs)
    have "pair_text x \<noteq> []" by (simp add: pair_text_def)
    moreover have "pair_text x \<in> set (map pair_text (sorted_items r))" by (simp add: Cons)
    ultimately have "query_string r \<noteq> []"
      using py_join_nonempty by (metis query_string_items)
    then show ?thesis by (simp add: Cons)
  qed
  show ?thesis
  proof (cases "sorted_items p = []")
    case True
    then show ?thesis using empty assms by metis
  next
    case False
    then have "sorted_items q \<noteq> []" using empty assms by metis
    have split: "py_split CHR ''&'' (query_string r) = map pair_text (sorted_items r)"
      if "sorted_items r \<noteq> []" for r
      unfolding query_string_items
      by (rule py_split_join) (use that pair_text_no_amp in auto)
    have "map pair_text (sorted_items p) = map pair_text (sorted_items q)"
      using split [OF False] split [OF \<open>sorted_items q \<noteq> []\<close>] assms by simp
    then show ?thesis using pair_text_inj by (simp add: inj_map_eq_map)
  qed
qed

lemma sorted_items_map_of:
  "map_of (sorted_items p) = map_of p"
proof
  fix k
  show "map_of (sorted_items p) k = map_of p k"
  proof (cases "map_of p k")
    case None
    then have "k \<notin> set (keys p)" by (simp only: map_of_eq_None_iff set_map) simp
    then have "k \<notin> fst ` set (sorted_items p)"
      by (simp add: sorted_items_def image_image)
    then show ?thesis using None by (simp only: map_of_eq_None_iff [symmetric])
  next
    case (Some v)
    then have "k \<in> set (keys p)" by (force simp: map_of_eq_None_iff dest: map_of_SomeD)
    then show ?thesis using Some by (simp add: sorted_items_def map_of_map_restrict restrict_map_def)
  qed
qed

lemma string_to_sign_inj:
  assumes "CHR ''\<newline>'' \<notin> set v" "CHR ''\<newline>'' \<notin> set v'" "CHR ''\<newline>'' \<notin> set s" "CHR ''\<newline>'' \<notin> set s'"
    and eq: "string_to_sign v s pa p = string_to_sign v' s' pa' q"
  shows "v = v' \<and> s = s' \<and> pa = pa' \<and> map_of p = map_of q"
proof -
  have "v @ CHR ''\<newline>'' # (s @ CHR ''\<newline>'' # pa @ CHR ''\<newline>'' # query_string p) =
      v' @ CHR ''\<newline>'' # (s' @ CHR ''\<newline>'' # pa' @ CHR ''\<newline>'' # query_string q)"
    using eq by (simp add: string_to_sign_def)
  then have 1: "v = v'" "s @ CHR ''\<newline>'' # (pa @ CHR ''\<newline>'' # query_string p) =
      s' @ CHR ''\<newline>'' # (pa' @ CHR ''\<newline>'' # query_string q)"
    using append_Cons_first [OF assms(1,2)] by auto
  then have 2: "s = s'" "pa @ CHR ''\<newline>'' # query_string p = pa' @ CHR ''\<newline>'' # query_string q"
    using append_Cons_first [OF assms(3,4)] by auto
  then have "pa = pa'" "query_string p = query_string q"
    using append_Cons_last [OF query_string_no_newline query_string_no_newline] by auto
  then show ?thesis using 1 2 query_string_inj_items sorted_items_map_of by metis
qed

subsection \<open>Properties\<close>



text \<open>A version 0 signature covers the action and the time stamp only: two requests
  that agree on access key, version, action and time stamp are authenticated alike, whatever their
  other parameters, their verb, host and path are.\<close>

theorem v0_signature_ignores_parameters:
  assumes "dget p ''SignatureVersion'' = Inr ''0''"
    and "\<forall>k \<in> {''SignatureVersion'', ''AWSAccessKeyId'', ''Action'', ''Timestamp''}. map_of q k = map_of p k"
  shows "authenticate sha1 sha256 fl K q sig verb' server' path' = authenticate sha1 sha256 fl K p sig verb server path"
proof -
  have same: "dget q k = dget p k" if "k \<in> {''SignatureVersion'', ''AWSAccessKeyId'', ''Action'', ''Timestamp''}" for k
    using assms(2) that by (auto simp: dget_def)
  have gen: "generate sha1 sha256 sec q verb' server' path' = generate sha1 sha256 sec p verb server path" for sec
    using assms(1) same by (simp add: generate_def message_0_def)
  show ?thesis unfolding authenticate_def gen using same by simp
qed

definition v0_request :: "string \<Rightarrow> params" where
  "v0_request instance_id =
    [(''SignatureVersion'', ''0''), (''AWSAccessKeyId'', ''a''), (''Action'', ''TerminateInstances''),
     (''Timestamp'', ''t''), (''InstanceId.1'', instance_id)]"

theorem v0_signature_ignores_parameters_witness:
  "\<forall>sig K fl. authenticate (@) (@) fl K (v0_request ''i-2'') sig ''GET'' ''h'' ''/'' =
   authenticate (@) (@) fl K (v0_request ''i-1'') sig ''GET'' ''h'' ''/''"
proof (intro allI)
  fix sig K fl
  show "authenticate (@) (@) fl K (v0_request ''i-2'') sig ''GET'' ''h'' ''/'' =
   authenticate (@) (@) fl K (v0_request ''i-1'') sig ''GET'' ''h'' ''/''"
    by (rule v0_signature_ignores_parameters) (simp_all add: v0_request_def)
qed



end
