(* ===== verification/Images.thy ===== *)
theory Images
  imports NetController Signer Base64
begin

text \<open>
  \<^verbatim>\<open>endpoint/images.py\<close>: the requests by which the cloud controller asks the object
  store about images. The connection belongs to the library boto; a request is an effect with the access
  key that signs it, and the value in its response is a field of the world.
\<close>

text \<open>\<^verbatim>\<open>qs\<close>; the order of the parameters is that of the dictionary.\<close>

definition image_qs :: "(string, string) dict \<Rightarrow> string" where
  "image_qs ps = py_join ''&'' (map (\<lambda>(k, v). k @ ''='' @ Signer.quote ''/'' v) ps)"

definition images_request :: "user \<Rightarrow> string \<Rightarrow> string \<Rightarrow> (world, json) act" where
  "images_request u http_method query w =
     (let w = emit (S3_Request (u_access u) http_method ''_images'' query) w in (Inr (s3_json w (trace w)), w))"

definition images_modify :: "user \<Rightarrow> string \<Rightarrow> string \<Rightarrow> (world, bool) act" where
  "images_modify u image_id operation =
     bindS (images_request u ''POST'' (image_qs [(''image_id'', image_id), (''operation'', operation)])) (\<lambda>_. retS True)"

definition images_register :: "user \<Rightarrow> string option \<Rightarrow> (world, string) act" where
  "images_register u image_location w =
     (let (image_id, w) = generate_uid ''ami'' w in
      case image_location of
        None \<Rightarrow> (Inl TypeError, w)
      | Some location \<Rightarrow>
          bindS (images_request u ''PUT'' (image_qs [(''image_location'', location), (''image_id'', image_id)]))
            (\<lambda>_. retS image_id) w)"

definition images_list :: "user \<Rightarrow> (world, json) act" where
  "images_list u = images_request u ''GET'' []"

definition images_deregister :: "user \<Rightarrow> string \<Rightarrow> (world, unit) act" where
  "images_deregister u image_id =
     bindS (images_request u ''DELETE'' (image_qs [(''image_id'', image_id)])) (\<lambda>_. retS ())"

end
