(* ===== verification/Cloud.thy ===== *)
theory Cloud
  imports Images Instance Paths
begin

text \<open>
  \<^verbatim>\<open>CloudController\<close> of \<^verbatim>\<open>endpoint/cloud.py\<close>, which the API calls: it
  knows the instances and volumes that the nodes have reported, holds the network controller, and sends
  messages to the nodes. The world is the one in the network controller. A message is an effect, sent with
  \<^verbatim>\<open>rpc.cast\<close> or \<^verbatim>\<open>rpc.call\<close>; the reply to a call comes later, and an
  operation that returns it returns \<open>Awaited\<close>.

  Instances and volumes are the dictionaries of JSON values that the nodes report.
\<close>

subsection \<open>The state\<close>

type_synonym nodes = "(string, (string, attributes) dict) dict"

record cloud =
  cl_volumes :: nodes
  cl_instances :: nodes
  cl_network :: controller

type_synonym 'a cloud_act = "(cloud, 'a) act"

datatype reply = Ready json | Awaited

definition on_network :: "'a ctrl_act \<Rightarrow> 'a cloud_act" where
  "on_network m cl = (let (r, c) = m (cl_network cl) in (r, cl\<lparr>cl_network := c\<rparr>))"

definition on_cloud_world :: "(world, 'a) act \<Rightarrow> 'a cloud_act" where
  "on_cloud_world m = on_network (ctrl_world m)"

abbreviation cloud_world :: "cloud \<Rightarrow> world" where
  "cloud_world cl \<equiv> c_world (cl_network cl)"

definition get0 :: "attributes \<Rightarrow> string \<Rightarrow> json" where
  "get0 d k = (case map_of d k of None \<Rightarrow> JNull | Some v \<Rightarrow> v)"

text \<open>Sending a message to one node, or to the topic of all.\<close>

definition message :: "string \<Rightarrow> attributes \<Rightarrow> json" where
  "message m args = JDict [(''method'', JStr m), (''args'', JDict args)]"

definition cast :: "string \<Rightarrow> string \<Rightarrow> attributes \<Rightarrow> unit cloud_act" where
  "cast topic m args = on_cloud_world (\<lambda>w. (Inr (), emit (Cast topic (message m args)) w))"

definition rpc_call :: "string \<Rightarrow> string \<Rightarrow> attributes \<Rightarrow> unit cloud_act" where
  "rpc_call topic m args = on_cloud_world (\<lambda>w. (Inr (), emit (Rpc_Call topic (message m args)) w))"

definition node_topic :: "string \<Rightarrow> string \<Rightarrow> string" where
  "node_topic topic nname = topic @ ''.'' @ nname"

text \<open>\<^verbatim>\<open>user.is_authorized(d.get(k, None))\<close>: only a text can be the identifier of a
  user.\<close>

definition owner_text :: "json \<Rightarrow> string option" where
  "owner_text j = (case j of JStr s \<Rightarrow> Some s | _ \<Rightarrow> None)"

definition authorized :: "user \<Rightarrow> string \<Rightarrow> attributes \<Rightarrow> bool cloud_act" where
  "authorized u k d = liftR (is_authorized u (owner_text (get0 d k)) None)"

text \<open>\<^verbatim>\<open>setup\<close>: the folder of keys and the root certificate.\<close>

definition cloud_setup :: "flags \<Rightarrow> (world, unit) act" where
  "cloud_setup fl =
     bindS (\<lambda>w. if path_exists (keys_path fl) w then (Inr (), w) else os_call (Makedirs (abspath fl (keys_path fl))) OSError w) (\<lambda>_ w.
       if path_exists (path_join (ca_path_flag fl) (ca_file fl)) w then (Inr (), w)
       else bindS (os_call (Chdir (ca_path_flag fl)) OSError) (\<lambda>_.
            bindS (\<lambda>w. (Inr (), runthis ''sh genrootca.sh'' w)) (\<lambda>_.
              os_call (Chdir (work_dir fl)) OSError)) w)"

definition cloud_init :: "flags \<Rightarrow> int \<Rightarrow> (world, cloud) act" where
  "cloud_init fl netsize =
     bindS (controller_init fl netsize) (\<lambda>c.
     bindS (\<lambda>w. (Inr (), w\<lparr>store := user_manager_init fl (store w)\<rparr>)) (\<lambda>_.
     bindS (cloud_setup fl) (\<lambda>_ w.
       (Inr \<lparr>cl_volumes = [], cl_instances = [], cl_network = c\<lparr>c_world := w\<rparr>\<rparr>, w))))"

subsection \<open>Metadata\<close>

fun instance_with_ip :: "json \<Rightarrow> attributes list \<Rightarrow> attributes option res" where
  "instance_with_ip ip [] = Inr None"
| "instance_with_ip ip (i # is) =
     bindR (dget i ''private_dns_name'') (\<lambda>v. if v = ip then Inr (Some i) else instance_with_ip ip is)"

definition get_instance_by_ip :: "string \<Rightarrow> cloud \<Rightarrow> attributes option res" where
  "get_instance_by_ip ip cl = instance_with_ip (JStr ip) (concat (map (\<lambda>(n, insts). vals insts) (cl_instances cl)))"

fun decoded :: "json \<Rightarrow> string res" where
  "decoded (JStr s) = b64decode s"
| "decoded _ = Inl TypeError"

definition instance_metadata :: "attributes \<Rightarrow> json res" where
  "instance_metadata i =
     bindR (dget i ''key_name'') (\<lambda>key_name.
     bindR (if truthy key_name
            then bindR (dget i ''key_data'') (\<lambda>key_data.
              Inr (JDict [(''0'', JDict [(''_name'', key_name), (''openssh-key'', key_data)])]))
            else Inr (JStr [])) (\<lambda>public_keys.
     bindR (bindR (dget i ''user_data'') decoded) (\<lambda>user_data.
     bindR (dget i ''image_id'') (\<lambda>image_id.
     bindR (dget i ''ami_launch_index'') (\<lambda>launch_index.
     bindR (dget i ''private_dns_name'') (\<lambda>private_name.
     bindR (dget i ''instance_id'') (\<lambda>instance_id.
     bindR (dget i ''instance_type'') (\<lambda>ty.
     bindR (dget i ''kernel_id'') (\<lambda>kernel_id.
     bindR (dget i ''availability_zone'') (\<lambda>zone.
     bindR (dget i ''dns_name'') (\<lambda>public_name.
     bindR (dget i ''ramdisk_id'') (\<lambda>ramdisk_id.
     bindR (dget i ''reservation_id'') (\<lambda>reservation_id.
     bindR (dget i ''groups'') (\<lambda>groups.
     bindR (dget i ''product_codes'') (\<lambda>product_codes.
       Inr (JDict (
         [(''user-data'', JStr user_data),
          (''meta-data'', JDict
            [(''ami-id'', image_id), (''ami-launch-index'', launch_index), (''ami-manifest-path'', JStr ''FIXME''),
             (''block-device-mapping'', JDict
                [(''ami'', JStr ''sda1''), (''ephemeral0'', JStr ''sda2''), (''root'', JStr ''/dev/sda1''), (''swap'', JStr ''sda3'')]),
             (''hostname'', private_name), (''instance-action'', JStr ''none''), (''instance-id'', instance_id),
             (''instance-type'', ty), (''local-hostname'', private_name), (''local-ipv4'', private_name),
             (''kernel-id'', kernel_id), (''placement'', JDict [(''availaibility-zone'', zone)]),
             (''public-hostname'', public_name), (''public-ipv4'', public_name), (''public-keys'', public_keys),
             (''ramdisk-id'', ramdisk_id), (''reservation-id'', reservation_id), (''security-groups'', groups)])] @
         (if truthy product_codes then [(''product-codes'', product_codes)] else []))))))))))))))))))"

definition get_metadata :: "string \<Rightarrow> cloud \<Rightarrow> json res" where
  "get_metadata ip cl = bindR (get_instance_by_ip ip cl) (\<lambda>i. case i of
      None \<Rightarrow> Inr JNull
    | Some i \<Rightarrow> instance_metadata i)"

subsection \<open>Key pairs, groups, zones\<close>

definition describe_availability_zones :: json where
  "describe_availability_zones =
     JDict [(''availabilityZoneInfo'', JList [JDict [(''zoneName'', JStr ''nova''), (''zoneState'', JStr ''available'')]])]"

definition key_pair_json :: "key_pair \<Rightarrow> json" where
  "key_pair_json k = JDict [(''keyName'', JStr (kp_name k)), (''keyFingerprint'', JStr (kp_fingerprint k))]"

definition describe_key_pairs :: "flags \<Rightarrow> user \<Rightarrow> string list option \<Rightarrow> kstore \<Rightarrow> json res" where
  "describe_key_pairs fl u key_names K =
     bindR (case key_names of
         Some (n # ns) \<Rightarrow> bindR (mapR (\<lambda>n. get_key_pair fl K (u_id u) n) (n # ns)) (\<lambda>ks. Inr (List.map_filter id ks))
       | _ \<Rightarrow> get_key_pairs fl K (u_id u)) (\<lambda>ks.
     Inr (JDict [(''keypairsSet'', JList (map key_pair_json ks))]))"

text \<open>\<^verbatim>\<open>_gen_key\<close> runs in another process and hands every exception over; the
  deferred of the request gets it.\<close>

definition gen_key :: "flags \<Rightarrow> string \<times> string \<times> string \<Rightarrow> string \<Rightarrow> string \<Rightarrow> kstore \<Rightarrow> (string \<times> string) res \<times> kstore" where
  "gen_key fl crypto user_id key_name K = generate_key_pair fl crypto user_id key_name (user_manager_init fl K)"

definition cloud_create_key_pair :: "flags \<Rightarrow> string \<times> string \<times> string \<Rightarrow> user \<Rightarrow> string \<Rightarrow> (kstore, json) act" where
  "cloud_create_key_pair fl crypto u key_name =
     bindS (gen_key fl crypto (u_id u) key_name) (\<lambda>(private_key, fingerprint).
       retS (JDict [(''keyName'', JStr key_name), (''keyFingerprint'', JStr fingerprint), (''keyMaterial'', JStr private_key)]))"

definition cloud_delete_key_pair :: "flags \<Rightarrow> user \<Rightarrow> string \<Rightarrow> (kstore, json) act" where
  "cloud_delete_key_pair fl u key_name = bindS (delete_key_pair fl (u_id u) key_name) (\<lambda>_. retS (JBool True))"

definition describe_security_groups :: json where
  "describe_security_groups = JDict [(''securityGroupSet'', JList [])]"

definition create_security_group :: json where
  "create_security_group = JBool True"

definition delete_security_group :: json where
  "delete_security_group = JBool True"

subsection \<open>Looking objects up\<close>

fun get_by_id :: "nodes \<Rightarrow> string \<Rightarrow> (string \<times> attributes) res" where
  "get_by_id [] i = Inl (NotFound (i @ '' not found''))"
| "get_by_id ((nname, d) # nodes) i =
     (case map_of d i of None \<Rightarrow> get_by_id nodes i | Some x \<Rightarrow> Inr (nname, x))"

definition get_instance :: "string \<Rightarrow> (string \<times> attributes) cloud_act" where
  "get_instance i cl = (get_by_id (cl_instances cl) i, cl)"

definition get_cloud_volume :: "string \<Rightarrow> (string \<times> attributes) cloud_act" where
  "get_cloud_volume i cl = (get_by_id (cl_volumes cl) i, cl)"

definition not_authorized :: "user \<Rightarrow> string \<Rightarrow> exc" where
  "not_authorized u i = ApiError (u_id u @ '' not authorized for '' @ i) ''Unknown''"

text \<open>The instances are a list, of which the first is meant.\<close>

definition cloud_get_console_output :: "flags \<Rightarrow> user \<Rightarrow> string list \<Rightarrow> reply cloud_act" where
  "cloud_get_console_output fl u ids = (case ids of
      [] \<Rightarrow> raiseS IndexError
    | i # _ \<Rightarrow>
        bindS (get_instance i) (\<lambda>(node, inst).
        if node = ''pending'' then raiseS (ApiError ''Cannot get output for pending instance'' ''Unknown'')
        else bindS (authorized u ''owner_id'' inst) (\<lambda>a.
          if \<not> a then raiseS (ApiError ''Not authorized to view output'' ''Unknown'')
          else bindS (rpc_call (node_topic (compute_topic fl) node) ''get_console_output'' [(''instance_id'', JStr i)])
                 (\<lambda>_. retS Awaited))))"

subsection \<open>Volumes\<close>

text \<open>The values of a volume that the report prints are scalar.\<close>

definition volume_status :: "string \<Rightarrow> attributes \<Rightarrow> string res" where
  "volume_status nname v =
     bindR (dget v ''user_id'') (\<lambda>owner.
       Inr (json_scalar_text (get0 v ''status'') @ '' ('' @ json_scalar_text owner @ '', '' @ nname @ '', '' @
         (if has_key v ''instance_id'' then json_scalar_text (get0 v ''instance_id'') else []) @ '', '' @
         (if has_key v ''mountpoint'' then json_scalar_text (get0 v ''mountpoint'') else []) @ '')''))"

definition described_cloud_volume :: "user \<Rightarrow> string \<Rightarrow> attributes \<Rightarrow> attributes res" where
  "described_cloud_volume u nname v =
     bindR (if u_admin u then bindR (volume_status nname v) (\<lambda>s. Inr (dput ''status'' (JStr s) v)) else Inr v) (\<lambda>v.
     bindR (dget v ''user_id'') (\<lambda>_. Inr (ddel ''user_id'' v)))"

fun describe_volumes_loop :: "user \<Rightarrow> (string \<times> attributes) list \<Rightarrow> attributes list res" where
  "describe_volumes_loop u [] = Inr []"
| "describe_volumes_loop u ((nname, v) # vs) =
     bindR (is_authorized u (owner_text (get0 v ''user_id'')) None) (\<lambda>a.
     bindR (if a then bindR (described_cloud_volume u nname v) (\<lambda>v. Inr [v]) else Inr []) (\<lambda>this.
     bindR (describe_volumes_loop u vs) (\<lambda>rest. Inr (this @ rest))))"

text \<open>All objects with the node they are on.\<close>

definition node_items :: "nodes \<Rightarrow> (string \<times> attributes) list" where
  "node_items ns = concat (map (\<lambda>(n, d). map (\<lambda>x. (n, x)) (vals d)) ns)"

definition cloud_describe_volumes :: "user \<Rightarrow> cloud \<Rightarrow> json res" where
  "cloud_describe_volumes u cl =
     bindR (describe_volumes_loop u (node_items (cl_volumes cl))) (\<lambda>vs. Inr (JDict [(''volumeSet'', JList (map JDict vs))]))"

definition cloud_create_volume :: "flags \<Rightarrow> user \<Rightarrow> json \<Rightarrow> reply cloud_act" where
  "cloud_create_volume fl u vol_size =
     bindS (rpc_call (storage_topic fl) ''create_volume'' [(''size'', vol_size), (''user_id'', JStr (u_id u))]) (\<lambda>_. retS Awaited)"

definition cloud_attach_volume :: "flags \<Rightarrow> user \<Rightarrow> string \<Rightarrow> string \<Rightarrow> json \<Rightarrow> reply cloud_act" where
  "cloud_attach_volume fl u volume_id instance_id device =
     bindS (get_cloud_volume volume_id) (\<lambda>(storage_node, vol).
     bindS (authorized u ''user_id'' vol) (\<lambda>a.
     if \<not> a then raiseS (not_authorized u volume_id) else
     bindS (get_instance instance_id) (\<lambda>(compute_node, inst).
     bindS (authorized u ''owner_id'' inst) (\<lambda>a.
     if \<not> a then raiseS (not_authorized u instance_id) else
     bindS (liftR (dget vol ''aoe_device'')) (\<lambda>aoe_device.
     bindS (cast (node_topic (compute_topic fl) compute_node) ''attach_volume''
       [(''aoe_device'', aoe_device), (''instance_id'', JStr instance_id), (''mountpoint'', device)]) (\<lambda>_.
     bindS (cast (node_topic (storage_topic fl) storage_node) ''attach_volume''
       [(''volume_id'', JStr volume_id), (''instance_id'', JStr instance_id), (''mountpoint'', device)]) (\<lambda>_.
       retS (Ready (JBool True)))))))))"

text \<open>The part of a detachment that concerns the instance. An instance that no node has reported is
  passed over.\<close>

fun hashable :: "json \<Rightarrow> bool" where
  "hashable (JList l) = False"
| "hashable (JDict d) = False"
| "hashable _ = True"

definition detach_instance :: "flags \<Rightarrow> user \<Rightarrow> string \<Rightarrow> attributes \<Rightarrow> json \<Rightarrow> unit cloud_act" where
  "detach_instance fl u volume_id vol instance_id cl =
     (case instance_id of
        JStr i \<Rightarrow>
          (case get_by_id (cl_instances cl) i of
             Inl e \<Rightarrow> (Inr (), cl)
           | Inr (compute_node, inst) \<Rightarrow>
               bindS (liftR (dget vol ''mountpoint'')) (\<lambda>mountpoint.
               bindS (authorized u ''owner_id'' inst) (\<lambda>a.
               if \<not> a then raiseS (not_authorized u i) else
               cast (node_topic (compute_topic fl) compute_node) ''detach_volume''
                 [(''instance_id'', instance_id), (''mountpoint'', mountpoint)])) cl)
      | _ \<Rightarrow> (if hashable instance_id \<or> cl_instances cl = [] then Inr () else Inl TypeError, cl))"

definition cloud_detach_volume :: "flags \<Rightarrow> user \<Rightarrow> string \<Rightarrow> reply cloud_act" where
  "cloud_detach_volume fl u volume_id =
     bindS (get_cloud_volume volume_id) (\<lambda>(storage_node, vol).
     bindS (authorized u ''user_id'' vol) (\<lambda>a.
     if \<not> a then raiseS (not_authorized u volume_id) else
     bindS (case map_of vol ''instance_id'' of None \<Rightarrow> retS () | Some i \<Rightarrow> detach_instance fl u volume_id vol i) (\<lambda>_.
     bindS (cast (node_topic (storage_topic fl) storage_node) ''detach_volume'' [(''volume_id'', JStr volume_id)]) (\<lambda>_.
       retS (Ready (JBool True))))))"

definition cloud_delete_volume :: "flags \<Rightarrow> user \<Rightarrow> string \<Rightarrow> reply cloud_act" where
  "cloud_delete_volume fl u volume_id =
     bindS (get_cloud_volume volume_id) (\<lambda>(storage_node, vol).
     bindS (authorized u ''user_id'' vol) (\<lambda>a.
     bindS (if a then cast (node_topic (storage_topic fl) storage_node) ''delete_volume'' [(''volume_id'', JStr volume_id)]
            else retS ()) (\<lambda>_. retS (Ready (JBool True)))))"

end
