(* ===== verification/Api.thy ===== *)
theory Api
  imports Cloud
begin

text \<open>
  The HTTP endpoint of the API (\<^verbatim>\<open>endpoint/api.py\<close>) and its administration
  controller (\<^verbatim>\<open>endpoint/admin.py\<close>): names of methods and elements, the arguments of a
  request, authentication, the XML of the answer, and the metadata that instances ask for.
\<close>

subsection \<open>Names\<close>

text \<open>The capital letters that \<^verbatim>\<open>_c2u\<close> finds: after a small letter, or before something
  other than a capital letter or the end.\<close>

definition word_start :: "char option \<Rightarrow> char \<Rightarrow> string \<Rightarrow> bool" where
  "word_start before c after \<longleftrightarrow> is_upper c \<and>
     ((case before of None \<Rightarrow> False | Some b \<Rightarrow> is_lower b) \<or>
      (after \<noteq> [] \<and> after \<noteq> ''\<newline>'' \<and> \<not> is_upper (hd after)))"

fun c2u_sub :: "char option \<Rightarrow> string \<Rightarrow> string" where
  "c2u_sub before [] = []"
| "c2u_sub before (c # s) = (if word_start before c s then CHR ''_'' # c # c2u_sub (Some c) s else c # c2u_sub (Some c) s)"

definition camelcase_to_underscore :: "string \<Rightarrow> string" where
  "camelcase_to_underscore s = strip (\<lambda>c. c = CHR ''_'') (lower (c2u_sub None s))"

definition capital :: "string \<Rightarrow> string" where
  "capital x = map to_upper (take 1 x) @ drop 1 x"

definition underscore_to_camelcase :: "string \<Rightarrow> string" where
  "underscore_to_camelcase s = concat (map capital (py_split CHR ''_'' s))"

definition underscore_to_xmlcase :: "string \<Rightarrow> string" where
  "underscore_to_xmlcase s = (let res = underscore_to_camelcase s in map to_lower (take 1 res) @ drop 1 res)"

subsection \<open>The arguments of a method\<close>

text \<open>One argument of the request: \<^verbatim>\<open>Name.1\<close> becomes the entry \<^verbatim>\<open>1\<close> of the
  dictionary \<^verbatim>\<open>name\<close>; an argument of that name that is a text already has no entries.\<close>

definition add_arg :: "string \<times> string list \<Rightarrow> attributes \<Rightarrow> attributes res" where
  "add_arg kv args =
     (let parts = py_split CHR ''.'' (fst kv); key = camelcase_to_underscore (hd parts) in
      case snd kv of
        [] \<Rightarrow> Inl IndexError
      | v # _ \<Rightarrow>
          (case parts of
             _ # sub # _ \<Rightarrow>
               (case map_of args key of
                  None \<Rightarrow> Inr (dput key (JDict [(sub, JStr v)]) args)
                | Some (JDict d) \<Rightarrow> Inr (dput key (JDict (dput sub (JStr v) d)) args)
                | Some _ \<Rightarrow> Inl TypeError)
           | _ \<Rightarrow> Inr (dput key (JStr v) args)))"

fun add_args :: "(string, string list) dict \<Rightarrow> attributes \<Rightarrow> attributes res" where
  "add_args [] args = Inr args"
| "add_args (kv # kvs) args = bindR (add_arg kv args) (add_args kvs)"

definition all_digits :: "string \<Rightarrow> bool" where
  "all_digits s \<longleftrightarrow> s \<noteq> [] \<and> list_all is_digit s"

text \<open>A dictionary with numbers for keys becomes a list, in the order of the texts of its keys.\<close>

fun numbered_to_list :: "json \<Rightarrow> json" where
  "numbered_to_list (JDict ((k, v) # d)) =
     (if all_digits k then JList (map snd (sort_key fst ((k, v) # d))) else JDict ((k, v) # d))"
| "numbered_to_list j = j"

definition method_args :: "(string, string list) dict \<Rightarrow> attributes res" where
  "method_args kwargs = bindR (add_args kwargs []) (\<lambda>args. Inr (map (\<lambda>(k, v). (k, numbered_to_list v)) args))"

subsection \<open>The answer\<close>

datatype dom = Elem string "(string, string) dict" "dom list" | Text string

text \<open>\<^verbatim>\<open>_render_data\<close> and \<^verbatim>\<open>_render_dict\<close>.\<close>

fun render_data :: "string \<Rightarrow> json \<Rightarrow> dom"
and render_list :: "json list \<Rightarrow> dom list"
and render_dict :: "attributes \<Rightarrow> dom list" where
  "render_data el_name (JList l) = Elem (underscore_to_xmlcase el_name) [] (render_list l)"
| "render_data el_name (JDict d) = Elem (underscore_to_xmlcase el_name) [] (render_dict d)"
| "render_data el_name (JBool b) = Elem (underscore_to_xmlcase el_name) [] [Text (if b then ''true'' else ''false'')]"
| "render_data el_name (JInt i) = Elem (underscore_to_xmlcase el_name) [] [Text (str_int i)]"
| "render_data el_name (JStr s) = Elem (underscore_to_xmlcase el_name) [] [Text s]"
| "render_data el_name JNull = Elem (underscore_to_xmlcase el_name) [] []"
| "render_list [] = []"
| "render_list (x # xs) = render_data ''item'' x # render_list xs"
| "render_dict [] = []"
| "render_dict ((k, v) # d) = render_data k v # render_dict d"

text \<open>\<^verbatim>\<open>Document.toxml\<close> of minidom.\<close>

definition minidom_escape :: "string \<Rightarrow> string" where
  "minidom_escape s = concat (map (\<lambda>c.
     if c = CHR ''&'' then ''&amp;'' else if c = CHR ''<'' then ''&lt;'' else if c = CHR 0x22 then ''&quot;''
     else if c = CHR ''>'' then ''&gt;'' else [c]) s)"

fun dom_xml :: "dom \<Rightarrow> string"
and doms_xml :: "dom list \<Rightarrow> string" where
  "dom_xml (Text s) = minidom_escape s"
| "dom_xml (Elem t attrs ch) =
     ''<'' @ t @ concat (map (\<lambda>(k, v). '' '' @ k @ ''='' @ [CHR 0x22] @ minidom_escape v @ [CHR 0x22]) attrs) @
     (if ch = [] then ''/>'' else ''>'' @ doms_xml ch @ ''</'' @ t @ ''>'')"
| "doms_xml [] = []"
| "doms_xml (x # xs) = dom_xml x @ doms_xml xs"

text \<open>The result \<^verbatim>\<open>True\<close>, which the number one equals, is an element of its own; another
  result that is no dictionary has no keys.\<close>

definition render_response :: "string \<Rightarrow> json \<Rightarrow> string \<Rightarrow> string res" where
  "render_response action response_data request_id =
     bindR (case response_data of
         JBool True \<Rightarrow> Inr [(''return'', JStr ''true'')]
       | JInt i \<Rightarrow> (if i = 1 then Inr [(''return'', JStr ''true'')] else Inl AttributeError)
       | JDict d \<Rightarrow> Inr d
       | _ \<Rightarrow> Inl AttributeError) (\<lambda>d.
     Inr (''<?xml version='' @ [CHR 0x22] @ ''1.0'' @ [CHR 0x22] @ '' ?>'' @
       dom_xml (Elem (action @ ''Response'') [(''xmlns'', ''http://ec2.amazonaws.com/doc/2009-11-30/'')]
         (Elem ''requestId'' [] [Text request_id] # render_dict d))))"

subsection \<open>Requests\<close>

text \<open>
  A controller: its methods, which take the user and the arguments. What a deferred comes to is the
  result here; one that has no result yet is not answered, and not modelled.
\<close>

type_synonym 's controllers = "(string, string \<Rightarrow> (user \<Rightarrow> attributes \<Rightarrow> ('s, json) act) option) dict"

text \<open>
  \<^verbatim>\<open>APIRequest.send\<close>; the arguments travel as keywords, next to \<^verbatim>\<open>self\<close>,
  \<^verbatim>\<open>user\<close> and the function that \<^verbatim>\<open>maybeDeferred\<close> calls. What is raised before the method
  is called leaves \<^verbatim>\<open>send\<close>; from then on an exception is the failure of the deferred, the inner
  result.
\<close>

definition api_send :: "(string \<Rightarrow> (user \<Rightarrow> attributes \<Rightarrow> ('s, json) act) option) \<Rightarrow> string \<Rightarrow> string \<Rightarrow> string \<Rightarrow>
    user \<Rightarrow> (string, string list) dict \<Rightarrow> ('s, string res) act" where
  "api_send ctrl controller_text action request_id u kwargs =
     (if has_key kwargs ''self'' \<or> has_key kwargs ''user'' then raiseS TypeError
      else case ctrl (camelcase_to_underscore action) of
        None \<Rightarrow> raiseS (PyException (''Unsupported API request: controller = '' @ controller_text @ '',action = '' @ action))
      | Some f \<Rightarrow>
          bindS (liftR (method_args kwargs)) (\<lambda>args.
          if has_key args ''f'' then raiseS TypeError
          else (\<lambda>s. case bindS (f u args) (\<lambda>r. liftR (render_response action r request_id)) s of (d, s') \<Rightarrow> (Inr d, s'))))"

record api_response =
  ar_status :: int
  ar_body :: string

definition api_error :: "string \<Rightarrow> string \<Rightarrow> api_response" where
  "api_error code msg = \<lparr>ar_status = 400,
     ar_body = ''<?xml version='' @ [CHR 0x22] @ ''1.0'' @ [CHR 0x22] @ ''?>\<newline>'' @
       ''<Response><Errors><Error><Code>'' @ code @ ''</Code><Message>'' @ msg @
       ''</Message></Error></Errors><RequestID>?</RequestID></Response>''\<rparr>"

text \<open>\<^verbatim>\<open>_error_callback\<close>; \<open>str_e\<close> and \<open>class_name\<close> are the text and the
  class of an exception.\<close>

definition error_callback :: "(exc \<Rightarrow> string) \<Rightarrow> (exc \<Rightarrow> string) \<Rightarrow> exc \<Rightarrow> api_response" where
  "error_callback str_e class_name e = (case e of
      ApiError m c \<Rightarrow> api_error (''ApiError.'' @ c) m
    | UserError m c \<Rightarrow> api_error (''UserError.'' @ c) m
    | InvalidKeyPair m c \<Rightarrow> api_error (''InvalidKeyPair.'' @ c) m
    | _ \<Rightarrow> api_error (class_name e) (str_e e))"

text \<open>\<^verbatim>\<open>args.pop(k)\<close>, in turn.\<close>

fun pop_all :: "string list \<Rightarrow> (string, string list) dict \<Rightarrow> (string, string list) dict res" where
  "pop_all [] args = Inr args"
| "pop_all (k # ks) args = (if has_key args k then pop_all ks (ddel k args) else Inl KeyError)"

definition pop_first :: "string \<Rightarrow> (string, string list) dict \<Rightarrow> (string \<times> (string, string list) dict) res" where
  "pop_first k args = bindR (dget args k) (\<lambda>vs. case vs of [] \<Rightarrow> Inl IndexError | v # _ \<Rightarrow> Inr (v, ddel k args))"

record api_request =
  aq_arguments :: "(string, string list) dict"
  aq_method :: string
  aq_host :: string
  aq_path :: string

text \<open>
  \<^verbatim>\<open>APIRequestHandler.execute\<close>. Every failure to read an argument of the protocol is an error 400, a
  signature that is not the user's an error 403; \<open>authenticate\<close> is that of the user manager.
\<close>

definition api_execute :: "(params \<Rightarrow> string \<Rightarrow> string \<Rightarrow> string \<Rightarrow> string \<Rightarrow> user option res) \<Rightarrow> (exc \<Rightarrow> string) \<Rightarrow>
    (exc \<Rightarrow> string) \<Rightarrow> 's controllers \<Rightarrow> string \<Rightarrow> string \<Rightarrow> api_request \<Rightarrow> ('s, api_response) act" where
  "api_execute auth str_e class_name controllers request_id controller_name rq =
     (case map_of controllers controller_name of
        None \<Rightarrow> retS (api_error ''unhandled'' (''no controller named '' @ controller_name))
      | Some ctrl \<Rightarrow>
         (case pop_first ''Signature'' (aq_arguments rq) of
            Inl e \<Rightarrow> raiseS (HTTPError 400)
          | Inr (signature, args) \<Rightarrow>
             (case mapR (\<lambda>(k, vs). case vs of [] \<Rightarrow> Inl IndexError | v # _ \<Rightarrow> Inr (k, v)) args of
                Inl e \<Rightarrow> raiseS e
              | Inr auth_params \<Rightarrow>
                 (case bindR (pop_first ''Action'' args) (\<lambda>(action, args).
                        bindR (pop_all [''AWSAccessKeyId'', ''SignatureMethod'', ''SignatureVersion'', ''Version'', ''Timestamp''] args) (\<lambda>args.
                        Inr (action, args))) of
                    Inl e \<Rightarrow> raiseS (HTTPError 400)
                  | Inr (action, args) \<Rightarrow>
                     (case auth auth_params signature (aq_method rq) (aq_host rq) (aq_path rq) of
                        Inl e \<Rightarrow> raiseS e
                      | Inr None \<Rightarrow> raiseS (HTTPError 403)
                      | Inr (Some u) \<Rightarrow> (\<lambda>s.
                          case api_send ctrl (controller_name @ ''Controller'') action request_id u args s of
                            (Inl e, s') \<Rightarrow> (Inl e, s')
                          | (Inr (Inl e), s') \<Rightarrow> (Inr (error_callback str_e class_name e), s')
                          | (Inr (Inr body), s') \<Rightarrow> (Inr \<lparr>ar_status = 200, ar_body = body\<rparr>, s')))))))"

subsection \<open>Metadata\<close>

definition root_versions :: string where
  "root_versions = concat (map (\<lambda>v. v @ ''\<newline>'')
     [''1.0'', ''2007-01-19'', ''2007-03-01'', ''2007-08-29'', ''2007-10-10'', ''2007-12-15'', ''2008-02-01'', ''2008-09-01'', ''2009-04-04''])"

fun lookup_path :: "string list \<Rightarrow> json \<Rightarrow> json" where
  "lookup_path [] data = data"
| "lookup_path (i # is) data =
     (if i = [] then lookup_path is data
      else case data of
        JDict d \<Rightarrow> (case map_of d i of None \<Rightarrow> JNull | Some v \<Rightarrow> lookup_path is v)
      | _ \<Rightarrow> data)"

definition lookup :: "string \<Rightarrow> json \<Rightarrow> json" where
  "lookup path data = lookup_path (py_split CHR ''/'' path) data"

text \<open>One line of a listing: the key, with the name of its entry or a slash where there is more. The
  text of a value is that of a scalar.\<close>

definition key_line :: "string \<times> json \<Rightarrow> string" where
  "key_line kv = (case kv of
      (k, JDict d) \<Rightarrow> k @ (case map_of d ''_name'' of Some n \<Rightarrow> ''='' @ json_scalar_text n | None \<Rightarrow> ''/'') @ ''\<newline>''
    | (k, _) \<Rightarrow> k @ ''\<newline>'')"

definition print_data :: "json \<Rightarrow> string res" where
  "print_data data = (case data of
      JDict d \<Rightarrow> Inr (butlast (concat (map key_line (filter (\<lambda>(k, v). k \<noteq> ''_name'') d))))
    | JList l \<Rightarrow> bindR (mapR jstr l) (\<lambda>ss. Inr (py_join ''\<newline>'' ss))
    | _ \<Rightarrow> Inr (json_scalar_text data))"

definition metadata_get :: "string \<Rightarrow> string \<Rightarrow> cloud \<Rightarrow> string res" where
  "metadata_get remote_ip path cl =
     bindR (get_metadata remote_ip cl) (\<lambda>meta_data.
     if meta_data = JNull then Inl (HTTPError 404)
     else let data = lookup path meta_data in if data = JNull then Inl (HTTPError 404) else print_data data)"

text \<open>\<^verbatim>\<open>CloudPipeRequestHandler\<close>: \<^verbatim>\<open>UserManager\<close> is not imported, and the attribute that
  \<^verbatim>\<open>post\<close> reads is only set by \<^verbatim>\<open>get\<close>, of another object.\<close>

definition get_username_from_ip :: "string \<Rightarrow> cloud \<Rightarrow> json res" where
  "get_username_from_ip ip cl = bindR (get_instance_by_ip ip cl) (\<lambda>i. case i of
      None \<Rightarrow> Inl TypeError
    | Some d \<Rightarrow> dget d ''owner_id'')"

definition cloudpipe_get :: "string \<Rightarrow> string res" where
  "cloudpipe_get path = Inl NameError"

definition cloudpipe_post :: "string \<Rightarrow> cloud \<Rightarrow> string res" where
  "cloudpipe_post remote_ip cl = bindR (get_username_from_ip remote_ip cl) (\<lambda>_. Inl AttributeError)"

subsection \<open>The administration controller\<close>

definition user_dict :: "user option \<Rightarrow> string option \<Rightarrow> json" where
  "user_dict u base64_file = (case u of
      None \<Rightarrow> JDict []
    | Some u \<Rightarrow> JDict [(''username'', JStr (u_id u)), (''accesskey'', JStr (u_access u)), (''secretkey'', JStr (u_secret u)),
        (''file'', opt_json base64_file)])"

definition admin_only :: "user \<Rightarrow> (kstore, json) act \<Rightarrow> (kstore, json) act" where
  "admin_only u m = (if u_admin u then m else retS (JDict []))"

definition describe_user :: "flags \<Rightarrow> user \<Rightarrow> string \<Rightarrow> (kstore, json) act" where
  "describe_user fl u name = admin_only u (\<lambda>K. (bindR (get_user fl K name) (\<lambda>x. Inr (user_dict x None)), K))"

definition describe_users :: "flags \<Rightarrow> user \<Rightarrow> (kstore, json) act" where
  "describe_users fl u = admin_only u (\<lambda>K.
     (bindR (get_users fl K) (\<lambda>us. Inr (JDict [(''userSet'', JList (map (\<lambda>x. user_dict (Some x) None) us))])), K))"

definition register_user :: "flags \<Rightarrow> string \<times> string \<Rightarrow> user \<Rightarrow> string \<Rightarrow> (kstore, json) act" where
  "register_user fl uuids u name = admin_only u
     (bindS (create_user fl uuids name None None False) (\<lambda>_ K.
       (bindR (get_user fl K name) (\<lambda>x. Inr (user_dict x None)), K)))"

definition deregister_user :: "flags \<Rightarrow> user \<Rightarrow> string \<Rightarrow> (kstore, json) act" where
  "deregister_user fl u name = admin_only u (bindS (delete_user fl name) (\<lambda>_. retS (JBool True)))"

text \<open>The archive of credentials is that of \<^verbatim>\<open>User.get_credentials\<close>.\<close>

definition generate_x509_for_user :: "flags \<Rightarrow> (user \<Rightarrow> (kstore, string) act) \<Rightarrow> user \<Rightarrow> string \<Rightarrow> (kstore, json) act" where
  "generate_x509_for_user fl credentials u name = admin_only u
     (bindS (\<lambda>K. (get_user fl K name, K)) (\<lambda>x. case x of
         None \<Rightarrow> raiseS AttributeError
       | Some x \<Rightarrow> bindS (credentials x) (\<lambda>c. retS (user_dict (Some x) (Some (b64encode c))))))"

text \<open>\<^verbatim>\<open>UserInfo.endElement\<close> of the client.\<close>

record user_info =
  ui_username :: "string option"
  ui_file :: "string option"
  ui_accesskey :: "string option"
  ui_secretkey :: "string option"

text \<open>\<^verbatim>\<open>str\<close> of the text of an element, which is read as unicode.\<close>

definition ascii_str :: "string \<Rightarrow> string res" where
  "ascii_str v = (if list_all (\<lambda>c. (of_char c :: nat) < 128) v then Inr v else Inl (PyException ''UnicodeEncodeError''))"

definition user_info_end :: "string \<Rightarrow> string \<Rightarrow> user_info \<Rightarrow> user_info res" where
  "user_info_end name v i =
     (if name = ''username'' then bindR (ascii_str v) (\<lambda>v. Inr (i\<lparr>ui_username := Some v\<rparr>))
      else if name = ''file'' then bindR (bindR (ascii_str v) b64decode) (\<lambda>f. Inr (i\<lparr>ui_file := Some f\<rparr>))
      else if name = ''accesskey'' then bindR (ascii_str v) (\<lambda>v. Inr (i\<lparr>ui_accesskey := Some v\<rparr>))
      else if name = ''secretkey'' then bindR (ascii_str v) (\<lambda>v. Inr (i\<lparr>ui_secretkey := Some v\<rparr>))
      else Inr i)"

end
