(* ===== verification/ApiProps.thy ===== *)
theory ApiProps
  imports Api Signer
begin

text \<open>
  What the endpoint of the API promises: the names of methods and actions belong together, and
  nothing happens without a signature.
\<close>

subsection \<open>Requests need a signature\<close>

text \<open>The first value of every argument.\<close>

definition first_values :: "(string, string list) dict \<Rightarrow> params res" where
  "first_values args = mapR (\<lambda>(k, vs). case vs of [] \<Rightarrow> Inl IndexError | v # _ \<Rightarrow> Inr (k, v)) args"

text \<open>The request is signed with the secret key of \<open>u\<close>: what is signed are all its other arguments, its method,
  host and path.\<close>

definition signed_by :: "mac \<Rightarrow> mac \<Rightarrow> flags \<Rightarrow> kstore \<Rightarrow> api_request \<Rightarrow> user \<Rightarrow> bool" where
  "signed_by sha1 sha256 fl K rq u \<longleftrightarrow> (\<exists>signature args p access_key.
     pop_first ''Signature'' (aq_arguments rq) = Inr (signature, args) \<and> first_values args = Inr p \<and>
     dget p ''AWSAccessKeyId'' = Inr access_key \<and> get_user_from_access_key fl K access_key = Inr (Some u) \<and>
     generate sha1 sha256 (u_secret u) p (aq_method rq) (aq_host rq) (aq_path rq) = Inr signature)"

lemma pop_first_Inr:
  "pop_first k args = Inr (v, rest) \<longleftrightarrow> (\<exists>vs. map_of args k = Some (v # vs)) \<and> rest = ddel k args"
  by (cases "map_of args k") (auto simp: pop_first_def dget_def split: list.splits)

lemma authenticate_Some:
  assumes "authenticate sha1 sha256 fl K p sig verb host path = Inr (Some u)"
  obtains access_key where "dget p ''AWSAccessKeyId'' = Inr access_key" "get_user_from_access_key fl K access_key = Inr (Some u)"
    "generate sha1 sha256 (u_secret u) p verb host path = Inr sig"
  using assms by (auto simp: authenticate_def split: option.splits if_splits intro: that)

lemma api_send_state:
  assumes "snd (api_send ctrl ct action rid u kwargs s) \<noteq> s"
  shows "\<exists>f args. ctrl (camelcase_to_underscore action) = Some f \<and> method_args kwargs = Inr args \<and>
    snd (api_send ctrl ct action rid u kwargs s) = snd (f u args s)"
proof (cases "has_key kwargs ''self'' \<or> has_key kwargs ''user''")
  case False
  then obtain f where f: "ctrl (camelcase_to_underscore action) = Some f"
    using assms by (cases "ctrl (camelcase_to_underscore action)") (simp_all add: api_send_def)
  obtain args where a: "method_args kwargs = Inr args"
    using assms f False by (cases "method_args kwargs") (simp_all add: api_send_def)
  obtain r s' where r: "f u args s = (r, s')" by fastforce
  have "map_of args ''f'' = None"
    using assms f a False by (cases "map_of args ''f''") (simp_all add: api_send_def)
  then have "snd (api_send ctrl ct action rid u kwargs s) = s'"
    using f a False r by (cases r) (simp_all add: api_send_def bindS_def)
  then show ?thesis using f a r by simp
qed (use assms in \<open>auto simp: api_send_def\<close>)

text \<open>C4: A request to the API changes nothing unless it is signed with the secret key of a user that the
  directory knows by the access key of the request; and then all that happens is what the one method does that its
  action names, called for this user.\<close>

theorem only_signed_requests_act:
  assumes "api_execute (authenticate sha1 sha256 fl K) str_e class_name controllers request_id controller_name rq s = (r, s')"
    and "s' \<noteq> s"
  shows "\<exists>u ctrl action f args. signed_by sha1 sha256 fl K rq u \<and> map_of controllers controller_name = Some ctrl \<and>
    (\<exists>vs. map_of (aq_arguments rq) ''Action'' = Some (action # vs)) \<and>
    ctrl (camelcase_to_underscore action) = Some f \<and> s' = snd (f u args s)"
proof -
  let ?auth = "authenticate sha1 sha256 fl K"
  obtain ctrl where c: "map_of controllers controller_name = Some ctrl"
    using assms by (cases "map_of controllers controller_name") (auto simp: api_execute_def)
  obtain signature args where sg: "pop_first ''Signature'' (aq_arguments rq) = Inr (signature, args)"
    using assms c by (cases "pop_first ''Signature'' (aq_arguments rq)") (auto simp: api_execute_def)
  obtain p where p: "first_values args = Inr p"
    using assms c sg by (cases "first_values args") (auto simp: api_execute_def first_values_def)
  let ?pops = "bindR (pop_first ''Action'' args) (\<lambda>(action, args).
      bindR (pop_all [''AWSAccessKeyId'', ''SignatureMethod'', ''SignatureVersion'', ''Version'', ''Timestamp''] args) (\<lambda>args.
      Inr (action, args)))"
  obtain action rest where ac: "?pops = Inr (action, rest)"
    using assms c sg p unfolding api_execute_def first_values_def by (cases ?pops) auto
  have run: "api_execute ?auth str_e class_name controllers request_id controller_name rq s =
      (case ?auth p signature (aq_method rq) (aq_host rq) (aq_path rq) of
         Inl e \<Rightarrow> raiseS e
       | Inr None \<Rightarrow> raiseS (HTTPError 403)
       | Inr (Some u) \<Rightarrow> (\<lambda>s.
           case api_send ctrl (controller_name @ ''Controller'') action request_id u rest s of
             (Inl e, s') \<Rightarrow> (Inl e, s')
           | (Inr (Inl e), s') \<Rightarrow> (Inr (error_callback str_e class_name e), s')
           | (Inr (Inr body), s') \<Rightarrow> (Inr \<lparr>ar_status = 200, ar_body = body\<rparr>, s'))) s"
    unfolding api_execute_def by (simp only: c sg p [unfolded first_values_def] ac option.case sum.case prod.case)
  obtain u where u: "?auth p signature (aq_method rq) (aq_host rq) (aq_path rq) = Inr (Some u)"
    using assms unfolding run by (auto split: sum.splits option.splits)
  have "s' = snd (api_send ctrl (controller_name @ ''Controller'') action request_id u rest s)"
  proof -
    obtain d t where d: "api_send ctrl (controller_name @ ''Controller'') action request_id u rest s = (d, t)" by fastforce
    note eq = assms(1) [unfolded run u sum.case option.case d prod.case]
    have "s' = t"
    proof (cases d)
      case (Inl e)
      show ?thesis using eq unfolding Inl sum.case by simp
    next
      case (Inr x)
      show ?thesis using eq unfolding Inr sum.case by (cases x) simp_all
    qed
    then show ?thesis by (simp add: d)
  qed
  note sent = this
  have "snd (api_send ctrl (controller_name @ ''Controller'') action request_id u rest s) \<noteq> s"
    unfolding sent [symmetric] by (rule assms(2))
  from api_send_state [OF this] obtain f margs where
    f: "ctrl (camelcase_to_underscore action) = Some f" "s' = snd (f u margs s)"
    unfolding sent [symmetric] by blast
  have "signed_by sha1 sha256 fl K rq u"
  proof (rule authenticate_Some [OF u])
    fix k
    assume "dget p ''AWSAccessKeyId'' = Inr k" "get_user_from_access_key fl K k = Inr (Some u)"
      "generate sha1 sha256 (u_secret u) p (aq_method rq) (aq_host rq) (aq_path rq) = Inr signature"
    then show ?thesis using sg p unfolding signed_by_def by blast
  qed
  moreover have "\<exists>vs. map_of (aq_arguments rq) ''Action'' = Some (action # vs)"
    using ac sg by (auto simp: pop_first_Inr)
  ultimately show ?thesis using c f by blast
qed

text \<open>A directory with one user, whose secret is \<^verbatim>\<open>s\<close>, and a request that she signed, with a digest that
  only puts the secret before the text. The one method of the controller counts its calls.\<close>

definition counting :: "nat controllers" where
  "counting = [(''Cloud'', \<lambda>m. if m = ''count_up'' then Some (\<lambda>u args n. (Inr (JBool True), Suc n)) else None)]"

definition anns_store :: kstore where
  "anns_store = snd (ldap_create_user (default_flags ''/n'' ''h'') ''ann'' ''ka'' ''s'' False (fakeldap_module Map.empty))"

definition anns_request :: api_request where
  "anns_request = \<lparr>aq_arguments = [(''Signature'', [''sCountUpt'']), (''Action'', [''CountUp'']), (''AWSAccessKeyId'', [''ka'']),
      (''SignatureMethod'', [''HmacSHA1'']), (''SignatureVersion'', [''0'']), (''Version'', [''1'']), (''Timestamp'', [''t''])],
     aq_method = ''GET'', aq_host = ''h'', aq_path = ''/''\<rparr>"

theorem only_signed_requests_act_witness:
  "\<exists>u. signed_by (\<lambda>k m. k @ m) (\<lambda>k m. k @ m) (default_flags ''/n'' ''h'') anns_store anns_request u"
proof -
  let ?run = "api_execute (authenticate (\<lambda>k m. k @ m) (\<lambda>k m. k @ m) (default_flags ''/n'' ''h'') anns_store)
      (\<lambda>_. []) (\<lambda>_. []) counting ''R'' ''Cloud'' anns_request 0"
  have "snd ?run = 1" by code_simp
  moreover obtain r n where r: "?run = (r, n)" by fastforce
  ultimately have "n \<noteq> 0" by simp
  from only_signed_requests_act [OF r this] show ?thesis by blast
qed

subsection \<open>Names of methods and actions\<close>

text \<open>A word of a name: a small letter, then at least one more small letter or digit.\<close>

definition name_word :: "string \<Rightarrow> bool" where
  "name_word w \<longleftrightarrow> (case w of c # d # r \<Rightarrow> is_lower c \<and> list_all (\<lambda>x. is_lower x \<or> is_digit x) (d # r) | _ \<Rightarrow> False)"

lemma digit_not_upper [simp]: "is_digit c \<Longrightarrow> \<not> is_upper c"
  by (simp add: is_digit_def is_upper_def)

lemma word_chars: "is_lower c \<or> is_digit c \<Longrightarrow> \<not> is_upper c \<and> to_lower c = c \<and> c \<noteq> CHR ''_'' \<and> c \<noteq> CHR 0x0A"
  by (auto simp: to_lower_id) (simp_all add: is_lower_def is_digit_def)

lemma c2u_tail:
  assumes "list_all (\<lambda>x. is_lower x \<or> is_digit x) w"
  shows "\<exists>b'. c2u_sub b (w @ s) = w @ c2u_sub b' s"
  using assms
proof (induction w arbitrary: b)
  case (Cons x w)
  then have "\<not> word_start b x (w @ s)" using word_chars [of x] by (simp add: word_start_def)
  then show ?case using Cons by simp
qed auto

lemma c2u_word:
  assumes "name_word w"
  shows "\<exists>b'. c2u_sub b (capital w @ s) = CHR ''_'' # capital w @ c2u_sub b' s"
proof -
  obtain c d r where w: "w = c # d # r" "is_lower c" "list_all (\<lambda>x. is_lower x \<or> is_digit x) (d # r)"
    using assms by (auto simp: name_word_def split: list.splits)
  have "word_start b (to_upper c) ((d # r) @ s)"
    using w(2,3) word_chars [of d] by (auto simp: word_start_def)
  then have "c2u_sub b (capital w @ s) = CHR ''_'' # to_upper c # c2u_sub (Some (to_upper c)) ((d # r) @ s)"
    by (simp add: w(1) capital_def)
  then show ?thesis using c2u_tail [OF w(3), of "Some (to_upper c)" s] by (auto simp: w(1) capital_def)
qed

lemma lower_capital: "name_word w \<Longrightarrow> lower (capital w) = w"
  by (auto simp: name_word_def capital_def list_all_iff word_chars intro!: map_idI split: list.splits)

lemma c2u_words:
  "\<forall>w \<in> set ws. name_word w \<Longrightarrow> lower (c2u_sub b (concat (map capital ws))) = concat (map (\<lambda>w. CHR ''_'' # w) ws)"
proof (induction ws arbitrary: b)
  case (Cons w ws)
  then obtain b' where "c2u_sub b (capital w @ concat (map capital ws)) = CHR ''_'' # capital w @ c2u_sub b' (concat (map capital ws))"
    using c2u_word [of w b "concat (map capital ws)"] by auto
  moreover have "to_lower CHR ''_'' = CHR ''_''" by (simp add: to_lower_def is_upper_def)
  ultimately show ?case using Cons lower_capital [of w] by simp
qed simp

lemma join_words: "ws \<noteq> [] \<Longrightarrow> concat (map (\<lambda>w. CHR ''_'' # w) ws) = CHR ''_'' # py_join ''_'' ws"
  by (induction "''_''" ws rule: py_join.induct) auto

lemma word_no_underscore: "name_word w \<Longrightarrow> CHR ''_'' \<notin> set w"
  using word_chars by (auto simp: name_word_def list_all_iff split: list.splits)

text \<open>C34: The name of a method is found again from the name of the action that it is called by: for every
  name that is made of words with at least two letters or digits, a letter first, the conversion to capitals and back
  gives the name.\<close>

theorem method_name_of_action:
  assumes "ws \<noteq> []" and "\<forall>w \<in> set ws. name_word w"
  shows "camelcase_to_underscore (underscore_to_camelcase (py_join ''_'' ws)) = py_join ''_'' ws"
proof -
  let ?j = "py_join ''_'' ws"
  have "py_split CHR ''_'' ?j = ws" by (rule py_split_join) (use assms word_no_underscore in auto)
  then have u: "lower (c2u_sub None (underscore_to_camelcase ?j)) = CHR ''_'' # ?j"
    using c2u_words [OF assms(2)] join_words [OF assms(1)] by (simp add: underscore_to_camelcase_def)
  obtain w ws' where ws: "ws = w # ws'" using assms(1) by (cases ws) auto
  have first: "?j \<noteq> [] \<and> hd ?j \<noteq> CHR ''_''"
    using assms(2) word_no_underscore [of w] ws by (cases w; cases ws') (auto simp: name_word_def)
  obtain v where v: "v \<in> set ws" "v \<noteq> []" "last ?j = last v"
  proof -
    have "xs \<noteq> [] \<Longrightarrow> \<forall>x \<in> set xs. x \<noteq> [] \<Longrightarrow> py_join ''_'' xs \<noteq> [] \<and> last (py_join ''_'' xs) = last (last xs)" for xs
      by (induction "''_''" xs rule: py_join.induct) auto
    moreover have "\<forall>x \<in> set ws. x \<noteq> []" using assms(2) by (auto simp: name_word_def)
    ultimately show ?thesis using that [of "last ws"] assms(1) by simp
  qed
  have "last v \<noteq> CHR ''_''" using word_no_underscore [of v] assms(2) v(1,2) last_in_set by metis
  then have "last ?j \<noteq> CHR ''_''" using v(3) by simp
  then have "lstrip (\<lambda>c. c = CHR ''_'') (rev ?j) = rev ?j"
    using first by (cases ?j rule: rev_cases) (simp_all only: rev_append rev.simps append.simps last_snoc lstrip.simps if_False simp_thms)
  moreover have "lstrip (\<lambda>c. c = CHR ''_'') (CHR ''_'' # ?j) = ?j" using first by (cases ?j) auto
  ultimately show ?thesis unfolding camelcase_to_underscore_def u by (simp add: strip_def)
qed

theorem method_name_of_action_witness:
  "camelcase_to_underscore (underscore_to_camelcase ''generate_x509_for_user'') = ''generate_x509_for_user''"
proof -
  have "\<forall>w \<in> set [''generate'', ''x509'', ''for'', ''user'']. name_word w" by code_simp
  from method_name_of_action [OF _ this] show ?thesis by simp
qed

end
