(* ===== verification/BotoClient.thy ===== *)
theory BotoClient
  imports ApiProps
begin

text \<open>
  A client of the API: the parts of the library \<^verbatim>\<open>boto\<close> in the repository that build,
  sign and send a request (\<^verbatim>\<open>contrib/boto/boto/connection.py\<close>), and how the server's
  \<^verbatim>\<open>HTTPRequest\<close> (\<^verbatim>\<open>tornado/httpserver.py\<close>) reads it. The theory BotoProps shows that
  the two ends of the protocol agree.
\<close>

subsection \<open>Signing a request\<close>

record boto_conn =
  bc_host :: string
  bc_port :: int
  bc_path :: string
  bc_access :: string
  bc_secret :: string
  bc_api_version :: string
  bc_signature_version :: string
  bc_num_retries :: nat
  bc_python26 :: bool

abbreviation BotoClientError :: exc where
  "BotoClientError \<equiv> PyException ''BotoClientError''"

definition server_name :: "boto_conn \<Rightarrow> string" where
  "server_name c =
     (if bc_port c = 80 then bc_host c
      else if bc_python26 c \<and> bc_port c = 443 then bc_host c
      else bc_host c @ '':'' @ str_int (bc_port c))"

text \<open>The path of the connection and the path of the request; what follows a question mark stays.\<close>

definition boto_get_path :: "boto_conn \<Rightarrow> string \<Rightarrow> string res" where
  "boto_get_path c path =
     (let params = dropWhile (\<lambda>x. x \<noteq> CHR ''?'') path;
          path = takeWhile (\<lambda>x. x \<noteq> CHR ''?'') path in
      if path = [] then Inl IndexError
      else let need_trailing = (last path = CHR ''/'');
               path_elements = filter (\<lambda>p. p \<noteq> []) (py_split CHR ''/'' (bc_path c) @ py_split CHR ''/'' path);
               path = ''/'' @ py_join ''/'' path_elements;
               path = (if last path \<noteq> CHR ''/'' \<and> need_trailing then path @ ''/'' else path)
           in Inr (path @ params))"

text \<open>The three versions of the signature: the query string and the signature.\<close>

definition lower_pairs :: "params \<Rightarrow> string" where
  "lower_pairs p = py_join ''&'' (map (\<lambda>k. k @ ''='' @ Signer.quote ''/'' (the (map_of p k))) (sort_key lower (keys p)))"

definition calc_signature_0 :: "mac \<Rightarrow> boto_conn \<Rightarrow> params \<Rightarrow> (string \<times> string) res" where
  "calc_signature_0 sha1 c p =
     bindR (dget p ''Action'') (\<lambda>action.
     bindR (dget p ''Timestamp'') (\<lambda>timestamp.
       Inr (lower_pairs p, sha1 (bc_secret c) (action @ timestamp))))"

definition calc_signature_1 :: "mac \<Rightarrow> boto_conn \<Rightarrow> params \<Rightarrow> string \<times> string" where
  "calc_signature_1 sha1 c p =
     (lower_pairs p, sha1 (bc_secret c) (concat (map (\<lambda>k. k @ the (map_of p k)) (sort_key lower (keys p)))))"

definition calc_signature_2 :: "mac \<Rightarrow> boto_conn \<Rightarrow> params \<Rightarrow> string \<Rightarrow> string \<Rightarrow> string \<times> string" where
  "calc_signature_2 sha256 c p verb path =
     (let text = verb @ ''\<newline>'' @ lower (server_name c) @ ''\<newline>'' @ path @ ''\<newline>'';
          p = dput ''SignatureMethod'' ''HmacSHA256'' p;
          pairs = map (\<lambda>k. Signer.quote [] k @ ''='' @ Signer.quote ''-_~'' (the (map_of p k))) (sort (keys p));
          qs = py_join ''&'' pairs
      in (qs, sha256 (bc_secret c) (text @ qs)))"

definition get_signature :: "mac \<Rightarrow> mac \<Rightarrow> boto_conn \<Rightarrow> params \<Rightarrow> string \<Rightarrow> string \<Rightarrow> (string \<times> string) res" where
  "get_signature sha1 sha256 c p verb path =
     (if bc_signature_version c = ''0'' then calc_signature_0 sha1 c p
      else if bc_signature_version c = ''1'' then Inr (calc_signature_1 sha1 c p)
      else if bc_signature_version c = ''2'' then Inr (calc_signature_2 sha256 c p verb path)
      else Inl BotoClientError)"

text \<open>\<^verbatim>\<open>AWSQueryConnection.make_request\<close>: the method, the path with the query, and the body.\<close>

record http_message =
  hm_method :: string
  hm_uri :: string
  hm_body :: string

definition boto_params :: "boto_conn \<Rightarrow> string \<Rightarrow> string \<Rightarrow> params \<Rightarrow> params" where
  "boto_params c timestamp action params =
     dput ''Timestamp'' timestamp (dput ''SignatureVersion'' (bc_signature_version c)
       (dput ''AWSAccessKeyId'' (bc_access c) (dput ''Version'' (bc_api_version c) (dput ''Action'' action params))))"

definition boto_message :: "mac \<Rightarrow> mac \<Rightarrow> boto_conn \<Rightarrow> string \<Rightarrow> string \<Rightarrow> params \<Rightarrow> string \<Rightarrow> string \<Rightarrow> http_message res" where
  "boto_message sha1 sha256 c timestamp action params path verb =
     bindR (boto_get_path c path) (\<lambda>full.
     bindR (get_signature sha1 sha256 c (boto_params c timestamp action params) verb full) (\<lambda>(qs, signature).
     let signed = qs @ ''&Signature='' @ Signer.quote ''/'' signature;
         body = (if verb = ''POST'' then signed else []);
         qs = (if verb = ''POST'' then path else path @ ''?'' @ signed)
     in bindR (boto_get_path c qs) (\<lambda>uri. Inr \<lparr>hm_method = verb, hm_uri = uri, hm_body = body\<rparr>)))"

subsection \<open>Sending it\<close>

text \<open>What a try to send a request comes to: an answer, with its header \<^verbatim>\<open>Location\<close>, or
  one of the exceptions of the HTTP library that lead to a new connection.\<close>

datatype reply = Reply (rp_status: int) (rp_location: "string option") (rp_body: string) | No_Reply exc

text \<open>
  \<^verbatim>\<open>_mexe\<close>, from a try on: \<open>left\<close> more tries, the last answer and the last exception so far. It follows
  redirections for ever, so that it may not return. \<open>urlparse\<close> gives the host and the path, with its query, of
  a location.
\<close>

partial_function (option) mexe :: "(string \<Rightarrow> string \<times> string) \<Rightarrow> (string \<Rightarrow> http_message \<Rightarrow> 's \<Rightarrow> reply \<times> 's) \<Rightarrow>
    nat \<Rightarrow> int option \<Rightarrow> exc option \<Rightarrow> string \<Rightarrow> http_message \<Rightarrow> 's \<Rightarrow> (reply res \<times> 's) option" where
  "mexe urlparse request left response e host m s =
     (if left = 0 then Some (Inl (case response of Some status \<Rightarrow> PyException ''BotoServerError''
         | None \<Rightarrow> (case e of Some e \<Rightarrow> e | None \<Rightarrow> BotoClientError)), s)
      else case request host m s of
        (No_Reply e, s') \<Rightarrow> mexe urlparse request (left - 1) response (Some e) host m s'
      | (Reply status location body, s') \<Rightarrow>
          if status = 500 \<or> status = 503 \<or> status = 408
            then mexe urlparse request (left - 1) (Some status) e host m s'
          else if status < 300 \<or> status \<ge> 400 \<or> location = None \<or> location = Some []
            then Some (Inr (Reply status location body), s')
          else (case urlparse (the location) of (host, path) \<Rightarrow>
            mexe urlparse request left (Some status) e host (m\<lparr>hm_uri := path\<rparr>) s'))"

definition make_request :: "mac \<Rightarrow> mac \<Rightarrow> (string \<Rightarrow> string \<times> string) \<Rightarrow> (string \<Rightarrow> http_message \<Rightarrow> 's \<Rightarrow> reply \<times> 's) \<Rightarrow>
    boto_conn \<Rightarrow> string \<Rightarrow> string \<Rightarrow> params \<Rightarrow> string \<Rightarrow> string \<Rightarrow> 's \<Rightarrow> (reply res \<times> 's) option" where
  "make_request sha1 sha256 urlparse request c timestamp action params path verb s =
     (case boto_message sha1 sha256 c timestamp action params path verb of
        Inl e \<Rightarrow> Some (Inl e, s)
      | Inr m \<Rightarrow> mexe urlparse request (Suc (bc_num_retries c)) None None (server_name c) m s)"

subsection \<open>Reading it\<close>

text \<open>\<^verbatim>\<open>urlparse.urlsplit\<close> of a path: the path and the query.\<close>

definition split_uri :: "string \<Rightarrow> string \<times> string" where
  "split_uri uri = (let u = takeWhile (\<lambda>x. x \<noteq> CHR ''#'') uri in
     (takeWhile (\<lambda>x. x \<noteq> CHR ''?'') u, drop 1 (dropWhile (\<lambda>x. x \<noteq> CHR ''?'') u)))"

text \<open>\<^verbatim>\<open>cgi.parse_qs\<close>: pairs without an equal sign or without a value are left out.\<close>

definition plus_spaces :: "string \<Rightarrow> string" where
  "plus_spaces s = map (\<lambda>c. if c = CHR ''+'' then CHR '' '' else c) s"

definition qs_pair :: "string \<Rightarrow> (string \<times> string) option" where
  "qs_pair s = (case dropWhile (\<lambda>x. x \<noteq> CHR ''='') s of
      _ # x # v \<Rightarrow> Some (unquote (plus_spaces (takeWhile (\<lambda>x. x \<noteq> CHR ''='') s)), unquote (plus_spaces (x # v)))
    | _ \<Rightarrow> None)"

definition add_pair :: "string \<times> string \<Rightarrow> (string, string list) dict \<Rightarrow> (string, string list) dict" where
  "add_pair nv d = dput (fst nv) ((case map_of d (fst nv) of None \<Rightarrow> [] | Some vs \<Rightarrow> vs) @ [snd nv]) d"

definition parse_qs :: "string \<Rightarrow> (string, string list) dict" where
  "parse_qs s = fold add_pair (List.map_filter qs_pair (concat (map (py_split CHR '';'') (py_split CHR ''&'' s)))) []"

text \<open>The arguments of \<^verbatim>\<open>HTTPRequest\<close>: empty values do not count.\<close>

definition http_arguments :: "string \<Rightarrow> (string, string list) dict" where
  "http_arguments query = filter (\<lambda>(n, vs). vs \<noteq> []) (map (\<lambda>(n, vs). (n, filter (\<lambda>v. v \<noteq> []) vs)) (parse_qs query))"

definition received :: "string \<Rightarrow> http_message \<Rightarrow> api_request" where
  "received host m = (let (path, query) = split_uri (hm_uri m) in
     \<lparr>aq_arguments = http_arguments query, aq_method = hm_method m, aq_host = host, aq_path = path\<rparr>)"

text \<open>The route of \<^verbatim>\<open>APIServerApplication\<close> to a controller.\<close>

definition services_controller :: "string \<Rightarrow> string option" where
  "services_controller path =
     (if startswith path ''/services/'' then
        let n = butlast (drop 10 path) in
        if drop 10 path \<noteq> [] \<and> last path = CHR ''/'' \<and> n \<noteq> [] \<and> list_all (\<lambda>c. is_upper c \<or> is_lower c \<or> is_digit c) n
        then Some n else None
      else None)"

text \<open>
  The server, for requests to a controller, whose handler answers no method but \<^verbatim>\<open>GET\<close>. The
  handlers of the other routes are an argument, and so is the page that tells of an error. The user manager reads
  the state of the moment.
\<close>

definition exception_reply :: "(int \<Rightarrow> string) \<Rightarrow> exc \<Rightarrow> reply" where
  "exception_reply error_page e = (case e of
      HTTPError code \<Rightarrow> Reply code None (error_page code)
    | _ \<Rightarrow> Reply 500 None (error_page 500))"

definition api_server :: "('s \<Rightarrow> params \<Rightarrow> string \<Rightarrow> string \<Rightarrow> string \<Rightarrow> string \<Rightarrow> user option res) \<Rightarrow> (exc \<Rightarrow> string) \<Rightarrow>
    (exc \<Rightarrow> string) \<Rightarrow> 's controllers \<Rightarrow> string \<Rightarrow> (int \<Rightarrow> string) \<Rightarrow> (string \<Rightarrow> http_message \<Rightarrow> 's \<Rightarrow> reply \<times> 's) \<Rightarrow>
    string \<Rightarrow> http_message \<Rightarrow> 's \<Rightarrow> reply \<times> 's" where
  "api_server auth str_e class_name controllers request_id error_page other host m s =
     (let rq = received host m in
      case services_controller (aq_path rq) of
        None \<Rightarrow> other host m s
      | Some n \<Rightarrow>
          if hm_method m \<noteq> ''GET'' then (exception_reply error_page (HTTPError 405), s)
          else case api_execute (auth s) str_e class_name controllers request_id n rq s of
             (Inr r, s') \<Rightarrow> (Reply (ar_status r) None (ar_body r), s')
           | (Inl e, s') \<Rightarrow> (exception_reply error_page e, s'))"

end
