(* ===== verification/BotoProps.thy ===== *)
theory BotoProps
  imports BotoClient
begin

text \<open>
  The client and the server of the API agree: the server finds in a request the parameters that the client put
  into it, computes the same signature, and calls the method that the client named; and a client gives up after a
  bounded number of tries if nothing redirects it.
\<close>

subsection \<open>What is written is read\<close>

lemma hex_value_digit: "n < 16 \<Longrightarrow> hex_value (HEX_digit n) = Some n"
  by (auto simp: hex_value_def of_char_HEX Let_def)

lemma unquote_quote_char:
  assumes "CHR ''%'' \<notin> set safe"
  shows "unquote (quote_char safe c @ s) = c # unquote s"
proof (cases "always_safe c \<or> c \<in> set safe")
  case True
  then have "c \<noteq> CHR ''%''" using assms special_not_safe(1) by auto
  then show ?thesis using True by (auto simp: quote_char_def)
next
  case False
  have "(of_char c :: nat) div 16 < 16" using of_char_less [of c] by linarith
  moreover have "char_of ((of_char c :: nat) div 16 * 16 + of_char c mod 16) = c"
    by (simp only: div_mult_mod_eq char_of_char)
  ultimately show ?thesis using False by (simp add: quote_char_def hex_value_digit)
qed

lemma unquote_quote: "CHR ''%'' \<notin> set safe \<Longrightarrow> unquote (Signer.quote safe s) = s"
proof (induction s)
  case (Cons c s)
  then show ?case using unquote_quote_char [of safe c "Signer.quote safe s"] by (simp add: Signer.quote_def)
qed (simp add: Signer.quote_def)

text \<open>The characters that have a meaning in a query do not appear in what is quoted.\<close>

definition no_query_chars :: "string \<Rightarrow> bool" where
  "no_query_chars s \<longleftrightarrow> set s \<inter> {CHR ''%'', CHR ''+'', CHR ''&'', CHR '';'', CHR ''='', CHR ''#''} = {}"

lemma quoted_chars:
  assumes "no_query_chars safe" "x \<in> {CHR ''+'', CHR ''&'', CHR '';'', CHR ''='', CHR ''#''}"
  shows "x \<notin> set (Signer.quote safe s)"
proof
  assume "x \<in> set (Signer.quote safe s)"
  from quote_chars [OF this] have "always_safe x"
    using assms by (auto simp: no_query_chars_def)
  then show False using assms(2) by (auto simp: always_safe_def is_upper_def is_lower_def is_digit_def)
qed

definition pair_with :: "string \<Rightarrow> string \<Rightarrow> string \<times> string \<Rightarrow> string" where
  "pair_with s1 s2 kv = Signer.quote s1 (fst kv) @ ''='' @ Signer.quote s2 (snd kv)"

lemma qs_pair_quoted:
  assumes "no_query_chars s1" "no_query_chars s2" "v \<noteq> []"
  shows "qs_pair (pair_with s1 s2 (k, v)) = Some (k, v)"
proof -
  have eq: "CHR ''='' \<notin> set (Signer.quote s1 k)" by (rule quoted_chars [OF assms(1)]) simp
  have plus: "plus_spaces (Signer.quote s t) = Signer.quote s t" if "no_query_chars s" for s t
    using quoted_chars [OF that, of "CHR ''+''" t] by (auto simp: plus_spaces_def intro!: map_idI)
  have "Signer.quote s2 v \<noteq> []" using assms(3) by (cases v) (auto simp: Signer.quote_def quote_char_def)
  then obtain x w where x: "Signer.quote s2 v = x # w" by (cases "Signer.quote s2 v") auto
  have split: "takeWhile (\<lambda>x. x \<noteq> CHR ''='') (Signer.quote s1 k @ CHR ''='' # t) = Signer.quote s1 k"
    "dropWhile (\<lambda>x. x \<noteq> CHR ''='') (Signer.quote s1 k @ CHR ''='' # t) = CHR ''='' # t" for t
    using eq by (auto simp: takeWhile_append dropWhile_append)
  have "CHR ''%'' \<notin> set s1" "CHR ''%'' \<notin> set s2" using assms by (auto simp: no_query_chars_def)
  then show ?thesis
    using plus [OF assms(1)] plus [OF assms(2), of v] unquote_quote [of s1 k] unquote_quote [of s2 v]
    by (simp add: qs_pair_def pair_with_def split x)
qed

lemma fold_add_pair:
  "distinct (keys items) \<Longrightarrow> set (keys items) \<inter> set (keys d) = {} \<Longrightarrow>
    fold add_pair items d = d @ map (\<lambda>(k, v). (k, [v])) items"
proof (induction items arbitrary: d)
  case (Cons kv items)
  obtain k v where kv: "kv = (k, v)" by fastforce
  have "k \<notin> set (keys d)" using Cons.prems(2) kv by simp
  then have "map_of d k = None" by (simp only: map_of_eq_None_iff set_map not_False_eq_True)
  then have "add_pair kv d = d @ [(k, [v])]" by (simp add: add_pair_def kv dput_fresh)
  moreover have "fold add_pair items (d @ [(k, [v])]) = (d @ [(k, [v])]) @ map (\<lambda>(k, v). (k, [v])) items"
    by (rule Cons.IH) (use Cons.prems kv in auto)
  ultimately show ?case by (simp add: kv)
qed simp

text \<open>A query of quoted pairs gives back the pairs, each with its one value.\<close>

lemma parse_qs_quoted:
  assumes "ps \<noteq> []" "distinct (keys (map snd ps))" "\<forall>(f, k, v) \<in> set ps. qs_pair (f (k, v)) = Some (k, v)"
    and "\<forall>(f, kv) \<in> set ps. CHR ''&'' \<notin> set (f kv) \<and> CHR '';'' \<notin> set (f kv)"
  shows "parse_qs (py_join ''&'' (map (\<lambda>(f, kv). f kv) ps)) = map (\<lambda>(k, v). (k, [v])) (map snd ps)"
proof -
  let ?texts = "map (\<lambda>(f, kv). f kv) ps"
  have "py_split CHR ''&'' (py_join ''&'' ?texts) = ?texts"
    by (rule py_split_join) (use assms(1,4) in auto)
  moreover have "concat (map (py_split CHR '';'') ?texts) = ?texts"
    using assms(4) by (induction ps) (auto simp: py_split_no_sep)
  moreover have "List.map_filter qs_pair ?texts = map snd ps"
    using assms(3) by (induction ps) (auto simp: List.map_filter_simps)
  ultimately show ?thesis
    using fold_add_pair [OF assms(2), of "[]"] by (simp add: parse_qs_def)
qed

lemma http_arguments_quoted:
  assumes "parse_qs q = map (\<lambda>(k, v). (k, [v])) items" "\<forall>v \<in> set (vals items). v \<noteq> []"
  shows "http_arguments q = map (\<lambda>(k, v). (k, [v])) items"
proof -
  have e: "map (\<lambda>(n, vs). (n, filter (\<lambda>v. v \<noteq> []) vs)) (map (\<lambda>(k, v). (k, [v])) items) = map (\<lambda>(k, v). (k, [v])) items"
    using assms(2) by (induction items) auto
  then show ?thesis unfolding http_arguments_def assms(1) e by (auto simp: filter_id_conv)
qed

lemma query_string_cong:
  assumes "distinct (keys p)" "distinct (keys q)" "map_of p = map_of q"
  shows "sorted_items p = sorted_items q"
proof -
  have "set (keys p) = set (keys q)" using assms(3) by (metis dom_map_of_conv_image_fst set_map)
  then have "sort (keys p) = sort (keys q)"
    using assms(1,2) by (metis sorted_list_of_set_sort_remdups distinct_remdups_id)
  then show ?thesis by (simp add: sorted_items_def assms(3))
qed

lemma keys_sorted_items: "distinct (keys p) \<Longrightarrow> distinct (keys (sorted_items p)) \<and> set (keys (sorted_items p)) = set (keys p)"
  by (simp add: sorted_items_def comp_def)

text \<open>The query of the client: all its parameters in the order of their names, then the signature.\<close>

definition signed_params :: "boto_conn \<Rightarrow> string \<Rightarrow> string \<Rightarrow> params \<Rightarrow> params" where
  "signed_params c timestamp action params = dput ''SignatureMethod'' ''HmacSHA256'' (boto_params c timestamp action params)"

lemma calc_signature_2_eq:
  "calc_signature_2 sha256 c p verb path =
    (let q = dput ''SignatureMethod'' ''HmacSHA256'' p in
     (query_string q, sha256 (bc_secret c) (string_to_sign verb (lower (server_name c)) path q)))"
  by (simp add: calc_signature_2_def query_string_def string_to_sign_def Let_def)

lemma distinct_signed: "distinct (keys params) \<Longrightarrow> distinct (keys (signed_params c timestamp action params))"
  by (simp add: signed_params_def boto_params_def distinct_dput)

lemma pair_text_with: "pair_text = pair_with [] ''-_~''"
  by (auto simp: pair_text_def pair_with_def)

lemma client_query:
  assumes "distinct (keys q)" "''Signature'' \<notin> set (keys q)" "\<forall>v \<in> set (vals q). v \<noteq> []" "sg \<noteq> []" "q \<noteq> []"
  shows "http_arguments (query_string q @ ''&Signature='' @ Signer.quote ''/'' sg) =
    map (\<lambda>(k, v). (k, [v])) (sorted_items q) @ [(''Signature'', [sg])]"
proof -
  let ?items = "sorted_items q"
  let ?ps = "map (Pair (pair_with [] ''-_~'')) ?items @ [(pair_with [] ''/'', ''Signature'', sg)]"
  have safe: "no_query_chars []" "no_query_chars ''-_~''" "no_query_chars ''/''" by (simp_all add: no_query_chars_def)
  have keys: "distinct (keys ?items)" "set (keys ?items) = set (keys q)" using keys_sorted_items [OF assms(1)] by auto
  have vals: "\<forall>v \<in> set (vals ?items). v \<noteq> []"
  proof
    fix v assume "v \<in> set (vals ?items)"
    then obtain k where "k \<in> set (keys q)" "v = the (map_of q k)" by (auto simp: sorted_items_def)
    then obtain w where "map_of q k = Some w" "v = w" by (cases "map_of q k") (auto simp: map_of_eq_None_iff)
    then show "v \<noteq> []" using assms(3) map_of_SomeD by fastforce
  qed
  have joined: "query_string q @ ''&Signature='' @ Signer.quote ''/'' sg = py_join ''&'' (map (\<lambda>(f, kv). f kv) ?ps)"
  proof -
    have sig: "pair_with [] ''/'' (''Signature'', sg) = ''Signature='' @ Signer.quote ''/'' sg"
    proof -
      have "Signer.quote [] ''Signature'' = ''Signature''" by code_simp
      then show ?thesis by (simp add: pair_with_def)
    qed
    have join: "py_join ''&'' (xs @ [y]) = py_join ''&'' xs @ ''&'' @ y" if "xs \<noteq> []" for xs y
      using that by (induction "''&''" xs rule: py_join.induct) auto
    have "?items \<noteq> []" using assms(5) by (simp add: sorted_items_def) (metis length_0_conv length_sort length_map)
    then show ?thesis
      using join [of "map pair_text ?items"] by (simp add: query_string_items pair_text_with sig comp_def)
  qed
  have snd: "map snd ?ps = ?items @ [(''Signature'', sg)]" by (simp add: comp_def)
  have parsed: "parse_qs (py_join ''&'' (map (\<lambda>(f, kv). f kv) ?ps)) = map (\<lambda>(k, v). (k, [v])) (map snd ?ps)"
  proof (rule parse_qs_quoted)
    show "distinct (keys (map snd ?ps))" unfolding snd using keys assms(2) by simp
    show "\<forall>(f, k, v) \<in> set ?ps. qs_pair (f (k, v)) = Some (k, v)"
      using qs_pair_quoted safe vals assms(4) by force
    have "CHR ''&'' \<notin> set (pair_with s t kv) \<and> CHR '';'' \<notin> set (pair_with s t kv)"
      if "no_query_chars s" "no_query_chars t" for s t kv
      using quoted_chars [OF that(1)] quoted_chars [OF that(2)] by (simp add: pair_with_def)
    then show "\<forall>(f, kv) \<in> set ?ps. CHR ''&'' \<notin> set (f kv) \<and> CHR '';'' \<notin> set (f kv)" using safe by auto
  qed simp
  have "http_arguments (py_join ''&'' (map (\<lambda>(f, kv). f kv) ?ps)) = map (\<lambda>(k, v). (k, [v])) (?items @ [(''Signature'', sg)])"
    by (rule http_arguments_quoted [OF parsed [unfolded snd]]) (use vals assms(4) in auto)
  then show ?thesis unfolding joined by simp
qed

lemma get_path_query:
  assumes "boto_get_path c path = Inr full" "CHR ''?'' \<notin> set path"
  shows "boto_get_path c (path @ ''?'' @ q) = Inr (full @ ''?'' @ q)"
proof -
  have t: "takeWhile (\<lambda>x. x \<noteq> CHR ''?'') (path @ ''?'' @ q) = path" "dropWhile (\<lambda>x. x \<noteq> CHR ''?'') (path @ ''?'' @ q) = ''?'' @ q"
    "takeWhile (\<lambda>x. x \<noteq> CHR ''?'') path = path" "dropWhile (\<lambda>x. x \<noteq> CHR ''?'') path = []"
    using assms(2) by (induction path) auto
  show ?thesis
    using assms(1) unfolding boto_get_path_def t Let_def by (cases "path = []") (simp_all split: if_splits)
qed

lemma query_plain:
  "CHR ''#'' \<notin> set (query_string q @ ''&Signature='' @ Signer.quote ''/'' sg)"
proof -
  have "CHR ''#'' \<notin> set (Signer.quote s t)" if "no_query_chars s" for s t by (rule quoted_chars [OF that]) simp
  then have "CHR ''#'' \<notin> set (Signer.quote [] t)" "CHR ''#'' \<notin> set (Signer.quote ''-_~'' t)" "CHR ''#'' \<notin> set (Signer.quote ''/'' t)" for t
    by (simp_all add: no_query_chars_def)
  then have "CHR ''#'' \<notin> set (pair_text x)" "CHR ''#'' \<notin> set (Signer.quote ''/'' sg)" for x by (simp_all add: pair_text_def)
  then show ?thesis
    using set_py_join [of "''&''" "map pair_text (sorted_items q)"] by (force simp: query_string_items)
qed

lemma split_uri_query:
  assumes "CHR ''?'' \<notin> set full" "CHR ''#'' \<notin> set full" "CHR ''#'' \<notin> set q"
  shows "split_uri (full @ ''?'' @ q) = (full, q)"
proof -
  have "takeWhile (\<lambda>x. x \<noteq> CHR ''#'') (full @ ''?'' @ q) = full @ ''?'' @ q"
    using assms by (auto simp: takeWhile_eq_all_conv)
  then show ?thesis using assms(1) by (auto simp: split_uri_def takeWhile_append dropWhile_append)
qed

text \<open>What the server makes of a message of the client.\<close>

lemma boto_message_received:
  assumes "bc_signature_version c = ''2''" "boto_get_path c path = Inr full"
    and "CHR ''?'' \<notin> set path" "CHR ''?'' \<notin> set full" "CHR ''#'' \<notin> set full"
    and "distinct (keys params)" "''Signature'' \<notin> set (keys params)"
    and "\<forall>v \<in> set (vals (boto_params c timestamp action params)). v \<noteq> []" "\<And>m. sha256 (bc_secret c) m \<noteq> []"
  shows "\<exists>m. boto_message sha1 sha256 c timestamp action params path ''GET'' = Inr m \<and> hm_method m = ''GET'' \<and>
    received host m = \<lparr>aq_arguments = map (\<lambda>(k, v). (k, [v])) (sorted_items (signed_params c timestamp action params)) @
      [(''Signature'', [sha256 (bc_secret c) (string_to_sign ''GET'' (lower (server_name c)) full (signed_params c timestamp action params))])],
      aq_method = ''GET'', aq_host = host, aq_path = full\<rparr>"
proof -
  let ?q = "signed_params c timestamp action params"
  let ?sg = "sha256 (bc_secret c) (string_to_sign ''GET'' (lower (server_name c)) full ?q)"
  let ?query = "query_string ?q @ ''&Signature='' @ Signer.quote ''/'' ?sg"
  have keys: "''Signature'' \<notin> set (keys ?q)"
    using assms(7) by (auto simp: signed_params_def boto_params_def keys_dput)
  have vals: "\<forall>v \<in> set (vals ?q). v \<noteq> []"
  proof
    fix v assume "v \<in> set (vals ?q)"
    then have "v = ''HmacSHA256'' \<or> v \<in> set (vals (boto_params c timestamp action params))"
      unfolding signed_params_def by (auto dest!: in_set_dput)
    then show "v \<noteq> []" using assms(8) by auto
  qed
  have "?q \<noteq> []" by (simp add: signed_params_def)
  then have args: "http_arguments ?query = map (\<lambda>(k, v). (k, [v])) (sorted_items ?q) @ [(''Signature'', [?sg])]"
    by (rule client_query [OF distinct_signed [OF assms(6)] keys vals assms(9)])
  have "boto_message sha1 sha256 c timestamp action params path ''GET'' =
      Inr \<lparr>hm_method = ''GET'', hm_uri = full @ ''?'' @ ?query, hm_body = []\<rparr>"
    using assms(1,2) get_path_query [OF assms(2,3), of ?query]
    by (simp add: boto_message_def get_signature_def calc_signature_2_eq signed_params_def Let_def)
  then show ?thesis using split_uri_query [OF assms(4,5) query_plain] args by (simp add: received_def)
qed

subsection \<open>The server knows the client\<close>

abbreviation singles :: "params \<Rightarrow> (string, string list) dict" where
  "singles items \<equiv> map (\<lambda>(k, v). (k, [v])) items"

lemma ddel_unknown: "k \<notin> set (keys d) \<Longrightarrow> ddel k d = d"
  by (induction d) auto

lemma map_of_singles: "map_of (singles items) k = map_option (\<lambda>v. [v]) (map_of items k)"
  by (induction items) auto

lemma ddel_singles: "ddel k (singles items) = singles (ddel k items)"
  by (induction items) auto

lemma ddel_sorted_items:
  assumes "distinct (keys p)"
  shows "ddel k (sorted_items p) = sorted_items (ddel k p)"
proof -
  have keys: "keys (ddel k p) = filter (\<lambda>x. x \<noteq> k) (keys p)" by (induction p) auto
  have "ddel k (map (\<lambda>k. (k, f k)) ks) = map (\<lambda>k. (k, f k)) (filter (\<lambda>x. x \<noteq> k) ks)" for f :: "string \<Rightarrow> string" and ks
    by (induction ks) auto
  then show ?thesis unfolding sorted_items_def keys filter_sort [symmetric] by (auto intro!: map_cong)
qed

lemma first_values_singles: "first_values (singles items) = Inr items"
  unfolding first_values_def by (rule mapR_id) auto

lemma client_authenticated:
  assumes "get_user_from_access_key fl K (bc_access c) = Inr (Some u)" "u_secret u = bc_secret c"
    and "bc_signature_version c = ''2''" "distinct (keys params)"
  shows "authenticate sha1 sha256 fl K (sorted_items (signed_params c timestamp action params))
    (sha256 (bc_secret c) (string_to_sign verb host path (signed_params c timestamp action params))) verb host path = Inr (Some u)"
proof -
  let ?q = "signed_params c timestamp action params"
  have at: "map_of (sorted_items ?q) ''AWSAccessKeyId'' = Some (bc_access c)" "map_of (sorted_items ?q) ''SignatureVersion'' = Some ''2''"
    by (simp_all add: sorted_items_map_of signed_params_def boto_params_def assms(3))
  have "sorted_items (dput ''SignatureMethod'' ''HmacSHA256'' (sorted_items ?q)) = sorted_items ?q"
  proof (rule query_string_cong)
    show "distinct (keys (dput ''SignatureMethod'' ''HmacSHA256'' (sorted_items ?q)))"
      using keys_sorted_items [OF distinct_signed [OF assms(4)]] by (simp add: distinct_dput)
    show "map_of (dput ''SignatureMethod'' ''HmacSHA256'' (sorted_items ?q)) = map_of ?q"
      by (rule ext) (simp add: sorted_items_map_of signed_params_def)
  qed (rule distinct_signed [OF assms(4)])
  then have "string_to_sign verb host path (dput ''SignatureMethod'' ''HmacSHA256'' (sorted_items ?q)) = string_to_sign verb host path ?q"
    by (simp only: string_to_sign_def query_string_items)
  then show ?thesis using at assms(1,2) by (simp add: authenticate_def generate_def)
qed

definition protocol_keys :: "string list" where
  "protocol_keys = [''AWSAccessKeyId'', ''SignatureMethod'', ''SignatureVersion'', ''Version'', ''Timestamp'']"

lemma client_arguments_left:
  assumes "distinct (keys params)" "set (keys params) \<inter> set (''Action'' # protocol_keys) = {}"
  shows "bindR (pop_first ''Action'' (singles (sorted_items (signed_params c timestamp action params)))) (\<lambda>(action, args).
      bindR (pop_all protocol_keys args) (\<lambda>args. Inr (action, args))) = Inr (action, singles (sorted_items params))"
proof -
  let ?q = "signed_params c timestamp action params"
  have d: "distinct (keys ?q)" by (rule distinct_signed [OF assms(1)])
  have pop: "pop_all ks (singles (sorted_items p)) = Inr (singles (sorted_items (fold ddel ks p)))"
    if "distinct (keys p)" "distinct ks" "set ks \<subseteq> set (keys p)" for ks p
    using that
  proof (induction ks arbitrary: p)
    case (Cons k ks)
    then have "k \<in> set (keys p)" by simp
    then obtain v where "map_of p k = Some v" by (simp only: set_map) (metis map_of_eq_None_iff not_None_eq)
    then have "map_of (singles (sorted_items p)) k = Some [v]" by (simp add: map_of_singles sorted_items_map_of)
    moreover have "set ks \<subseteq> set (keys (ddel k p))" using Cons.prems by auto
    ultimately show ?case
      using Cons by (simp add: ddel_singles ddel_sorted_items distinct_ddel)
  qed simp
  have first: "pop_first ''Action'' (singles (sorted_items ?q)) = Inr (action, singles (sorted_items (ddel ''Action'' ?q)))"
    using ddel_sorted_items [OF d, of "''Action''"]
    by (simp add: pop_first_Inr map_of_singles sorted_items_map_of ddel_singles signed_params_def boto_params_def)
  have rest: "pop_all protocol_keys (singles (sorted_items (ddel ''Action'' ?q))) =
      Inr (singles (sorted_items (fold ddel protocol_keys (ddel ''Action'' ?q))))"
    by (rule pop) (use d in \<open>auto simp: distinct_ddel protocol_keys_def signed_params_def boto_params_def\<close>)
  have "sorted_items (fold ddel protocol_keys (ddel ''Action'' ?q)) = sorted_items params"
  proof (rule query_string_cong)
    show "distinct (keys (fold ddel protocol_keys (ddel ''Action'' ?q)))" using d by (simp add: protocol_keys_def distinct_ddel)
    have A: "map_of params k = None" if "k \<in> set (''Action'' # protocol_keys)" for k
    proof -
      have "k \<notin> set (keys params)" using assms(2) that by blast
      then show ?thesis by (simp only: map_of_eq_None_iff set_map not_False_eq_True)
    qed
    have B: "map_of ?q k = map_of params k" if "k \<notin> set (''Action'' # protocol_keys)" for k
      using that by (simp add: signed_params_def boto_params_def protocol_keys_def)
    have C: "map_of (fold ddel protocol_keys (ddel ''Action'' ?q)) k =
        (if k \<in> set (''Action'' # protocol_keys) then None else map_of ?q k)" for k
      by (simp add: map_of_fold_ddel_keys)
    show "map_of (fold ddel protocol_keys (ddel ''Action'' ?q)) = map_of params"
    proof (rule ext)
      fix k show "map_of (fold ddel protocol_keys (ddel ''Action'' ?q)) k = map_of params k"
        unfolding C using A [of k] B [of k] by (cases "k \<in> set (''Action'' # protocol_keys)") (simp_all only: if_True if_False not_False_eq_True simp_thms)
    qed
  qed (rule assms(1))
  then show ?thesis by (simp add: first rest)
qed

text \<open>Parameters that can be sent: no value is empty and no name is one of the protocol's.\<close>

definition sendable :: "boto_conn \<Rightarrow> string \<Rightarrow> string \<Rightarrow> params \<Rightarrow> bool" where
  "sendable c timestamp action params \<longleftrightarrow> distinct (keys params) \<and>
     set (keys params) \<inter> set (''Signature'' # ''Action'' # protocol_keys) = {} \<and>
     (\<forall>v \<in> set (vals (boto_params c timestamp action params)). v \<noteq> [])"

lemma services_path_plain:
  assumes "services_controller full = Some n"
  shows "CHR ''?'' \<notin> set full" "CHR ''#'' \<notin> set full"
proof -
  have st: "startswith full ''/services/''" using assms by (simp add: services_controller_def split: if_splits)
  then obtain r where full: "full = ''/services/'' @ r" unfolding startswith_iff by blast
  then have d: "drop 10 full = r" by simp
  have "services_controller full = (if r \<noteq> [] \<and> last full = CHR ''/'' \<and> butlast r \<noteq> [] \<and>
      list_all (\<lambda>c. is_upper c \<or> is_lower c \<or> is_digit c) (butlast r) then Some (butlast r) else None)"
    unfolding services_controller_def Let_def d by (simp only: st if_True)
  then have r: "r \<noteq> []" "last full = CHR ''/''" "list_all (\<lambda>c. is_upper c \<or> is_lower c \<or> is_digit c) (butlast r)"
    using assms by (auto split: if_splits)
  have "last (''/services/'' @ r) = last r" using r(1) by simp
  then have "last r = CHR ''/''" using r(2) unfolding full by simp
  then have "r = butlast r @ ''/''" using r(1) by (metis append_butlast_last_id)
  then have "full = ''/services/'' @ butlast r @ ''/''" using full by simp
  moreover have "CHR ''?'' \<notin> set (butlast r)" "CHR ''#'' \<notin> set (butlast r)"
    using r(3) by (auto simp: list_all_iff is_upper_def is_lower_def is_digit_def)
  ultimately show "CHR ''?'' \<notin> set full" "CHR ''#'' \<notin> set full" by simp_all
qed

lemma client_call:
  assumes "bc_signature_version c = ''2''" and "boto_get_path c path = Inr full" and "CHR ''?'' \<notin> set path"
    and "services_controller full = Some n" and "map_of controllers n = Some ctrl"
    and "sendable c timestamp action params" and "\<And>m. sha256 (bc_secret c) m \<noteq> []"
    and "get_user_from_access_key fl (K s) (bc_access c) = Inr (Some u)" and "u_secret u = bc_secret c"
    and "lower (server_name c) = server_name c"
  shows "\<exists>m. boto_message sha1 sha256 c timestamp action params path ''GET'' = Inr m \<and>
    api_server (\<lambda>s. authenticate sha1 sha256 fl (K s)) str_e class_name controllers request_id error_page other (server_name c) m s =
      (case api_send ctrl (n @ ''Controller'') action request_id u (singles (sorted_items params)) s of
         (Inl e, s') \<Rightarrow> (exception_reply error_page e, s')
       | (Inr (Inl e), s') \<Rightarrow> (Reply 400 None (ar_body (error_callback str_e class_name e)), s')
       | (Inr (Inr body), s') \<Rightarrow> (Reply 200 None body, s'))"
proof -
  let ?q = "signed_params c timestamp action params"
  let ?sg = "sha256 (bc_secret c) (string_to_sign ''GET'' (server_name c) full ?q)"
  have send: "distinct (keys params)" "''Signature'' \<notin> set (keys params)" "set (keys params) \<inter> set (''Action'' # protocol_keys) = {}"
    "\<forall>v \<in> set (vals (boto_params c timestamp action params)). v \<noteq> []"
    using assms(6) by (auto simp: sendable_def)
  obtain m where m: "boto_message sha1 sha256 c timestamp action params path ''GET'' = Inr m" "hm_method m = ''GET''"
    "received (server_name c) m = \<lparr>aq_arguments = singles (sorted_items ?q) @ [(''Signature'', [?sg])],
      aq_method = ''GET'', aq_host = server_name c, aq_path = full\<rparr>"
    using boto_message_received [of c path full params timestamp action sha256 sha1 "server_name c",
        OF assms(1-3) services_path_plain [OF assms(4)] send(1,2,4) assms(7)]
    unfolding assms(10) by blast
  have "''Signature'' \<notin> set (keys ?q)" using send(2) by (auto simp: signed_params_def boto_params_def keys_dput)
  then have nk: "''Signature'' \<notin> set (keys (sorted_items ?q))" using keys_sorted_items [OF distinct_signed [OF send(1)]] by blast
  then have nosig: "map_of (sorted_items ?q) ''Signature'' = None"
    by (simp only: map_of_eq_None_iff set_map not_False_eq_True)
  have "ddel ''Signature'' (sorted_items ?q) = sorted_items ?q" by (rule ddel_unknown [OF nk])
  moreover have "ddel ''Signature'' (xs @ [(''Signature'', vs)]) = ddel ''Signature'' xs" for xs and vs :: "string list"
    by (simp add: AList.delete_eq)
  ultimately have pop: "pop_first ''Signature'' (singles (sorted_items ?q) @ [(''Signature'', [sg])]) = Inr (sg, singles (sorted_items ?q))" for sg
    using nosig unfolding pop_first_Inr by (simp only: map_of_append map_of_singles ddel_singles map_add_def) simp
  note auth = client_authenticated [OF assms(8,9,1) send(1), of sha1 sha256 timestamp action "''GET''" "server_name c" full]
  note left = client_arguments_left [OF send(1,3), of c timestamp action, unfolded protocol_keys_def]
  note first = first_values_singles [of "sorted_items ?q", unfolded first_values_def]
  have code: "ar_status (error_callback str_e class_name e) = 400" for e
    by (simp add: error_callback_def api_error_def split: exc.split)
  have "api_server (\<lambda>s. authenticate sha1 sha256 fl (K s)) str_e class_name controllers request_id error_page other (server_name c) m s =
      (case api_send ctrl (n @ ''Controller'') action request_id u (singles (sorted_items params)) s of
         (Inl e, s') \<Rightarrow> (exception_reply error_page e, s')
       | (Inr (Inl e), s') \<Rightarrow> (Reply 400 None (ar_body (error_callback str_e class_name e)), s')
       | (Inr (Inr body), s') \<Rightarrow> (Reply 200 None body, s'))"
    unfolding api_server_def Let_def m(2,3) api_request.simps assms(4) option.case api_execute_def assms(5) pop sum.case prod.case
      first left auth
    by (auto simp: code split: sum.splits prod.splits)
  then show ?thesis using m(1) by blast
qed


definition anns_conn :: "string \<Rightarrow> boto_conn" where
  "anns_conn path = \<lparr>bc_host = ''127.0.0.1'', bc_port = 8773, bc_path = path, bc_access = ''ka'', bc_secret = ''s'',
     bc_api_version = ''nova'', bc_signature_version = ''2'', bc_num_retries = 5, bc_python26 = True\<rparr>"

lemma anns_user: "get_user_from_access_key (default_flags ''/n'' ''h'') anns_store ''ka'' =
    Inr (Some \<lparr>u_id = ''ann'', u_name = ''ann'', u_access = ''ka'', u_secret = ''s'', u_admin = False\<rparr>)"
  by code_simp


subsection \<open>Trying again\<close>

lemma mexe_first:
  assumes "request host m s = (Reply status None body, s')" "status \<notin> {500, 503, 408}" "0 < left"
  shows "mexe urlparse request left response e host m s = Some (Inr (Reply status None body), s')"
  using assms by (subst mexe.simps) simp

text \<open>A server that never redirects is tried a bounded number of times, whatever it answers.\<close>

lemma mexe_returns:
  assumes "\<And>s. case request host m s of (Reply _ location _, _) \<Rightarrow> location = None | _ \<Rightarrow> True"
  shows "\<exists>r. mexe urlparse request left response e host m s = Some r"
proof (induction left arbitrary: response e s)
  case 0
  show ?case by (subst mexe.simps) simp
next
  case (Suc left)
  then show ?case using assms [of s] by (subst mexe.simps) (auto split: reply.splits prod.splits)
qed

end
