(* ===== verification/Rpc.thy ===== *)
theory Rpc
  imports Flags
begin

text \<open>
  Messages: the broker that the tests use (\<^verbatim>\<open>fakerabbit.py\<close>), the consumers and publishers of
  the vendored library carrot as far as the program uses them, and \<^verbatim>\<open>rpc.py\<close> over both: casts,
  calls with a reply, and the consumer that hands messages to the methods of an object.

  The body of a message is the JSON value that it carries. The broker is one object of the process, which
  every connection shares.
\<close>

subsection \<open>The broker\<close>

record exchange =
  ex_type :: string
  ex_routes :: "(string, string list) dict"

record broker =
  bk_exchanges :: "(string, exchange) dict"
  bk_queues :: "(string, json list) dict"

type_synonym 'a broker_act = "(broker, 'a) act"

definition broker_init :: broker where
  "broker_init = \<lparr>bk_exchanges = [], bk_queues = []\<rparr>"

definition reset_all :: "broker \<Rightarrow> broker" where
  "reset_all b = \<lparr>bk_exchanges = [], bk_queues = []\<rparr>"

definition queue_declare :: "string \<Rightarrow> unit broker_act" where
  "queue_declare q b = (Inr (), if has_key (bk_queues b) q then b else b\<lparr>bk_queues := dput q [] (bk_queues b)\<rparr>)"

definition exchange_declare :: "string \<Rightarrow> string \<Rightarrow> unit broker_act" where
  "exchange_declare x ty b =
     (Inr (), if has_key (bk_exchanges b) x then b
              else b\<lparr>bk_exchanges := dput x \<lparr>ex_type = ty, ex_routes = []\<rparr> (bk_exchanges b)\<rparr>)"

text \<open>\<^verbatim>\<open>Exchange.bind\<close>: a queue that is bound twice is in the list twice.\<close>

definition exchange_bind :: "string \<Rightarrow> string \<Rightarrow> exchange \<Rightarrow> exchange" where
  "exchange_bind q key x =
     x\<lparr>ex_routes := dput key ((case map_of (ex_routes x) key of None \<Rightarrow> [] | Some qs \<Rightarrow> qs) @ [q]) (ex_routes x)\<rparr>"

definition queue_bind :: "string \<Rightarrow> string \<Rightarrow> string \<Rightarrow> unit broker_act" where
  "queue_bind q x key b =
     (case (map_of (bk_exchanges b) x, map_of (bk_queues b) q) of
        (Some e, Some _) \<Rightarrow> (Inr (), b\<lparr>bk_exchanges := dput x (exchange_bind q key e) (bk_exchanges b)\<rparr>)
      | _ \<Rightarrow> (Inl KeyError, b))"

definition queue_push :: "json \<Rightarrow> string \<Rightarrow> broker \<Rightarrow> broker" where
  "queue_push m q b = (case map_of (bk_queues b) q of
      None \<Rightarrow> b
    | Some ms \<Rightarrow> b\<lparr>bk_queues := dput q (ms @ [m]) (bk_queues b)\<rparr>)"

text \<open>\<^verbatim>\<open>Backend.publish\<close> and \<^verbatim>\<open>Exchange.publish\<close>: a message to nobody is dropped.\<close>

definition publish :: "json \<Rightarrow> string \<Rightarrow> string \<Rightarrow> broker \<Rightarrow> broker" where
  "publish m x key b =
     (case map_of (bk_exchanges b) x of
        None \<Rightarrow> b
      | Some e \<Rightarrow> (case map_of (ex_routes e) key of None \<Rightarrow> b | Some qs \<Rightarrow> fold (queue_push m) qs b))"

definition backend_get :: "string \<Rightarrow> json option broker_act" where
  "backend_get q b = (case map_of (bk_queues b) q of
      None \<Rightarrow> (Inl KeyError, b)
    | Some [] \<Rightarrow> (Inr None, b)
    | Some (m # ms) \<Rightarrow> (Inr (Some m), b\<lparr>bk_queues := dput q ms (bk_queues b)\<rparr>))"

subsection \<open>Consumers and publishers\<close>

record consumer =
  cs_queue :: string
  cs_exchange :: string
  cs_routing_key :: string
  cs_type :: string

text \<open>\<^verbatim>\<open>Consumer.declare\<close>, for exchanges that do not match headers.\<close>

definition consumer_declare :: "consumer \<Rightarrow> unit broker_act" where
  "consumer_declare c =
     bindS (if cs_queue c \<noteq> [] then queue_declare (cs_queue c) else retS ()) (\<lambda>_.
     bindS (if cs_exchange c \<noteq> [] then exchange_declare (cs_exchange c) (cs_type c) else retS ()) (\<lambda>_.
       if cs_queue c \<noteq> [] then queue_bind (cs_queue c) (cs_exchange c) (cs_routing_key c) else retS ()))"

definition topic_consumer :: "flags \<Rightarrow> string \<Rightarrow> consumer" where
  "topic_consumer fl topic =
     \<lparr>cs_queue = topic, cs_exchange = control_exchange fl, cs_routing_key = topic, cs_type = ''topic''\<rparr>"

definition direct_consumer :: "string \<Rightarrow> consumer" where
  "direct_consumer msg_id = \<lparr>cs_queue = msg_id, cs_exchange = msg_id, cs_routing_key = msg_id, cs_type = ''direct''\<rparr>"

definition consumer_init :: "consumer \<Rightarrow> consumer broker_act" where
  "consumer_init c = bindS (consumer_declare c) (\<lambda>_. retS c)"

definition fetch :: "consumer \<Rightarrow> json option broker_act" where
  "fetch c = backend_get (cs_queue c)"

record publisher =
  pb_exchange :: string
  pb_routing_key :: string

definition publisher_init :: "string \<Rightarrow> string \<Rightarrow> string \<Rightarrow> publisher broker_act" where
  "publisher_init x ty key =
     bindS (if x \<noteq> [] then exchange_declare x ty else retS ()) (\<lambda>_. retS \<lparr>pb_exchange = x, pb_routing_key = key\<rparr>)"

definition topic_publisher :: "flags \<Rightarrow> string \<Rightarrow> publisher broker_act" where
  "topic_publisher fl topic = publisher_init (control_exchange fl) ''topic'' topic"

definition direct_publisher :: "string \<Rightarrow> publisher broker_act" where
  "direct_publisher msg_id = publisher_init msg_id ''direct'' msg_id"

definition publisher_send :: "publisher \<Rightarrow> json \<Rightarrow> unit broker_act" where
  "publisher_send p m b = (Inr (), publish m (pb_exchange p) (pb_routing_key p) b)"

subsection \<open>Calls\<close>

text \<open>A value that JSON cannot carry is sent as the texts of its attributes.\<close>

datatype reply_value = Reply_Json json | Reply_Object "(string, string) dict"

fun reply_json :: "reply_value \<Rightarrow> json" where
  "reply_json (Reply_Json j) = j"
| "reply_json (Reply_Object d) = JDict (map (\<lambda>(k, v). (k, JStr v)) d)"

definition msg_reply :: "string \<Rightarrow> reply_value \<Rightarrow> unit broker_act" where
  "msg_reply msg_id reply =
     bindS (direct_publisher msg_id) (\<lambda>p. publisher_send p (JDict [(''result'', reply_json reply)]))"

definition rpc_cast :: "flags \<Rightarrow> string \<Rightarrow> json \<Rightarrow> unit broker_act" where
  "rpc_cast fl topic msg = bindS (topic_publisher fl topic) (\<lambda>p. publisher_send p msg)"

text \<open>\<^verbatim>\<open>call\<close>: the identifier is the one that \<^verbatim>\<open>uuid4\<close> draws; the consumer for
  the reply is declared before the message is sent.\<close>

definition call :: "flags \<Rightarrow> string \<Rightarrow> string \<Rightarrow> attributes \<Rightarrow> consumer broker_act" where
  "call fl msg_id topic msg =
     bindS (consumer_init (direct_consumer msg_id)) (\<lambda>c.
     bindS (topic_publisher fl topic) (\<lambda>p.
     bindS (publisher_send p (JDict (dput ''_msg_id'' (JStr msg_id) msg))) (\<lambda>_. retS c)))"

text \<open>One round of the timer of a call: the deferred gets the message, and the timer stops.\<close>

definition call_poll :: "consumer \<Rightarrow> json option \<Rightarrow> json option broker_act" where
  "call_poll c answer = (case answer of Some x \<Rightarrow> retS (Some x) | None \<Rightarrow> fetch c)"

subsection \<open>Handing messages to an object\<close>

text \<open>
  What a method does to the state of its object and what its deferred has come to by the end of the
  call: a value, an exception, or nothing yet. An unknown method is \<open>None\<close>.
\<close>

datatype answer = Answer reply_value | Unanswered

type_synonym 's proxy = "string \<Rightarrow> (attributes \<Rightarrow> ('s, answer) act) option"

definition send_answer :: "(exc \<Rightarrow> string) \<Rightarrow> json \<Rightarrow> answer res \<Rightarrow> unit broker_act" where
  "send_answer str_e msg_id r =
     (case msg_id of
        JStr i \<Rightarrow> (case r of
            Inr (Answer v) \<Rightarrow> msg_reply i v
          | Inr Unanswered \<Rightarrow> retS ()
          | Inl e \<Rightarrow> msg_reply i (Reply_Json (JStr (str_e e))))
      | _ \<Rightarrow> retS ())"

definition receive :: "(exc \<Rightarrow> string) \<Rightarrow> 's proxy \<Rightarrow> json \<Rightarrow> ('s \<times> broker, unit) act" where
  "receive str_e proxy message_data = (\<lambda>(s, b).
     (case message_data of
        JDict d \<Rightarrow>
          (let msg_id = (case map_of d ''_msg_id'' of None \<Rightarrow> JNull | Some i \<Rightarrow> i);
               m = (case map_of d ''method'' of None \<Rightarrow> JNull | Some m \<Rightarrow> m);
               args = (case map_of d ''args'' of None \<Rightarrow> JDict [] | Some a \<Rightarrow> a)
           in if \<not> truthy m then (Inr (), s, b)
              else (case m of
                  JStr m \<Rightarrow> (case proxy m of
                      None \<Rightarrow> (Inl AttributeError, s, b)
                    | Some f \<Rightarrow> (case args of
                          JDict a \<Rightarrow>
                            (let (r, s) = f a s;
                                 (r', b) = (if truthy msg_id then send_answer str_e msg_id r b else (Inr (), b))
                             in (r', s, b))
                        | _ \<Rightarrow> (Inl AttributeError, s, b)))
                | _ \<Rightarrow> (Inl AttributeError, s, b)))
      | _ \<Rightarrow> (Inl AttributeError, s, b)))"

text \<open>One round of the timer of an \<^verbatim>\<open>AdapterConsumer\<close>; an exception is only logged.\<close>

definition poll :: "(exc \<Rightarrow> string) \<Rightarrow> 's proxy \<Rightarrow> consumer \<Rightarrow> 's \<times> broker \<Rightarrow> 's \<times> broker" where
  "poll str_e proxy c = (\<lambda>(s, b).
     (case fetch c b of
        (Inr (Some m), b) \<Rightarrow> snd (receive str_e proxy m (s, b))
      | (_, b) \<Rightarrow> (s, b)))"

end
