(* ===== verification/RpcProps.thy ===== *)
theory RpcProps
  imports Rpc
begin

text \<open>
  What the messages of \<^verbatim>\<open>rpc.py\<close> promise over the fake broker: delivery in order, as often as
  consumers were declared, and the reply to a call.
\<close>

subsection \<open>The broker's operations on one queue\<close>

definition has_queue :: "broker \<Rightarrow> string \<Rightarrow> bool" where
  "has_queue b q = has_key (bk_queues b) q"

definition has_exchange :: "broker \<Rightarrow> string \<Rightarrow> bool" where
  "has_exchange b x = has_key (bk_exchanges b) x"

definition queue_of :: "broker \<Rightarrow> string \<Rightarrow> json list" where
  "queue_of b q = (case map_of (bk_queues b) q of None \<Rightarrow> [] | Some ms \<Rightarrow> ms)"

text \<open>The queues that a message with a key goes to.\<close>

definition routes :: "broker \<Rightarrow> string \<Rightarrow> string \<Rightarrow> string list" where
  "routes b x key = (case map_of (bk_exchanges b) x of
      None \<Rightarrow> []
    | Some e \<Rightarrow> (case map_of (ex_routes e) key of None \<Rightarrow> [] | Some qs \<Rightarrow> qs))"

lemma publish_routes: "publish m x key b = fold (queue_push m) (routes b x key) b"
  by (simp add: publish_def routes_def split: option.splits)

lemma queue_push_simps [simp]:
  "bk_exchanges (queue_push m q b) = bk_exchanges b"
  "has_queue (queue_push m q b) q' = has_queue b q'"
  "queue_of (queue_push m q b) q' = (if q' = q \<and> has_queue b q then queue_of b q @ [m] else queue_of b q')"
  by (auto simp: queue_push_def queue_of_def has_queue_def split: option.splits)

lemma pushes [simp]:
  "bk_exchanges (fold (queue_push m) qs b) = bk_exchanges b"
  "has_queue (fold (queue_push m) qs b) q = has_queue b q"
  by (induction qs arbitrary: b) simp_all

lemma same_exchanges:
  "bk_exchanges b' = bk_exchanges b \<Longrightarrow> routes b' x key = routes b x key \<and> has_exchange b' x = has_exchange b x"
  by (simp add: routes_def has_exchange_def)

lemma pushes_queue:
  "has_queue b q \<Longrightarrow> queue_of (fold (queue_push m) qs b) q = queue_of b q @ replicate (count_list qs q) m"
proof (induction qs arbitrary: b)
  case (Cons p qs)
  then show ?case using Cons.IH [of "queue_push m p b"] by auto
qed simp

lemma publish_exchanges [simp]: "bk_exchanges (publish m x key b) = bk_exchanges b"
  by (simp add: publish_routes)

lemma publish_simps [simp]:
  "routes (publish m x key b) y k = routes b y k" "has_exchange (publish m x key b) y = has_exchange b y"
  by (simp_all add: same_exchanges [OF publish_exchanges])

lemma publish_queue [simp]:
  "has_queue (publish m x key b) q = has_queue b q"
  "has_queue b q \<Longrightarrow> queue_of (publish m x key b) q = queue_of b q @ replicate (count_list (routes b x key) q) m"
  by (simp_all add: publish_routes pushes_queue)

lemma exchange_declare_simps [simp]:
  "bk_queues (snd (exchange_declare x ty b)) = bk_queues b"
  "has_queue (snd (exchange_declare x ty b)) q = has_queue b q"
  "queue_of (snd (exchange_declare x ty b)) q = queue_of b q"
  "has_exchange (snd (exchange_declare x ty b)) y \<longleftrightarrow> y = x \<or> has_exchange b y"
  "routes (snd (exchange_declare x ty b)) y key = routes b y key"
  by (auto simp: exchange_declare_def routes_def has_queue_def queue_of_def has_exchange_def split: option.splits)

lemma queue_declare_simps [simp]:
  "bk_exchanges (snd (queue_declare q b)) = bk_exchanges b"
  "has_queue (snd (queue_declare q b)) p \<longleftrightarrow> p = q \<or> has_queue b p"
  "queue_of (snd (queue_declare q b)) p = queue_of b p"
  by (auto simp: queue_declare_def has_queue_def queue_of_def split: option.splits)

lemma queue_bind_known:
  assumes "has_exchange b x" and "has_queue b q"
  shows "\<exists>b'. queue_bind q x key b = (Inr (), b') \<and> bk_queues b' = bk_queues b \<and>
    (\<forall>y k. routes b' y k = (if y = x \<and> k = key then routes b x key @ [q] else routes b y k)) \<and>
    (\<forall>y. has_exchange b' y = has_exchange b y)"
proof -
  obtain e ms where e: "map_of (bk_exchanges b) x = Some e" "map_of (bk_queues b) q = Some ms"
    using assms by (auto simp: has_exchange_def has_queue_def)
  let ?b = "b\<lparr>bk_exchanges := dput x (exchange_bind q key e) (bk_exchanges b)\<rparr>"
  have "queue_bind q x key b = (Inr (), ?b)" using e by (simp add: queue_bind_def)
  moreover have "\<forall>y k. routes ?b y k = (if y = x \<and> k = key then routes b x key @ [q] else routes b y k)"
    using e by (auto simp: routes_def exchange_bind_def split: option.splits)
  moreover have "\<forall>y. has_exchange ?b y = has_exchange b y"
    using e by (simp add: has_exchange_def)
  ultimately show ?thesis by fastforce
qed

text \<open>Declaring a consumer binds its queue once more and loses no message.\<close>

lemma consumer_declare_spec:
  assumes "cs_queue c \<noteq> []" and "cs_exchange c \<noteq> []"
  shows "\<exists>b'. consumer_declare c b = (Inr (), b') \<and> has_queue b' (cs_queue c) \<and> (\<forall>q. queue_of b' q = queue_of b q) \<and>
    (\<forall>q. has_queue b q \<longrightarrow> has_queue b' q) \<and> has_exchange b' (cs_exchange c) \<and> (\<forall>x. has_exchange b x \<longrightarrow> has_exchange b' x) \<and>
    (\<forall>y k. routes b' y k = (if y = cs_exchange c \<and> k = cs_routing_key c then routes b y k @ [cs_queue c] else routes b y k))"
proof -
  define b1 where "b1 = snd (queue_declare (cs_queue c) b)"
  define b2 where "b2 = snd (exchange_declare (cs_exchange c) (cs_type c) b1)"
  have run: "queue_declare (cs_queue c) b = (Inr (), b1)" "exchange_declare (cs_exchange c) (cs_type c) b1 = (Inr (), b2)"
    by (simp_all add: b1_def b2_def queue_declare_def exchange_declare_def)
  have "bk_exchanges b1 = bk_exchanges b" by (simp add: b1_def)
  note r1 = same_exchanges [OF this]
  have q2: "has_queue b2 p \<longleftrightarrow> p = cs_queue c \<or> has_queue b p" "queue_of b2 p = queue_of b p"
      "has_exchange b2 y \<longleftrightarrow> y = cs_exchange c \<or> has_exchange b y" "routes b2 y k = routes b y k" for p y k
    by (simp_all add: b2_def b1_def r1 [unfolded b1_def])
  obtain b' where b': "queue_bind (cs_queue c) (cs_exchange c) (cs_routing_key c) b2 = (Inr (), b')"
      "bk_queues b' = bk_queues b2" "\<forall>y. has_exchange b' y = has_exchange b2 y"
      "\<forall>y k. routes b' y k = (if y = cs_exchange c \<and> k = cs_routing_key c
         then routes b2 (cs_exchange c) (cs_routing_key c) @ [cs_queue c] else routes b2 y k)"
    using queue_bind_known [of b2 "cs_exchange c" "cs_queue c" "cs_routing_key c"] q2 by blast
  have q: "has_queue b' p = has_queue b2 p" "queue_of b' p = queue_of b2 p" for p
    using b'(2) by (simp_all only: has_queue_def queue_of_def)
  have "consumer_declare c b = (Inr (), b')"
    using assms b'(1) run unfolding consumer_declare_def bindS_def by simp
  then show ?thesis using b'(3,4) by (intro exI [of _ b']) (simp add: q q2)
qed

lemma backend_get_spec:
  assumes "has_queue b q"
  shows "backend_get q b = (case queue_of b q of
      [] \<Rightarrow> (Inr None, b)
    | m # ms \<Rightarrow> (Inr (Some m), b\<lparr>bk_queues := dput q ms (bk_queues b)\<rparr>))"
  using assms by (auto simp: backend_get_def has_queue_def queue_of_def split: option.splits list.splits)

lemma dput_queue [simp]:
  "queue_of (b\<lparr>bk_queues := dput q ms (bk_queues b)\<rparr>) p = (if p = q then ms else queue_of b p)"
  "has_queue (b\<lparr>bk_queues := dput q ms (bk_queues b)\<rparr>) p \<longleftrightarrow> p = q \<or> has_queue b p"
  "routes (b\<lparr>bk_queues := dput q ms (bk_queues b)\<rparr>) x k = routes b x k"
  "has_exchange (b\<lparr>bk_queues := dput q ms (bk_queues b)\<rparr>) x = has_exchange b x"
  by (simp_all add: queue_of_def has_queue_def routes_def has_exchange_def)

subsection \<open>Delivery\<close>

text \<open>What the processes that share the broker do: send a message to a topic, start to listen to one, fetch
  from one.\<close>

datatype rpc_op = Send string json | Listen string | Fetch string

text \<open>The state after an operation, and what a fetch gave.\<close>

fun rpc_step :: "flags \<Rightarrow> rpc_op \<Rightarrow> broker \<Rightarrow> (string \<times> json) list \<times> broker" where
  "rpc_step fl (Send t m) b = ([], snd (rpc_cast fl t m b))"
| "rpc_step fl (Listen t) b = ([], snd (consumer_init (topic_consumer fl t) b))"
| "rpc_step fl (Fetch t) b = (case fetch (topic_consumer fl t) b of
     (Inr (Some m), b) \<Rightarrow> ([(t, m)], b)
   | (_, b) \<Rightarrow> ([], b))"

fun rpc_run :: "flags \<Rightarrow> rpc_op list \<Rightarrow> broker \<Rightarrow> (string \<times> json) list \<times> broker" where
  "rpc_run fl [] b = ([], b)"
| "rpc_run fl (x # xs) b =
     (let (got, b) = rpc_step fl x b; (rest, b) = rpc_run fl xs b in (got @ rest, b))"

definition got_from :: "string \<Rightarrow> (string \<times> json) list \<Rightarrow> json list" where
  "got_from t rs = map snd (filter (\<lambda>(t', m). t' = t) rs)"

text \<open>What a topic should have been sent: each message once for every consumer that was listening.\<close>

fun expected :: "nat \<Rightarrow> string \<Rightarrow> rpc_op list \<Rightarrow> json list" where
  "expected k t [] = []"
| "expected k t (Send t' m # xs) = (if t' = t then replicate k m else []) @ expected k t xs"
| "expected k t (Listen t' # xs) = expected (if t' = t then Suc k else k) t xs"
| "expected k t (Fetch t' # xs) = expected k t xs"

text \<open>A topic with \<open>k\<close> consumers; other topics are not bound to its queue.\<close>

definition listening :: "flags \<Rightarrow> string \<Rightarrow> nat \<Rightarrow> broker \<Rightarrow> bool" where
  "listening fl t k b \<longleftrightarrow> has_queue b t \<and> has_exchange b (control_exchange fl) \<and>
     (\<forall>t'. count_list (routes b (control_exchange fl) t') t = (if t' = t then k else 0))"

lemma cast_spec:
  assumes "has_queue b q" and "has_exchange b (control_exchange fl)" and "control_exchange fl \<noteq> []"
  shows "rpc_cast fl t m b = (Inr (), publish m (control_exchange fl) t b)"
proof -
  have "exchange_declare (control_exchange fl) ty b = (Inr (), b)" for ty
    using assms(2) by (simp add: exchange_declare_def has_exchange_def)
  then show ?thesis using assms(3)
    by (simp add: rpc_cast_def topic_publisher_def publisher_init_def publisher_send_def bindS_def)
qed

lemma step_delivery:
  assumes "listening fl t k b" and "control_exchange fl \<noteq> []" and "\<forall>t'. x = Listen t' \<longrightarrow> t' \<noteq> []"
    and "rpc_step fl x b = (got, b')"
  shows "got_from t got @ queue_of b' t = queue_of b t @ expected k t [x]"
    and "listening fl t (if x = Listen t then Suc k else k) b'"
proof -
  note l = assms(1) [unfolded listening_def]
  have "got_from t got @ queue_of b' t = queue_of b t @ expected k t [x] \<and> listening fl t (if x = Listen t then Suc k else k) b'"
  proof (cases x)
    case (Send t' m)
    show ?thesis using assms(4) cast_spec [of b t fl t' m] assms(2) l
      by (auto simp: Send got_from_def listening_def)
  next
    case (Listen t')
    have "cs_queue (topic_consumer fl t') \<noteq> []" "cs_exchange (topic_consumer fl t') \<noteq> []"
      using assms(2,3) Listen by (simp_all add: topic_consumer_def)
    from consumer_declare_spec [OF this, of b] obtain b2 where "consumer_declare (topic_consumer fl t') b = (Inr (), b2)"
        "\<forall>q. queue_of b2 q = queue_of b q" "\<forall>q. has_queue b q \<longrightarrow> has_queue b2 q"
        "\<forall>x. has_exchange b x \<longrightarrow> has_exchange b2 x"
        "\<forall>y k. routes b2 y k = (if y = control_exchange fl \<and> k = t' then routes b y k @ [t'] else routes b y k)"
      by (auto simp: topic_consumer_def)
    then show ?thesis using assms(4) l by (auto simp: Listen consumer_init_def bindS_def got_from_def listening_def)
  next
    case (Fetch t')
    show ?thesis
    proof (cases "t' = t")
      case True
      show ?thesis using assms(4) l
        by (cases "queue_of b t") (auto simp: Fetch True fetch_def topic_consumer_def backend_get_spec got_from_def listening_def)
    next
      case False
      have "queue_of b' t = queue_of b t \<and> has_queue b' t \<and> bk_exchanges b' = bk_exchanges b \<and> got_from t got = []"
        using assms(4) l False
        by (auto simp: Fetch fetch_def topic_consumer_def backend_get_def got_from_def queue_of_def has_queue_def
            split: option.splits list.splits prod.splits sum.splits)
      then show ?thesis using l same_exchanges [of b' b] by (simp add: Fetch listening_def)
    qed
  qed
  then show "got_from t got @ queue_of b' t = queue_of b t @ expected k t [x]" "listening fl t (if x = Listen t then Suc k else k) b'"
    by blast+
qed

lemma got_from_append [simp]: "got_from t (a @ b) = got_from t a @ got_from t b"
  by (simp add: got_from_def)

lemma expected_Cons: "expected k t (x # xs) = expected k t [x] @ expected (if x = Listen t then Suc k else k) t xs"
  by (cases x) auto

text \<open>C7: Whatever the processes that share the broker do, in whatever order, what was fetched from a
  topic followed by what is still in its queue is what was there, followed by every message sent to the topic, in
  the order of sending and once for every consumer that had been declared for it by then: exactly once if there is
  one consumer, and twice if a second process listens to the same topic.\<close>

theorem rpc_delivery:
  assumes "listening fl t k b" and "control_exchange fl \<noteq> []" and "Listen [] \<notin> set xs"
    and "rpc_run fl xs b = (got, b')"
  shows "got_from t got @ queue_of b' t = queue_of b t @ expected k t xs"
  using assms
proof (induction xs arbitrary: k b got)
  case Nil
  then show ?case by (simp add: got_from_def)
next
  case (Cons x xs)
  obtain g1 b1 where s: "rpc_step fl x b = (g1, b1)" by fastforce
  obtain g2 b2 where r: "rpc_run fl xs b1 = (g2, b2)" by fastforce
  have g: "got = g1 @ g2" "b2 = b'" using Cons.prems(4) s r by auto
  have ne: "\<forall>t'. x = Listen t' \<longrightarrow> t' \<noteq> []" using Cons.prems(3) by auto
  note st = step_delivery [OF Cons.prems(1,2) ne s]
  have "got_from t g2 @ queue_of b' t = queue_of b1 t @ expected (if x = Listen t then Suc k else k) t xs"
    using Cons.IH [OF st(2) Cons.prems(2)] Cons.prems(3) r g(2) by simp
  then show ?case using st(1) unfolding g(1) expected_Cons [of k t x xs] by simp
qed

definition demo_rpc_ops :: "string \<Rightarrow> rpc_op list" where
  "demo_rpc_ops t = [Send t (JInt 1), Send t (JInt 2), Fetch t, Listen t, Send t (JInt 3), Fetch t, Fetch t]"

theorem rpc_delivery_witness:
  "got_from ''compute'' (fst (rpc_run (default_flags [] []) (demo_rpc_ops ''compute'')
     (snd (consumer_init (topic_consumer (default_flags [] []) ''compute'') broker_init)))) = [JInt 1, JInt 2, JInt 3]"
proof -
  let ?b = "snd (consumer_init (topic_consumer (default_flags [] []) ''compute'') broker_init)"
  let ?ops = "demo_rpc_ops ''compute''"
  have b: "?b = \<lparr>bk_exchanges = [(''nova'', \<lparr>ex_type = ''topic'', ex_routes = [(''compute'', [''compute''])]\<rparr>)],
      bk_queues = [(''compute'', [])]\<rparr>"
    by code_simp
  have l: "listening (default_flags [] []) ''compute'' 1 ?b"
    unfolding b listening_def has_queue_def has_exchange_def routes_def by (simp add: default_flags_def)
  obtain got b' where r: "rpc_run (default_flags [] []) ?ops ?b = (got, b')" by fastforce
  have "queue_of (snd (rpc_run (default_flags [] []) ?ops ?b)) ''compute'' = [JInt 3]" by code_simp
  moreover have "expected 1 ''compute'' ?ops = [JInt 1, JInt 2, JInt 3, JInt 3]" by code_simp
  moreover have "queue_of ?b ''compute'' = []" by (simp add: b queue_of_def)
  ultimately have "got_from ''compute'' got @ [JInt 3] = [JInt 1, JInt 2, JInt 3] @ [JInt 3]"
    using rpc_delivery [OF l _ _ r] r by (simp add: default_flags_def demo_rpc_ops_def)
  then show ?thesis using r by simp
qed

subsection \<open>Calls\<close>

text \<open>C15: A call to a topic that one consumer serves, with an empty queue and a new identifier, is
  answered: after the consumer has handed the message to the method, which gets exactly the arguments that were sent,
  the first fetch of the caller gives what the method returned, or the text of its exception.\<close>

theorem call_reply:
  assumes "listening fl t 1 b" and "queue_of b t = []" and "control_exchange fl \<noteq> []"
    and "mid \<noteq> []" and "mid \<noteq> control_exchange fl" and "\<not> has_exchange b mid" and "\<not> has_queue b mid"
    and "mid \<notin> set (routes b (control_exchange fl) t)" and "m \<noteq> []" and "proxy m = Some f" and "f a s = (r, s')" and "r \<noteq> Inr Unanswered"
  shows "\<exists>c b1. call fl mid t [(''method'', JStr m), (''args'', JDict a)] b = (Inr c, b1) \<and>
    (let (s2, b2) = poll str_e proxy (topic_consumer fl t) (s, b1) in
     s2 = s' \<and> (\<exists>b3. call_poll c None b2 =
       (Inr (Some (JDict [(''result'', case r of Inr (Answer v) \<Rightarrow> reply_json v | Inl e \<Rightarrow> JStr (str_e e) | _ \<Rightarrow> JNull)])), b3)))"
proof -
  let ?x = "control_exchange fl" and ?c = "direct_consumer mid"
  let ?m = "JDict [(''method'', JStr m), (''args'', JDict a), (''_msg_id'', JStr mid)]"
  let ?v = "case r of Inr (Answer v) \<Rightarrow> reply_json v | Inl e \<Rightarrow> JStr (str_e e) | _ \<Rightarrow> JNull"
  note l = assms(1) [unfolded listening_def]
  have "mid \<noteq> t" using l assms(7) by auto
  have r0: "routes b mid mid = []" using assms(6) by (simp add: routes_def has_exchange_def)
  have q0: "queue_of b mid = []" using assms(7) by (simp add: queue_of_def has_queue_def)
  obtain b0 where b0: "consumer_declare ?c b = (Inr (), b0)" "has_queue b0 mid" "\<forall>q. queue_of b0 q = queue_of b q"
      "\<forall>q. has_queue b q \<longrightarrow> has_queue b0 q" "has_exchange b0 mid" "\<forall>x. has_exchange b x \<longrightarrow> has_exchange b0 x"
      "\<forall>y k. routes b0 y k = (if y = mid \<and> k = mid then routes b y k @ [mid] else routes b y k)"
    using consumer_declare_spec [of ?c b] assms(4) by (auto simp: direct_consumer_def)
  have h: "has_queue b0 t" "has_exchange b0 ?x" using b0(4,6) l by blast+
  let ?b1 = "publish ?m ?x t b0"
  have "exchange_declare ?x ty b0 = (Inr (), b0)" for ty
    using h(2) by (simp add: exchange_declare_def has_exchange_def)
  then have call: "call fl mid t [(''method'', JStr m), (''args'', JDict a)] b = (Inr ?c, ?b1)"
    using b0(1) assms(3)
    by (simp add: call_def consumer_init_def topic_publisher_def publisher_init_def publisher_send_def bindS_def)
  have q1: "queue_of ?b1 t = [?m]" "queue_of ?b1 mid = []" "has_queue ?b1 t" "has_queue ?b1 mid"
    using h b0 l assms(2,5,8) \<open>mid \<noteq> t\<close> q0 by (simp_all add: count_list_0_iff)
  define b1 where "b1 = ?b1\<lparr>bk_queues := dput t [] (bk_queues ?b1)\<rparr>"
  have f1: "fetch (topic_consumer fl t) ?b1 = (Inr (Some ?m), b1)"
    using backend_get_spec [OF q1(3)] q1(1) by (simp add: fetch_def topic_consumer_def b1_def)
  have e1: "has_exchange b1 mid" "has_queue b1 mid" "queue_of b1 mid = []" "routes b1 mid mid = [mid]"
    using q1 b0 \<open>mid \<noteq> t\<close> r0 by (simp_all add: b1_def)
  have d1: "exchange_declare mid ty b1 = (Inr (), b1)" for ty
    using e1(1) by (simp add: exchange_declare_def has_exchange_def)
  have reply: "msg_reply mid w b1 = (Inr (), publish (JDict [(''result'', reply_json w)]) mid mid b1)" for w
    using assms(4) d1 by (simp add: msg_reply_def direct_publisher_def publisher_init_def publisher_send_def bindS_def)
  define b2 where "b2 = publish (JDict [(''result'', ?v)]) mid mid b1"
  have "send_answer str_e (JStr mid) r b1 = (Inr (), b2)"
    using assms(12) reply by (auto simp: send_answer_def b2_def split: sum.splits answer.splits)
  then have p: "poll str_e proxy (topic_consumer fl t) (s, ?b1) = (s', b2)"
    using assms(4,9,10,11) f1 by (simp add: poll_def receive_def Let_def)
  have "queue_of b2 mid = [JDict [(''result'', ?v)]]" "has_queue b2 mid" using e1 by (simp_all add: b2_def)
  then have "call_poll ?c None b2 = (Inr (Some (JDict [(''result'', ?v)])), b2\<lparr>bk_queues := dput mid [] (bk_queues b2)\<rparr>)"
    using backend_get_spec [of b2 mid] by (simp add: call_poll_def fetch_def direct_consumer_def)
  then show ?thesis using call p by auto
qed

definition demo_proxy :: "nat proxy" where
  "demo_proxy m = (if m = ''noop'' then Some (\<lambda>a s. (Inr (Answer (Reply_Json (JStr ''PONG''))), Suc s)) else None)"

theorem call_reply_witness:
  "\<exists>c b1. call (default_flags [] []) ''0f'' ''compute'' [(''method'', JStr ''noop''), (''args'', JDict [])]
       (snd (consumer_init (topic_consumer (default_flags [] []) ''compute'') broker_init)) = (Inr c, b1) \<and>
     (\<exists>b3. call_poll c None (snd (poll (\<lambda>_. []) demo_proxy (topic_consumer (default_flags [] []) ''compute'') (0, b1))) =
       (Inr (Some (JDict [(''result'', JStr ''PONG'')])), b3))"
proof -
  let ?b = "snd (consumer_init (topic_consumer (default_flags [] []) ''compute'') broker_init)"
  have b: "?b = \<lparr>bk_exchanges = [(''nova'', \<lparr>ex_type = ''topic'', ex_routes = [(''compute'', [''compute''])]\<rparr>)],
      bk_queues = [(''compute'', [])]\<rparr>"
    by code_simp
  have l: "listening (default_flags [] []) ''compute'' 1 ?b"
    unfolding b listening_def has_queue_def has_exchange_def routes_def by (simp add: default_flags_def)
  define fl where "fl = default_flags [] []"
  have fl: "control_exchange fl = ''nova''" by (simp add: fl_def default_flags_def)
  define f where "f = (\<lambda>(a :: attributes) s. (Inr (Answer (Reply_Json (JStr ''PONG''))) :: answer res, Suc s))"
  have p: "demo_proxy ''noop'' = Some f" by (simp add: demo_proxy_def f_def)
  have f: "f [] 0 = (Inr (Answer (Reply_Json (JStr ''PONG''))), Suc 0)" by (simp add: f_def)
  have "\<exists>c b1. call fl ''0f'' ''compute'' [(''method'', JStr ''noop''), (''args'', JDict [])] ?b = (Inr c, b1) \<and>
    (let (s2, b2) = poll (\<lambda>_. []) demo_proxy (topic_consumer fl ''compute'') (0, b1) in
     s2 = Suc 0 \<and> (\<exists>b3. call_poll c None b2 = (Inr (Some (JDict [(''result'',
       case (Inr (Answer (Reply_Json (JStr ''PONG''))) :: answer res) of Inr (Answer v) \<Rightarrow> reply_json v | Inl e \<Rightarrow> JStr [] | _ \<Rightarrow> JNull)])), b3)))"
    using l unfolding fl_def [symmetric] b [folded fl_def]
    by (rule call_reply [where f = f and str_e = "\<lambda>_. []" and proxy = demo_proxy and s' = "Suc 0"
      and r = "Inr (Answer (Reply_Json (JStr ''PONG'')))"]) (use p f in \<open>simp_all add: fl b [folded fl_def] queue_of_def has_exchange_def has_queue_def routes_def\<close>)
  then show ?thesis unfolding fl_def Let_def split_beta by auto
qed

end
