(* ===== verification/CloudRun.thy ===== *)
theory CloudRun
  imports Cloud
begin

text \<open>
  The second half of \<^verbatim>\<open>endpoint/cloud.py\<close>: listing, starting and ending
  instances, addresses, images, the VPN instances of the users, and the reports of the nodes.
\<close>

subsection \<open>Listing instances\<close>

text \<open>\<^verbatim>\<open>_convert_to_set\<close>: iterating over a text gives its characters and over a
  dictionary its keys.\<close>

fun convert_to_set :: "json \<Rightarrow> string \<Rightarrow> json res" where
  "convert_to_set JNull k = Inr JNull"
| "convert_to_set (JList []) k = Inr JNull"
| "convert_to_set (JList xs) k = Inr (JList (map (\<lambda>x. JDict [(k, x)]) xs))"
| "convert_to_set (JStr s) k = Inr (JList (map (\<lambda>c. JDict [(k, JStr [c])]) s))"
| "convert_to_set (JDict d) k = Inr (JList (map (\<lambda>x. JDict [(k, JStr x)]) (keys d)))"
| "convert_to_set _ k = Inl TypeError"

definition state_names :: "(int \<times> string) list" where
  "state_names = [(NOSTATE, ''pending''), (RUNNING, ''running''), (2, ''blocked''), (3, ''paused''),
     (SHUTDOWN, ''shutdown''), (SHUTOFF, ''shutoff''), (6, ''crashed'')]"

fun state_name :: "json \<Rightarrow> string res" where
  "state_name (JInt i) = dget state_names i"
| "state_name (JBool b) = dget state_names (if b then 1 else 0)"
| "state_name j = (if hashable j then Inl KeyError else Inl TypeError)"

definition public_ip_of :: "flags \<Rightarrow> json \<Rightarrow> string option cloud_act" where
  "public_ip_of fl instance_id = on_network (case instance_id of
      JStr i \<Rightarrow> get_public_ip_for_instance fl i
    | _ \<Rightarrow> bindS (describe_addresses fl Public) (\<lambda>_. retS None))"

text \<open>One entry of the list. The values printed with the name of the key are scalar.\<close>

definition format_instance :: "flags \<Rightarrow> user \<Rightarrow> string \<Rightarrow> attributes \<Rightarrow> json cloud_act" where
  "format_instance fl u nname inst =
     (let instance_id = get0 inst ''instance_id''; state = get0 inst ''state''; private_name = get0 inst ''private_dns_name'' in
      bindS (liftR (state_name state)) (\<lambda>sname.
      bindS (public_ip_of fl instance_id) (\<lambda>ip.
      bindS (liftR (convert_to_set (get0 inst ''product_codes'') ''product_code'')) (\<lambda>codes.
        retS (JDict
          [(''instance_id'', instance_id),
           (''image_id'', get0 inst ''image_id''),
           (''instance_state'', JDict [(''code'', state), (''name'', JStr sname)]),
           (''public_dns_name'', case ip of Some (c # cs) \<Rightarrow> JStr (c # cs) | _ \<Rightarrow> private_name),
           (''private_dns_name'', private_name),
           (''dns_name'', get0 inst ''dns_name''),
           (''key_name'', if u_admin u
              then JStr (json_scalar_text (get0 inst ''key_name'') @ '' ('' @ json_scalar_text (get0 inst ''owner_id'') @ '', '' @ nname @ '')'')
              else get0 inst ''key_name''),
           (''product_codes_set'', codes),
           (''instance_type'', get0 inst ''instance_type''),
           (''launch_time'', get0 inst ''launch_time''),
           (''ami_launch_index'', get0 inst ''ami_launch_index'')])))))"

text \<open>The reservations so far: the entry without its instances, and the instances.\<close>

type_synonym reservations = "(json, attributes \<times> json list) dict"

definition add_to_reservation :: "json \<Rightarrow> attributes \<Rightarrow> json \<Rightarrow> reservations \<Rightarrow> reservations res" where
  "add_to_reservation res_id inst i rs =
     (case map_of rs res_id of
        Some (r, is) \<Rightarrow> Inr (dput res_id (r, is @ [i]) rs)
      | None \<Rightarrow> bindR (convert_to_set (get0 inst ''groups'') ''group_id'') (\<lambda>groups.
          Inr (dput res_id ([(''reservation_id'', res_id), (''owner_id'', get0 inst ''owner_id''), (''group_set'', groups)], [i]) rs)))"

definition reservation_of :: "attributes \<Rightarrow> json" where
  "reservation_of inst = (case map_of inst ''reservation_id'' of None \<Rightarrow> JStr ''Unknown'' | Some r \<Rightarrow> r)"

fun format_loop :: "flags \<Rightarrow> user \<Rightarrow> json option \<Rightarrow> (string \<times> attributes) list \<Rightarrow> reservations \<Rightarrow> reservations cloud_act" where
  "format_loop fl u rid [] rs = retS rs"
| "format_loop fl u rid ((nname, inst) # insts) rs =
     bindS (authorized u ''owner_id'' inst) (\<lambda>a.
     bindS (if a \<and> (rid = None \<or> rid = Some (reservation_of inst))
            then bindS (format_instance fl u nname inst) (\<lambda>i. liftR (add_to_reservation (reservation_of inst) inst i rs))
            else retS rs) (\<lambda>rs.
       format_loop fl u rid insts rs))"

definition format_instances :: "flags \<Rightarrow> user \<Rightarrow> json option \<Rightarrow> json cloud_act" where
  "format_instances fl u rid cl =
     bindS (format_loop fl u rid (node_items (cl_instances cl)) []) (\<lambda>rs.
       retS (JDict [(''reservationSet'', JList (map (\<lambda>(r, is). JDict (r @ [(''instances_set'', JList is)])) (vals rs)))])) cl"

definition cloud_describe_instances :: "flags \<Rightarrow> user \<Rightarrow> json cloud_act" where
  "cloud_describe_instances fl u = format_instances fl u None"

subsection \<open>Addresses\<close>

definition format_address :: "user \<Rightarrow> host \<Rightarrow> json" where
  "format_address u h =
     (let i = (case h_assoc h of None \<Rightarrow> ''free'' | Some (_, i) \<Rightarrow> i) in
      JDict [(''public_ip'', JStr (h_address h)),
             (''instance_id'', JStr (if u_admin u then i @ '' ('' @ h_user_id h @ '')'' else i))])"

fun format_addresses_loop :: "user \<Rightarrow> host list \<Rightarrow> json list res" where
  "format_addresses_loop u [] = Inr []"
| "format_addresses_loop u (h # hs) =
     bindR (is_authorized u (Some (h_user_id h)) None) (\<lambda>a.
     bindR (format_addresses_loop u hs) (\<lambda>rest. Inr ((if a then [format_address u h] else []) @ rest)))"

definition format_addresses :: "flags \<Rightarrow> user \<Rightarrow> json cloud_act" where
  "format_addresses fl u =
     bindS (on_network (describe_addresses fl Public)) (\<lambda>hs.
     bindS (liftR (format_addresses_loop u hs)) (\<lambda>addresses. retS (JDict [(''addressesSet'', JList addresses)])))"

definition cloud_allocate_address :: "flags \<Rightarrow> user \<Rightarrow> json cloud_act" where
  "cloud_allocate_address fl u =
     bindS (on_network (allocate_address fl (u_id u) None Public)) (\<lambda>(address, network_name).
       retS (JDict [(''addressSet'', JList [JDict [(''publicIp'', JStr address)]])]))"

text \<open>Without \<^verbatim>\<open>public_ip\<close> the network is asked about \<^verbatim>\<open>None\<close>, which is no address.\<close>

definition cloud_release_address :: "flags \<Rightarrow> string option \<Rightarrow> json cloud_act" where
  "cloud_release_address fl public_ip =
     bindS (case public_ip of None \<Rightarrow> raiseS TypeError | Some ip \<Rightarrow> on_network (deallocate_address fl ip)) (\<lambda>_.
       retS (JDict [(''releaseResponse'', JList [JStr ''Address released.''])]))"

definition cloud_associate_address :: "flags \<Rightarrow> string \<Rightarrow> string option \<Rightarrow> json cloud_act" where
  "cloud_associate_address fl instance_id public_ip =
     bindS (get_instance instance_id) (\<lambda>(node, inst).
     bindS (liftR (case public_ip of None \<Rightarrow> Inl KeyError | Some ip \<Rightarrow> Inr ip)) (\<lambda>ip.
     bindS (liftR (bindR (dget inst ''private_dns_name'') jstr)) (\<lambda>private_name.
     bindS (on_network (associate_address fl ip private_name instance_id)) (\<lambda>_.
       retS (JDict [(''associateResponse'', JList [JStr ''Address associated.''])])))))"

definition cloud_disassociate_address :: "flags \<Rightarrow> string option \<Rightarrow> unit cloud_act" where
  "cloud_disassociate_address fl public_ip =
     (case public_ip of None \<Rightarrow> raiseS KeyError | Some ip \<Rightarrow> on_network (disassociate_address fl ip))"

subsection \<open>Starting instances\<close>

text \<open>The keyword arguments are one dictionary, which every step changes.\<close>

definition create_reservation :: "flags \<Rightarrow> user \<Rightarrow> attributes \<Rightarrow> attributes cloud_act" where
  "create_reservation fl u ls =
     bindS (on_cloud_world (\<lambda>w. let (r, w) = generate_uid ''r'' w in (Inr (r, clock w (trace w)), w))) (\<lambda>(r, time).
     let ls = dput ''launch_time'' (JStr time) (dput ''reservation_id'' (JStr r) (dput ''owner_id'' (JStr (u_id u)) ls)) in
     case map_of ls ''key_name'' of
       None \<Rightarrow> retS ls
     | Some key_name \<Rightarrow>
         bindS (\<lambda>cl. (get_key_pair fl (store (cloud_world cl)) (u_id u) (json_scalar_text key_name), cl)) (\<lambda>k. case k of
             None \<Rightarrow> raiseS (ApiError (''Key Pair '' @ json_scalar_text key_name @ '' not found'') ''Unknown'')
           | Some kp \<Rightarrow> retS (dput ''key_data'' (JStr (kp_public_key kp)) ls)))"

definition really_run_instance :: "flags \<Rightarrow> user \<Rightarrow> attributes \<Rightarrow> int \<Rightarrow> attributes cloud_act" where
  "really_run_instance fl u ls idx =
     bindS (on_cloud_world (\<lambda>w. let (i, w) = generate_uid ''i'' w in (Inr i, w))) (\<lambda>i.
     let ls = dput ''ami_launch_index'' (JInt idx) (dput ''instance_id'' (JStr i) ls) in
     bindS (on_network (get_users_network fl (u_id u))) (\<lambda>n.
     let ls = dput ''bridge_name'' (JStr (n_bridge_name n)) (dput ''network_str'' (JDict (net_to_dict n)) ls) in
     bindS (rpc_call (compute_topic fl) ''run_instance'' ls) (\<lambda>_. retS ls)))"

definition new_mac :: "string cloud_act" where
  "new_mac = on_cloud_world (\<lambda>w. let (m, w) = generate_mac w in (Inr m, w))"

text \<open>The new instance as the controller lists it until a node reports it.\<close>

definition add_pending :: "attributes \<Rightarrow> (string, attributes) dict \<Rightarrow> (string, attributes) dict" where
  "add_pending ls pending = dput (json_scalar_text (get0 ls ''instance_id'')) (dput ''state'' (JInt NOSTATE) ls) pending"

definition launch_one :: "flags \<Rightarrow> user \<Rightarrow> attributes \<Rightarrow> int \<Rightarrow> attributes cloud_act" where
  "launch_one fl u ls num =
     bindS new_mac (\<lambda>mac.
     bindS (on_network (allocate_address fl (u_id u) (Some mac) Private)) (\<lambda>(address, network_name).
       really_run_instance fl u (dput ''private_dns_name'' (JStr address)
         (dput ''network_name'' (JStr network_name) (dput ''mac_address'' (JStr mac) ls))) num))"

fun launch_loop :: "flags \<Rightarrow> user \<Rightarrow> attributes \<Rightarrow> int list \<Rightarrow> (string, attributes) dict \<Rightarrow>
    (attributes \<times> (string, attributes) dict) cloud_act" where
  "launch_loop fl u ls [] pending = retS (ls, pending)"
| "launch_loop fl u ls (num # nums) pending =
     bindS (launch_one fl u ls num) (\<lambda>ls. launch_loop fl u ls nums (add_pending ls pending))"

fun as_count :: "json \<Rightarrow> int res" where
  "as_count (JInt i) = Inr i"
| "as_count (JBool b) = Inr (if b then 1 else 0)"
| "as_count (JStr s) = py_int s"
| "as_count _ = Inl TypeError"

definition store_pending :: "(string, attributes) dict \<Rightarrow> nodes \<Rightarrow> nodes" where
  "store_pending pending ns =
     (let old = (case map_of ns ''pending'' of None \<Rightarrow> [] | Some d \<Rightarrow> d)
      in dput ''pending'' (fold (\<lambda>(i, x). dput i x) pending old) ns)"

definition put_pending :: "(string, attributes) dict \<Rightarrow> unit cloud_act" where
  "put_pending pending cl = (Inr (), cl\<lparr>cl_instances := store_pending pending (cl_instances cl)\<rparr>)"

definition run_instances :: "flags \<Rightarrow> user \<Rightarrow> attributes \<Rightarrow> json cloud_act" where
  "run_instances fl u kwargs =
     bindS (create_reservation fl u kwargs) (\<lambda>ls.
     bindS (liftR (bindR (dget ls ''max_count'') as_count)) (\<lambda>n.
     bindS (launch_loop fl u ls [0..n - 1] []) (\<lambda>(ls, pending).
     bindS (put_pending pending) (\<lambda>_.
     bindS (liftR (dget ls ''reservation_id'')) (\<lambda>r. format_instances fl u (Some r))))))"

definition run_vpn_instance :: "flags \<Rightarrow> user \<Rightarrow> attributes \<Rightarrow> unit cloud_act" where
  "run_vpn_instance fl u kwargs =
     bindS (create_reservation fl u
       (dput ''owner_id'' (JStr (u_id u)) (dput ''image_id'' (JStr (vpn_image_id fl)) kwargs))) (\<lambda>ls.
     bindS new_mac (\<lambda>mac.
     bindS (on_network (get_cloudpipe_address fl (u_id u) (Some mac))) (\<lambda>(address, network_name).
     bindS (really_run_instance fl u (dput ''private_dns_name'' (JStr address)
       (dput ''network_name'' (JStr network_name) (dput ''mac_address'' (JStr mac) ls))) 0) (\<lambda>ls.
       put_pending (add_pending ls [])))))"

subsection \<open>Ending and restarting instances\<close>

text \<open>The second part of each round: every exception of the network is ignored.\<close>

definition drop_address :: "flags \<Rightarrow> attributes \<Rightarrow> unit cloud_act" where
  "drop_address fl inst =
     (case (case map_of inst ''public_dns_name'' of None \<Rightarrow> JStr ''bork'' | Some v \<Rightarrow> v) of
        JStr ip \<Rightarrow> catchS (on_network (disassociate_address fl ip)) (retS ())
      | _ \<Rightarrow> retS ())"

definition terminate_one :: "flags \<Rightarrow> user \<Rightarrow> string \<Rightarrow> unit cloud_act" where
  "terminate_one fl u i =
     bindS (get_instance i) (\<lambda>(node, inst).
     if node = ''pending'' then raiseS (ApiError ''Cannot terminate pending instance'' ''Unknown'')
     else bindS (authorized u ''owner_id'' inst) (\<lambda>a.
       bindS (if a then cast (node_topic (compute_topic fl) node) ''terminate_instance'' [(''instance_id'', JStr i)] else retS ()) (\<lambda>_.
         drop_address fl inst)))"

definition terminate_instances :: "flags \<Rightarrow> user \<Rightarrow> string list \<Rightarrow> json cloud_act" where
  "terminate_instances fl u ids = bindS (forS ids (terminate_one fl u)) (\<lambda>_. retS (JBool True))"

text \<open>\<^verbatim>\<open>FLAGS.node_topic\<close> is not defined, so that building the topic raises.\<close>

definition reboot_one :: "user \<Rightarrow> string \<Rightarrow> unit cloud_act" where
  "reboot_one u i =
     bindS (get_instance i) (\<lambda>(node, inst).
     if node = ''pending'' then raiseS (ApiError ''Cannot reboot pending instance'' ''Unknown'')
     else bindS (authorized u ''owner_id'' inst) (\<lambda>a.
       if a then raiseS AttributeError else retS ()))"

definition reboot_instances :: "user \<Rightarrow> string list \<Rightarrow> json cloud_act" where
  "reboot_instances u ids = bindS (forS ids (reboot_one u)) (\<lambda>_. retS (JBool True))"

subsection \<open>Images\<close>

fun filter_images :: "string list \<Rightarrow> json list \<Rightarrow> json list res" where
  "filter_images ids [] = Inr []"
| "filter_images ids (i # is) =
     bindR (jget i ''imageId'') (\<lambda>k.
     bindR (filter_images ids is) (\<lambda>rest. Inr (if k \<in> set (map JStr ids) then i # rest else rest)))"

definition describe_images :: "user \<Rightarrow> string list option \<Rightarrow> json cloud_act" where
  "describe_images u image_id =
     bindS (on_cloud_world (images_list u)) (\<lambda>image_set.
     bindS (case image_id of
         None \<Rightarrow> retS image_set
       | Some ids \<Rightarrow> liftR (bindR (jlist image_set) (\<lambda>is. bindR (filter_images ids is) (\<lambda>is. Inr (JList is))))) (\<lambda>is.
       retS (JDict [(''imagesSet'', is)])))"

definition deregister_image :: "user \<Rightarrow> string \<Rightarrow> json cloud_act" where
  "deregister_image u image_id =
     bindS (on_cloud_world (images_deregister u image_id)) (\<lambda>_. retS (JDict [(''imageId'', JStr image_id)]))"

definition register_image :: "user \<Rightarrow> string option \<Rightarrow> string option \<Rightarrow> json cloud_act" where
  "register_image u image_location name =
     bindS (on_cloud_world (images_register u (case image_location of None \<Rightarrow> name | Some l \<Rightarrow> Some l))) (\<lambda>image_id.
       retS (JDict [(''imageId'', JStr image_id)]))"

definition modify_image_attribute :: "user \<Rightarrow> string \<Rightarrow> string \<Rightarrow> string \<Rightarrow> string list option \<Rightarrow> json cloud_act" where
  "modify_image_attribute u image_id attr operation_type user_group =
     (if attr \<noteq> ''launchPermission'' then raiseS (ApiError ''only launchPermission is supported'' ''Unknown'')
      else case user_group of
        None \<Rightarrow> raiseS KeyError
      | Some [] \<Rightarrow> raiseS IndexError
      | Some (g # gs) \<Rightarrow>
          if gs \<noteq> [] \<and> g \<noteq> ''all'' then raiseS (ApiError (''only group '' @ [CHR 0x22] @ ''all'' @ [CHR 0x22] @ '' is supported'') ''Unknown'')
          else if operation_type \<notin> {''add'', ''delete''} then raiseS (ApiError ''operation_type must be add or delete'' ''Unknown'')
          else bindS (on_cloud_world (images_modify u image_id operation_type)) (\<lambda>b. retS (JBool b)))"

subsection \<open>The VPN instances of the users\<close>

fun find_vpn :: "flags \<Rightarrow> string \<Rightarrow> attributes list \<Rightarrow> attributes option res" where
  "find_vpn fl username [] = Inr None"
| "find_vpn fl username (i # is) =
     bindR (dget i ''image_id'') (\<lambda>img.
     if img \<noteq> JStr (vpn_image_id fl) then find_vpn fl username is else
     bindR (dget i ''state'') (\<lambda>state.
     if state \<notin> {JInt NOSTATE, JInt RUNNING} then find_vpn fl username is else
     bindR (dget i ''owner_id'') (\<lambda>owner.
     if owner \<noteq> JStr username then find_vpn fl username is else Inr (Some i))))"

definition vpn_running_instance :: "flags \<Rightarrow> string \<Rightarrow> cloud \<Rightarrow> attributes option res" where
  "vpn_running_instance fl username cl = find_vpn fl username (map snd (node_items (cl_instances cl)))"

definition is_vpn_running :: "flags \<Rightarrow> string \<Rightarrow> cloud \<Rightarrow> bool res" where
  "is_vpn_running fl username cl =
     bindR (vpn_running_instance fl username cl) (\<lambda>i. Inr (case i of None \<Rightarrow> False | Some d \<Rightarrow> d \<noteq> []))"

text \<open>
  \<^verbatim>\<open>CloudPipe\<close>: \<open>payload\<close> is the archive with the boot script, as the
  library writes it in base 64, \<open>crypto\<close> the key material. A private key is a text, without the
  method by which it would be saved, and every exception about the key is ignored.
\<close>

definition setup_keypair :: "flags \<Rightarrow> string \<times> string \<times> string \<Rightarrow> string \<Rightarrow> unit cloud_act" where
  "setup_keypair fl crypto username = catchS
     (bindS (on_cloud_world (on_store (generate_key_pair fl crypto username ''vpn-key''))) (\<lambda>_.
      bindS (on_cloud_world (os_call (Makedirs (keys_path fl @ ''/'' @ username)) OSError)) (\<lambda>_.
        raiseS AttributeError)))
     (retS ())"

definition launch_vpn_instance :: "flags \<Rightarrow> string \<times> string \<times> string \<Rightarrow> string \<Rightarrow> string \<Rightarrow> unit cloud_act" where
  "launch_vpn_instance fl crypto payload username =
     bindS (on_cloud_world (lookup_user fl username)) (\<lambda>u.
     bindS (on_cloud_world (\<lambda>w. (Inr (), emit Mkdtemp w))) (\<lambda>_.
     bindS (setup_keypair fl crypto username) (\<lambda>_. case u of
         None \<Rightarrow> raiseS AttributeError
       | Some u \<Rightarrow> run_vpn_instance fl u
           [(''user_data'', JStr payload), (''key_name'', JStr ''vpn-key''), (''security_groups'', JList [JStr ''vpn-secgroup''])])))"

definition ensure_vpn :: "flags \<Rightarrow> string \<times> string \<times> string \<Rightarrow> string \<Rightarrow> user \<Rightarrow> unit cloud_act" where
  "ensure_vpn fl crypto payload u =
     bindS (\<lambda>cl. (is_vpn_running fl (u_name u) cl, cl)) (\<lambda>r.
       if r then retS () else launch_vpn_instance fl crypto payload (u_name u))"

definition ensure_VPN_connections :: "flags \<Rightarrow> string \<times> string \<times> string \<Rightarrow> string \<Rightarrow> unit cloud_act" where
  "ensure_VPN_connections fl crypto payload =
     bindS (\<lambda>cl. (get_users fl (store (cloud_world cl)), cl)) (\<lambda>us. forS us (ensure_vpn fl crypto payload))"

definition cloudcron :: "flags \<Rightarrow> string \<times> string \<times> string \<Rightarrow> string \<Rightarrow> unit cloud_act" where
  "cloudcron fl crypto payload = ensure_VPN_connections fl crypto payload"

subsection \<open>Reports\<close>

text \<open>
  \<^verbatim>\<open>update_state\<close>: the items of one node replace what was known of it, and none of
  them is pending any more. Other attributes of the controller than the two dictionaries have no
  \<^verbatim>\<open>has_key\<close>.
\<close>

definition merge_report :: "string \<Rightarrow> (string, attributes) dict \<Rightarrow> nodes \<Rightarrow> nodes" where
  "merge_report nname items ns =
     dput nname items
       (case map_of ns ''pending'' of
          None \<Rightarrow> ns
        | Some p \<Rightarrow> dput ''pending'' (fold ddel (keys items) p) ns)"

definition update_state :: "string \<Rightarrow> nodes \<Rightarrow> json cloud_act" where
  "update_state topic report cl =
     (if topic \<notin> {''instances'', ''volumes''} then (Inl AttributeError, cl)
      else case report of
        [] \<Rightarrow> (Inl IndexError, cl)
      | (nname, items) # _ \<Rightarrow>
          (Inr (JBool True),
           if topic = ''instances'' then cl\<lparr>cl_instances := merge_report nname items (cl_instances cl)\<rparr>
           else cl\<lparr>cl_volumes := merge_report nname items (cl_volumes cl)\<rparr>))"

end
