(* ===== verification/Volume.thy ===== *)
theory Volume
  imports Datastore
begin

text \<open>
  \<^verbatim>\<open>nova/volume/storage.py\<close>: volumes as objects that are loaded from and saved
  to the keeper, and the block store that creates, attaches, detaches, deletes and lists them. What
  \<^verbatim>\<open>FakeVolume\<close> overrides of \<^verbatim>\<open>Volume\<close> is a record of methods, the
  argument \<open>be\<close> of the operations; a locale states what they rely on.
\<close>

subsection \<open>Volume objects\<close>

record volume =
  v_id :: "string option"
  v_status :: string
  v_mountpoint :: "string option"
  v_instance_id :: "string option"
  v_aoe_device :: "string option"
  v_size :: json
  v_user_id :: "string option"

text \<open>The overridden methods, with the parts of the object they read.\<close>

record backend =
  be_create_lv :: "string \<Rightarrow> json \<Rightarrow> world \<Rightarrow> world"
  be_setup_export :: "string \<Rightarrow> (world, string) act"
  be_remove_export :: "string option \<Rightarrow> world \<Rightarrow> world"
  be_delete_lv :: "string \<Rightarrow> world \<Rightarrow> world"
  be_get_aoe_device :: "volume \<Rightarrow> (world, volume \<times> string option) act"

text \<open>\<^verbatim>\<open>"%s" % x\<close> for a value that may be \<^verbatim>\<open>None\<close>, and for a size.\<close>

subsection \<open>ATA over Ethernet numbers\<close>

definition char_at_end :: "string \<Rightarrow> nat \<Rightarrow> char res" where
  "char_at_end s n = (if n \<le> length s then Inr (s ! (length s - n)) else Inl IndexError)"

text \<open>The arithmetic of \<^verbatim>\<open>get_next_aoe_numbers\<close> on the last line of the
  listing: one digit from the third place from the end, one from the last.\<close>

definition next_aoe :: "string \<Rightarrow> (int \<times> int) res" where
  "next_aoe listing =
     (let last_aoe = last (py_split CHR ''\<newline>'' (strip is_space listing));
          last_aoe = (if last_aoe = [] then ''e0.0'' else last_aoe) in
      bindR (bindR (char_at_end last_aoe 3) (\<lambda>c. py_int [c])) (\<lambda>shelf_id.
      bindR (bindR (char_at_end last_aoe 1) (\<lambda>c. py_int [c])) (\<lambda>blade.
        Inr (if blade + 1 > 8 then (shelf_id + 1, 0) else (shelf_id, blade + 1)))))"

definition get_next_aoe_numbers :: "(world, int \<times> int) act" where
  "get_next_aoe_numbers w =
     (let (out, w) = execute ''sudo ls -1 /var/lib/vblade-persist/vblades/'' None w in (next_aoe (fst out), w))"

definition aoe_name :: "int \<Rightarrow> int \<Rightarrow> string" where
  "aoe_name shelf_id blade_id = ''e'' @ str_int shelf_id @ ''.'' @ str_int blade_id"

text \<open>The generator \<^verbatim>\<open>get_aoe_devices\<close> and the search through it: a line with
  fewer than three fields raises when the search reaches it.\<close>

fun find_aoe_line :: "string \<Rightarrow> string list \<Rightarrow> string option res" where
  "find_aoe_line path [] = Inr None"
| "find_aoe_line path (aoe # aoes) =
     (let bits = py_split CHR '' '' aoe in
      if length bits < 3 then Inl IndexError
      else if last bits = path then Inr (Some (bits ! (length bits - 3)))
      else find_aoe_line path aoes)"

definition find_aoe_device :: "string \<Rightarrow> (world, string option) act" where
  "find_aoe_device path w =
     (let (out, w) = execute ''sudo ls -al /dev/etherd/e*.*'' None w
      in (find_aoe_line path (py_split CHR ''\<newline>'' (strip is_space (fst out))), w))"

subsection \<open>The two kinds of volume\<close>

definition lv_path :: "flags \<Rightarrow> string \<Rightarrow> string" where
  "lv_path fl volume_id = ''/dev/'' @ volume_group fl @ ''/'' @ volume_id"

text \<open>\<^verbatim>\<open>self.aoe_device[1]\<close> and \<^verbatim>\<open>[3]\<close>; an exception is caught by
  the caller.\<close>

definition real_remove_export :: "string option \<Rightarrow> world \<Rightarrow> world" where
  "real_remove_export aoe w = (case aoe of
      None \<Rightarrow> w
    | Some d \<Rightarrow> if length d \<le> 3 then w
        else runthis (''sudo vblade-persist destroy '' @ [d ! 1] @ '' '' @ [d ! 3])
            (runthis (''sudo vblade-persist stop '' @ [d ! 1] @ '' '' @ [d ! 3]) w))"

text \<open>\<^verbatim>\<open>get_aoe_device\<close>: an empty device text counts as none, and a device that
  is found stays in the object.\<close>

definition real_get_aoe_device :: "flags \<Rightarrow> volume \<Rightarrow> (world, volume \<times> string option) act" where
  "real_get_aoe_device fl v =
     (if v_aoe_device v \<noteq> None \<and> v_aoe_device v \<noteq> Some [] then retS (v, v_aoe_device v)
      else bindS (find_aoe_device (lv_path fl (opt_text (v_id v)))) (\<lambda>d. case d of
          None \<Rightarrow> retS (v, None)
        | Some a \<Rightarrow> retS (v\<lparr>v_aoe_device := Some a\<rparr>, Some a)))"

definition real_backend :: "flags \<Rightarrow> backend" where
  "real_backend fl = \<lparr>
     be_create_lv = (\<lambda>i size. runthis (''sudo lvcreate -L '' @ json_scalar_text size @ '' -n '' @ i @ '' '' @ volume_group fl)),
     be_setup_export = (\<lambda>i. bindS get_next_aoe_numbers (\<lambda>(s, b).
        (\<lambda>w. (Inr (aoe_name s b),
              runthis (''sudo vblade-persist setup '' @ str_int s @ '' '' @ str_int b @ '' '' @ aoe_eth_dev fl @ '' '' @
                       lv_path fl i) w)))),
     be_remove_export = real_remove_export,
     be_delete_lv = (\<lambda>i. runthis (''sudo lvremove -f '' @ volume_group fl @ ''/'' @ i)),
     be_get_aoe_device = real_get_aoe_device fl \<rparr>"

definition fake_backend :: backend where
  "fake_backend = \<lparr>
     be_create_lv = (\<lambda>i size w. w),
     be_setup_export = (\<lambda>i w. (let (s, w) = draw 7 w; (b, w) = draw 10 w in (Inr (aoe_name (int s) (int b)), w))),
     be_remove_export = (\<lambda>aoe w. w),
     be_delete_lv = (\<lambda>i w. w),
     be_get_aoe_device = (\<lambda>v. retS (v, v_aoe_device v)) \<rparr>"

subsection \<open>Loading and saving\<close>

definition volume_json :: "volume \<Rightarrow> json" where
  "volume_json v = JDict
     [(''user_id'', opt_json (v_user_id v)), (''status'', JStr (v_status v)), (''size'', v_size v),
      (''mountpoint'', opt_json (v_mountpoint v)), (''instance_id'', opt_json (v_instance_id v)),
      (''aoe_device'', opt_json (v_aoe_device v))]"

definition volume_save :: "volume \<Rightarrow> (world, unit) act" where
  "volume_save v w =
     (Inr (), w\<lparr>store := kset storage_prefix (opt_text (v_id v)) (volume_json v) (store w)\<rparr>)"

definition keeper_delete :: "string option \<Rightarrow> world \<Rightarrow> world" where
  "keeper_delete i w = w\<lparr>store := kdel storage_prefix (opt_text i) (store w)\<rparr>"

text \<open>\<^verbatim>\<open>load\<close>: a missing item leaves the object as it is.\<close>

definition volume_load :: "string option \<Rightarrow> volume \<Rightarrow> (world, volume) act" where
  "volume_load i v w =
     (let state = kget storage_prefix (store w) (opt_text i) in
      (if \<not> truthy state then Inr v
       else
         bindR (bindR (jget state ''user_id'') jopt) (\<lambda>u.
         bindR (bindR (jget state ''status'') jstr) (\<lambda>st.
         bindR (jget state ''size'') (\<lambda>sz.
         bindR (bindR (jget state ''mountpoint'') jopt) (\<lambda>m.
         bindR (bindR (jget state ''instance_id'') jopt) (\<lambda>ins.
         bindR (bindR (jget state ''aoe_device'') jopt) (\<lambda>a.
           Inr \<lparr>v_id = i, v_status = st, v_mountpoint = m, v_instance_id = ins, v_aoe_device = a,
                v_size = sz, v_user_id = u\<rparr>)))))), w))"

definition create_new :: "backend \<Rightarrow> json \<Rightarrow> volume \<Rightarrow> (world, volume) act" where
  "create_new be sz v w =
     (let (i, w) = generate_uid ''vol'' w;
          v = v\<lparr>v_size := sz, v_id := Some i\<rparr>;
          w = be_create_lv be i sz w in
      bindS (be_setup_export be i) (\<lambda>aoe.
        let v = v\<lparr>v_aoe_device := Some aoe, v_status := ''available''\<rparr> in
        bindS (volume_save v) (\<lambda>_. retS v)) w)"

definition blank_volume :: "string option \<Rightarrow> volume" where
  "blank_volume user_id = \<lparr>v_id = None, v_status = ''unknown'', v_mountpoint = None, v_instance_id = None,
     v_aoe_device = None, v_size = JInt 0, v_user_id = user_id\<rparr>"

text \<open>\<^verbatim>\<open>Volume(volume_id, size, user_id)\<close>. A volume without a device is dropped
  from the keeper, under the name that the object has, which is \<^verbatim>\<open>None\<close> when nothing was
  loaded.\<close>

definition volume_init :: "backend \<Rightarrow> string option \<Rightarrow> json \<Rightarrow> string option \<Rightarrow> (world, volume) act" where
  "volume_init be volume_id sz user_id =
     bindS (case volume_id of
         None \<Rightarrow> retS (blank_volume user_id)
       | Some i \<Rightarrow>
           if i = [] then retS (blank_volume user_id)
           else
             bindS (volume_load (Some i) (blank_volume user_id)) (\<lambda>v.
             bindS (be_get_aoe_device be v) (\<lambda>(v, aoe).
               if aoe = None then
                 (\<lambda>w. (Inl (Error (''Volume does not exist or is not exported: '' @ i)), keeper_delete (v_id v) w))
               else retS v))) (\<lambda>v.
     if truthy sz then
       (if v_id v \<noteq> None \<and> v_id v \<noteq> Some []
        then raiseS (Error (''Redeclaring sz of volume: '' @ opt_text volume_id @ '' is impossible''))
        else create_new be sz v)
     else retS v)"

definition volume_attach :: "string \<Rightarrow> string \<Rightarrow> volume \<Rightarrow> (world, unit) act" where
  "volume_attach instance_id mountpoint v =
     volume_save (v\<lparr>v_instance_id := Some instance_id, v_mountpoint := Some mountpoint, v_status := ''attached''\<rparr>)"

definition volume_detach :: "volume \<Rightarrow> (world, unit) act" where
  "volume_detach v =
     volume_save (v\<lparr>v_instance_id := None, v_mountpoint := None, v_status := ''available''\<rparr>)"

definition volume_delete :: "backend \<Rightarrow> volume \<Rightarrow> (world, unit) act" where
  "volume_delete be v =
     bindS (be_get_aoe_device be v) (\<lambda>(v, _).
       (\<lambda>w. (Inr (), keeper_delete (v_id v)
              (be_delete_lv be (opt_text (v_id v)) (be_remove_export be (v_aoe_device v) w)))))"

subsection \<open>The block store\<close>

text \<open>The class: the fake one also keeps a list of the identifiers it knows.\<close>

record block_store =
  bs_backend :: backend
  bs_fake :: bool
  bs_volumes :: "string list"
  bs_world :: world

type_synonym 'a bs_act = "(block_store, 'a) act"

definition bs_act :: "(backend \<Rightarrow> (world, 'a) act) \<Rightarrow> 'a bs_act" where
  "bs_act m b = (let (r, w) = m (bs_backend b) (bs_world b) in (r, b\<lparr>bs_world := w\<rparr>))"

definition bs_get :: "(block_store \<Rightarrow> 'a) \<Rightarrow> 'a bs_act" where
  "bs_get f b = (Inr (f b), b)"

definition volume_class :: "flags \<Rightarrow> backend" where
  "volume_class fl = (if fake_storage fl then fake_backend else real_backend fl)"

definition restart_exports :: "flags \<Rightarrow> unit bs_act" where
  "restart_exports fl b =
     (Inr (), if bs_fake b \<or> fake_storage fl then b
       else b\<lparr>bs_world := runthis ''sudo aoe-discover'' (runthis ''sudo vblade-persist start all''
              (runthis ''sudo vblade-persist auto all'' (bs_world b)))\<rparr>)"

definition block_store_init :: "flags \<Rightarrow> bool \<Rightarrow> world \<Rightarrow> block_store" where
  "block_store_init fl fake w =
     \<lparr>bs_backend = volume_class fl, bs_fake = fake, bs_volumes = [],
      bs_world = (if fake \<or> fake_storage fl then w
        else runthis (''sudo vgcreate '' @ volume_group fl @ '' '' @ storage_dev fl)
            (runthis (''sudo pvcreate '' @ storage_dev fl) w))\<rparr>"

text \<open>What \<^verbatim>\<open>create_volume\<close> returns: each getter loads the object again.\<close>

record volume_info =
  vi_user_id :: "string option"
  vi_volume_id :: "string option"
  vi_size :: json
  vi_aoe_device :: "string option"
  vi_status :: string

definition volume_report :: "backend \<Rightarrow> volume \<Rightarrow> (world, volume \<times> volume_info) act" where
  "volume_report be v =
     bindS (volume_load (v_id v) v) (\<lambda>v. let user_id = v_user_id v in
     bindS (volume_load (v_id v) v) (\<lambda>v. let size = v_size v in
     bindS (be_get_aoe_device be v) (\<lambda>(v, aoe).
     bindS (volume_load (v_id v) v) (\<lambda>v.
       retS (v, \<lparr>vi_user_id = user_id, vi_volume_id = v_id v, vi_size = size, vi_aoe_device = aoe,
                vi_status = v_status v\<rparr>)))))"

text \<open>
  The fake store asks the answer, a dictionary, for an attribute \<^verbatim>\<open>volume_id\<close> that
  dictionaries do not have.
\<close>

definition create_volume :: "flags \<Rightarrow> json \<Rightarrow> string \<Rightarrow> volume_info bs_act" where
  "create_volume fl sz user_id =
     bindS (bs_act (\<lambda>be. volume_init be None sz (Some user_id))) (\<lambda>vol.
     bindS (restart_exports fl) (\<lambda>_.
     bindS (bs_act (\<lambda>be. volume_report be vol)) (\<lambda>(_, info).
     bindS (bs_get bs_fake) (\<lambda>fake. if fake then raiseS AttributeError else retS info))))"

definition get_volume :: "string \<Rightarrow> volume bs_act" where
  "get_volume volume_id = bs_act (\<lambda>be. volume_init be (Some volume_id) JNull None)"

definition list_remove :: "string \<Rightarrow> unit bs_act" where
  "list_remove x b = (if x \<in> set (bs_volumes b) then (Inr (), b\<lparr>bs_volumes := remove1 x (bs_volumes b)\<rparr>)
     else (Inl ValueError, b))"

definition delete_volume :: "string \<Rightarrow> unit bs_act" where
  "delete_volume volume_id =
     bindS (get_volume volume_id) (\<lambda>v.
     bindS (bs_act (\<lambda>be. volume_delete be v)) (\<lambda>_.
     bindS (bs_get bs_fake) (\<lambda>fake. if fake then list_remove volume_id else retS ())))"

text \<open>\<^verbatim>\<open>loop_volumes\<close> is a generator: the third field of each line of
  \<^verbatim>\<open>lvs\<close> that has more than one; a line of two raises when it is reached.\<close>

definition lvs_items :: "string list \<Rightarrow> string res list" where
  "lvs_items lvs = map (\<lambda>lv. let fields = py_split CHR '' '' lv in if length fields = 2 then Inl IndexError else Inr (fields ! 2))
     (filter (\<lambda>lv. length (py_split CHR '' '' lv) > 1) lvs)"

definition loop_volumes :: "string res list bs_act" where
  "loop_volumes b =
     (if bs_fake b then (Inr (map Inr (bs_volumes b)), b)
      else (let (out, w) = popen_output [''sudo'', ''lvs'', ''--noheadings''] (bs_world b)
            in (Inr (lvs_items (py_split CHR ''\<newline>'' out)), b\<lparr>bs_world := w\<rparr>)))"

definition described_volume :: "string \<Rightarrow> volume \<Rightarrow> volume_info \<Rightarrow> json" where
  "described_volume volume_id v info = JDict
     [(''user_id'', opt_json (vi_user_id info)), (''volume_id'', JStr volume_id), (''size'', vi_size info),
      (''aoe_device'', opt_json (vi_aoe_device info)), (''availability_zone'', JStr ''nova''),
      (''status'', JStr (vi_status info)), (''instance_id'', opt_json (v_instance_id v)),
      (''mountpoint'', opt_json (v_mountpoint v)), (''create_time'', JStr ''1''), (''attachment_set'', JList [])]"

text \<open>A volume whose constructor raises is left out.\<close>

fun describe_loop :: "string res list \<Rightarrow> (string, json) dict \<Rightarrow> (string, json) dict bs_act" where
  "describe_loop [] volumes = retS volumes"
| "describe_loop (Inl e # is) volumes = raiseS e"
| "describe_loop (Inr i # is) volumes =
     bindS (catchS (bindS (get_volume i) (\<lambda>v. retS (Some v))) (retS None)) (\<lambda>v. case v of
         None \<Rightarrow> describe_loop is volumes
       | Some vol \<Rightarrow>
           bindS (bs_act (\<lambda>be. volume_report be vol)) (\<lambda>(vol, info).
             describe_loop is (dput i (described_volume i vol info) volumes)))"

definition describe_volumes :: "flags \<Rightarrow> json bs_act" where
  "describe_volumes fl =
     bindS loop_volumes (\<lambda>is.
     bindS (describe_loop is []) (\<lambda>volumes. retS (JDict [(storage_name fl, JDict volumes)])))"

definition report_state :: "flags \<Rightarrow> unit bs_act" where
  "report_state fl =
     bindS (describe_volumes fl) (\<lambda>value.
     bs_act (\<lambda>be w. (Inr (), emit (Cast ''cloud'' (JDict
       [(''method'', JStr ''update_state''),
        (''args'', JDict [(''topic'', JStr ''volumes''), (''value'', value)])])) w)))"

definition attach_volume :: "flags \<Rightarrow> string \<Rightarrow> string \<Rightarrow> string \<Rightarrow> unit bs_act" where
  "attach_volume fl volume_id instance_id mountpoint =
     bindS (get_volume volume_id) (\<lambda>v.
     bindS (bs_act (\<lambda>be. volume_attach instance_id mountpoint v)) (\<lambda>_. report_state fl))"

definition detach_volume :: "flags \<Rightarrow> string \<Rightarrow> unit bs_act" where
  "detach_volume fl volume_id =
     bindS (get_volume volume_id) (\<lambda>v.
     bindS (bs_act (\<lambda>be. volume_detach v)) (\<lambda>_. report_state fl))"

subsection \<open>The numbers of the next export\<close>

definition aoe_listing :: "(int \<times> int) list \<Rightarrow> string" where
  "aoe_listing ns = concat (map (\<lambda>(s, b). aoe_name s b @ ''\<newline>'') ns)"

lemma str_nat_last: "\<exists>p. str_nat n = p @ [digit (n mod 10)]"
  by (subst str_nat.simps) auto

lemma py_int_digit: "k < 10 \<Longrightarrow> py_int [digit k] = Inr (int k)"
  using py_int_str_nat [of k] by (subst (asm) str_nat.simps) simp

lemma aoe_name_shape:
  assumes "0 \<le> s" and "0 \<le> b" and "b < 10"
  shows "\<exists>p. aoe_name s b = CHR ''e'' # p @ [digit (nat s mod 10), CHR ''.'', digit (nat b)]"
proof -
  obtain p where "str_nat (nat s) = p @ [digit (nat s mod 10)]" using str_nat_last by blast
  moreover have "str_nat (nat b) = [digit (nat b)]" using assms by (subst str_nat.simps) auto
  ultimately show ?thesis using assms by (auto simp: aoe_name_def str_int_nonneg)
qed

lemma aoe_name_chars:
  assumes "0 \<le> s" and "0 \<le> b" and "c \<in> set (aoe_name s b)"
  shows "\<not> is_space c"
proof -
  have "c = CHR ''e'' \<or> c = CHR ''.'' \<or> is_digit c"
    using assms str_nat_digits by (auto simp: aoe_name_def str_int_nonneg)
  then show ?thesis using digit_not_special(1) by (auto simp: is_space_def)
qed

lemma py_join_first: "\<exists>r. py_join sep (x # xs) = x @ r"
  by (cases xs) auto

lemma py_join_last: "\<exists>u. py_join sep (xs @ [x]) = u @ x"
proof (induction xs)
  case (Cons y ys)
  then obtain u where u: "py_join sep (ys @ [x]) = u @ x" by blast
  have "py_join sep (y # (ys @ [x])) = (y @ sep @ u) @ x"
    by (cases ys) (use u in auto)
  then show ?case by (metis append_Cons)
qed simp

lemma aoe_listing_last:
  assumes "\<forall>(s, b) \<in> set (ns @ [(s, b)]). 0 \<le> s \<and> 0 \<le> b"
  shows "last (py_split CHR ''\<newline>'' (strip is_space (aoe_listing (ns @ [(s, b)])))) = aoe_name s b"
proof -
  let ?lines = "map (\<lambda>(s, b). aoe_name s b) (ns @ [(s, b)])"
  have join: "aoe_listing ms = py_join ''\<newline>'' (map (\<lambda>(s, b). aoe_name s b) ms) @ ''\<newline>''" if "ms \<noteq> []" for ms
    using that
  proof (induction ms)
    case (Cons m ms)
    then show ?case by (cases ms; cases m) (auto simp: aoe_listing_def)
  qed simp
  let ?text = "py_join ''\<newline>'' ?lines"
  obtain m ms where m: "?lines = m # ms" "\<exists>t. m = CHR ''e'' # t" by (cases ns) (auto simp: aoe_name_def)
  obtain r where "py_join ''\<newline>'' (m # ms) = m @ r" using py_join_first by blast
  then obtain t where t: "?text = CHR ''e'' # t" using m(2) unfolding m(1) by auto
  have "\<exists>u. ?text = u @ aoe_name s b"
    using py_join_last [of "''\<newline>''" "map (\<lambda>(s, b). aoe_name s b) ns" "aoe_name s b"] by simp
  then obtain u where u: "?text = u @ aoe_name s b" by blast
  have space: "is_space CHR ''\<newline>''" "\<not> is_space CHR ''e''" by (simp_all add: is_space_def)
  have "aoe_name s b \<noteq> []" by (simp add: aoe_name_def)
  then obtain a z where z: "aoe_name s b = a @ [z]" by (metis append_butlast_last_id)
  then have "\<not> is_space z" using aoe_name_chars [of s b z] assms by auto
  have "lstrip is_space (?text @ ''\<newline>'') = ?text @ ''\<newline>''"
    unfolding t by (rule lstrip_id) (auto simp: space)
  moreover have "lstrip is_space (rev (?text @ ''\<newline>'')) = rev ?text"
    unfolding u z using \<open>\<not> is_space z\<close> space by simp
  ultimately have "strip is_space (?text @ ''\<newline>'') = ?text" by (simp add: strip_def)
  moreover have "CHR ''\<newline>'' \<notin> set x" if "x \<in> set ?lines" for x
    using that assms aoe_name_chars [of _ _ "CHR ''\<newline>''"] space by fastforce
  then have "py_split CHR ''\<newline>'' ?text = ?lines" by (intro py_split_join) auto
  ultimately show ?thesis by (simp add: join [of "ns @ [(s, b)]"])
qed



lemma snd_bindS_store:
  assumes "\<And>s. store (snd (m s)) = store s" and "\<And>x s. store (snd (g x s)) = store s"
  shows "store (snd (bindS m g s)) = store (s :: world)"
  using assms by (auto simp: bindS_def split: prod.splits sum.splits) (metis snd_conv)+

subsection \<open>What a volume relies on\<close>

text \<open>
  No method of the record writes to the datastore, and a volume that has a device answers with it.
  The laws hold for the real volumes and for the fake ones.
\<close>

locale volume_backend =
  fixes be :: backend
  assumes create_lv_store: "store (be_create_lv be i sz w) = store w"
    and setup_export_store: "store (snd (be_setup_export be i w)) = store w"
    and setup_export_device: "be_setup_export be i w = (Inr a, w') \<Longrightarrow> a \<noteq> []"
    and remove_export_store: "store (be_remove_export be d w) = store w"
    and delete_lv_store: "store (be_delete_lv be i w) = store w"
    and get_aoe_store: "store (snd (be_get_aoe_device be v w)) = store w"
    and get_aoe_id: "be_get_aoe_device be v w = (Inr (v', r), w') \<Longrightarrow> v_id v' = v_id v"
    and get_aoe_known: "v_aoe_device v = Some a \<Longrightarrow> a \<noteq> [] \<Longrightarrow> be_get_aoe_device be v w = (Inr (v, Some a), w)"

definition stored_volume :: "world \<Rightarrow> string \<Rightarrow> volume \<Rightarrow> bool" where
  "stored_volume w i v \<longleftrightarrow> i \<noteq> [] \<and> v_id v = Some i \<and> v_aoe_device v \<noteq> None \<and> v_aoe_device v \<noteq> Some [] \<and>
     kget ''storage'' (store w) i = volume_json v"

lemma volume_load_json:
  assumes "kget ''storage'' (store w) (opt_text i) = volume_json v" and "v_id v = i"
  shows "volume_load i u w = (Inr v, w)"
  using assms by (cases v) (simp add: volume_load_def volume_json_def)

lemma volume_load_world [simp]: "snd (volume_load i v w) = w"
  by (simp add: volume_load_def Let_def)

context volume_backend
begin

lemma init_stored:
  assumes "stored_volume w i v"
  shows "volume_init be (Some i) JNull u w = (Inr v, w)"
proof -
  obtain a where a: "v_aoe_device v = Some a" "a \<noteq> []" using assms by (auto simp: stored_volume_def)
  have "volume_load (Some i) (blank_volume u) w = (Inr v, w)"
    using assms by (intro volume_load_json) (auto simp: stored_volume_def opt_text_def)
  then show ?thesis
    using assms get_aoe_known [OF a] a by (simp add: volume_init_def bindS_def stored_volume_def)
qed

lemma info_stored:
  assumes "stored_volume w i v"
  shows "volume_report be v w = (Inr (v, \<lparr>vi_user_id = v_user_id v, vi_volume_id = Some i, vi_size = v_size v,
    vi_aoe_device = v_aoe_device v, vi_status = v_status v\<rparr>), w)"
proof -
  obtain a where a: "v_aoe_device v = Some a" "a \<noteq> []" using assms by (auto simp: stored_volume_def)
  have "volume_load (v_id v) v w = (Inr v, w)"
    using assms by (intro volume_load_json) (auto simp: stored_volume_def opt_text_def)
  then show ?thesis
    using assms get_aoe_known [OF a] a by (simp add: volume_report_def bindS_def stored_volume_def)
qed

lemma save_stored:
  assumes "v_id v = Some i" "i \<noteq> []" "v_aoe_device v \<noteq> None" "v_aoe_device v \<noteq> Some []"
  shows "\<exists>w'. volume_save v w = (Inr (), w') \<and> stored_volume w' i v \<and>
    (\<forall>j u. j \<noteq> i \<longrightarrow> stored_volume w' j u = stored_volume w j u)"
  using assms by (auto simp: volume_save_def stored_volume_def opt_text_def)

text \<open>Constructing a volume object never loses another volume that is stored with a device.\<close>

lemma init_keeps:
  assumes st: "stored_volume w j x" and j: "j \<noteq> ''None''"
  shows "stored_volume (snd (volume_init be (Some i) JNull u w)) j x"
proof (cases "i = j")
  case True
  then show ?thesis using init_stored [OF st] st by simp
next
  case False
  show ?thesis
  proof (cases "i = []")
    case True
    then show ?thesis using st by (simp add: volume_init_def)
  next
    case i: False
    obtain r where r: "volume_load (Some i) (blank_volume u) w = (r, w)"
      using volume_load_world [of "Some i" "blank_volume u" w] by (metis prod.collapse)
    show ?thesis
    proof (cases r)
      case (Inl e)
      then show ?thesis using r i st by (simp add: volume_init_def bindS_def)
    next
      case (Inr v)
      have id: "v_id v = None \<or> v_id v = Some i"
        using r Inr by (auto simp: volume_load_def Let_def blank_volume_def split: if_splits)
      obtain q w1 where q: "be_get_aoe_device be v w = (q, w1)" by fastforce
      have w1: "store w1 = store w" using get_aoe_store [of v w] q by simp
      have "store (snd (volume_init be (Some i) JNull u w)) \<in>
          {store w, kdel ''storage'' ''None'' (store w), kdel ''storage'' i (store w)}"
        using i r Inr q w1 id get_aoe_id [of v w]
        by (cases q) (auto simp: volume_init_def bindS_def keeper_delete_def opt_text_def)
      then show ?thesis using st j False by (auto simp: stored_volume_def)
    qed
  qed
qed

lemma info_store: "store (snd (volume_report be v w)) = store w"
proof -
  have load: "store (snd (volume_load i v w)) = store w" for i v w by simp
  show ?thesis
    unfolding volume_report_def Let_def
    by (intro snd_bindS_store load) (auto simp: get_aoe_store split: prod.splits intro!: snd_bindS_store)
qed

lemma create_new_stored:
  assumes "create_new be sz v w = (Inr v', w')" and "v_user_id v = u" and "v_mountpoint v = None" and "v_instance_id v = None"
  shows "\<exists>i. stored_volume w' i v' \<and> v_status v' = ''available'' \<and> v_size v' = sz \<and> v_user_id v' = u \<and>
    v_mountpoint v' = None \<and> v_instance_id v' = None \<and> (\<exists>cs. i = ''vol-'' @ cs \<and> length cs = 8) \<and>
    (\<forall>j x. j \<noteq> i \<longrightarrow> stored_volume w' j x = stored_volume w j x)"
proof -
  obtain i w1 where i: "generate_uid ''vol'' w = (i, w1)" by fastforce
  obtain cs where cs: "i = ''vol-'' @ cs" "length cs = 8" using generate_uid_shape [of "''vol''" w] i by auto
  have w1: "store w1 = store w" using generate_uid_world(1) [of "''vol''" w] i by simp
  let ?w2 = "be_create_lv be i sz w1"
  obtain aoe w3 where aoe: "be_setup_export be i ?w2 = (Inr aoe, w3)"
    using assms(1) i by (auto simp: create_new_def bindS_Inr)
  have w3: "store w3 = store w" using setup_export_store [of i ?w2] aoe create_lv_store w1 by simp
  have v': "v' = v\<lparr>v_size := sz, v_id := Some i, v_aoe_device := Some aoe, v_status := ''available''\<rparr>"
      "w' = w3\<lparr>store := kset ''storage'' i (volume_json v') (store w3)\<rparr>"
    using assms(1) i aoe by (auto simp: create_new_def bindS_def volume_save_def opt_text_def Let_def)
  have "stored_volume w' i v'"
    using cs setup_export_device [OF aoe] v' by (auto simp: stored_volume_def)
  moreover have "stored_volume w' j x = stored_volume w j x" if "j \<noteq> i" for j x
    using that v'(2) w3 by (auto simp: stored_volume_def)
  ultimately show ?thesis using v'(1) cs assms(2-4) by auto
qed

end

lemma get_next_aoe_store [simp]: "store (snd (get_next_aoe_numbers w)) = store w"
  by (simp add: get_next_aoe_numbers_def case_prod_beta)

lemma find_aoe_device_store [simp]: "store (snd (find_aoe_device p w)) = store w"
  by (simp add: find_aoe_device_def case_prod_beta)

interpretation real: volume_backend "real_backend fl" for fl
proof unfold_locales
  fix i w
  show "store (snd (be_setup_export (real_backend fl) i w)) = store w"
  proof -
    obtain r w1 where g: "get_next_aoe_numbers w = (r, w1)" by fastforce
    then have "store w1 = store w" using get_next_aoe_store [of w] by simp
    then show ?thesis using g by (cases r) (auto simp: real_backend_def bindS_def)
  qed
next
  fix v w
  show "store (snd (be_get_aoe_device (real_backend fl) v w)) = store w"
  proof -
    obtain r w1 where g: "find_aoe_device (lv_path fl (opt_text (v_id v))) w = (r, w1)" by fastforce
    then have "store w1 = store w" using find_aoe_device_store [of "lv_path fl (opt_text (v_id v))" w] by simp
    then show ?thesis
      using g by (cases r) (auto simp: real_backend_def real_get_aoe_device_def bindS_def split: option.splits)
  qed
qed (auto simp: real_backend_def real_remove_export_def real_get_aoe_device_def aoe_name_def bindS_Inr
    split: option.splits if_splits)

interpretation fake: volume_backend fake_backend
  by unfold_locales (auto simp: fake_backend_def aoe_name_def Let_def case_prod_beta)

lemma volume_class_backend: "volume_backend (volume_class fl)"
  by (simp add: volume_class_def real.volume_backend_axioms fake.volume_backend_axioms)

interpretation vol: volume_backend "volume_class fl" for fl
  by (rule volume_class_backend)

subsection \<open>The block store keeps the volumes it does not touch\<close>

definition bs_ok :: "flags \<Rightarrow> block_store \<Rightarrow> bool" where
  "bs_ok fl b \<longleftrightarrow> bs_backend b = volume_class fl"

lemma get_volume_stored:
  assumes "bs_ok fl b" and "stored_volume (bs_world b) i v"
  shows "get_volume i b = (Inr v, b)"
  using vol.init_stored [OF assms(2), of fl None] assms(1) by (simp add: get_volume_def bs_act_def bs_ok_def)

lemma get_volume_keeps:
  assumes "bs_ok fl b" and "stored_volume (bs_world b) j x" and "j \<noteq> ''None''"
  shows "bs_ok fl (snd (get_volume i b)) \<and> stored_volume (bs_world (snd (get_volume i b))) j x"
  using vol.init_keeps [OF assms(2,3), of fl i None] assms(1)
  by (simp add: get_volume_def bs_act_def bs_ok_def case_prod_beta)

lemma bs_info_keeps:
  assumes "bs_ok fl b" and "stored_volume (bs_world b) j x"
  shows "bs_ok fl (snd (bs_act (\<lambda>be. volume_report be v) b)) \<and>
    stored_volume (bs_world (snd (bs_act (\<lambda>be. volume_report be v) b))) j x"
  using vol.info_store [of fl v "bs_world b"] assms
  by (simp add: bs_act_def bs_ok_def case_prod_beta stored_volume_def)

lemma describe_loop_keeps:
  assumes "bs_ok fl b" and "stored_volume (bs_world b) j x" and "j \<noteq> ''None''"
  shows "bs_ok fl (snd (describe_loop is vs b)) \<and> stored_volume (bs_world (snd (describe_loop is vs b))) j x"
  using assms(1,2)
proof (induction "is" vs arbitrary: b rule: describe_loop.induct)
  case (3 i "is" vs)
  obtain r b1 where g: "get_volume i b = (r, b1)" by fastforce
  have b1: "bs_ok fl b1" "stored_volume (bs_world b1) j x"
    using get_volume_keeps [OF 3(3,4) assms(3), of i] g by simp_all
  show ?case
  proof (cases r)
    case (Inl e)
    then show ?thesis using 3(1) [OF b1] g by (simp add: bindS_def catchS_def)
  next
    case (Inr v)
    obtain q b2 where q: "bs_act (\<lambda>be. volume_report be v) b1 = (q, b2)" by fastforce
    have b2: "bs_ok fl b2" "stored_volume (bs_world b2) j x"
      using bs_info_keeps [OF b1, of v] q by simp_all
    show ?thesis
    proof (cases q)
      case (Inl e)
      then show ?thesis using g Inr q b2 by (simp add: bindS_def catchS_def)
    next
      case (Inr p)
      then show ?thesis
        using 3(2) [OF b2] g \<open>r = Inr v\<close> q by (cases p) (simp add: bindS_def catchS_def)
    qed
  qed
qed simp_all

lemma report_state_keeps:
  assumes "bs_ok fl b" and "stored_volume (bs_world b) j x" and "j \<noteq> ''None''"
  shows "bs_ok fl (snd (report_state fl b)) \<and> stored_volume (bs_world (snd (report_state fl b))) j x"
proof -
  obtain r b1 where l: "loop_volumes b = (Inr r, b1)" "bs_ok fl b1" "stored_volume (bs_world b1) j x"
  proof (cases "bs_fake b")
    case True
    then show ?thesis using assms that [of "map Inr (bs_volumes b)" b] by (simp add: loop_volumes_def)
  next
    case False
    let ?p = "popen_output [''sudo'', ''lvs'', ''--noheadings''] (bs_world b)"
    show ?thesis
      using assms False that [of "lvs_items (py_split CHR ''\<newline>'' (fst ?p))" "b\<lparr>bs_world := snd ?p\<rparr>"]
      by (simp add: loop_volumes_def case_prod_beta bs_ok_def stored_volume_def)
  qed
  obtain q b2 where d: "describe_loop r [] b1 = (q, b2)" by fastforce
  have b2: "bs_ok fl b2" "stored_volume (bs_world b2) j x"
    using describe_loop_keeps [OF l(2,3) assms(3), of r "[]"] d by simp_all
  then show ?thesis
    using l(1) d
    by (cases q) (auto simp: report_state_def describe_volumes_def bindS_def bs_act_def bs_ok_def stored_volume_def)
qed

text \<open>The operations on one volume write its new state and keep all others, whatever the report
  to the cloud controller does.\<close>

lemma change_volume:
  assumes b: "bs_ok fl b" and st: "stored_volume (bs_world b) i v" and i: "i \<noteq> ''None''"
    and v': "v_id v' = Some i" "v_aoe_device v' = v_aoe_device v"
  shows "let b' = snd (bindS (get_volume i) (\<lambda>_. bindS (bs_act (\<lambda>be. volume_save v')) (\<lambda>_. report_state fl)) b) in
    bs_ok fl b' \<and> stored_volume (bs_world b') i v' \<and>
    (\<forall>j x. j \<noteq> i \<longrightarrow> j \<noteq> ''None'' \<longrightarrow> stored_volume (bs_world b) j x \<longrightarrow> stored_volume (bs_world b') j x)"
proof -
  obtain w' where w': "volume_save v' (bs_world b) = (Inr (), w')" "stored_volume w' i v'"
      "\<forall>j u. j \<noteq> i \<longrightarrow> stored_volume w' j u = stored_volume (bs_world b) j u"
    using vol.save_stored [of v' i "bs_world b"] v' st by (auto simp: stored_volume_def)
  let ?b = "b\<lparr>bs_world := w'\<rparr>"
  have ok: "bs_ok fl ?b" using b by (simp add: bs_ok_def)
  have run: "bindS (get_volume i) (\<lambda>_. bindS (bs_act (\<lambda>be. volume_save v')) (\<lambda>_. report_state fl)) b = report_state fl ?b"
    using get_volume_stored [OF b st] w'(1) by (simp add: bindS_def bs_act_def)
  show ?thesis
    unfolding run Let_def
    using report_state_keeps [OF ok _ i, of v'] report_state_keeps [OF ok] w'(2,3) by auto
qed

lemma attach_volume_spec:
  assumes "bs_ok fl b" and "stored_volume (bs_world b) i v" and "i \<noteq> ''None''"
  shows "let b' = snd (attach_volume fl i instance_id mountpoint b) in
      bs_ok fl b' \<and> stored_volume (bs_world b') i
        (v\<lparr>v_instance_id := Some instance_id, v_mountpoint := Some mountpoint, v_status := ''attached''\<rparr>) \<and>
      (\<forall>j x. j \<noteq> i \<longrightarrow> j \<noteq> ''None'' \<longrightarrow> stored_volume (bs_world b) j x \<longrightarrow> stored_volume (bs_world b') j x)"
proof -
  let ?a = "v\<lparr>v_instance_id := Some instance_id, v_mountpoint := Some mountpoint, v_status := ''attached''\<rparr>"
  have "attach_volume fl i instance_id mountpoint b =
      bindS (get_volume i) (\<lambda>_. bindS (bs_act (\<lambda>be. volume_save ?a)) (\<lambda>_. report_state fl)) b"
    using get_volume_stored [OF assms(1,2)] by (simp add: attach_volume_def bindS_def volume_attach_def)
  then show ?thesis using change_volume [OF assms, of ?a] assms(2) by (simp add: stored_volume_def)
qed

subsection \<open>Properties\<close>

text \<open>Attaching a volume that is stored with a device records instance, mount point and
  status in the datastore, and detaching it records none and the status available again, whatever
  happens while the state is reported afterwards; every other stored volume keeps its record. The code
  does not look at the status first: a volume that is attached already is attached elsewhere.\<close>

theorem attach_detach_recorded:
  assumes "bs_ok fl b" and "stored_volume (bs_world b) i v" and "i \<noteq> ''None''"
  shows "(let b' = snd (attach_volume fl i instance_id mountpoint b) in
      bs_ok fl b' \<and> stored_volume (bs_world b') i
        (v\<lparr>v_instance_id := Some instance_id, v_mountpoint := Some mountpoint, v_status := ''attached''\<rparr>) \<and>
      (\<forall>j x. j \<noteq> i \<longrightarrow> j \<noteq> ''None'' \<longrightarrow> stored_volume (bs_world b) j x \<longrightarrow> stored_volume (bs_world b') j x)) \<and>
    (let b' = snd (detach_volume fl i b) in
      bs_ok fl b' \<and> stored_volume (bs_world b') i
        (v\<lparr>v_instance_id := None, v_mountpoint := None, v_status := ''available''\<rparr>) \<and>
      (\<forall>j x. j \<noteq> i \<longrightarrow> j \<noteq> ''None'' \<longrightarrow> stored_volume (bs_world b) j x \<longrightarrow> stored_volume (bs_world b') j x))"
proof
  let ?d = "v\<lparr>v_instance_id := None, v_mountpoint := None, v_status := ''available''\<rparr>"
  have id: "v_id v = Some i" using assms(2) by (simp add: stored_volume_def)
  show "let b' = snd (attach_volume fl i instance_id mountpoint b) in
      bs_ok fl b' \<and> stored_volume (bs_world b') i
        (v\<lparr>v_instance_id := Some instance_id, v_mountpoint := Some mountpoint, v_status := ''attached''\<rparr>) \<and>
      (\<forall>j x. j \<noteq> i \<longrightarrow> j \<noteq> ''None'' \<longrightarrow> stored_volume (bs_world b) j x \<longrightarrow> stored_volume (bs_world b') j x)"
    by (rule attach_volume_spec [OF assms])
  have "detach_volume fl i b =
      bindS (get_volume i) (\<lambda>_. bindS (bs_act (\<lambda>be. volume_save ?d)) (\<lambda>_. report_state fl)) b"
    using get_volume_stored [OF assms(1,2)] by (simp add: detach_volume_def bindS_def volume_detach_def)
  then show "let b' = snd (detach_volume fl i b) in
      bs_ok fl b' \<and> stored_volume (bs_world b') i ?d \<and>
      (\<forall>j x. j \<noteq> i \<longrightarrow> j \<noteq> ''None'' \<longrightarrow> stored_volume (bs_world b) j x \<longrightarrow> stored_volume (bs_world b') j x)"
    using change_volume [OF assms, of ?d] id by simp
qed

definition demo_volume :: volume where
  "demo_volume = \<lparr>v_id = Some ''vol-1'', v_status = ''attached'', v_mountpoint = Some ''/dev/sdb'',
     v_instance_id = Some ''i-1'', v_aoe_device = Some ''e0.1'', v_size = JInt 10, v_user_id = Some ''joe''\<rparr>"

definition demo_store :: "flags \<Rightarrow> block_store" where
  "demo_store fl = \<lparr>bs_backend = volume_class fl, bs_fake = False, bs_volumes = [],
     bs_world = \<lparr>store = kset ''storage'' ''vol-1'' (volume_json demo_volume) Map.empty, trace = [],
       text_files = Map.empty, shell = (\<lambda>_. ([], [])), os_ok = (\<lambda>_. True), file_size = (\<lambda>_ _. None), json_text = (\<lambda>_. []),
       clock = (\<lambda>_. []), s3_json = (\<lambda>_. JNull), rng = (\<lambda>_. 0)\<rparr>\<rparr>"

lemma demo_store_ok: "bs_ok fl (demo_store fl)" "stored_volume (bs_world (demo_store fl)) ''vol-1'' demo_volume"
  by (simp_all add: bs_ok_def stored_volume_def demo_store_def) (simp_all add: demo_volume_def)

theorem attach_detach_recorded_witness:
  "\<forall>fl. stored_volume (bs_world (snd (attach_volume fl ''vol-1'' ''i-2'' ''/dev/sdc'' (demo_store fl)))) ''vol-1''
    (demo_volume\<lparr>v_instance_id := Some ''i-2'', v_mountpoint := Some ''/dev/sdc''\<rparr>)"
proof (intro allI)
  fix fl
  show "stored_volume (bs_world (snd (attach_volume fl ''vol-1'' ''i-2'' ''/dev/sdc'' (demo_store fl)))) ''vol-1''
    (demo_volume\<lparr>v_instance_id := Some ''i-2'', v_mountpoint := Some ''/dev/sdc''\<rparr>)"
    using attach_detach_recorded [OF demo_store_ok, where instance_id = "''i-2''" and mountpoint = "''/dev/sdc''"]
    by (simp add: Let_def) (simp add: demo_volume_def)
qed

text \<open>Creating a volume that is given a size stores it under a fresh name as available, with
  that size, the user and its device; the answer describes it, reading it back gives the same object,
  and the volumes stored before under other names stay.\<close>

theorem create_volume_stored:
  assumes "bs_ok fl b" and "\<not> bs_fake b" and "truthy sz" and "create_volume fl sz user_id b = (Inr info, b')"
  shows "\<exists>i v. vi_volume_id info = Some i \<and> vi_status info = ''available'' \<and> vi_size info = sz \<and>
    vi_user_id info = Some user_id \<and> vi_aoe_device info = v_aoe_device v \<and>
    stored_volume (bs_world b') i v \<and> fst (get_volume i b') = Inr v \<and>
    (\<forall>j x. j \<noteq> i \<longrightarrow> stored_volume (bs_world b) j x \<longrightarrow> stored_volume (bs_world b') j x)"
proof -
  have be: "bs_backend b = volume_class fl" using assms(1) by (simp add: bs_ok_def)
  have init: "volume_init (volume_class fl) None sz (Some user_id) = create_new (volume_class fl) sz (blank_volume (Some user_id))"
    using assms(3) by (simp add: volume_init_def) (simp add: blank_volume_def)
  obtain v w1 where v: "create_new (volume_class fl) sz (blank_volume (Some user_id)) (bs_world b) = (Inr v, w1)"
    using assms(4) by (auto simp: create_volume_def bindS_Inr bs_act_def init be split: prod.splits)
  obtain i where i: "stored_volume w1 i v" "v_status v = ''available''" "v_size v = sz" "v_user_id v = Some user_id"
      "\<forall>j x. j \<noteq> i \<longrightarrow> stored_volume w1 j x = stored_volume (bs_world b) j x"
    using vol.create_new_stored [OF v, of "Some user_id"] by (auto simp: blank_volume_def)
  define b2 where "b2 = snd (restart_exports fl (b\<lparr>bs_world := w1\<rparr>))"
  have b2: "store (bs_world b2) = store w1" "bs_backend b2 = volume_class fl" "bs_fake b2 = bs_fake b"
    by (simp_all add: b2_def restart_exports_def be)
  then have st2: "stored_volume (bs_world b2) j x = stored_volume w1 j x" for j x by (simp add: stored_volume_def)
  have r2: "restart_exports fl (b\<lparr>bs_world := w1\<rparr>) = (Inr (), b2)" by (simp add: b2_def restart_exports_def)
  have "bs_act (\<lambda>be. volume_report be v) b2 = (Inr (v, \<lparr>vi_user_id = v_user_id v, vi_volume_id = Some i, vi_size = v_size v,
      vi_aoe_device = v_aoe_device v, vi_status = v_status v\<rparr>), b2)"
    using vol.info_stored [of "bs_world b2" i v fl] i(1) st2 b2(2) by (simp add: bs_act_def)
  then have eq: "info = \<lparr>vi_user_id = v_user_id v, vi_volume_id = Some i, vi_size = v_size v,
      vi_aoe_device = v_aoe_device v, vi_status = v_status v\<rparr>" "b' = b2"
    using assms(2,4) v r2 b2(3) by (auto simp: create_volume_def bindS_def bs_act_def init be bs_get_def)
  have "get_volume i b2 = (Inr v, b2)"
    using get_volume_stored [of fl b2 i v] b2(2) i(1) st2 by (simp add: bs_ok_def)
  then show ?thesis using eq i st2 by auto
qed

lemma fake_create_new_returns: "\<exists>v w'. create_new fake_backend sz u w = (Inr v, w')"
  by (auto simp: create_new_def fake_backend_def Let_def case_prod_beta bindS_def volume_save_def)

lemma fake_create_returns:
  assumes "bs_backend b = fake_backend" and "truthy sz" and "fake_storage fl"
  shows "\<exists>info b'. create_volume fl sz user_id b = (if bs_fake b then Inl AttributeError else Inr info, b')"
proof -
  have init: "volume_init fake_backend None sz (Some user_id) = create_new fake_backend sz (blank_volume (Some user_id))"
    using assms(2) by (simp add: volume_init_def) (simp add: blank_volume_def)
  obtain v w1 where v: "create_new fake_backend sz (blank_volume (Some user_id)) (bs_world b) = (Inr v, w1)"
    using fake_create_new_returns by blast
  obtain i where i: "stored_volume w1 i v"
    using fake.create_new_stored [OF v, of "Some user_id"] by (auto simp: blank_volume_def)
  show ?thesis
    using assms v fake.info_stored [OF i]
    by (simp add: create_volume_def bindS_def bs_act_def init restart_exports_def bs_get_def)
qed

definition fake_flags :: flags where
  "fake_flags = (default_flags ''nova'' ''host'')\<lparr>fake_storage := True\<rparr>"

theorem create_volume_stored_witness:
  "\<exists>info b' i v. create_volume fake_flags (JInt 5) ''joe'' (demo_store fake_flags) = (Inr info, b') \<and>
     vi_volume_id info = Some i \<and> vi_size info = JInt 5 \<and> stored_volume (bs_world b') i v"
proof -
  have b: "bs_backend (demo_store fake_flags) = fake_backend" "fake_storage fake_flags" "\<not> bs_fake (demo_store fake_flags)"
    by (simp_all add: demo_store_def volume_class_def fake_flags_def)
  then obtain info b' where run: "create_volume fake_flags (JInt 5) ''joe'' (demo_store fake_flags) = (Inr info, b')"
    using fake_create_returns [OF b(1), of "JInt 5" fake_flags "''joe''"] by auto
  from create_volume_stored [OF demo_store_ok(1) b(3) _ run] show ?thesis using run by auto
qed

text \<open>The fake block store, which the tests use, can never report a new volume: with any size
  and any state the creation ends in an exception, although the volume is in the datastore by then,
  and its list of volumes does not get it.\<close>

theorem fake_create_volume_fails:
  assumes "bs_backend b = fake_backend" and "bs_fake b" and "truthy sz"
  shows "\<exists>b' i v. create_volume fl sz user_id b = (Inl AttributeError, b') \<and> bs_volumes b' = bs_volumes b \<and>
    stored_volume (bs_world b') i v \<and> v_size v = sz"
proof -
  have init: "volume_init fake_backend None sz (Some user_id) = create_new fake_backend sz (blank_volume (Some user_id))"
    using assms(3) by (simp add: volume_init_def) (simp add: blank_volume_def)
  obtain v w1 where v: "create_new fake_backend sz (blank_volume (Some user_id)) (bs_world b) = (Inr v, w1)"
    using fake_create_new_returns by blast
  obtain i where i: "stored_volume w1 i v" "v_size v = sz"
    using fake.create_new_stored [OF v, of "Some user_id"] by (auto simp: blank_volume_def)
  have "create_volume fl sz user_id b = (Inl AttributeError, b\<lparr>bs_world := w1\<rparr>)"
    using assms v fake.info_stored [OF i(1)]
    by (simp add: create_volume_def bindS_def bs_act_def init restart_exports_def bs_get_def)
  then show ?thesis using i by (intro exI [of _ "b\<lparr>bs_world := w1\<rparr>"] exI [of _ i] exI [of _ v]) simp
qed

theorem fake_create_volume_fails_witness:
  "fst (create_volume fake_flags (JInt 5) ''joe'' (block_store_init fake_flags True (bs_world (demo_store fake_flags)))) =
    Inl AttributeError"
  using fake_create_volume_fails [of "block_store_init fake_flags True (bs_world (demo_store fake_flags))" "JInt 5" fake_flags "''joe''"]
  by (auto simp: block_store_init_def volume_class_def fake_flags_def)

text \<open>Deleting a volume that is stored with a device removes its record and no other; a
  volume without a record cannot be obtained any more.\<close>

theorem delete_volume_removes:
  assumes "bs_ok fl b" and "\<not> bs_fake b" and "stored_volume (bs_world b) i v"
  shows "\<exists>b'. delete_volume i b = (Inr (), b') \<and> kget ''storage'' (store (bs_world b')) i = JNull \<and>
    (\<forall>j x. j \<noteq> i \<longrightarrow> stored_volume (bs_world b') j x = stored_volume (bs_world b) j x)"
proof -
  obtain a where a: "v_aoe_device v = Some a" "a \<noteq> []" "v_id v = Some i"
    using assms(3) by (auto simp: stored_volume_def)
  let ?w = "keeper_delete (Some i) (be_delete_lv (volume_class fl) i (be_remove_export (volume_class fl) (Some a) (bs_world b)))"
  have "volume_delete (volume_class fl) v (bs_world b) = (Inr (), ?w)"
    using vol.get_aoe_known [OF a(1,2)] a by (simp add: volume_delete_def bindS_def opt_text_def)
  then have "delete_volume i b = (Inr (), b\<lparr>bs_world := ?w\<rparr>)"
    using get_volume_stored [OF assms(1,3)] assms(1,2)
    by (simp add: delete_volume_def bindS_def bs_act_def bs_ok_def bs_get_def)
  moreover have "store ?w = kdel ''storage'' i (store (bs_world b))"
    by (simp add: keeper_delete_def opt_text_def vol.delete_lv_store vol.remove_export_store)
  ultimately show ?thesis by (auto simp: stored_volume_def)
qed

theorem delete_volume_removes_witness:
  "\<forall>fl. \<exists>b'. delete_volume ''vol-1'' (demo_store fl) = (Inr (), b') \<and> kget ''storage'' (store (bs_world b')) ''vol-1'' = JNull"
proof (intro allI)
  fix fl
  show "\<exists>b'. delete_volume ''vol-1'' (demo_store fl) = (Inr (), b') \<and> kget ''storage'' (store (bs_world b')) ''vol-1'' = JNull"
  proof -
    have "\<not> bs_fake (demo_store fl)" by (simp add: demo_store_def)
    from delete_volume_removes [OF demo_store_ok(1) this demo_store_ok(2)] show ?thesis by blast
  qed
qed

end
