(* ===== verification/Workers.thy ===== *)
theory Workers
  imports RpcProps CloudRun Volume
begin

text \<open>
  The objects that the daemons hand messages to (the \<^verbatim>\<open>main\<close> functions of
  \<^verbatim>\<open>nova-api\<close> and \<^verbatim>\<open>nova-volume\<close>), as the methods that
  messages may name, with the arguments by their keywords. A keyword that is missing is a
  \<^verbatim>\<open>TypeError\<close>; the values are of the kinds that the senders write.
\<close>

definition text_arg :: "attributes \<Rightarrow> string \<Rightarrow> string res" where
  "text_arg args k = (case map_of args k of Some (JStr s) \<Rightarrow> Inr s | _ \<Rightarrow> Inl TypeError)"

subsection \<open>The cloud controller\<close>

text \<open>A report: the objects of nodes, by their names.\<close>

definition as_items :: "json \<Rightarrow> (string, attributes) dict res" where
  "as_items j = bindR (jdict j) (mapR (\<lambda>(i, x). bindR (jdict x) (\<lambda>d. Inr (i, d))))"

definition as_nodes :: "json \<Rightarrow> nodes res" where
  "as_nodes j = bindR (jdict j) (mapR (\<lambda>(n, x). bindR (as_items x) (\<lambda>d. Inr (n, d))))"

definition cloud_topic :: string where
  "cloud_topic = ''cloud''"

definition cloud_worker :: "cloud proxy" where
  "cloud_worker m =
     (if m = ''update_state'' then Some (\<lambda>args.
        bindS (liftR (text_arg args ''topic'')) (\<lambda>topic.
        bindS (liftR (case map_of args ''value'' of None \<Rightarrow> Inl TypeError | Some v \<Rightarrow> as_nodes v)) (\<lambda>report.
        bindS (update_state topic report) (\<lambda>r. retS (Answer (Reply_Json r))))))
      else None)"

subsection \<open>The block store\<close>

definition volume_set :: "volume_info \<Rightarrow> json" where
  "volume_set info = JDict [(''volumeSet'', JList [JDict
     [(''user_id'', opt_json (vi_user_id info)), (''volume_id'', opt_json (vi_volume_id info)), (''size'', vi_size info),
      (''aoe_device'', opt_json (vi_aoe_device info)), (''availability_zone'', JStr ''nova''),
      (''status'', JStr (vi_status info))]])]"

text \<open>The worker of a store listens to two topics.\<close>

definition volume_topics :: "flags \<Rightarrow> string list" where
  "volume_topics fl = [storage_topic fl, node_topic (storage_topic fl) (node_name fl)]"

definition none_answer :: "unit \<Rightarrow> answer" where
  "none_answer x = Answer (Reply_Json JNull)"

definition volume_worker :: "flags \<Rightarrow> block_store proxy" where
  "volume_worker fl m =
     (if m = ''create_volume'' then Some (\<lambda>args.
        bindS (liftR (case map_of args ''size'' of None \<Rightarrow> Inl TypeError | Some s \<Rightarrow> Inr s)) (\<lambda>size.
        bindS (liftR (text_arg args ''user_id'')) (\<lambda>user_id.
        bindS (create_volume fl size user_id) (\<lambda>info. retS (Answer (Reply_Json (volume_set info)))))))
      else if m = ''delete_volume'' then Some (\<lambda>args.
        bindS (liftR (text_arg args ''volume_id'')) (\<lambda>v.
        bindS (delete_volume v) (\<lambda>x. retS (none_answer x))))
      else if m = ''attach_volume'' then Some (\<lambda>args.
        bindS (liftR (text_arg args ''volume_id'')) (\<lambda>v.
        bindS (liftR (text_arg args ''instance_id'')) (\<lambda>i.
        bindS (liftR (text_arg args ''mountpoint'')) (\<lambda>p.
        bindS (attach_volume fl v i p) (\<lambda>x. retS (none_answer x))))))
      else if m = ''detach_volume'' then Some (\<lambda>args.
        bindS (liftR (text_arg args ''volume_id'')) (\<lambda>v.
        bindS (detach_volume fl v) (\<lambda>x. retS (none_answer x))))
      else None)"

subsection \<open>From one process to another\<close>

text \<open>An effect that is a message goes to the broker; no other effect concerns it.\<close>

fun forward :: "flags \<Rightarrow> effect \<Rightarrow> broker \<Rightarrow> broker" where
  "forward fl (Cast topic m) b = snd (rpc_cast fl topic m b)"
| "forward fl e b = b"

text \<open>The effects of an action, and a broker with the messages among them.\<close>

definition new_effects :: "world \<Rightarrow> world \<Rightarrow> effect list" where
  "new_effects w w' = drop (length (trace w)) (trace w')"

definition forward_all :: "flags \<Rightarrow> effect list \<Rightarrow> broker \<Rightarrow> broker" where
  "forward_all fl es b = fold (forward fl) es b"

text \<open>A cast to the topic of one consumer with an empty queue is what the consumer fetches.\<close>

lemma poll_cast:
  assumes "listening fl t 1 b" and "queue_of b t = []" and "control_exchange fl \<noteq> []"
    and "m \<noteq> []" and "proxy m = Some f" and "f a s = (r, s')"
  shows "fst (poll str_e proxy (topic_consumer fl t) (s, snd (rpc_cast fl t (message m a) b))) = s'"
proof -
  note l = assms(1) [unfolded listening_def]
  let ?b = "publish (message m a) (control_exchange fl) t b"
  have c: "snd (rpc_cast fl t (message m a) b) = ?b" using cast_spec [of b t fl t] l assms(3) by simp
  have q: "has_queue ?b t" "queue_of ?b t = [message m a]" using l assms(2) by simp_all
  obtain b1 where "fetch (topic_consumer fl t) ?b = (Inr (Some (message m a)), b1)"
    using backend_get_spec [OF q(1)] q(2) by (simp add: fetch_def topic_consumer_def)
  then show ?thesis using assms(4-6) unfolding c by (simp add: poll_def receive_def message_def Let_def)
qed

text \<open>Casts to other topics leave it alone.\<close>

lemma cast_other:
  assumes "listening fl t k b" and "control_exchange fl \<noteq> []" and "t' \<noteq> t"
  shows "listening fl t k (snd (rpc_cast fl t' m b))" "queue_of (snd (rpc_cast fl t' m b)) t = queue_of b t"
  using assms cast_spec [of b t fl t' m] by (auto simp: listening_def)

end
