(* ===== verification/AdminClient.thy ===== *)
theory AdminClient
  imports BotoProps Workers Xml
begin

text \<open>
  The administration client (\<^verbatim>\<open>nova/adminclient.py\<close>) on the query interface of boto, with
  the reader of answers (\<^verbatim>\<open>boto/handler.py\<close>, \<^verbatim>\<open>boto/resultset.py\<close>), and the
  administration controller as the server calls it.
\<close>

subsection \<open>Reading an answer\<close>

text \<open>
  The events of \<^verbatim>\<open>xml.sax\<close> on a document, and the error that ends them. Of XML the parser reads what
  the theory Xml reads of it, without comments, after an XML declaration. An element is open for each name of the
  stack; \<open>seen\<close> says that the root has been opened.
\<close>

datatype sax = Start string | Characters string | End string

lemma scan_tag_shorter: "scan_tag q s = Inr (t, rest) \<Longrightarrow> length rest < length s"
proof (induction q s arbitrary: t rest rule: scan_tag.induct)
  case (2 c cs)
  then show ?case by (cases "c = CHR ''>''") (fastforce split: if_splits)+
next
  case (3 q c cs)
  then show ?case by fastforce
qed simp

lemma read_tag_shorter: "read_tag s = Inr (t, rest) \<Longrightarrow> length rest < length s"
  using scan_tag_shorter [of None s] by (auto simp: read_tag_def split: if_splits)

definition add_event :: "sax \<Rightarrow> sax list \<times> exc option \<Rightarrow> sax list \<times> exc option" where
  "add_event e r = (e # fst r, snd r)"

definition text_read :: "string \<Rightarrow> string res" where
  "text_read t = (if py_contains t '']]>'' then Inl ParseError else unescape t)"

function sax_read :: "string list \<Rightarrow> bool \<Rightarrow> string \<Rightarrow> sax list \<times> exc option" where
  "sax_read st seen s =
     (case s of
        [] \<Rightarrow> ([], if st = [] \<and> seen then None else Some ParseError)
      | c # cs \<Rightarrow>
          if c = CHR ''<'' then
            (case read_tag cs of
               Inl e \<Rightarrow> ([], Some e)
             | Inr (Open_Tag nm, rest) \<Rightarrow>
                 if st = [] \<and> seen then ([], Some ParseError) else add_event (Start nm) (sax_read (nm # st) True rest)
             | Inr (Empty_Tag nm, rest) \<Rightarrow>
                 if st = [] \<and> seen then ([], Some ParseError)
                 else add_event (Start nm) (add_event (End nm) (sax_read st True rest))
             | Inr (Close_Tag nm, rest) \<Rightarrow>
                 (case st of
                    n # st' \<Rightarrow> if n = nm then add_event (End nm) (sax_read st' seen rest) else ([], Some ParseError)
                  | [] \<Rightarrow> ([], Some ParseError)))
          else
            let t = takeWhile (\<lambda>c. c \<noteq> CHR ''<'') (c # cs); rest = dropWhile (\<lambda>c. c \<noteq> CHR ''<'') (c # cs) in
            if st = [] then (if list_all is_space t then sax_read st seen rest else ([], Some ParseError))
            else (case text_read t of
                Inl e \<Rightarrow> ([], Some e)
              | Inr u \<Rightarrow> add_event (Characters u) (sax_read st seen rest)))"
  by pat_completeness auto
termination
  by (relation "measure (\<lambda>(_, _, s). length s)")
    (auto dest: read_tag_shorter simp: less_Suc_eq_le length_dropWhile_le)

declare sax_read.simps [simp del]

text \<open>The declaration at the beginning.\<close>

fun after_declaration :: "string \<Rightarrow> string option" where
  "after_declaration [] = None"
| "after_declaration (c # s) = (if startswith (c # s) ''?>'' then Some (drop 2 (c # s)) else after_declaration s)"

abbreviation SAXParseException :: exc where
  "SAXParseException \<equiv> PyException ''SAXParseException''"

text \<open>The ends of lines as the parser reads them.\<close>

fun unix_lines :: "string \<Rightarrow> string" where
  "unix_lines [] = []"
| "unix_lines (c # s) = (if c = CHR 13
     then CHR ''\<newline>'' # (case s of [] \<Rightarrow> [] | x # s' \<Rightarrow> if x = CHR ''\<newline>'' then unix_lines s' else unix_lines (x # s'))
     else c # unix_lines s)"

definition parse_string :: "string \<Rightarrow> sax list \<times> exc option" where
  "parse_string text =
     (let body = unix_lines text;
          (events, err) = (if startswith body ''<?xml'' then
          (case after_declaration (drop 5 body) of None \<Rightarrow> ([], Some ParseError) | Some s \<Rightarrow> sax_read [] False s)
        else sax_read [] False body)
      in (events, map_option (\<lambda>_. SAXParseException) err))"

text \<open>
  \<^verbatim>\<open>XmlHandler\<close> with a \<^verbatim>\<open>UserInfo\<close> at its root, which opens no further nodes: an
  element that is called \<^verbatim>\<open>root\<close> closes it.
\<close>

record info_handler =
  ih_nodes :: "string list"
  ih_text :: string
  ih_info :: user_info

definition blank_info :: user_info where
  "blank_info = \<lparr>ui_username = None, ui_file = None, ui_accesskey = None, ui_secretkey = None\<rparr>"

fun handle_info :: "sax \<Rightarrow> info_handler \<Rightarrow> info_handler res" where
  "handle_info (Start n) h = (if ih_nodes h = [] then Inl IndexError else Inr (h\<lparr>ih_text := []\<rparr>))"
| "handle_info (Characters t) h = Inr (h\<lparr>ih_text := ih_text h @ t\<rparr>)"
| "handle_info (End n) h = (case ih_nodes h of
      [] \<Rightarrow> Inl IndexError
    | m # ms \<Rightarrow> bindR (user_info_end n (ih_text h) (ih_info h)) (\<lambda>i.
        Inr \<lparr>ih_nodes = (if m = n then ms else m # ms), ih_text = [], ih_info = i\<rparr>))"

fun handle_all :: "('e \<Rightarrow> 'h \<Rightarrow> 'h res) \<Rightarrow> 'e list \<Rightarrow> 'h \<Rightarrow> 'h res" where
  "handle_all f [] h = Inr h"
| "handle_all f (e # es) h = bindR (f e h) (handle_all f es)"

text \<open>The events are handled as they come, so that an error of the document shows after them.\<close>

definition parse_with :: "(sax \<Rightarrow> 'h \<Rightarrow> 'h res) \<Rightarrow> 'h \<Rightarrow> string \<Rightarrow> 'h res" where
  "parse_with f h body = (case parse_string body of (events, err) \<Rightarrow>
     bindR (handle_all f events h) (\<lambda>h. case err of None \<Rightarrow> Inr h | Some e \<Rightarrow> Inl e))"

definition parse_info :: "string \<Rightarrow> user_info res" where
  "parse_info body = bindR (parse_with handle_info \<lparr>ih_nodes = [''root''], ih_text = [], ih_info = blank_info\<rparr> body) (\<lambda>h. Inr (ih_info h))"

text \<open>
  \<^verbatim>\<open>XmlHandler\<close> with a \<^verbatim>\<open>ResultSet\<close> at its root. Its markers are meant to be pairs of
  a name and a class; a text in their place is indexed and called like a pair, a class cannot be indexed.
\<close>

datatype marker = Pair_Marker string | Text_Marker string | Class_Marker

fun marker_start :: "marker list \<Rightarrow> string \<Rightarrow> bool res" where
  "marker_start [] name = Inr False"
| "marker_start (Pair_Marker t # ms) name = (if name = t then Inr True else marker_start ms name)"
| "marker_start (Text_Marker s # ms) name =
     (if s = [] then Inl IndexError
      else if name = [hd s] then (if length s < 2 then Inl IndexError else Inl TypeError)
      else marker_start ms name)"
| "marker_start (Class_Marker # ms) name = Inl TypeError"

text \<open>
  What the list holds: objects, and the texts of elements that are called \<^verbatim>\<open>ItemName\<close>. An element of
  an unknown name becomes an attribute of the list, and hides what the list has under this name: its markers, or
  one of its methods.
\<close>

datatype list_item = Info user_info | Item_Text string

record list_handler =
  lh_nodes :: "(string \<times> nat option) list"
  lh_text :: string
  lh_items :: "list_item list"
  lh_markers :: "marker list"
  lh_hidden :: "string list"

definition use_method :: "string \<Rightarrow> list_handler \<Rightarrow> unit res" where
  "use_method name h = (if name \<in> set (lh_hidden h) then Inl TypeError else Inr ())"

definition list_start :: "string \<Rightarrow> list_handler \<Rightarrow> list_handler res" where
  "list_start n h =
     bindR (use_method ''startElement'' h) (\<lambda>_.
     bindR (marker_start (lh_markers h) n) (\<lambda>new.
     if new then bindR (use_method ''append'' h) (\<lambda>_. Inr (h\<lparr>lh_nodes := (n, Some (length (lh_items h))) # lh_nodes h,
       lh_items := lh_items h @ [Info blank_info]\<rparr>))
     else Inr h))"

definition list_end :: "string \<Rightarrow> string \<Rightarrow> list_handler \<Rightarrow> list_handler res" where
  "list_end n text h =
     bindR (use_method ''endElement'' h) (\<lambda>_.
       if n \<in> {''IsTruncated'', ''return'', ''StatusCode'', ''IsValid''} then bindR (use_method ''to_boolean'' h) (\<lambda>_. Inr h)
       else if n \<in> {''Marker'', ''KeyMarker'', ''VersionIdMarker'', ''Prefix'', ''NextToken'', ''BoxUsage''} then Inr h
       else if n = ''ItemName'' then bindR (use_method ''append'' h) (\<lambda>_. Inr (h\<lparr>lh_items := lh_items h @ [Item_Text text]\<rparr>))
       else if n = ''__class__'' \<or> n = ''__dict__'' then Inl TypeError
       else if n = ''__weakref__'' then Inl AttributeError
       else if n = ''markers'' then Inr (h\<lparr>lh_markers := map (\<lambda>c. Text_Marker [c]) text\<rparr>)
       else Inr (h\<lparr>lh_hidden := n # lh_hidden h\<rparr>))"

fun handle_list :: "sax \<Rightarrow> list_handler \<Rightarrow> list_handler res" where
  "handle_list (Start n) h = (case lh_nodes h of
      [] \<Rightarrow> Inl IndexError
    | (_, Some i) # _ \<Rightarrow> Inr (h\<lparr>lh_text := []\<rparr>)
    | (_, None) # _ \<Rightarrow> list_start n (h\<lparr>lh_text := []\<rparr>))"
| "handle_list (Characters t) h = Inr (h\<lparr>lh_text := lh_text h @ t\<rparr>)"
| "handle_list (End n) h = (case lh_nodes h of
      [] \<Rightarrow> Inl IndexError
    | (m, i) # rest \<Rightarrow> bindR (case i of
          None \<Rightarrow> list_end n (lh_text h) h
        | Some i \<Rightarrow> (case lh_items h ! i of
            Info x \<Rightarrow> bindR (user_info_end n (lh_text h) x) (\<lambda>x. Inr (h\<lparr>lh_items := (lh_items h)[i := Info x]\<rparr>))
          | Item_Text t \<Rightarrow> Inr h))
        (\<lambda>h. Inr (h\<lparr>lh_nodes := (if m = n then rest else (m, i) # rest), lh_text := []\<rparr>)))"

definition parse_list :: "marker list \<Rightarrow> string \<Rightarrow> list_item list res" where
  "parse_list ms body = bindR (parse_with handle_list
       \<lparr>lh_nodes = [(''root'', None)], lh_text = [], lh_items = [], lh_markers = ms, lh_hidden = []\<rparr> body)
     (\<lambda>h. Inr (lh_items h))"

subsection \<open>The client\<close>

text \<open>One request: \<^verbatim>\<open>make_request\<close> of the connection for an action and its parameters.\<close>

type_synonym 's sender = "string \<Rightarrow> params \<Rightarrow> 's \<Rightarrow> (reply res \<times> 's) option"

definition send_action :: "mac \<Rightarrow> mac \<Rightarrow> (string \<Rightarrow> string \<times> string) \<Rightarrow> (string \<Rightarrow> http_message \<Rightarrow> 's \<Rightarrow> reply \<times> 's) \<Rightarrow>
    boto_conn \<Rightarrow> string \<Rightarrow> 's sender" where
  "send_action sha1 sha256 urlparse request c timestamp action params s =
     make_request sha1 sha256 urlparse request c timestamp action params ''/'' ''GET'' s"

definition on_reply :: "(string \<Rightarrow> 'a res) \<Rightarrow> (reply res \<times> 's) option \<Rightarrow> ('a res \<times> 's) option" where
  "on_reply f r = map_option (\<lambda>(r, s). (bindR r (\<lambda>reply. case reply of
       Reply status _ body \<Rightarrow> if status = 200 then f body else Inl (PyException ''EC2ResponseError'')
     | No_Reply e \<Rightarrow> Inl e), s)) r"

definition get_object :: "'s sender \<Rightarrow> string \<Rightarrow> params \<Rightarrow> 's \<Rightarrow> (user_info res \<times> 's) option" where
  "get_object send action params s = on_reply parse_info (send action params s)"

definition get_list :: "'s sender \<Rightarrow> string \<Rightarrow> params \<Rightarrow> marker list \<Rightarrow> 's \<Rightarrow> (list_item list res \<times> 's) option" where
  "get_list send action params markers s = on_reply (parse_list markers) (send action params s)"

definition admin_conn :: "string \<Rightarrow> string \<Rightarrow> string \<Rightarrow> bool \<Rightarrow> boto_conn" where
  "admin_conn clc_ip access_key secret_key python26 =
     \<lparr>bc_host = clc_ip, bc_port = 8773, bc_path = ''/services/Admin'', bc_access = access_key, bc_secret = secret_key,
      bc_api_version = ''nova'', bc_signature_version = ''2'', bc_num_retries = 5, bc_python26 = python26\<rparr>"

definition client_get_users :: "'s sender \<Rightarrow> 's \<Rightarrow> (list_item list res \<times> 's) option" where
  "client_get_users send s = get_list send ''DescribeUsers'' [] [Text_Marker ''item'', Class_Marker] s"

definition client_get_user :: "'s sender \<Rightarrow> string \<Rightarrow> 's \<Rightarrow> (user_info option res \<times> 's) option" where
  "client_get_user send name s = map_option (\<lambda>(r, s). (bindR r (\<lambda>u. Inr (if ui_username u = None then None else Some u)), s))
     (get_object send ''DescribeUser'' [(''Name'', name)] s)"

definition client_has_user :: "'s sender \<Rightarrow> string \<Rightarrow> 's \<Rightarrow> (bool res \<times> 's) option" where
  "client_has_user send name s = map_option (\<lambda>(r, s). (bindR r (\<lambda>u. Inr (u \<noteq> None)), s)) (client_get_user send name s)"

definition client_create_user :: "'s sender \<Rightarrow> string \<Rightarrow> 's \<Rightarrow> (user_info res \<times> 's) option" where
  "client_create_user send name = get_object send ''RegisterUser'' [(''Name'', name)]"

definition client_delete_user :: "'s sender \<Rightarrow> string \<Rightarrow> 's \<Rightarrow> (user_info res \<times> 's) option" where
  "client_delete_user send name = get_object send ''DeregisterUser'' [(''Name'', name)]"

text \<open>The attribute \<^verbatim>\<open>file\<close> only exists when an answer had it.\<close>

definition client_get_zip :: "'s sender \<Rightarrow> string \<Rightarrow> 's \<Rightarrow> (string res \<times> 's) option" where
  "client_get_zip send name s = map_option (\<lambda>(r, s). (bindR r (\<lambda>u.
       case ui_file u of None \<Rightarrow> Inl AttributeError | Some f \<Rightarrow> Inr f), s))
     (get_object send ''GenerateX509ForUser'' [(''Name'', name)] s)"

text \<open>The connection of another user, by the keys that the server tells; \<open>api_version\<close> is the version that the
  library speaks.\<close>

definition connection_for :: "boto_conn \<Rightarrow> string \<Rightarrow> 's sender \<Rightarrow> string \<Rightarrow> 's \<Rightarrow> (boto_conn res \<times> 's) option" where
  "connection_for c api_version send name s = map_option (\<lambda>(r, s). (bindR r (\<lambda>u. case u of
       None \<Rightarrow> Inl AttributeError
     | Some i \<Rightarrow> (case (ui_accesskey i, ui_secretkey i) of
           (Some a, Some k) \<Rightarrow> Inr (c\<lparr>bc_path := ''/services/Cloud'', bc_access := a, bc_secret := k, bc_api_version := api_version\<rparr>)
         | _ \<Rightarrow> Inl AttributeError)), s))
     (client_get_user send name s)"

subsection \<open>The controller\<close>

text \<open>
  The methods of \<^verbatim>\<open>AdminController\<close> as the server calls them, by names, with the arguments
  of the request as keywords. The test of the user comes before that of the arguments. The attribute
  \<^verbatim>\<open>user_manager\<close> is found too, but is no method.
\<close>

definition admin_controller :: "flags \<Rightarrow> string \<times> string \<Rightarrow> (user \<Rightarrow> (kstore, string) act) \<Rightarrow> string \<Rightarrow>
    (user \<Rightarrow> attributes \<Rightarrow> (kstore, json) act) option" where
  "admin_controller fl uuids credentials m =
     (let named = (\<lambda>f. Some (\<lambda>u args. admin_only u (bindS (liftR (text_arg args ''name'')) (f u)))) in
      if m = ''describe_user'' then named (describe_user fl)
      else if m = ''describe_users'' then Some (\<lambda>u args. describe_users fl u)
      else if m = ''register_user'' then named (register_user fl uuids)
      else if m = ''deregister_user'' then named (deregister_user fl)
      else if m = ''generate_x509_for_user'' then named (generate_x509_for_user fl credentials)
      else if m = ''user_manager'' then Some (\<lambda>u args. raiseS TypeError)
      else None)"

end
