(* ===== verification/AdminProps.thy ===== *)
theory AdminProps
  imports AdminClient
begin

text \<open>
  What the client of the administration reads is what the server wrote: the parser gives the events of a document
  that the server printed, and so the client gets the user that the server looked up.
\<close>

subsection \<open>The parser on a printed document\<close>

definition readable :: "string \<Rightarrow> bool" where
  "readable s \<longleftrightarrow> list_all (\<lambda>c. (32 \<le> (of_char c :: nat) \<and> (of_char c :: nat) < 128) \<or> c = CHR ''\<newline>'' \<or> c = CHR 9) s"

lemma readable_Cons: "readable (c # s) \<longleftrightarrow> ((32 \<le> (of_char c :: nat) \<and> (of_char c :: nat) < 128) \<or> c = CHR ''\<newline>'' \<or> c = CHR 9) \<and> readable s"
  by (simp add: readable_def)

lemma minidom_escape_Cons: "minidom_escape (c # s) = minidom_escape [c] @ minidom_escape s"
  by (simp add: minidom_escape_def)

lemma minidom_escape_chars:
  "CHR ''<'' \<notin> set (minidom_escape s)" "CHR ''>'' \<notin> set (minidom_escape s)"
  by (auto simp: minidom_escape_def split: if_splits)

lemma minidom_escape_Nil: "minidom_escape s = [] \<longleftrightarrow> s = []"
  by (cases s) (auto simp: minidom_escape_def)

lemma xml_char_escape: "readable s \<Longrightarrow> list_all xml_char (minidom_escape s)"
  by (induction s) (auto simp: minidom_escape_def readable_Cons xml_char_def)

lemma entity_piece_named:
  assumes "map_of entities nm = Some c" "CHR '';'' \<notin> set nm"
  shows "entity_piece (nm @ CHR '';'' # p) = Inr (c # p)"
proof -
  obtain h t where ht: "py_split CHR '';'' p = h # t" by (metis py_split_nonempty neq_Nil_conv)
  have "py_join '';'' (h # t) = p" using py_join_split [of "CHR '';''" p] by (simp add: ht)
  then show ?thesis using assms by (simp add: py_split_append_sep ht)
qed

lemma escape_pieces:
  "\<exists>p ps qs. py_split CHR ''&'' (minidom_escape s) = p # ps \<and> mapR entity_piece ps = Inr qs \<and> p @ concat qs = s"
proof (induction s)
  case Nil
  show ?case by (simp add: minidom_escape_def)
next
  case (Cons c s)
  then obtain p ps qs where IH: "py_split CHR ''&'' (minidom_escape s) = p # ps" "mapR entity_piece ps = Inr qs" "p @ concat qs = s"
    by blast
  have named: "\<exists>p' ps' qs'. py_split CHR ''&'' (CHR ''&'' # nm @ CHR '';'' # minidom_escape s) = p' # ps' \<and>
      mapR entity_piece ps' = Inr qs' \<and> p' @ concat qs' = c # s"
    if nm: "map_of entities nm = Some c" "CHR '';'' \<notin> set nm" "CHR ''&'' \<notin> set nm" for nm
  proof -
    have "py_split CHR ''&'' (nm @ CHR '';'' # minidom_escape s) = (nm @ CHR '';'' # p) # ps"
      using nm(3) by (induction nm) (auto simp: IH(1))
    then show ?thesis using entity_piece_named [OF nm(1,2), of p] IH(2,3) by simp
  qed
  consider (special) nm where "minidom_escape [c] = CHR ''&'' # nm @ '';''" "map_of entities nm = Some c"
      "CHR '';'' \<notin> set nm" "CHR ''&'' \<notin> set nm" | (plain) "minidom_escape [c] = [c]" "c \<noteq> CHR ''&''"
    by (cases "c \<in> {CHR ''&'', CHR ''<'', CHR ''>'', CHR 0x22}")
      (auto simp: minidom_escape_def entities_def intro: that(1) [of "''amp''"] that(1) [of "''lt''"] that(1) [of "''gt''"]
        that(1) [of "''quot''"])
  then show ?case
  proof cases
    case special
    then show ?thesis using named [OF special(2-4)] by (simp add: minidom_escape_Cons [of c s] del: entity_piece.simps)
  next
    case plain
    then show ?thesis using IH by (simp add: minidom_escape_Cons [of c s] del: entity_piece.simps)
  qed
qed

lemma text_read_escape:
  assumes "readable s"
  shows "text_read (minidom_escape s) = Inr s"
proof -
  have "\<not> py_contains (minidom_escape s) '']]>''"
    by (rule contains_subset [of "CHR ''>''"]) (simp_all add: minidom_escape_chars)
  moreover obtain p ps qs where "py_split CHR ''&'' (minidom_escape s) = p # ps" "mapR entity_piece ps = Inr qs" "p @ concat qs = s"
    using escape_pieces [of s] by blast
  ultimately show ?thesis using xml_char_escape [OF assms] by (simp add: text_read_def unescape_def del: py_contains.simps)
qed

definition plain_tag :: "string \<Rightarrow> bool" where
  "plain_tag t \<longleftrightarrow> t \<noteq> [] \<and> list_all name_char t"

lemma plain_tag_chars:
  assumes "plain_tag t"
  shows "CHR ''>'' \<notin> set t" "CHR ''<'' \<notin> set t" "CHR ''&'' \<notin> set t" "CHR ''/'' \<notin> set t" "CHR 0x22 \<notin> set t" "CHR 0x27 \<notin> set t"
    "list_all xml_char t" "c \<in> set t \<Longrightarrow> \<not> is_space c" "takeWhile name_char t = t" "t \<noteq> []"
proof -
  have n: "name_char c" if "c \<in> set t" for c using assms that by (simp add: plain_tag_def list_all_iff)
  show "CHR ''>'' \<notin> set t" "CHR ''<'' \<notin> set t" "CHR ''&'' \<notin> set t" "CHR ''/'' \<notin> set t" "CHR 0x22 \<notin> set t" "CHR 0x27 \<notin> set t"
    using n by (fastforce simp: name_char_def is_upper_def is_lower_def is_digit_def)+
  show "c \<in> set t \<Longrightarrow> \<not> is_space c"
    using n [of c] by (auto simp: name_char_def is_upper_def is_lower_def is_digit_def is_space_def)
  have "xml_char c" if "c \<in> set t" for c
    using n [OF that] by (auto simp: name_char_def is_upper_def is_lower_def is_digit_def xml_char_def)
  then show "list_all xml_char t" by (simp add: list_all_iff)
  show "takeWhile name_char t = t" using n by simp
  show "t \<noteq> []" using assms by (simp add: plain_tag_def)
qed

lemma scan_plain:
  assumes "CHR ''>'' \<notin> set t" "CHR 0x22 \<notin> set t" "CHR 0x27 \<notin> set t"
  shows "scan_tag None (t @ CHR ''>'' # r) = Inr (t, r)"
  using assms by (induction t) auto

lemma read_plain_tags:
  assumes "plain_tag t"
  shows "read_tag (t @ CHR ''>'' # r) = Inr (Open_Tag t, r)"
    and "read_tag (t @ CHR ''/'' # CHR ''>'' # r) = Inr (Empty_Tag t, r)"
    and "read_tag (CHR ''/'' # t @ CHR ''>'' # r) = Inr (Close_Tag t, r)"
proof -
  note p = plain_tag_chars [OF assms]
  obtain x xs where t: "t = x # xs" using p(10) by (cases t) auto
  have x: "\<not> startswith (t @ s) ''/''" "\<not> startswith t ''/''" for s using p(4) t by auto
  have l: "last t \<noteq> CHR ''/''" using p(4,10) last_in_set by metis
  have u: "unescape t = Inr t" by (rule unescape_plain [OF p(7,3)])
  have "open_tag t = Inr (t, False)" using l u p(10) by (simp add: open_tag_def Let_def p(9))
  then show "read_tag (t @ CHR ''>'' # r) = Inr (Open_Tag t, r)"
    using x(2) by (simp only: read_tag_def scan_plain [OF p(1,5,6)] bindR.simps prod.case if_False)
  have "open_tag (t @ ''/'') = Inr (t, True)" using u p(10) by (simp add: open_tag_def Let_def p(9))
  moreover have "scan_tag None (t @ CHR ''/'' # CHR ''>'' # r) = Inr (t @ ''/'', r)"
    using scan_plain [of "t @ ''/''" r] p by simp
  ultimately show "read_tag (t @ CHR ''/'' # CHR ''>'' # r) = Inr (Empty_Tag t, r)"
    using x(1) [of "''/''"] by (simp only: read_tag_def bindR.simps prod.case if_False if_True)
  have "scan_tag None (CHR ''/'' # t @ CHR ''>'' # r) = Inr (CHR ''/'' # t, r)"
    using scan_plain [of "CHR ''/'' # t" r] p by simp
  moreover have "strip is_space t = t"
  proof -
    have "lstrip is_space t = t" by (rule lstrip_id) (use p(8) in auto)
    moreover have "lstrip is_space (rev t) = rev t"
    proof (rule lstrip_id)
      fix c s' assume "rev t = c # s'"
      then have "c \<in> set t" by (metis list.set_intros(1) set_rev)
      then show "\<not> is_space c" by (rule p(8))
    qed
    ultimately show ?thesis by (simp add: strip_def)
  qed
  ultimately show "read_tag (CHR ''/'' # t @ CHR ''>'' # r) = Inr (Close_Tag t, r)"
    by (simp add: read_tag_def)
qed

text \<open>The events of a document, and the documents that are read as they are: an element has one text, or elements.\<close>

fun dom_events :: "dom \<Rightarrow> sax list" where
  "dom_events (Text s) = (if s = [] then [] else [Characters s])"
| "dom_events (Elem t attrs ch) = Start t # concat (map dom_events ch) @ [End t]"

fun dom_ok :: "dom \<Rightarrow> bool" where
  "dom_ok (Text s) \<longleftrightarrow> False"
| "dom_ok (Elem t attrs ch) \<longleftrightarrow> plain_tag t \<and> attrs = [] \<and> ((\<exists>s. ch = [Text s] \<and> readable s) \<or> list_all dom_ok ch)"

definition add_events :: "sax list \<Rightarrow> sax list \<times> exc option \<Rightarrow> sax list \<times> exc option" where
  "add_events es r = (es @ fst r, snd r)"

lemma add_events_simps:
  "add_events [] r = r" "add_event e (add_events es r) = add_events (e # es) r"
  "add_events es (add_events es' r) = add_events (es @ es') r" "add_event e r = add_events [e] r"
  by (simp_all add: add_events_def add_event_def)

lemma sax_read_open: "plain_tag t \<Longrightarrow> st \<noteq> [] \<or> \<not> seen \<Longrightarrow>
    sax_read st seen (CHR ''<'' # t @ CHR ''>'' # r) = add_events [Start t] (sax_read (t # st) True r)"
  by (subst sax_read.simps) (auto simp: read_plain_tags add_events_simps)

lemma sax_read_empty: "plain_tag t \<Longrightarrow> st \<noteq> [] \<or> \<not> seen \<Longrightarrow>
    sax_read st seen (CHR ''<'' # t @ CHR ''/'' # CHR ''>'' # r) = add_events [Start t, End t] (sax_read st True r)"
  by (subst sax_read.simps) (auto simp: read_plain_tags add_events_simps)

lemma sax_read_close: "plain_tag t \<Longrightarrow>
    sax_read (t # st) seen (CHR ''<'' # CHR ''/'' # t @ CHR ''>'' # r) = add_events [End t] (sax_read st seen r)"
  by (subst sax_read.simps) (auto simp: read_plain_tags add_events_simps)

lemma sax_read_text:
  assumes "readable s" "st \<noteq> []"
  shows "sax_read st seen (minidom_escape s @ CHR ''<'' # r) = add_events (dom_events (Text s)) (sax_read st seen (CHR ''<'' # r))"
proof (cases "s = []")
  case True
  then show ?thesis by (simp add: minidom_escape_def add_events_simps)
next
  case False
  then obtain c cs where e: "minidom_escape s = c # cs" using minidom_escape_Nil by (cases "minidom_escape s") auto
  have c: "c \<noteq> CHR ''<''" using minidom_escape_chars(1) [of s] e by auto
  have t: "takeWhile (\<lambda>c. c \<noteq> CHR ''<'') (minidom_escape s @ CHR ''<'' # r) = minidom_escape s"
    "dropWhile (\<lambda>c. c \<noteq> CHR ''<'') (minidom_escape s @ CHR ''<'' # r) = CHR ''<'' # r"
    using minidom_escape_chars(1) [of s] by (auto simp: takeWhile_append dropWhile_append)
  show ?thesis
    by (subst sax_read.simps) (use t c False assms(2) text_read_escape [OF assms(1)] in \<open>simp add: e add_events_simps Let_def\<close>)
qed

lemma sax_read_dom:
  "dom_ok d \<Longrightarrow> st \<noteq> [] \<or> \<not> seen \<Longrightarrow> sax_read st seen (dom_xml d @ r) = add_events (dom_events d) (sax_read st True r)"
  "list_all dom_ok ds \<Longrightarrow> st \<noteq> [] \<Longrightarrow>
    sax_read st True (doms_xml ds @ r) = add_events (concat (map dom_events ds)) (sax_read st True r)"
proof (induction d and ds arbitrary: st seen r and st r rule: dom_xml_doms_xml.induct)
  case (2 t attrs ch)
  then have p: "plain_tag t" "attrs = []" by simp_all
  show ?case
  proof (cases "ch = []")
    case True
    then show ?thesis using sax_read_empty [OF p(1) 2(3)] p(2) by simp
  next
    case False
    have "sax_read st seen (dom_xml (Elem t attrs ch) @ r) =
        add_events [Start t] (sax_read (t # st) True (doms_xml ch @ CHR ''<'' # CHR ''/'' # t @ CHR ''>'' # r))"
      using sax_read_open [OF p(1) 2(3)] False p(2) by simp
    also have "sax_read (t # st) True (doms_xml ch @ CHR ''<'' # CHR ''/'' # t @ CHR ''>'' # r) =
        add_events (concat (map dom_events ch)) (sax_read (t # st) True (CHR ''<'' # CHR ''/'' # t @ CHR ''>'' # r))"
    proof (cases "\<exists>s. ch = [Text s] \<and> readable s")
      case True
      then obtain s where s: "ch = [Text s]" "readable s" by blast
      show ?thesis using sax_read_text [OF s(2), of "t # st" True] by (simp add: s(1))
    next
      case no_text: False
      then have "list_all dom_ok ch" using 2(2) by auto
      then show ?thesis using 2(1) [OF False] by simp
    qed
    also have "sax_read (t # st) True (CHR ''<'' # CHR ''/'' # t @ CHR ''>'' # r) = add_events [End t] (sax_read st True r)"
      by (rule sax_read_close [OF p(1)])
    finally show ?thesis by (simp add: add_events_simps)
  qed
qed (simp_all add: add_events_simps)

subsection \<open>One request\<close>

definition admin_call_ok where
  "admin_call_ok sha256 fl ip access secret timestamp K u \<longleftrightarrow>
     lower ip = ip \<and> access \<noteq> [] \<and> timestamp \<noteq> [] \<and> (\<forall>m. sha256 secret m \<noteq> []) \<and>
     get_user_from_access_key fl K access = Inr (Some u) \<and> u_secret u = secret"

lemma admin_call:
  assumes "admin_call_ok sha256 fl ip access secret timestamp K u" and "name \<noteq> []" and "action \<noteq> []"
    and "map_of controllers ''Admin'' = Some ctrl" and "ctrl (camelcase_to_underscore action) = Some f"
  shows "send_action sha1 sha256 urlparse
      (api_server (authenticate sha1 sha256 fl) str_e class_name controllers R error_page other)
      (admin_conn ip access secret python26) timestamp action [(''Name'', name)] K =
    (case f u [(''name'', JStr name)] K of
       (Inl e, K') \<Rightarrow> Some (Inr (Reply 400 None (ar_body (error_callback str_e class_name e))), K')
     | (Inr j, K') \<Rightarrow> (case render_response action j R of
           Inl e \<Rightarrow> Some (Inr (Reply 400 None (ar_body (error_callback str_e class_name e))), K')
         | Inr body \<Rightarrow> Some (Inr (Reply 200 None body), K')))"
proof -
  let ?c = "admin_conn ip access secret python26" and ?args = "[(''Name'', name)]"
  let ?server = "api_server (authenticate sha1 sha256 fl) str_e class_name controllers R error_page other"
  have ok: "lower ip = ip" "access \<noteq> []" "timestamp \<noteq> []" "\<And>m. sha256 secret m \<noteq> []"
      "get_user_from_access_key fl K access = Inr (Some u)" "u_secret u = secret"
    using assms(1) by (simp_all add: admin_call_ok_def)
  have path: "boto_get_path ?c ''/'' = Inr ''/services/Admin/''" by (simp add: boto_get_path_def admin_conn_def Let_def)
  have route: "services_controller ''/services/Admin/'' = Some ''Admin''" by code_simp
  have digits: "digit 8 = CHR ''8''" "digit 7 = CHR ''7''" "digit 3 = CHR ''3''" by code_simp+
  then have name: "server_name ?c = ip @ '':8773''"
    by (simp add: server_name_def admin_conn_def str_int_def str_nat.simps)
  have l: "lower '':8773'' = '':8773''" by code_simp
  then have low: "lower (server_name ?c) = server_name ?c" unfolding name map_append l ok(1) ..
  have conn: "bc_signature_version ?c = ''2''" "bc_access ?c = access" "bc_secret ?c = secret" "bc_num_retries ?c = 5"
    by (simp_all add: admin_conn_def)
  have send: "sendable ?c timestamp action ?args"
    using ok(2,3) assms(2,3) by (simp add: sendable_def protocol_keys_def boto_params_def admin_conn_def)
  have margs: "method_args (singles (sorted_items ?args)) = Inr [(''name'', JStr name)]"
  proof -
    have "camelcase_to_underscore ''Name'' = ''name''" by code_simp
    then show ?thesis by (simp add: method_args_def sorted_items_def add_arg_def)
  qed
  have api: "api_send ctrl (''Admin'' @ ''Controller'') action R u (singles (sorted_items ?args)) K =
      (case bindS (f u [(''name'', JStr name)]) (\<lambda>r. liftR (render_response action r R)) K of (d, s') \<Rightarrow> (Inr d, s'))"
    using assms(5) margs by (simp add: api_send_def sorted_items_def bindS_def)
  have noq: "CHR ''?'' \<notin> set ''/''" by simp
  obtain m where m: "boto_message sha1 sha256 ?c timestamp action ?args ''/'' ''GET'' = Inr m"
    "?server (server_name ?c) m K =
      (case api_send ctrl (''Admin'' @ ''Controller'') action R u (singles (sorted_items ?args)) K of
         (Inl e, s') \<Rightarrow> (exception_reply error_page e, s')
       | (Inr (Inl e), s') \<Rightarrow> (Reply 400 None (ar_body (error_callback str_e class_name e)), s')
       | (Inr (Inr body), s') \<Rightarrow> (Reply 200 None body, s'))"
    using client_call [where K = "\<lambda>s. s" and s = K and c = ?c and fl = fl and u = u and ?sha1.0 = sha1 and ?sha256.0 = sha256
        and error_page = error_page and str_e = str_e and class_name = class_name and other = other and request_id = R,
        unfolded conn, OF refl path noq route assms(4) send ok(4,5,6) low] by blast
  note m2 = m(2) [unfolded api, unfolded bindS_def]
  show ?thesis
  proof (cases "f u [(''name'', JStr name)] K")
    case (Pair r K')
    show ?thesis
    proof (cases r)
      case (Inl e)
      have "?server (server_name ?c) m K = (Reply 400 None (ar_body (error_callback str_e class_name e)), K')"
        using m2 by (simp add: Pair Inl)
      then show ?thesis using mexe_first [of ?server "server_name ?c" m K 400 _ K' "Suc 5"]
        by (simp add: send_action_def make_request_def m(1) conn Pair Inl)
    next
      case (Inr j)
      show ?thesis
      proof (cases "render_response action j R")
        case (Inl e)
        have "?server (server_name ?c) m K = (Reply 400 None (ar_body (error_callback str_e class_name e)), K')"
          using m2 by (simp add: Pair Inr Inl liftR_def)
        then show ?thesis using mexe_first [of ?server "server_name ?c" m K 400 _ K' "Suc 5"]
          by (simp add: send_action_def make_request_def m(1) conn Pair Inr Inl)
      next
        case body: (Inr body)
        have "?server (server_name ?c) m K = (Reply 200 None body, K')"
          using m2 by (simp add: Pair Inr body liftR_def)
        then show ?thesis using mexe_first [of ?server "server_name ?c" m K 200 _ K' "Suc 5"]
          by (simp add: send_action_def make_request_def m(1) conn Pair Inr body)
      qed
    qed
  qed
qed

subsection \<open>The answer\<close>

lemma unix_lines_none: "CHR 13 \<notin> set s \<Longrightarrow> unix_lines s = s"
  by (induction s) auto

lemma dom_no_cr:
  "dom_ok d \<Longrightarrow> CHR 13 \<notin> set (dom_xml d)"
  "list_all dom_ok ds \<Longrightarrow> CHR 13 \<notin> set (doms_xml ds)"
proof (induction d and ds rule: dom_xml_doms_xml.induct)
  case (2 t attrs ch)
  have "CHR 13 \<notin> set t"
  proof
    assume "CHR 13 \<in> set t"
    moreover have "name_char c" if "c \<in> set t" for c using 2(2) that by (simp add: plain_tag_def list_all_iff)
    ultimately have "name_char CHR 13" by blast
    then show False by (simp add: name_char_def is_upper_def is_lower_def is_digit_def)
  qed
  moreover have "CHR 13 \<notin> set (minidom_escape s)" if "readable s" for s
    using that by (induction s) (auto simp: minidom_escape_def readable_Cons)
  ultimately show ?case using 2 by auto
qed simp_all

abbreviation response_attr :: string where
  "response_attr \<equiv> '' xmlns='' @ [CHR 0x22] @ ''http://ec2.amazonaws.com/doc/2009-11-30/'' @ [CHR 0x22]"

lemma read_response_tag:
  assumes "plain_tag t"
  shows "read_tag (t @ response_attr @ CHR ''>'' # r) = Inr (Open_Tag t, r)"
proof -
  note p = plain_tag_chars [OF assms]
  have scan: "scan_tag None (t @ response_attr @ CHR ''>'' # r) = Inr (t @ response_attr, r)"
    using p(1,5,6) by (induction t) auto
  obtain x xs where t: "t = x # xs" using p(10) by (cases t) auto
  have no: "\<not> startswith (t @ s) ''/''" for s using p(4) t by auto
  have "takeWhile name_char (t @ response_attr) = t"
  proof -
    have "\<not> name_char CHR '' ''" by (simp add: name_char_def is_upper_def is_lower_def is_digit_def)
    then show ?thesis using assms by (simp add: plain_tag_def list_all_iff takeWhile_append2)
  qed
  moreover have "unescape (t @ response_attr) = Inr (t @ response_attr)"
    by (rule unescape_plain) (use p(3,7) in \<open>simp_all add: xml_char_def\<close>)
  moreover have "attrs_ok Gap response_attr"
    by (simp add: is_space_def name_char_def is_upper_def is_lower_def is_digit_def)
  ultimately have "open_tag (t @ response_attr) = Inr (t, False)"
    using p(10) by (simp add: open_tag_def Let_def del: attrs_ok.simps)
  then show ?thesis using no [of response_attr] by (simp only: read_tag_def scan bindR.simps prod.case if_False)
qed

lemma handle_all_append: "handle_all f (es @ es') h = bindR (handle_all f es h) (handle_all f es')"
proof (induction es arbitrary: h)
  case (Cons e es)
  then show ?case by (cases "f e h") simp_all
qed simp

lemma handle_leaf:
  assumes "n \<noteq> ''root''"
  shows "handle_all handle_info (dom_events (Elem n [] [Text v]) @ es) \<lparr>ih_nodes = [''root''], ih_text = x, ih_info = i\<rparr> =
      bindR (user_info_end n v i) (\<lambda>i. handle_all handle_info es \<lparr>ih_nodes = [''root''], ih_text = [], ih_info = i\<rparr>)"
    and "handle_all handle_info (dom_events (Elem n [] []) @ es) \<lparr>ih_nodes = [''root''], ih_text = x, ih_info = i\<rparr> =
      bindR (user_info_end n [] i) (\<lambda>i. handle_all handle_info es \<lparr>ih_nodes = [''root''], ih_text = [], ih_info = i\<rparr>)"
proof -
  have one: "handle_all handle_info (End n # es) \<lparr>ih_nodes = [''root''], ih_text = v, ih_info = i\<rparr> =
      bindR (user_info_end n v i) (\<lambda>i. handle_all handle_info es \<lparr>ih_nodes = [''root''], ih_text = [], ih_info = i\<rparr>)" for v
    using assms by (cases "user_info_end n v i") simp_all
  show "handle_all handle_info (dom_events (Elem n [] [Text v]) @ es) \<lparr>ih_nodes = [''root''], ih_text = x, ih_info = i\<rparr> =
      bindR (user_info_end n v i) (\<lambda>i. handle_all handle_info es \<lparr>ih_nodes = [''root''], ih_text = [], ih_info = i\<rparr>)"
    using one [of v] by (cases "v = []") simp_all
  show "handle_all handle_info (dom_events (Elem n [] []) @ es) \<lparr>ih_nodes = [''root''], ih_text = x, ih_info = i\<rparr> =
      bindR (user_info_end n [] i) (\<lambda>i. handle_all handle_info es \<lparr>ih_nodes = [''root''], ih_text = [], ih_info = i\<rparr>)"
    using one [of "[]"] by simp
qed

abbreviation fresh_info :: "user_info \<Rightarrow> info_handler" where
  "fresh_info i \<equiv> \<lparr>ih_nodes = [''root''], ih_text = [], ih_info = i\<rparr>"

lemma parse_response:
  assumes "plain_tag (action @ ''Response'')" "readable R" "list_all dom_ok (render_dict d)"
  shows "\<exists>body. render_response action (JDict d) R = Inr body \<and>
    parse_info body = bindR (handle_all handle_info (concat (map dom_events (render_dict d)) @ [End (action @ ''Response'')]) (fresh_info blank_info))
      (\<lambda>h. Inr (ih_info h))"
proof -
  let ?t = "action @ ''Response''" and ?req = "Elem ''requestId'' [] [Text R]"
  let ?decl = "''<?xml version='' @ [CHR 0x22] @ ''1.0'' @ [CHR 0x22] @ '' ?>''"
  let ?ds = "?req # render_dict d"
  define rest where "rest = ''<'' @ ?t @ response_attr @ CHR ''>'' # doms_xml ?ds @ CHR ''<'' # CHR ''/'' # ?t @ ''>''"
  have ok: "list_all dom_ok ?ds" using assms(2,3) by (simp add: plain_tag_def name_char_def is_upper_def is_lower_def is_digit_def)
  have render: "render_response action (JDict d) R = Inr (?decl @ rest)"
    by (simp add: render_response_def rest_def minidom_escape_def)
  have "CHR 13 \<notin> set ?t"
  proof
    assume "CHR 13 \<in> set ?t"
    then have "name_char CHR 13" using assms(1) unfolding plain_tag_def list_all_iff by blast
    then show False by (simp add: name_char_def is_upper_def is_lower_def is_digit_def)
  qed
  then have "CHR 13 \<notin> set (?decl @ rest)" using dom_no_cr(2) [OF ok] by (simp add: rest_def del: doms_xml.simps)
  then have unix: "unix_lines (?decl @ rest) = ?decl @ rest" by (rule unix_lines_none)
  have after: "after_declaration (drop 5 (?decl @ rest)) = Some rest" by simp
  have start: "startswith (?decl @ rest) ''<?xml''" by simp
  have "sax_read [] False rest = add_events [Start ?t] (sax_read [?t] True (doms_xml ?ds @ CHR ''<'' # CHR ''/'' # ?t @ ''>''))"
    unfolding rest_def by (subst sax_read.simps)
      (simp add: read_response_tag [OF assms(1), simplified] add_events_simps del: doms_xml.simps)
  also have "sax_read [?t] True (doms_xml ?ds @ CHR ''<'' # CHR ''/'' # ?t @ ''>'') =
      add_events (concat (map dom_events ?ds)) (sax_read [?t] True (CHR ''<'' # CHR ''/'' # ?t @ ''>''))"
    by (rule sax_read_dom(2) [OF ok]) simp
  also have "sax_read [?t] True (CHR ''<'' # CHR ''/'' # ?t @ ''>'') = ([End ?t], None)"
    using sax_read_close [OF assms(1), of "[]" True "[]"] by (simp add: sax_read.simps [of _ _ "[]"] add_events_def)
  finally have "sax_read [] False rest = (Start ?t # concat (map dom_events ?ds) @ [End ?t], None)"
    by (simp add: add_events_def)
  then have parse: "parse_string (?decl @ rest) = (Start ?t # concat (map dom_events ?ds) @ [End ?t], None)"
    unfolding parse_string_def Let_def unix after start if_True option.case by simp
  have req: "handle_all handle_info (dom_events ?req @ es) (fresh_info blank_info) = handle_all handle_info es (fresh_info blank_info)" for es
    by (subst handle_leaf(1)) (simp_all add: user_info_end_def)
  have "handle_all handle_info (Start ?t # concat (map dom_events ?ds) @ [End ?t]) (fresh_info blank_info) =
      handle_all handle_info (concat (map dom_events (render_dict d)) @ [End ?t]) (fresh_info blank_info)"
    using req [of "concat (map dom_events (render_dict d)) @ [End ?t]"] by simp
  then have "parse_info (?decl @ rest) = bindR (handle_all handle_info (concat (map dom_events (render_dict d)) @ [End ?t]) (fresh_info blank_info))
      (\<lambda>h. Inr (ih_info h))"
    unfolding parse_info_def parse_with_def parse prod.case option.case
    by (cases "handle_all handle_info (concat (map dom_events (render_dict d)) @ [End ?t]) (fresh_info blank_info)") simp_all
  then show ?thesis using render by blast
qed

definition readable_user :: "user \<Rightarrow> bool" where
  "readable_user v \<longleftrightarrow> readable (u_id v) \<and> readable (u_access v) \<and> readable (u_secret v)"

definition info_of :: "user option \<Rightarrow> user_info" where
  "info_of x = (case x of None \<Rightarrow> blank_info | Some v \<Rightarrow>
     \<lparr>ui_username = Some (u_id v), ui_file = Some [], ui_accesskey = Some (u_access v), ui_secretkey = Some (u_secret v)\<rparr>)"

lemma ascii_readable: "readable s \<Longrightarrow> ascii_str s = Inr s"
  by (fastforce simp: ascii_str_def readable_def list_all_iff)

lemma xmlcase_names:
  "underscore_to_xmlcase ''username'' = ''username''" "underscore_to_xmlcase ''accesskey'' = ''accesskey''"
  "underscore_to_xmlcase ''secretkey'' = ''secretkey''" "underscore_to_xmlcase ''file'' = ''file''"
  "underscore_to_xmlcase ''return'' = ''return''"
  by code_simp+

definition call_name :: "string \<Rightarrow> bool" where
  "call_name action \<longleftrightarrow> plain_tag (action @ ''Response'') \<and>
     action @ ''Response'' \<notin> {''root'', ''username'', ''file'', ''accesskey'', ''secretkey''}"

lemma call_names: "call_name ''DescribeUser''" "call_name ''RegisterUser''" "call_name ''DeregisterUser''"
  by (simp_all add: call_name_def plain_tag_def name_char_def is_upper_def is_lower_def is_digit_def)

lemma handle_end:
  assumes "call_name action"
  shows "handle_all handle_info [End (action @ ''Response'')] (fresh_info i) = Inr (fresh_info i)"
  using assms by (auto simp: call_name_def user_info_end_def)

lemma parse_user:
  assumes "call_name action" "readable R" "\<And>v. x = Some v \<Longrightarrow> readable_user v"
  shows "\<exists>body. render_response action (user_dict x None) R = Inr body \<and> parse_info body = Inr (info_of x)"
proof (cases x)
  case None
  then show ?thesis using parse_response [of action R "[]"] assms(1,2) handle_end [OF assms(1)]
    by (simp add: user_dict_def info_of_def call_name_def del: handle_all.simps)
next
  case (Some v)
  let ?d = "[(''username'', JStr (u_id v)), (''accesskey'', JStr (u_access v)), (''secretkey'', JStr (u_secret v)), (''file'', JNull)]"
  have r: "readable (u_id v)" "readable (u_access v)" "readable (u_secret v)" using assms(3) [OF Some] by (simp_all add: readable_user_def)
  have "list_all dom_ok (render_dict ?d)"
    using r by (simp add: xmlcase_names plain_tag_def name_char_def is_upper_def is_lower_def is_digit_def)
  moreover have "handle_all handle_info (concat (map dom_events (render_dict ?d)) @ [End (action @ ''Response'')]) (fresh_info blank_info) =
      Inr (fresh_info (info_of x))"
  proof -
    have "b64decode [] = Inr []" by code_simp
    then show ?thesis
      using r handle_end [OF assms(1)]
      by (simp add: xmlcase_names handle_leaf user_info_end_def ascii_readable ascii_readable [of "[]"] readable_def [of "[]"] Some info_of_def blank_info_def
          del: handle_all.simps dom_events.simps)
  qed
  ultimately show ?thesis using parse_response [of action R ?d] assms(1,2)
    by (simp add: user_dict_def Some call_name_def opt_json_def del: handle_all.simps render_dict.simps)
qed

lemma parse_true:
  assumes "call_name action" "readable R"
  shows "\<exists>body. render_response action (JBool True) R = Inr body \<and> parse_info body = Inr blank_info"
proof -
  let ?d = "[(''return'', JStr ''true'')]"
  have ok: "list_all dom_ok (render_dict ?d)"
    by (simp add: xmlcase_names plain_tag_def name_char_def is_upper_def is_lower_def is_digit_def readable_def)
  have "handle_all handle_info (concat (map dom_events (render_dict ?d)) @ [End (action @ ''Response'')]) (fresh_info blank_info) =
      Inr (fresh_info blank_info)"
    using handle_end [OF assms(1), of blank_info]
    by (simp add: xmlcase_names handle_leaf user_info_end_def del: handle_all.simps dom_events.simps)
  moreover have "render_response action (JBool True) R = render_response action (JDict ?d) R"
    by (simp add: render_response_def)
  moreover have "plain_tag (action @ ''Response'')" using assms(1) by (simp only: call_name_def)
  ultimately show ?thesis using parse_response [OF _ assms(2) ok, of action] by auto
qed

subsection \<open>The client and the controller\<close>

lemma admin_actions:
  "camelcase_to_underscore ''DescribeUser'' = ''describe_user''"
  "camelcase_to_underscore ''RegisterUser'' = ''register_user''"
  "camelcase_to_underscore ''DeregisterUser'' = ''deregister_user''"
  by code_simp+

lemma admin_methods:
  "admin_controller fl uuids cred ''describe_user'' = Some (\<lambda>u args. admin_only u (bindS (liftR (text_arg args ''name'')) (describe_user fl u)))"
  "admin_controller fl uuids cred ''register_user'' = Some (\<lambda>u args. admin_only u (bindS (liftR (text_arg args ''name'')) (register_user fl uuids u)))"
  "admin_controller fl uuids cred ''deregister_user'' = Some (\<lambda>u args. admin_only u (bindS (liftR (text_arg args ''name'')) (deregister_user fl u)))"
  by (simp_all add: admin_controller_def)

text \<open>C16: The administration client learns of a user what the user manager of the server knows: for a caller that is
  an administrator the name and both keys of the user of that name, or that there is none; for any other caller there
  is none. Nothing changes.\<close>

theorem admin_client_reads_user:
  assumes "admin_call_ok sha256 fl ip access secret timestamp K u"
    and "map_of controllers ''Admin'' = Some (admin_controller fl uuids cred)"
    and "name \<noteq> []" and "readable R" and "get_user fl K name = Inr x" and "\<And>v. x = Some v \<Longrightarrow> readable_user v"
  shows "client_get_user (send_action sha1 sha256 urlparse
      (api_server (authenticate sha1 sha256 fl) str_e class_name controllers R error_page other)
      (admin_conn ip access secret python26) timestamp) name K =
    Some (Inr (if u_admin u \<and> x \<noteq> None then Some (info_of x) else None), K)"
proof -
  let ?f = "\<lambda>u args. admin_only u (bindS (liftR (text_arg args ''name'')) (describe_user fl u))"
  have call: "?f u [(''name'', JStr name)] K = (Inr (user_dict (if u_admin u then x else None) None), K)"
    using assms(5) by (simp add: admin_only_def describe_user_def bindS_def text_arg_def user_dict_def)
  have v: "readable_user v" if "(if u_admin u then x else None) = Some v" for v
    using assms(6) [of v] that by (simp split: if_splits)
  obtain body where body: "render_response ''DescribeUser'' (user_dict (if u_admin u then x else None) None) R = Inr body"
    "parse_info body = Inr (info_of (if u_admin u then x else None))"
    using parse_user [OF call_names(1) assms(4) v] by blast
  show ?thesis
    by (simp add: client_get_user_def get_object_def on_reply_def
        admin_call [OF assms(1,3) _ assms(2), of "''DescribeUser''", unfolded admin_actions, OF _ admin_methods(1)] call body)
      (auto simp: info_of_def blank_info_def split: option.splits)
qed


definition roots_store :: kstore where
  "roots_store = snd (ldap_create_user (default_flags ''/n'' ''h'') ''root'' ''ka'' ''s'' True (fakeldap_module Map.empty))"

definition root_user :: user where
  "root_user = \<lparr>u_id = ''root'', u_name = ''root'', u_access = ''ka'', u_secret = ''s'', u_admin = True\<rparr>"

lemma root_calls: "admin_call_ok (@) (default_flags ''/n'' ''h'') ''127.0.0.1'' ''ka'' ''s'' ''t & u'' roots_store root_user"
proof -
  have "get_user_from_access_key (default_flags ''/n'' ''h'') roots_store ''ka'' = Inr (Some root_user)" by code_simp
  moreover have "lower ''127.0.0.1'' = ''127.0.0.1''" by code_simp
  moreover have "u_secret root_user = ''s''" by (simp add: root_user_def)
  ultimately show ?thesis by (simp only: admin_call_ok_def) simp
qed

abbreviation root_sends where
  "root_sends \<equiv> send_action (@) (@) (\<lambda>_. ([], []))
     (api_server (authenticate (@) (@) (default_flags ''/n'' ''h'')) (\<lambda>_. []) (\<lambda>_. [])
       [(''Admin'', admin_controller (default_flags ''/n'' ''h'') (''ua'', ''us'') (\<lambda>_. retS []))] ''R'' (\<lambda>_. [])
       (\<lambda>_ _ s. (No_Reply IOError, s)))
     (admin_conn ''127.0.0.1'' ''ka'' ''s'' True) ''t & u''"

theorem admin_client_reads_user_witness:
  "client_get_user root_sends ''root'' roots_store =
    Some (Inr (Some \<lparr>ui_username = Some ''root'', ui_file = Some [], ui_accesskey = Some ''ka'', ui_secretkey = Some ''s''\<rparr>), roots_store)"
proof -
  have x: "get_user (default_flags ''/n'' ''h'') roots_store ''root'' = Inr (Some root_user)" by code_simp
  have R: "readable ''R''" by (simp add: readable_def)
  have v: "readable_user v" if "Some root_user = Some v" for v
    using that by (auto simp: root_user_def readable_user_def readable_def)
  have name: "''root'' \<noteq> []" by simp
  have ctrl: "map_of [(''Admin'', c)] ''Admin'' = Some c" for c :: "string \<Rightarrow> (user \<Rightarrow> attributes \<Rightarrow> (kstore, json) act) option" by simp
  have "client_get_user root_sends ''root'' roots_store = Some (Inr (if u_admin root_user \<and> Some root_user \<noteq> None then Some (info_of (Some root_user)) else None), roots_store)"
    by (rule admin_client_reads_user [OF root_calls ctrl name R x v])
  then show ?thesis by (simp add: root_user_def info_of_def)
qed


subsection \<open>Listing\<close>

lemma first_event:
  "case sax_read [] False s of ([], err) \<Rightarrow> err \<noteq> None | (e # es, err) \<Rightarrow> \<exists>n. e = Start n"
proof -
  have gen: "st = [] \<Longrightarrow> \<not> seen \<Longrightarrow> (case sax_read st seen s of ([], err) \<Rightarrow> err \<noteq> None | (e # es, err) \<Rightarrow> \<exists>n. e = Start n)" for st seen
  proof (induction st seen s rule: sax_read.induct)
    case (1 st seen s)
    show ?case
    proof (cases s)
      case Nil
      then show ?thesis using 1 by (simp add: sax_read.simps)
    next
      case (Cons c cs)
      show ?thesis
      proof (cases "c = CHR ''<''")
        case True
        then show ?thesis using 1(5-) by (subst sax_read.simps)
          (auto simp: Cons add_event_def split: sum.split prod.split tag.split)
      next
        case False
        then show ?thesis using 1(4) [OF Cons False refl refl] 1(5-)
          by (subst sax_read.simps) (auto simp: Cons Let_def split: if_splits)
      qed
    qed
  qed
  show ?thesis by (rule gen) simp_all
qed

text \<open>C40: The administration client never gets a list of users: whatever the server answers, or whether it does at
  all, get_users returns no list, because the markers that it gives are no pairs.\<close>

theorem client_lists_no_users: "client_get_users send s \<noteq> Some (Inr us, s')"
proof -
  have never: "parse_list [Text_Marker ''item'', Class_Marker] body \<noteq> Inr us" for body us
  proof -
    obtain es err where p: "parse_string body = (es, err)" by (cases "parse_string body")
    have "(es = [] \<and> err \<noteq> None) \<or> (\<exists>n es'. es = Start n # es')"
    proof -
      have "(\<exists>x. parse_string body = (fst (sax_read [] False x), map_option (\<lambda>_. SAXParseException) (snd (sax_read [] False x)))) \<or>
          parse_string body = ([], Some SAXParseException)"
        by (cases "after_declaration (drop 5 (unix_lines body))"; cases "startswith (unix_lines body) ''<?xml''")
          (auto simp: parse_string_def Let_def case_prod_beta simp del: startswith.simps)
      then consider x where "es = fst (sax_read [] False x)" "err = map_option (\<lambda>_. SAXParseException) (snd (sax_read [] False x))"
        | "es = [] \<and> err \<noteq> None"
        using p by auto
      then show ?thesis
      proof cases
        case (1 x)
        then show ?thesis using first_event [of x] by (cases "sax_read [] False x") (auto split: list.splits)
      qed simp
    qed
    moreover have "marker_start [Text_Marker ''item'', Class_Marker] n = Inl TypeError" for n
      by simp
    ultimately show ?thesis
      by (auto simp: parse_list_def parse_with_def p list_start_def use_method_def split: option.splits simp del: marker_start.simps)
  qed
  show ?thesis using never
    by (auto simp: client_get_users_def get_list_def on_reply_def split: reply.splits if_splits)
qed

end
