(* ===== verification/CloudProps.thy ===== *)
theory CloudProps
  imports CloudRun
begin

text \<open>
  What the cloud controller promises: other users' objects stay untouched, the reports of the nodes
  decide what it knows, and the addresses of new instances.
\<close>

subsection \<open>Objects of other users\<close>

text \<open>The operations on existing instances and volumes.\<close>

datatype cloud_op =
    Terminate string
  | Reboot string
  | Console string
  | Attach string string json
  | Detach string
  | Delete string

fun cloud_op_run :: "flags \<Rightarrow> user \<Rightarrow> cloud_op \<Rightarrow> cloud \<Rightarrow> exc option \<times> cloud" where
  "cloud_op_run fl u (Terminate i) cl = (let (r, cl) = terminate_instances fl u [i] cl in (case r of Inl e \<Rightarrow> Some e | Inr _ \<Rightarrow> None, cl))"
| "cloud_op_run fl u (Reboot i) cl = (let (r, cl) = reboot_instances u [i] cl in (case r of Inl e \<Rightarrow> Some e | Inr _ \<Rightarrow> None, cl))"
| "cloud_op_run fl u (Console i) cl = (let (r, cl) = cloud_get_console_output fl u [i] cl in (case r of Inl e \<Rightarrow> Some e | Inr _ \<Rightarrow> None, cl))"
| "cloud_op_run fl u (Attach v i d) cl = (let (r, cl) = cloud_attach_volume fl u v i d cl in (case r of Inl e \<Rightarrow> Some e | Inr _ \<Rightarrow> None, cl))"
| "cloud_op_run fl u (Detach v) cl = (let (r, cl) = cloud_detach_volume fl u v cl in (case r of Inl e \<Rightarrow> Some e | Inr _ \<Rightarrow> None, cl))"
| "cloud_op_run fl u (Delete v) cl = (let (r, cl) = cloud_delete_volume fl u v cl in (case r of Inl e \<Rightarrow> Some e | Inr _ \<Rightarrow> None, cl))"

text \<open>The object is known and belongs to somebody else, or to nobody.\<close>

definition others :: "user \<Rightarrow> nodes \<Rightarrow> string \<Rightarrow> string \<Rightarrow> bool" where
  "others u ns k i \<longleftrightarrow> (case get_by_id ns i of
      Inl e \<Rightarrow> False
    | Inr (n, d) \<Rightarrow> \<not> u_admin u \<and> owner_text (get0 d k) \<noteq> Some (u_id u))"

fun on_others :: "user \<Rightarrow> cloud \<Rightarrow> cloud_op \<Rightarrow> bool" where
  "on_others u cl (Terminate i) = others u (cl_instances cl) ''owner_id'' i"
| "on_others u cl (Reboot i) = others u (cl_instances cl) ''owner_id'' i"
| "on_others u cl (Console i) = others u (cl_instances cl) ''owner_id'' i"
| "on_others u cl (Attach v i d) \<longleftrightarrow> others u (cl_volumes cl) ''user_id'' v \<or> others u (cl_instances cl) ''owner_id'' i"
| "on_others u cl (Detach v) = others u (cl_volumes cl) ''user_id'' v"
| "on_others u cl (Delete v) = others u (cl_volumes cl) ''user_id'' v"

lemma others_Inr:
  assumes "others u ns k i"
  obtains n d where "get_by_id ns i = Inr (n, d)" "is_authorized u (owner_text (get0 d k)) None = Inl KeyError"
proof (cases "get_by_id ns i")
  case (Inr x)
  then show ?thesis using assms that by (cases x) (auto simp: others_def is_authorized_def)
qed (use assms in \<open>simp add: others_def\<close>)

lemma authorized_eq: "authorized u k d = liftR (is_authorized u (owner_text (get0 d k)) None)"
  by (simp add: authorized_def)

lemma attach_others:
  assumes "others u (cl_volumes cl) ''user_id'' v \<or> others u (cl_instances cl) ''owner_id'' i"
  shows "\<exists>e. cloud_attach_volume fl u v i d cl = (Inl e, cl)"
proof (cases "get_by_id (cl_volumes cl) v")
  case (Inl e)
  then show ?thesis by (simp add: cloud_attach_volume_def bindS_def get_cloud_volume_def)
next
  case (Inr x)
  obtain n vol where x: "x = (n, vol)" by fastforce
  show ?thesis
  proof (cases "is_authorized u (owner_text (get0 vol ''user_id'')) None = Inr True")
    case False
    then show ?thesis using Inr x
      by (cases "is_authorized u (owner_text (get0 vol ''user_id'')) None")
        (auto simp: cloud_attach_volume_def bindS_def get_cloud_volume_def authorized_eq)
  next
    case True
    then have "\<not> others u (cl_volumes cl) ''user_id'' v" using others_Inr [of u "cl_volumes cl" "''user_id''" v] Inr x by fastforce
    then have "others u (cl_instances cl) ''owner_id'' i" using assms by blast
    then show ?thesis using True Inr x
      by (auto elim!: others_Inr simp: cloud_attach_volume_def bindS_def get_cloud_volume_def get_instance_def authorized_eq)
  qed
qed

text \<open>C9: Whoever is no administrator can do nothing to the instances and volumes of others: ending,
  restarting, reading the console, attaching, detaching and deleting fail, no message is sent, and nothing that the
  controller knows changes.\<close>

theorem others_are_untouched:
  assumes "on_others u cl op"
  shows "\<exists>e. cloud_op_run fl u op cl = (Some e, cl)"
proof (cases op)
  case (Terminate i)
  then show ?thesis using assms
    by (auto elim!: others_Inr simp: terminate_instances_def terminate_one_def bindS_def get_instance_def authorized_eq)
next
  case (Reboot i)
  then show ?thesis using assms
    by (auto elim!: others_Inr simp: reboot_instances_def reboot_one_def bindS_def get_instance_def authorized_eq)
next
  case (Console i)
  then show ?thesis using assms
    by (auto elim!: others_Inr simp: cloud_get_console_output_def bindS_def get_instance_def authorized_eq)
next
  case (Attach v i d)
  then show ?thesis using assms attach_others [of u cl v i fl d] by auto
next
  case (Detach v)
  then show ?thesis using assms
    by (auto elim!: others_Inr simp: cloud_detach_volume_def bindS_def get_cloud_volume_def authorized_eq)
next
  case (Delete v)
  then show ?thesis using assms
    by (auto elim!: others_Inr simp: cloud_delete_volume_def bindS_def get_cloud_volume_def authorized_eq)
qed

definition demo_user :: user where
  "demo_user = \<lparr>u_id = ''ann'', u_name = ''ann'', u_access = [], u_secret = [], u_admin = False\<rparr>"

definition empty_net :: controller where
  "empty_net = \<lparr>c_vlan_pool = vlan_pool_init 1 2 [], c_private_pool = demo_pool,
     c_private_nets = [], c_public_net = None, c_world = quiet_world\<rparr>"

definition demo_cloud :: cloud where
  "demo_cloud = \<lparr>cl_volumes = [(''s1'', [(''vol-1'', [(''user_id'', JStr ''bob'')])])],
     cl_instances = [(''n1'', [(''i-1'', [(''owner_id'', JStr ''bob'')])]), (''pending'', [(''i-2'', [])])], cl_network = empty_net\<rparr>"

theorem others_are_untouched_witness:
  "\<forall>fl. \<exists>e. cloud_op_run fl demo_user (Attach ''vol-1'' ''i-1'' (JStr ''/dev/vdb'')) demo_cloud = (Some e, demo_cloud)"
proof (intro allI)
  fix fl
  have "on_others demo_user demo_cloud (Attach ''vol-1'' ''i-1'' (JStr ''/dev/vdb''))"
    by (simp add: others_def demo_cloud_def demo_user_def get0_def owner_text_def)
  then show "\<exists>e. cloud_op_run fl demo_user (Attach ''vol-1'' ''i-1'' (JStr ''/dev/vdb'')) demo_cloud = (Some e, demo_cloud)"
    by (rule others_are_untouched)
qed

subsection \<open>Reports\<close>

text \<open>A report: the topic, the node, and its objects.\<close>

type_synonym report = "string \<times> string \<times> (string, attributes) dict"

fun reports_run :: "report list \<Rightarrow> cloud \<Rightarrow> cloud" where
  "reports_run [] cl = cl"
| "reports_run ((t, n, items) # rs) cl = reports_run rs (snd (update_state t [(n, items)] cl))"

text \<open>What should be known: of each node its last report, and of the pending instances those that no report
  has had.\<close>

fun last_report :: "string \<Rightarrow> string \<Rightarrow> report list \<Rightarrow> (string, attributes) dict option" where
  "last_report t n [] = None"
| "last_report t n ((t', n', items) # rs) =
     (case last_report t n rs of None \<Rightarrow> (if t' = t \<and> n' = n then Some items else None) | Some d \<Rightarrow> Some d)"

definition reported :: "string \<Rightarrow> string \<Rightarrow> report list \<Rightarrow> bool" where
  "reported t i rs \<longleftrightarrow> (\<exists>n items. (t, n, items) \<in> set rs \<and> i \<in> fst ` set items)"

lemma merge_report_node: "n \<noteq> ''pending'' \<Longrightarrow> map_of (merge_report nname items ns) n = (if n = nname then Some items else map_of ns n)"
  by (simp add: merge_report_def split: option.splits)

lemma merge_report_pending:
  "nname \<noteq> ''pending'' \<Longrightarrow> map_of (merge_report nname items ns) ''pending'' = map_option (fold ddel (keys items)) (map_of ns ''pending'')"
  by (simp add: merge_report_def split: option.splits)

lemma update_state_instances:
  "cl_instances (snd (update_state t [(n, items)] cl)) =
     (if t = ''instances'' then merge_report n items (cl_instances cl) else cl_instances cl)"
  by (simp add: update_state_def)

lemma update_state_keeps:
  "cl_network (snd (update_state t r cl)) = cl_network cl"
  "t \<noteq> ''volumes'' \<Longrightarrow> cl_volumes (snd (update_state t r cl)) = cl_volumes cl"
  by (simp_all add: update_state_def split: list.splits)

text \<open>C11: After any sequence of reports from nodes and volume stores the controller knows of each node
  exactly what the node reported last, whatever was reported in between by others; an instance that it started itself
  is pending until the first report that lists it and never again after; and the network is not touched.\<close>

theorem reports_decide_what_is_known:
  assumes "\<forall>(t, n, items) \<in> set rs. n \<noteq> ''pending''"
  shows "(\<forall>n. n \<noteq> ''pending'' \<longrightarrow> map_of (cl_instances (reports_run rs cl)) n =
      (case last_report ''instances'' n rs of None \<Rightarrow> map_of (cl_instances cl) n | Some d \<Rightarrow> Some d)) \<and>
    (\<forall>i. map_option (\<lambda>p. map_of p i) (map_of (cl_instances (reports_run rs cl)) ''pending'') =
      map_option (\<lambda>p. if reported ''instances'' i rs then None else map_of p i) (map_of (cl_instances cl) ''pending'')) \<and>
    cl_network (reports_run rs cl) = cl_network cl"
  using assms
proof (induction rs arbitrary: cl)
  case Nil
  then show ?case by (simp add: reported_def)
next
  case (Cons r rs)
  obtain t n items where r: "r = (t, n, items)" by (cases r) auto
  have n: "n \<noteq> ''pending''" and rs: "\<forall>(t, n, items) \<in> set rs. n \<noteq> ''pending''" using Cons.prems r by auto
  define cl' where "cl' = snd (update_state t [(n, items)] cl)"
  note ih = Cons.IH [OF rs, of cl']
  have run: "reports_run (r # rs) cl = reports_run rs cl'" by (simp add: r cl'_def)
  have node: "map_of (cl_instances cl') m = (if t = ''instances'' \<and> m = n then Some items else map_of (cl_instances cl) m)"
    if "m \<noteq> ''pending''" for m
    using merge_report_node [OF that, of n items "cl_instances cl"] unfolding cl'_def update_state_instances by auto
  have pend: "map_option (\<lambda>p. map_of p i) (map_of (cl_instances cl') ''pending'') =
      map_option (\<lambda>p. if t = ''instances'' \<and> i \<in> fst ` set items then None else map_of p i) (map_of (cl_instances cl) ''pending'')" for i
    unfolding cl'_def update_state_instances using merge_report_pending [OF n, of items "cl_instances cl"]
    by (cases "map_of (cl_instances cl) ''pending''") (auto simp: map_of_fold_ddel_keys)
  have rep: "reported ''instances'' i (r # rs) \<longleftrightarrow> (t = ''instances'' \<and> i \<in> fst ` set items) \<or> reported ''instances'' i rs" for i
    by (auto simp: reported_def r)
  show ?case
  proof (intro conjI allI impI)
    fix m
    assume "m \<noteq> ''pending''"
    then show "map_of (cl_instances (reports_run (r # rs) cl)) m =
        (case last_report ''instances'' m (r # rs) of None \<Rightarrow> map_of (cl_instances cl) m | Some d \<Rightarrow> Some d)"
      using conjunct1 [OF ih, rule_format, of m] node [of m] unfolding run by (cases "last_report ''instances'' m rs") (auto simp: r)
  next
    fix i
    define listed where "listed \<longleftrightarrow> t = ''instances'' \<and> i \<in> fst ` set items"
    show "map_option (\<lambda>p. map_of p i) (map_of (cl_instances (reports_run (r # rs) cl)) ''pending'') =
      map_option (\<lambda>p. if reported ''instances'' i (r # rs) then None else map_of p i) (map_of (cl_instances cl) ''pending'')"
      unfolding run using conjunct1 [OF conjunct2 [OF ih], rule_format, of i] pend [of i] unfolding rep listed_def [symmetric]
      by (cases "map_of (cl_instances cl) ''pending''"; cases "map_of (cl_instances cl') ''pending''") auto
  next
    show "cl_network (reports_run (r # rs) cl) = cl_network cl" unfolding run using ih update_state_keeps(1) by (simp add: cl'_def)
  qed
qed

theorem reports_decide_what_is_known_witness:
  "map_of (cl_instances (reports_run [(''instances'', ''n2'', [(''i-2'', [])]), (''volumes'', ''s1'', []), (''instances'', ''n1'', [])] demo_cloud)) ''n1'' = Some []"
proof -
  let ?rs = "[(''instances'', ''n2'', [(''i-2'', [])]), (''volumes'', ''s1'', []), (''instances'', ''n1'', [])] :: report list"
  have "\<forall>(t, n, items) \<in> set ?rs. n \<noteq> ''pending''" by simp
  from conjunct1 [OF reports_decide_what_is_known [OF this, of demo_cloud], rule_format, of "''n1''"] show ?thesis by simp
qed

end
