(* ===== verification/CloudLaunch.thy ===== *)
theory CloudLaunch
  imports CloudRun
begin

text \<open>
  Starting instances: which private addresses they get, and what is left when the network of the user has
  not enough of them.
\<close>

text \<open>The user exists and \<open>n\<close> is the network, which the controller and the datastore agree on.\<close>

definition ready :: "flags \<Rightarrow> string \<Rightarrow> cloud \<Rightarrow> net \<Rightarrow> bool" where
  "ready fl u cl n \<longleftrightarrow> ctrl_ok fl (cl_network cl) \<and> live fl (cloud_world cl) u \<and>
     map_of (c_private_nets (cl_network cl)) u = Some n"

definition free_addresses :: "net \<Rightarrow> string list" where
  "free_addresses n = filter (\<lambda>x. x \<notin> set (keys (n_hosts n))) (range_addresses (n_network n))"

lemma ctrl_ok_world:
  assumes "ctrl_ok fl c" and "store w = store (c_world c)"
  shows "ctrl_ok fl (c\<lparr>c_world := w\<rparr>)"
  using assms by (simp add: ctrl_ok_def net_entry_ok_def live_def stored_def)

lemma live_store: "store w = store w' \<Longrightarrow> live fl w u = live fl w' u"
  by (simp add: live_def)

lemma ready_world:
  "ready fl u cl n \<Longrightarrow> store w = store (cloud_world cl) \<Longrightarrow> ready fl u (cl\<lparr>cl_network := (cl_network cl)\<lparr>c_world := w\<rparr>\<rparr>) n"
  by (simp add: ready_def ctrl_ok_world live_def)

lemma on_cloud_world_eq:
  "on_cloud_world m cl = (let (r, w) = m (cloud_world cl) in (r, cl\<lparr>cl_network := (cl_network cl)\<lparr>c_world := w\<rparr>\<rparr>))"
  by (simp add: on_cloud_world_def on_network_def ctrl_world_def split: prod.splits)

lemma generate_mac_store: "store (snd (generate_mac w)) = store w"
proof -
  obtain a w1 where a: "draw 128 w = (a, w1)" by fastforce
  obtain b w2 where b: "draw 256 w1 = (b, w2)" by fastforce
  obtain c w3 where c: "draw 256 w2 = (c, w3)" by fastforce
  have "store w1 = store w" "store w2 = store w1" "store w3 = store w2"
    using draw_simps(1) [of 128 w] draw_simps(1) [of 256 w1] draw_simps(1) [of 256 w2] a b c by simp_all
  then show ?thesis by (simp add: generate_mac_def a b c)
qed

lemma new_mac_ready:
  assumes "ready fl u cl n"
  obtains mac cl' where "new_mac cl = (Inr mac, cl')" "ready fl u cl' n" "cl_instances cl' = cl_instances cl"
    "store (cloud_world cl') = store (cloud_world cl)"
proof -
  obtain mac w where w: "generate_mac (cloud_world cl) = (mac, w)" by fastforce
  have "store w = store (cloud_world cl)" using generate_mac_store [of "cloud_world cl"] w by simp
  then show ?thesis using that ready_world [OF assms] w by (simp add: new_mac_def on_cloud_world_eq)
qed

lemma free_after_put:
  assumes "free_addresses n = x # xs" and "net_ok n"
  shows "free_addresses (n\<lparr>n_hosts := dput x h (n_hosts n)\<rparr>) = xs"
proof -
  have "distinct (free_addresses n)"
    using assms(2) by (simp add: free_addresses_def net_ok_def distinct_range_addresses)
  then have "x \<notin> set xs" using assms(1) by simp
  moreover have "free_addresses (n\<lparr>n_hosts := dput x h (n_hosts n)\<rparr>) = filter (\<lambda>y. y \<noteq> x) (free_addresses n)"
    unfolding free_addresses_def filter_filter by (rule filter_cong) auto
  ultimately show ?thesis using assms(1) by (auto simp: filter_id_conv)
qed

subsection \<open>One instance\<close>

lemma really_run_ready:
  assumes "ready fl (u_id u) cl n"
  obtains i ls' cl' where "really_run_instance fl u ls idx cl = (Inr ls', cl')" "ready fl (u_id u) cl' n"
    "cl_instances cl' = cl_instances cl" "map_of ls' ''private_dns_name'' = map_of ls ''private_dns_name''"
    "map_of ls' ''instance_id'' = Some (JStr i)" "map_of ls' ''ami_launch_index'' = Some (JInt idx)"
    "map_of ls' ''network_str'' = Some (JDict (net_to_dict n))"
    "last (trace (cloud_world cl')) = Rpc_Call (compute_topic fl) (message ''run_instance'' ls')"
proof -
  obtain i w where i: "generate_uid ''i'' (cloud_world cl) = (i, w)" by fastforce
  have "store w = store (cloud_world cl)" using generate_uid_world(1) [of "''i''" "cloud_world cl"] i by simp
  note r1 = ready_world [OF assms this]
  let ?cl1 = "cl\<lparr>cl_network := (cl_network cl)\<lparr>c_world := w\<rparr>\<rparr>"
  note r1' = r1 [unfolded ready_def]
  note st = stored_after [OF conjunct1 [OF r1'] conjunct1 [OF conjunct2 [OF r1']] conjunct2 [OF conjunct2 [OF r1']]]
  obtain w2 where w2: "get_users_network fl (u_id u) (cl_network ?cl1) =
      (Inr n, (cl_network ?cl1)\<lparr>c_private_nets := dput (u_id u) n (c_private_nets (cl_network ?cl1)), c_world := w2\<rparr>)"
      "store w2 = store (cloud_world ?cl1)"
    using get_users_network_stored [OF conjunct1 [OF conjunct2 [OF r1']] st(1,2)] by blast
  define ls' where "ls' = dput ''bridge_name'' (JStr (n_bridge_name n)) (dput ''network_str'' (JDict (net_to_dict n))
      (dput ''ami_launch_index'' (JInt idx) (dput ''instance_id'' (JStr i) ls)))"
  define c2 where "c2 = (cl_network ?cl1)\<lparr>c_private_nets := dput (u_id u) n (c_private_nets (cl_network ?cl1)), c_world := w2\<rparr>"
  define cl' where "cl' = cl\<lparr>cl_network := c2\<lparr>c_world := emit (Rpc_Call (compute_topic fl) (message ''run_instance'' ls')) w2\<rparr>\<rparr>"
  have "really_run_instance fl u ls idx cl = (Inr ls', cl')"
    using i w2(1)
    by (simp add: really_run_instance_def bindS_def on_cloud_world_eq on_network_def rpc_call_def ls'_def cl'_def c2_def Let_def)
  moreover have "ready fl (u_id u) cl' n"
  proof -
    have "ctrl_ok fl (cl_network ?cl1)" "map_of (c_private_nets (cl_network ?cl1)) (u_id u) = Some n" using r1' by simp_all
    then have "ctrl_ok fl c2" using w2(2) by (simp add: ctrl_ok_def net_entry_ok_def live_def stored_def c2_def)
    then have "ctrl_ok fl (cl_network cl')" using ctrl_ok_world [of fl c2 "c_world (cl_network cl')"] by (simp add: cl'_def c2_def)
    then show ?thesis using r1' w2(2) by (simp add: ready_def cl'_def c2_def live_def)
  qed
  moreover have "map_of ls' ''private_dns_name'' = map_of ls ''private_dns_name''" "map_of ls' ''instance_id'' = Some (JStr i)"
      "map_of ls' ''ami_launch_index'' = Some (JInt idx)" "map_of ls' ''network_str'' = Some (JDict (net_to_dict n))"
    by (simp_all add: ls'_def)
  ultimately show ?thesis using that by (simp add: cl'_def)
qed

lemma launch_one_ok:
  assumes "ready fl (u_id u) cl n" and "free_addresses n = x # xs"
  obtains ls' cl' h i where "launch_one fl u ls idx cl = (Inr ls', cl')"
    "ready fl (u_id u) cl' (n\<lparr>n_hosts := dput x h (n_hosts n)\<rparr>)" "cl_instances cl' = cl_instances cl"
    "map_of ls' ''private_dns_name'' = Some (JStr x)" "map_of ls' ''instance_id'' = Some (JStr i)"
    "map_of ls' ''ami_launch_index'' = Some (JInt idx)" "h_user_id h = u_id u"
    "last (trace (cloud_world cl')) = Rpc_Call (compute_topic fl) (message ''run_instance'' ls')"
proof (rule new_mac_ready [OF assms(1)])
  fix mac cl1
  assume m: "new_mac cl = (Inr mac, cl1)" "ready fl (u_id u) cl1 n" "cl_instances cl1 = cl_instances cl"
  note r = m(2) [unfolded ready_def]
  note st = stored_after [OF conjunct1 [OF r] conjunct1 [OF conjunct2 [OF r]] conjunct2 [OF conjunct2 [OF r]]]
  let ?n = "n\<lparr>n_hosts := dput x (new_host x (u_id u) (Some mac)) (n_hosts n)\<rparr>"
  obtain c' where c': "allocate_address fl (u_id u) (Some mac) Private (cl_network cl1) = (Inr (x, n_name n), c')" "ctrl_ok fl c'"
      "map_of (c_private_nets c') (u_id u) = Some ?n"
      "\<forall>v. get_user fl (store (c_world c')) v = get_user fl (store (c_world (cl_network cl1))) v"
    using allocate_private [OF conjunct1 [OF r] conjunct1 [OF conjunct2 [OF r]] st, of x xs "Some mac"] assms(2)
    by (auto simp: free_addresses_def)
  let ?cl2 = "cl1\<lparr>cl_network := c'\<rparr>"
  let ?ls = "dput ''private_dns_name'' (JStr x) (dput ''network_name'' (JStr (n_name n)) (dput ''mac_address'' (JStr mac) ls))"
  have "ready fl (u_id u) ?cl2 ?n" using c'(2-4) r by (simp add: ready_def live_def)
  then show ?thesis
  proof (rule really_run_ready)
    fix i ls' cl'
    assume *: "really_run_instance fl u ?ls idx ?cl2 = (Inr ls', cl')" "ready fl (u_id u) cl' ?n"
      "cl_instances cl' = cl_instances ?cl2" "map_of ls' ''private_dns_name'' = map_of ?ls ''private_dns_name''"
      "map_of ls' ''instance_id'' = Some (JStr i)" "map_of ls' ''ami_launch_index'' = Some (JInt idx)"
      "last (trace (cloud_world cl')) = Rpc_Call (compute_topic fl) (message ''run_instance'' ls')"
    have "launch_one fl u ls idx cl = (Inr ls', cl')"
      using m(1) c'(1) *(1) by (simp add: launch_one_def bindS_def on_network_def)
    then show ?thesis using that [of ls' cl' "new_host x (u_id u) (Some mac)" i] * m(3) by (simp add: new_host_def)
  qed
qed

lemma launch_one_full:
  assumes "ready fl (u_id u) cl n" and "free_addresses n = []"
  shows "\<exists>cl'. launch_one fl u ls idx cl = (Inl NoMoreAddresses, cl') \<and> cl_instances cl' = cl_instances cl \<and>
    store (cloud_world cl') = store (cloud_world cl)"
proof (rule new_mac_ready [OF assms(1)])
  fix mac cl1
  assume m: "new_mac cl = (Inr mac, cl1)" "ready fl (u_id u) cl1 n" "cl_instances cl1 = cl_instances cl"
    "store (cloud_world cl1) = store (cloud_world cl)"
  note r = m(2) [unfolded ready_def]
  note st = stored_after [OF conjunct1 [OF r] conjunct1 [OF conjunct2 [OF r]] conjunct2 [OF conjunct2 [OF r]]]
  obtain c' where "allocate_address fl (u_id u) (Some mac) Private (cl_network cl1) = (Inl NoMoreAddresses, c')"
      "store (c_world c') = store (cloud_world cl1)"
    using allocate_private_full [OF conjunct1 [OF conjunct2 [OF r]] st(1,2), of "Some mac"] assms(2)
    by (auto simp: free_addresses_def)
  then show ?thesis using m by (simp add: launch_one_def bindS_def on_network_def)
qed

subsection \<open>Several instances\<close>

text \<open>Every instance that is to be listed has one of the addresses, and is pending.\<close>

definition pending_ok :: "string list \<Rightarrow> (string, attributes) dict \<Rightarrow> bool" where
  "pending_ok xs p \<longleftrightarrow> (\<forall>d \<in> set (vals p). map_of d ''state'' = Some (JInt NOSTATE) \<and>
     (\<exists>x \<in> set xs. map_of d ''private_dns_name'' = Some (JStr x)))"

lemma pending_ok_add:
  assumes "pending_ok xs p" and "map_of ls ''private_dns_name'' = Some (JStr x)" and "x \<in> set ys" and "set xs \<subseteq> set ys"
  shows "pending_ok ys (add_pending ls p)"
proof -
  have "\<forall>d \<in> set (vals (add_pending ls p)). d = dput ''state'' (JInt NOSTATE) ls \<or> d \<in> set (vals p)"
    using in_set_dput by (fastforce simp: add_pending_def)
  then show ?thesis using assms unfolding pending_ok_def by fastforce
qed

lemma launch_loop_ok:
  assumes "ready fl (u_id u) cl n" and "length nums \<le> length (free_addresses n)" and "pending_ok xs pending"
  shows "\<exists>ls' pending' cl' hs. launch_loop fl u ls nums pending cl = (Inr (ls', pending'), cl') \<and>
    ready fl (u_id u) cl' (n\<lparr>n_hosts := hs\<rparr>) \<and> cl_instances cl' = cl_instances cl \<and>
    set (keys hs) = set (keys (n_hosts n)) \<union> set (take (length nums) (free_addresses n)) \<and>
    pending_ok (xs @ take (length nums) (free_addresses n)) pending' \<and>
    fst ` set pending \<subseteq> fst ` set pending'"
  using assms
proof (induction nums arbitrary: cl n pending ls xs)
  case Nil
  then show ?case by (intro exI [of _ "n_hosts n"] exI) auto
next
  case (Cons k nums)
  obtain y ys where free: "free_addresses n = y # ys" using Cons.prems(2) by (cases "free_addresses n") auto
  show ?case
  proof (rule launch_one_ok [OF Cons.prems(1) free])
    fix ls1 cl1 h i
    assume one: "launch_one fl u ls k cl = (Inr ls1, cl1)" "ready fl (u_id u) cl1 (n\<lparr>n_hosts := dput y h (n_hosts n)\<rparr>)"
      "cl_instances cl1 = cl_instances cl" "map_of ls1 ''private_dns_name'' = Some (JStr y)"
    let ?n = "n\<lparr>n_hosts := dput y h (n_hosts n)\<rparr>"
    have "net_ok n" using Cons.prems(1) by (auto simp: ready_def ctrl_ok_def net_entry_ok_def private_ok_def)
    then have ys: "free_addresses ?n = ys" by (rule free_after_put [OF free])
    have p: "pending_ok (xs @ [y]) (add_pending ls1 pending)" by (rule pending_ok_add [OF Cons.prems(3) one(4)]) auto
    have "length nums \<le> length (free_addresses ?n)" using Cons.prems(2) free ys by simp
    from Cons.IH [OF one(2) this p, of ls1] obtain ls' pending' cl' hs where
      *: "launch_loop fl u ls1 nums (add_pending ls1 pending) cl1 = (Inr (ls', pending'), cl')"
      "ready fl (u_id u) cl' (n\<lparr>n_hosts := hs\<rparr>)" "cl_instances cl' = cl_instances cl1"
      "set (keys hs) = insert y (set (keys (n_hosts n))) \<union> set (take (length nums) ys)"
      "pending_ok ((xs @ [y]) @ take (length nums) ys) pending'" "fst ` set (add_pending ls1 pending) \<subseteq> fst ` set pending'"
      unfolding ys by (auto simp del: set_map append_assoc)
    have "launch_loop fl u ls (k # nums) pending cl = (Inr (ls', pending'), cl')"
      using one(1) *(1) by (simp add: bindS_def)
    moreover have "fst ` set pending \<subseteq> fst ` set pending'" using *(6) by (auto simp: add_pending_def)
    moreover have "set (keys hs) = set (keys (n_hosts n)) \<union> set (take (length (k # nums)) (free_addresses n))"
      using *(4) free by auto
    ultimately show ?thesis using *(2,3,5) one(3) free by auto
  qed
qed

lemma launch_loop_full:
  assumes "ready fl (u_id u) cl n" and "length (free_addresses n) < length nums"
  shows "\<exists>cl' n'. launch_loop fl u ls nums pending cl = (Inl NoMoreAddresses, cl') \<and> cl_instances cl' = cl_instances cl \<and>
    stored (cl_network cl') (u_id u) n' \<and> free_addresses n' = [] \<and> n_network n' = n_network n"
  using assms
proof (induction nums arbitrary: cl n pending ls)
  case (Cons k nums)
  show ?case
  proof (cases "free_addresses n")
    case Nil
    obtain cl' where *: "launch_one fl u ls k cl = (Inl NoMoreAddresses, cl')" "cl_instances cl' = cl_instances cl"
        "store (cloud_world cl') = store (cloud_world cl)"
      using launch_one_full [OF Cons.prems(1) Nil] by blast
    have "stored (cl_network cl) (u_id u) n"
      using Cons.prems(1) by (auto simp: ready_def ctrl_ok_def net_entry_ok_def)
    then have "stored (cl_network cl') (u_id u) n" using *(3) by (simp add: stored_def)
    then show ?thesis using * Nil by (auto simp: bindS_def)
  next
    case (Cons y ys)
    show ?thesis
    proof (rule launch_one_ok [OF Cons.prems(1) Cons])
      fix ls1 cl1 h i
      assume one: "launch_one fl u ls k cl = (Inr ls1, cl1)" "ready fl (u_id u) cl1 (n\<lparr>n_hosts := dput y h (n_hosts n)\<rparr>)"
        "cl_instances cl1 = cl_instances cl"
      have "net_ok n" using Cons.prems(1) by (auto simp: ready_def ctrl_ok_def net_entry_ok_def private_ok_def)
      then have ys: "free_addresses (n\<lparr>n_hosts := dput y h (n_hosts n)\<rparr>) = ys" by (rule free_after_put [OF Cons])
      then have "length (free_addresses (n\<lparr>n_hosts := dput y h (n_hosts n)\<rparr>)) < length nums" using Cons.prems(2) Cons by simp
      from Cons.IH [OF one(2) this, of ls1 "add_pending ls1 pending"] show ?thesis using one(1,3) by (auto simp: bindS_def)
    qed
  qed
qed simp

lemma create_reservation_keeps:
  assumes "create_reservation fl u kwargs cl = (Inr ls, cl1)"
  shows "cl_instances cl1 = cl_instances cl" "ready fl v cl n \<Longrightarrow> ready fl v cl1 n"
proof -
  obtain r w where r: "generate_uid ''r'' (cloud_world cl) = (r, w)" by fastforce
  have st: "store w = store (cloud_world cl)" using generate_uid_world(1) [of "''r''" "cloud_world cl"] r by simp
  have "cl1 = cl\<lparr>cl_network := (cl_network cl)\<lparr>c_world := w\<rparr>\<rparr>"
    using assms r by (auto simp: create_reservation_def bindS_def on_cloud_world_eq Let_def split: option.splits sum.splits prod.splits)
  then show "cl_instances cl1 = cl_instances cl" "ready fl v cl n \<Longrightarrow> ready fl v cl1 n"
    using ready_world [OF _ st] by simp_all
qed


text \<open>Joe's network has three addresses; he asks for four instances.\<close>

definition joes_cloud :: "flags \<Rightarrow> cloud" where
  "joes_cloud fl = \<lparr>cl_volumes = [], cl_instances = [], cl_network = demo_controller fl demo_net\<rparr>"


end
