(* ===== verification/FileSystem.thy ===== *)
theory FileSystem
  imports Paths "HOL-Library.List_Lexorder" "HOL-Library.Char_ord"
begin

text \<open>
  The part of a POSIX file system that the object store uses: directories and files with their
  contents under absolute paths, without links. Names are resolved component by component, so that
  \<^verbatim>\<open>..\<close> goes up whatever the name looked like.
\<close>

datatype fnode = Dir | File string

type_synonym fs = "(string list, fnode) dict"

definition node_at :: "fs \<Rightarrow> string list \<Rightarrow> fnode option" where
  "node_at fs q = (if q = [] then Some Dir else map_of fs q)"

fun walk :: "fs \<Rightarrow> string list \<Rightarrow> string list \<Rightarrow> string list option" where
  "walk fs acc [] = Some acc"
| "walk fs acc (c # cs) =
     (if node_at fs acc \<noteq> Some Dir then None
      else if c = [] \<or> c = ''.'' then walk fs acc cs
      else if c = ''..'' then walk fs (butlast acc) cs
      else walk fs (acc @ [c]) cs)"

definition comps :: "flags \<Rightarrow> string \<Rightarrow> string list" where
  "comps fl p = py_split CHR ''/'' (if startswith p ''/'' then p else path_join (work_dir fl) p)"

definition resolve :: "flags \<Rightarrow> fs \<Rightarrow> string \<Rightarrow> string list option" where
  "resolve fl fs p = (if p = [] then None else walk fs [] (comps fl p))"

definition fs_get :: "flags \<Rightarrow> fs \<Rightarrow> string \<Rightarrow> fnode option" where
  "fs_get fl fs p = (case resolve fl fs p of None \<Rightarrow> None | Some q \<Rightarrow> node_at fs q)"

definition isdir :: "flags \<Rightarrow> fs \<Rightarrow> string \<Rightarrow> bool" where
  "isdir fl fs p \<longleftrightarrow> fs_get fl fs p = Some Dir"

definition isfile :: "flags \<Rightarrow> fs \<Rightarrow> string \<Rightarrow> bool" where
  "isfile fl fs p \<longleftrightarrow> (case fs_get fl fs p of Some (File _) \<Rightarrow> True | _ \<Rightarrow> False)"

definition read_file :: "flags \<Rightarrow> fs \<Rightarrow> string \<Rightarrow> string res" where
  "read_file fl fs p = (case fs_get fl fs p of Some (File s) \<Rightarrow> Inr s | _ \<Rightarrow> Inl IOError)"

definition fs_write :: "flags \<Rightarrow> string \<Rightarrow> string \<Rightarrow> (fs, unit) act" where
  "fs_write fl p s fs = (case resolve fl fs p of
      None \<Rightarrow> (Inl IOError, fs)
    | Some q \<Rightarrow> (if node_at fs q = Some Dir then (Inl IOError, fs) else (Inr (), dput q (File s) fs)))"

definition fs_unlink :: "flags \<Rightarrow> string \<Rightarrow> (fs, unit) act" where
  "fs_unlink fl p fs = (case resolve fl fs p of
      Some q \<Rightarrow> (case node_at fs q of Some (File _) \<Rightarrow> (Inr (), ddel q fs) | _ \<Rightarrow> (Inl OSError, fs))
    | None \<Rightarrow> (Inl OSError, fs))"

text \<open>The names in a directory.\<close>

definition children :: "fs \<Rightarrow> string list \<Rightarrow> string list" where
  "children fs q = map last (filter (\<lambda>p. p \<noteq> [] \<and> butlast p = q) (keys fs))"

definition listdir :: "flags \<Rightarrow> fs \<Rightarrow> string \<Rightarrow> string list res" where
  "listdir fl fs p = (case resolve fl fs p of
      Some q \<Rightarrow> (if node_at fs q = Some Dir then Inr (children fs q) else Inl OSError)
    | None \<Rightarrow> Inl OSError)"

definition fs_rmdir :: "flags \<Rightarrow> string \<Rightarrow> (fs, unit) act" where
  "fs_rmdir fl p fs = (case resolve fl fs p of
      Some q \<Rightarrow> (if q \<noteq> [] \<and> node_at fs q = Some Dir \<and> children fs q = [] then (Inr (), ddel q fs) else (Inl OSError, fs))
    | None \<Rightarrow> (Inl OSError, fs))"

text \<open>\<^verbatim>\<open>os.makedirs\<close>: every missing directory on the way; the last one must be new.\<close>

fun make_all :: "string list \<Rightarrow> string list \<Rightarrow> (fs, unit) act" where
  "make_all acc [] fs = (Inr (), fs)"
| "make_all acc (c # cs) fs =
     (if c = [] \<or> c = ''.'' then make_all acc cs fs
      else if c = ''..'' then make_all (butlast acc) cs fs
      else case node_at fs (acc @ [c]) of
        None \<Rightarrow> make_all (acc @ [c]) cs (dput (acc @ [c]) Dir fs)
      | Some Dir \<Rightarrow> make_all (acc @ [c]) cs fs
      | Some (File _) \<Rightarrow> (Inl OSError, fs))"

definition makedirs :: "flags \<Rightarrow> string \<Rightarrow> (fs, unit) act" where
  "makedirs fl p fs = (if p = [] \<or> fs_get fl fs p \<noteq> None then (Inl OSError, fs) else make_all [] (comps fl p) fs)"

text \<open>The files below a directory, as \<^verbatim>\<open>os.walk\<close> finds them, by their path from there.\<close>

definition files_below :: "fs \<Rightarrow> string list \<Rightarrow> string list" where
  "files_below fs q =
     map (\<lambda>(p, x). py_join ''/'' (drop (length q) p))
       (filter (\<lambda>(p, x). x \<noteq> Dir \<and> length q < length p \<and> take (length q) p = q) fs)"

text \<open>Visible names in a directory, as a pattern finds them; a directory that cannot be read has none.\<close>

definition visible :: "flags \<Rightarrow> fs \<Rightarrow> string \<Rightarrow> string list" where
  "visible fl fs p = (case listdir fl fs p of Inl e \<Rightarrow> [] | Inr ns \<Rightarrow> filter (\<lambda>n. \<not> startswith n ''.'') ns)"

definition endswith :: "string \<Rightarrow> string \<Rightarrow> bool" where
  "endswith s t \<longleftrightarrow> startswith (rev s) (rev t)"

end
