(* ===== verification/ObjectStore.thy ===== *)
theory ObjectStore
  imports FileSystem Users Xml
begin

text \<open>
  The object store: buckets (\<^verbatim>\<open>bucket.py\<close>) are directories with a file next to
  them that names the owner, objects (\<^verbatim>\<open>object.py\<close>) the files in them, and images
  (\<^verbatim>\<open>image.py\<close>) directories with their metadata.

  The text of a JSON value, its reading, the digest, the times of files and the cipher belong to
  libraries: they are fields of the state that no operation changes.
\<close>

record ostore =
  os_fs :: fs
  os_users :: kstore
  os_dumps :: "json \<Rightarrow> string"
  os_loads :: "string \<Rightarrow> json res"
  os_md5 :: "string \<Rightarrow> string"
  os_time :: "fs \<Rightarrow> string \<Rightarrow> string"
  os_decrypt :: "string \<Rightarrow> string option \<Rightarrow> string option \<Rightarrow> string res"
  os_untar :: "string \<Rightarrow> (string \<times> string) list res"

type_synonym 'a os_act = "(ostore, 'a) act"

definition on_fs :: "(fs, 'a) act \<Rightarrow> 'a os_act" where
  "on_fs m s = (let (r, fs) = m (os_fs s) in (r, s\<lparr>os_fs := fs\<rparr>))"

definition ask :: "(ostore \<Rightarrow> 'a res) \<Rightarrow> 'a os_act" where
  "ask f s = (f s, s)"

definition json_file :: "flags \<Rightarrow> ostore \<Rightarrow> string \<Rightarrow> json res" where
  "json_file fl s p = bindR (read_file fl (os_fs s) p) (os_loads s)"

subsection \<open>Buckets\<close>

record bucket =
  b_name :: string
  b_path :: string

definition bucket_path :: "flags \<Rightarrow> string \<Rightarrow> string" where
  "bucket_path fl name = abspath fl (path_join (buckets_path fl) name)"

definition in_buckets :: "flags \<Rightarrow> string \<Rightarrow> bool" where
  "in_buckets fl path \<longleftrightarrow> startswith path (abspath fl (buckets_path fl))"

definition bucket_init :: "flags \<Rightarrow> string \<Rightarrow> ostore \<Rightarrow> bucket res" where
  "bucket_init fl name s =
     (let path = bucket_path fl name in
      if \<not> in_buckets fl path \<or> \<not> isdir fl (os_fs s) path then Inl (NotFound []) else Inr \<lparr>b_name = name, b_path = path\<rparr>)"

text \<open>\<^verbatim>\<open>Bucket.all\<close>: every file of metadata that can be read, of a bucket that exists.\<close>

definition bucket_all :: "flags \<Rightarrow> ostore \<Rightarrow> bucket list" where
  "bucket_all fl s =
     List.map_filter
       (\<lambda>fn. case bindR (json_file fl s fn) (\<lambda>_. bucket_init fl (let n = path_tail fn in take (length n - 5) n) s) of
          Inl e \<Rightarrow> None | Inr b \<Rightarrow> Some b)
       (map (path_join (buckets_path fl)) (filter (\<lambda>n. endswith n ''.json'') (visible fl (os_fs s) (buckets_path fl))))"

definition bucket_create :: "flags \<Rightarrow> string \<Rightarrow> user \<Rightarrow> unit os_act" where
  "bucket_create fl bucket_name u s =
     (let path = bucket_path fl bucket_name in
      if \<not> in_buckets fl path \<or> fs_get fl (os_fs s) path \<noteq> None then (Inl NotAuthorized, s)
      else bindS (on_fs (makedirs fl path)) (\<lambda>_ s.
        on_fs (fs_write fl (path @ ''.json'') (os_dumps s (JDict [(''ownerId'', JStr (u_id u))]))) s) s)"

definition bucket_metadata :: "bucket \<Rightarrow> ostore \<Rightarrow> (string \<times> string) list" where
  "bucket_metadata b s = [(''Name'', b_name b), (''CreationDate'', os_time s (os_fs s) (b_path b))]"

definition bucket_owner_id :: "flags \<Rightarrow> bucket \<Rightarrow> ostore \<Rightarrow> json" where
  "bucket_owner_id fl b s =
     (case bindR (json_file fl s (b_path b @ ''.json'')) (\<lambda>j. jget j ''ownerId'') of Inl e \<Rightarrow> JNull | Inr v \<Rightarrow> v)"

definition bucket_is_authorized :: "flags \<Rightarrow> bucket \<Rightarrow> user \<Rightarrow> ostore \<Rightarrow> bool" where
  "bucket_is_authorized fl b u s \<longleftrightarrow> u_admin u \<or> bucket_owner_id fl b s = JStr (u_id u)"

text \<open>\<^verbatim>\<open>_object_path\<close>: the name is joined to the path of the bucket as it is.\<close>

definition object_path :: "bucket \<Rightarrow> string \<Rightarrow> string res" where
  "object_path b object_name =
     (let fn = path_join (b_path b) object_name in
      if \<not> startswith fn (b_path b) then Inl NotAuthorized else Inr fn)"

text \<open>One entry of a listing, and the listing.\<close>

record listing =
  l_prefix :: string
  l_marker :: string
  l_max_keys :: int
  l_truncated :: bool
  l_contents :: "(string \<times> (string \<times> nat) option) list"

definition list_entry :: "flags \<Rightarrow> bucket \<Rightarrow> bool \<Rightarrow> ostore \<Rightarrow> string \<Rightarrow> (string \<times> (string \<times> nat) option) res" where
  "list_entry fl b terse s object_name =
     bindR (object_path b object_name) (\<lambda>p.
     if terse then Inr (object_name, None)
     else case fs_get fl (os_fs s) p of
         None \<Rightarrow> Inl OSError
       | Some x \<Rightarrow> Inr (object_name, Some (os_time s (os_fs s) p, case x of Dir \<Rightarrow> 0 | File t \<Rightarrow> length t)))"

fun list_loop :: "flags \<Rightarrow> bucket \<Rightarrow> string \<Rightarrow> int \<Rightarrow> bool \<Rightarrow> ostore \<Rightarrow> string list \<Rightarrow> string \<Rightarrow>
    (string \<times> (string \<times> nat) option) list \<Rightarrow> listing res" where
  "list_loop fl b prefix max_keys terse s [] marker contents =
     Inr \<lparr>l_prefix = prefix, l_marker = marker, l_max_keys = max_keys, l_truncated = False, l_contents = contents\<rparr>"
| "list_loop fl b prefix max_keys terse s (n # ns) marker contents =
     (if \<not> startswith n prefix
      then Inr \<lparr>l_prefix = prefix, l_marker = marker, l_max_keys = max_keys, l_truncated = False, l_contents = contents\<rparr>
      else if int (length contents) \<ge> max_keys
      then Inr \<lparr>l_prefix = prefix, l_marker = marker, l_max_keys = max_keys, l_truncated = True, l_contents = contents\<rparr>
      else bindR (list_entry fl b terse s n) (\<lambda>c. list_loop fl b prefix max_keys terse s ns n (contents @ [c])))"

text \<open>\<^verbatim>\<open>list_keys\<close>: the module \<^verbatim>\<open>bisect\<close>, which finds the start for a marker or a
  prefix, is not imported.\<close>

definition list_keys :: "flags \<Rightarrow> bucket \<Rightarrow> string \<Rightarrow> string \<Rightarrow> int \<Rightarrow> bool \<Rightarrow> ostore \<Rightarrow> listing res" where
  "list_keys fl b prefix marker max_keys terse s =
     (let object_names = (case resolve fl (os_fs s) (b_path b) of None \<Rightarrow> [] | Some q \<Rightarrow> sort (files_below (os_fs s) q)) in
      if marker \<noteq> [] \<or> prefix \<noteq> [] then Inl NameError
      else list_loop fl b prefix max_keys terse s object_names marker [])"

definition bucket_delete :: "flags \<Rightarrow> bucket \<Rightarrow> unit os_act" where
  "bucket_delete fl b =
     bindS (ask (\<lambda>s. listdir fl (os_fs s) (b_path b))) (\<lambda>ns.
     if length ns > 0 then raiseS NotAuthorized
     else bindS (on_fs (fs_rmdir fl (b_path b))) (\<lambda>_. on_fs (fs_unlink fl (b_path b @ ''.json''))))"

subsection \<open>Objects\<close>

record object =
  o_key :: string
  o_path :: string

definition object_init :: "flags \<Rightarrow> bucket \<Rightarrow> string \<Rightarrow> ostore \<Rightarrow> object res" where
  "object_init fl b key s =
     bindR (object_path b key) (\<lambda>p.
     if \<not> isfile fl (os_fs s) p then Inl (NotFound []) else Inr \<lparr>o_key = key, o_path = p\<rparr>)"

definition object_read :: "flags \<Rightarrow> object \<Rightarrow> ostore \<Rightarrow> string res" where
  "object_read fl ob s = read_file fl (os_fs s) (o_path ob)"

text \<open>\<^verbatim>\<open>crypto.compute_md5\<close>, which feeds the file to the digest in pieces.\<close>

definition object_md5 :: "flags \<Rightarrow> object \<Rightarrow> ostore \<Rightarrow> string res" where
  "object_md5 fl ob s = bindR (read_file fl (os_fs s) (o_path ob)) (\<lambda>t. Inr (os_md5 s t))"

definition object_mtime :: "object \<Rightarrow> ostore \<Rightarrow> string" where
  "object_mtime ob s = os_time s (os_fs s) (o_path ob)"

definition object_delete :: "flags \<Rightarrow> object \<Rightarrow> unit os_act" where
  "object_delete fl ob = on_fs (fs_unlink fl (o_path ob))"

definition bucket_getitem :: "flags \<Rightarrow> bucket \<Rightarrow> string \<Rightarrow> ostore \<Rightarrow> object res" where
  "bucket_getitem fl b key s = object_init fl b key s"

definition bucket_setitem :: "flags \<Rightarrow> bucket \<Rightarrow> string \<Rightarrow> string \<Rightarrow> unit os_act" where
  "bucket_setitem fl b key v = bindS (liftR (object_path b key)) (\<lambda>p. on_fs (fs_write fl p v))"

definition bucket_delitem :: "flags \<Rightarrow> bucket \<Rightarrow> string \<Rightarrow> unit os_act" where
  "bucket_delitem fl b key = bindS (ask (object_init fl b key)) (object_delete fl)"

subsection \<open>Images\<close>

record image =
  i_id :: string
  i_path :: string

definition image_init :: "flags \<Rightarrow> string \<Rightarrow> ostore \<Rightarrow> image res" where
  "image_init fl image_id s =
     (let path = abspath fl (path_join (images_path fl) image_id) in
      if \<not> startswith path (abspath fl (images_path fl)) \<or> \<not> isdir fl (os_fs s) path then Inl (NotFound [])
      else Inr \<lparr>i_id = image_id, i_path = path\<rparr>)"

definition image_metadata :: "flags \<Rightarrow> image \<Rightarrow> ostore \<Rightarrow> json res" where
  "image_metadata fl i s = json_file fl s (path_join (i_path i) ''info.json'')"

text \<open>Every failure of a deletion is ignored.\<close>

definition image_delete :: "flags \<Rightarrow> image \<Rightarrow> unit os_act" where
  "image_delete fl i =
     bindS (catchS (on_fs (fs_unlink fl (path_join (i_path i) ''info.json''))) (retS ())) (\<lambda>_.
     bindS (catchS (on_fs (fs_unlink fl (path_join (i_path i) ''image''))) (retS ())) (\<lambda>_.
       catchS (on_fs (fs_rmdir fl (i_path i))) (retS ())))"

definition image_is_authorized :: "flags \<Rightarrow> image \<Rightarrow> user \<Rightarrow> ostore \<Rightarrow> bool" where
  "image_is_authorized fl i u s =
     (case bindR (image_metadata fl i s) (\<lambda>m. bindR (jget m ''isPublic'') (\<lambda>p.
        if truthy p then Inr True else bindR (jget m ''imageOwnerId'') (\<lambda>ow. Inr (ow = JStr (u_id u))))) of
        Inl e \<Rightarrow> False
      | Inr b \<Rightarrow> b)"

definition write_json :: "flags \<Rightarrow> string \<Rightarrow> json \<Rightarrow> unit os_act" where
  "write_json fl p j s = on_fs (fs_write fl p (os_dumps s j)) s"

definition image_set_public :: "flags \<Rightarrow> image \<Rightarrow> bool \<Rightarrow> unit os_act" where
  "image_set_public fl i state =
     bindS (ask (image_metadata fl i)) (\<lambda>md.
     bindS (liftR (jdict md)) (\<lambda>d.
       write_json fl (path_join (i_path i) ''info.json'') (JDict (dput ''isPublic'' (JBool state) d))))"

definition image_owner_id :: "flags \<Rightarrow> image \<Rightarrow> ostore \<Rightarrow> json res" where
  "image_owner_id fl i s = bindR (image_metadata fl i s) (\<lambda>m. jget m ''imageOwnerId'')"

definition image_all :: "flags \<Rightarrow> ostore \<Rightarrow> image list" where
  "image_all fl s =
     List.map_filter
       (\<lambda>n. if fs_get fl (os_fs s) (path_join (path_join (images_path fl) n) ''info.json'') = None then None
            else case image_init fl n s of Inl e \<Rightarrow> None | Inr i \<Rightarrow> Some i)
       (visible fl (os_fs s) (images_path fl))"

text \<open>The elements under a path of names.\<close>

fun xml_at :: "xml \<Rightarrow> string list \<Rightarrow> xml option" where
  "xml_at x [] = Some x"
| "xml_at x (t # ts) = (case xml_find x t of None \<Rightarrow> None | Some y \<Rightarrow> xml_at y ts)"

fun xml_iter :: "string \<Rightarrow> xml \<Rightarrow> xml list" where
  "xml_iter t (Element tg cs ch) = (if tg = t then [Element tg cs ch] else []) @ concat (map (xml_iter t) ch)"

definition xml_true :: "xml \<Rightarrow> string \<Rightarrow> bool" where
  "xml_true m t \<longleftrightarrow> (case xml_at m [''machine_configuration'', t] of None \<Rightarrow> False | Some x \<Rightarrow> xml_text x = Some ''true'')"

definition image_type :: "xml \<Rightarrow> string" where
  "image_type m = (if xml_true m ''ramdisk_id'' then ''ramdisk'' else if xml_true m ''kernel_id'' then ''kernel'' else ''machine'')"

definition image_info :: "string \<Rightarrow> string \<Rightarrow> user \<Rightarrow> string \<Rightarrow> string \<Rightarrow> json" where
  "image_info image_id image_location u ty state = JDict
     [(''imageId'', JStr image_id), (''imageLocation'', JStr image_location), (''imageOwnerId'', JStr (u_id u)),
      (''isPublic'', JBool False), (''architecture'', JStr ''x86_64''), (''type'', JStr ty), (''imageState'', JStr state)]"

text \<open>The pieces of the encrypted image, in the order of the manifest.\<close>

fun copy_parts :: "flags \<Rightarrow> bucket \<Rightarrow> xml list \<Rightarrow> ostore \<Rightarrow> string res" where
  "copy_parts fl b [] s = Inr []"
| "copy_parts fl b (x # xs) s =
     bindR (case xml_text x of None \<Rightarrow> Inl AttributeError | Some t \<Rightarrow> bucket_getitem fl b t s) (\<lambda>ob.
     bindR (object_read fl ob s) (\<lambda>part.
     bindR (copy_parts fl b xs s) (\<lambda>rest. Inr (part @ rest))))"

definition find_one :: "xml \<Rightarrow> string list \<Rightarrow> xml res" where
  "find_one x ts = (case xml_at x ts of None \<Rightarrow> Inl AttributeError | Some y \<Rightarrow> Inr y)"

text \<open>\<^verbatim>\<open>untarzip_image\<close>: the files of the archive are written below the path, and the name of
  the first is returned.\<close>

fun extract_all :: "flags \<Rightarrow> string \<Rightarrow> (string \<times> string) list \<Rightarrow> unit os_act" where
  "extract_all fl path [] = retS ()"
| "extract_all fl path ((n, c) # fs) = bindS (on_fs (fs_write fl (path_join path n) c)) (\<lambda>_. extract_all fl path fs)"

definition untarzip_image :: "flags \<Rightarrow> string \<Rightarrow> string \<Rightarrow> string os_act" where
  "untarzip_image fl path filename =
     bindS (ask (\<lambda>s. bindR (read_file fl (os_fs s) filename) (os_untar s))) (\<lambda>fs.
     bindS (extract_all fl path fs) (\<lambda>_. case fs of [] \<Rightarrow> raiseS IndexError | (n, c) # _ \<Rightarrow> retS n))"

definition move_file :: "flags \<Rightarrow> string \<Rightarrow> string \<Rightarrow> unit os_act" where
  "move_file fl src dst =
     bindS (ask (\<lambda>s. read_file fl (os_fs s) src)) (\<lambda>c.
     bindS (on_fs (fs_unlink fl src)) (\<lambda>_. on_fs (fs_write fl dst c)))"

text \<open>The cipher reads the encrypted pieces and the two encrypted keys.\<close>

definition decrypt_image :: "flags \<Rightarrow> string \<Rightarrow> string option \<Rightarrow> string option \<Rightarrow> string \<Rightarrow> unit os_act" where
  "decrypt_image fl encrypted key iv decrypted_filename =
     bindS (ask (\<lambda>s. os_decrypt s encrypted key iv)) (\<lambda>plain. on_fs (fs_write fl decrypted_filename plain))"

definition image_create :: "flags \<Rightarrow> string \<Rightarrow> string \<Rightarrow> user \<Rightarrow> unit os_act" where
  "image_create fl image_id image_location u =
     (let image_path = path_join (images_path fl) image_id;
          bucket_name = hd (py_split CHR ''/'' image_location);
          manifest_path = drop (length bucket_name + 1) image_location;
          write_state = (\<lambda>ty state. write_json fl (path_join image_path ''info.json'') (image_info image_id image_location u ty state))
      in
      bindS (on_fs (makedirs fl image_path)) (\<lambda>_.
      bindS (ask (bucket_init fl bucket_name)) (\<lambda>b.
      bindS (ask (\<lambda>s. bindR (bucket_getitem fl b manifest_path s) (\<lambda>ob. bindR (object_read fl ob s) parse_xml))) (\<lambda>manifest.
      let ty = image_type manifest in
      bindS (write_state ty ''pending'') (\<lambda>_.
      bindS (liftR (find_one manifest [''image'', ''ec2_encrypted_key''])) (\<lambda>key.
      bindS (liftR (find_one manifest [''image'', ''ec2_encrypted_iv''])) (\<lambda>iv.
      bindS (liftR (find_one manifest [''image''])) (\<lambda>parts.
      bindS (ask (copy_parts fl b (xml_iter ''filename'' parts))) (\<lambda>encrypted.
      bindS (write_state ty ''decrypting'') (\<lambda>_.
      let decrypted = path_join image_path ''image.tar.gz'' in
      bindS (decrypt_image fl encrypted (xml_text key) (xml_text iv) decrypted) (\<lambda>_.
      bindS (write_state ty ''untarring'') (\<lambda>_.
      bindS (untarzip_image fl image_path decrypted) (\<lambda>image_file.
      bindS (move_file fl (path_join image_path image_file) (path_join image_path ''image'')) (\<lambda>_.
        write_state ty ''available''))))))))))))))"

end
