(* ===== verification/ObjectHandler.thy ===== *)
theory ObjectHandler
  imports ObjectStore
begin

text \<open>
  The HTTP handlers of the object store (\<^verbatim>\<open>objectstore/handler.py\<close>): who is asking, whether the
  bucket or image is theirs, and what is answered.
\<close>

subsection \<open>Requests and answers\<close>

record http_request =
  rq_authorization :: "string option"
  rq_arguments :: "(string, string list) dict"
  rq_body :: string

record http_response =
  rs_status :: int
  rs_headers :: "(string \<times> string) list"
  rs_body :: string

definition ok_response :: "(string \<times> string) list \<Rightarrow> string \<Rightarrow> http_response" where
  "ok_response hs b = \<lparr>rs_status = 200, rs_headers = hs, rs_body = b\<rparr>"

definition empty_response :: "int \<Rightarrow> http_response" where
  "empty_response st = \<lparr>rs_status = st, rs_headers = [], rs_body = []\<rparr>"

text \<open>\<^verbatim>\<open>catch_nova_exceptions\<close>\<close>

fun http_error :: "exc \<Rightarrow> exc" where
  "http_error (NotFound m) = HTTPError 404"
| "http_error NotAuthorized = HTTPError 403"
| "http_error e = e"

definition catch_nova_exceptions :: "'a os_act \<Rightarrow> 'a os_act" where
  "catch_nova_exceptions m s = (case m s of (Inl e, s') \<Rightarrow> (Inl (http_error e), s') | (Inr x, s') \<Rightarrow> (Inr x, s'))"

text \<open>\<^verbatim>\<open>BaseRequestHandler.user\<close>: the access key in the header names the user; whatever goes
  wrong is an error 403.\<close>

definition header_access_key :: "string \<Rightarrow> string res" where
  "header_access_key h = (case py_split CHR '' '' h of
      a # b # _ \<Rightarrow> Inr (hd (py_split CHR '':'' b))
    | _ \<Rightarrow> Inl IndexError)"

definition request_user :: "flags \<Rightarrow> http_request \<Rightarrow> ostore \<Rightarrow> user res" where
  "request_user fl rq s =
     (case rq_authorization rq of
        None \<Rightarrow> Inl (HTTPError 403)
      | Some h \<Rightarrow>
          (case bindR (header_access_key h) (get_user_from_access_key fl (os_users s)) of
             Inr (Some u) \<Rightarrow> Inr u
           | _ \<Rightarrow> Inl (HTTPError 403)))"

text \<open>\<^verbatim>\<open>get_argument\<close> of tornado: the last value, control characters replaced, stripped.\<close>

definition control_char :: "char \<Rightarrow> bool" where
  "control_char c \<longleftrightarrow> (let n = of_char c :: nat in n < 9 \<or> (14 \<le> n \<and> n < 32))"

definition get_argument :: "http_request \<Rightarrow> string \<Rightarrow> string \<Rightarrow> string" where
  "get_argument rq n dflt = (case map_of (rq_arguments rq) n of
      None \<Rightarrow> dflt
    | Some vs \<Rightarrow> strip is_space (map (\<lambda>c. if control_char c then CHR '' '' else c) (last vs)))"

subsection \<open>XML answers\<close>

text \<open>What a handler renders; the moments of time are texts already.\<close>

datatype sval = S_Text string | S_Int int | S_Bool bool | S_Time string | S_Dict "(string \<times> sval) list" | S_List "sval list"

definition escape_char :: "char \<Rightarrow> string" where
  "escape_char c =
     (if c = CHR ''&'' then ''&amp;'' else if c = CHR ''<'' then ''&lt;'' else if c = CHR ''>'' then ''&gt;''
      else if c = CHR 0x22 then ''&quot;'' else [c])"

definition xhtml_escape :: "string \<Rightarrow> string" where
  "xhtml_escape s = concat (map escape_char s)"

definition in_tag :: "string \<Rightarrow> string \<Rightarrow> string" where
  "in_tag t body = ''<'' @ t @ ''>'' @ body @ ''</'' @ t @ ''>''"

text \<open>A list inside a list is no value that is known.\<close>

fun render_parts :: "sval \<Rightarrow> string res"
and render_entries :: "(string \<times> sval) list \<Rightarrow> string res"
and render_items :: "string \<Rightarrow> sval list \<Rightarrow> string res" where
  "render_parts (S_Text s) = Inr (xhtml_escape s)"
| "render_parts (S_Int i) = Inr (str_int i)"
| "render_parts (S_Bool b) = Inr (if b then ''True'' else ''False'')"
| "render_parts (S_Time t) = Inr t"
| "render_parts (S_Dict d) = render_entries d"
| "render_parts (S_List l) = Inl (PyException ''Unknown S3 value type %r'')"
| "render_entries [] = Inr []"
| "render_entries ((n, v) # d) =
     bindR (case v of S_List l \<Rightarrow> render_items n l | _ \<Rightarrow> render_items n [v]) (\<lambda>a. bindR (render_entries d) (\<lambda>b. Inr (a @ b)))"
| "render_items n [] = Inr []"
| "render_items n (v # vs) = bindR (render_parts v) (\<lambda>a. bindR (render_items n vs) (\<lambda>b. Inr (in_tag n a @ b)))"

definition render_xml :: "string \<Rightarrow> sval \<Rightarrow> http_response res" where
  "render_xml name v =
     bindR (render_parts v) (\<lambda>body. Inr (ok_response [(''Content-Type'', ''application/xml; charset=UTF-8'')]
       (''<?xml version='' @ [CHR 0x22] @ ''1.0'' @ [CHR 0x22] @ '' encoding='' @ [CHR 0x22] @ ''UTF-8'' @ [CHR 0x22] @ ''?>\<newline>'' @
        ''<'' @ name @ '' xmlns='' @ [CHR 0x22] @ ''http://doc.s3.amazonaws.com/2006-03-01'' @ [CHR 0x22] @ ''>'' @
        body @ ''</'' @ name @ ''>'')))"

subsection \<open>Buckets\<close>

definition root_get :: "flags \<Rightarrow> http_request \<Rightarrow> http_response os_act" where
  "root_get fl rq s =
     ((let bs = bucket_all fl s in
       bindR (if bs = [] then Inr [] else bindR (request_user fl rq s) (\<lambda>u. Inr (filter (\<lambda>b. bucket_is_authorized fl b u s) bs))) (\<lambda>bs.
       render_xml ''ListAllMyBucketsResult''
         (S_Dict [(''Buckets'', S_Dict [(''Bucket'', S_List (map (\<lambda>b. S_Dict
            [(''Name'', S_Text (b_name b)), (''CreationDate'', S_Time (os_time s (os_fs s) (b_path b)))]) bs))])]))), s)"

text \<open>The bucket of a request, if it is the user's.\<close>

definition users_bucket :: "flags \<Rightarrow> http_request \<Rightarrow> string \<Rightarrow> ostore \<Rightarrow> bucket res" where
  "users_bucket fl rq bucket_name s =
     bindR (bucket_init fl bucket_name s) (\<lambda>b.
     bindR (request_user fl rq s) (\<lambda>u.
     if \<not> bucket_is_authorized fl b u s then Inl (HTTPError 403) else Inr b))"

definition listing_xml :: "bucket \<Rightarrow> listing \<Rightarrow> sval" where
  "listing_xml b l = S_Dict
     [(''Name'', S_Text (b_name b)), (''Prefix'', S_Text (l_prefix l)), (''Marker'', S_Text (l_marker l)),
      (''MaxKeys'', S_Int (l_max_keys l)), (''IsTruncated'', S_Bool (l_truncated l)),
      (''Contents'', S_List (map (\<lambda>(k, info). S_Dict ((''Key'', S_Text k) #
          (case info of None \<Rightarrow> [] | Some (t, n) \<Rightarrow> [(''LastModified'', S_Time t), (''Size'', S_Int (int n))]))) (l_contents l)))]"

definition bucket_get :: "flags \<Rightarrow> http_request \<Rightarrow> string \<Rightarrow> http_response os_act" where
  "bucket_get fl rq bucket_name = catch_nova_exceptions
     (bindS (ask (users_bucket fl rq bucket_name)) (\<lambda>b.
      bindS (liftR (py_int (get_argument rq ''max-keys'' ''1000''))) (\<lambda>max_keys.
      bindS (liftR (py_int (get_argument rq ''terse'' ''0''))) (\<lambda>terse.
      bindS (ask (list_keys fl b (get_argument rq ''prefix'' []) (get_argument rq ''marker'' []) max_keys (terse \<noteq> 0))) (\<lambda>l.
        liftR (render_xml ''ListBucketResult'' (listing_xml b l)))))))"

definition bucket_put :: "flags \<Rightarrow> http_request \<Rightarrow> string \<Rightarrow> http_response os_act" where
  "bucket_put fl rq bucket_name = catch_nova_exceptions
     (bindS (ask (request_user fl rq)) (\<lambda>u.
      bindS (bucket_create fl bucket_name u) (\<lambda>_. retS (empty_response 200))))"

definition bucket_delete_handler :: "flags \<Rightarrow> http_request \<Rightarrow> string \<Rightarrow> http_response os_act" where
  "bucket_delete_handler fl rq bucket_name = catch_nova_exceptions
     (bindS (ask (users_bucket fl rq bucket_name)) (\<lambda>b.
      bindS (bucket_delete fl b) (\<lambda>_. retS (empty_response 204))))"

subsection \<open>Objects\<close>

abbreviation in_quotes :: "string \<Rightarrow> string" where
  "in_quotes t \<equiv> [CHR 0x22] @ t @ [CHR 0x22]"

definition object_get :: "flags \<Rightarrow> http_request \<Rightarrow> string \<Rightarrow> string \<Rightarrow> http_response os_act" where
  "object_get fl rq bucket_name object_name = catch_nova_exceptions
     (bindS (ask (users_bucket fl rq bucket_name)) (\<lambda>b.
      bindS (ask (bucket_getitem fl b (unquote object_name))) (\<lambda>ob.
      bindS (ask (object_md5 fl ob)) (\<lambda>md5.
      bindS (ask (object_read fl ob)) (\<lambda>t s.
        (Inr (ok_response [(''Content-Type'', ''application/unknown''), (''Last-Modified'', object_mtime ob s), (''Etag'', in_quotes md5)] t), s))))))"

definition object_put :: "flags \<Rightarrow> http_request \<Rightarrow> string \<Rightarrow> string \<Rightarrow> http_response os_act" where
  "object_put fl rq bucket_name object_name = catch_nova_exceptions
     (bindS (ask (users_bucket fl rq bucket_name)) (\<lambda>b.
      bindS (bucket_setitem fl b (unquote object_name) (rq_body rq)) (\<lambda>_.
      bindS (ask (bucket_getitem fl b (unquote object_name))) (\<lambda>ob.
      bindS (ask (object_md5 fl ob)) (\<lambda>md5. retS (ok_response [(''Etag'', in_quotes md5)] []))))))"

definition object_delete_handler :: "flags \<Rightarrow> http_request \<Rightarrow> string \<Rightarrow> string \<Rightarrow> http_response os_act" where
  "object_delete_handler fl rq bucket_name object_name = catch_nova_exceptions
     (bindS (ask (users_bucket fl rq bucket_name)) (\<lambda>b.
      bindS (bucket_delitem fl b (unquote object_name)) (\<lambda>_. retS (empty_response 204))))"

subsection \<open>Images\<close>

definition images_get :: "flags \<Rightarrow> http_request \<Rightarrow> http_response os_act" where
  "images_get fl rq = catch_nova_exceptions
     (ask (\<lambda>s.
       bindR (if image_all fl s = [] then Inr []
              else bindR (request_user fl rq s) (\<lambda>u. Inr (filter (\<lambda>i. image_is_authorized fl i u s) (image_all fl s)))) (\<lambda>is.
       bindR (mapR (\<lambda>i. image_metadata fl i s) is) (\<lambda>ms. Inr (ok_response [] (os_dumps s (JList ms)))))))"

text \<open>\<^verbatim>\<open>put\<close> starts \<^verbatim>\<open>Image.create\<close> in another process: the answer and, if the
  request is granted, its arguments.\<close>

definition images_put :: "flags \<Rightarrow> http_request \<Rightarrow> (http_response \<times> string \<times> string \<times> user) os_act" where
  "images_put fl rq = catch_nova_exceptions
     (let image_id = get_argument rq ''image_id'' []; image_location = get_argument rq ''image_location'' [];
          image_path = path_join (images_path fl) image_id in
      bindS (ask (\<lambda>s. if \<not> startswith image_path (images_path fl) \<or> fs_get fl (os_fs s) image_path \<noteq> None
                    then Inl (HTTPError 403) else Inr ())) (\<lambda>_.
      bindS (ask (users_bucket fl rq (hd (py_split CHR ''/'' image_location)))) (\<lambda>b.
      bindS (ask (request_user fl rq)) (\<lambda>u.
        retS (empty_response 200, image_id, image_location, u)))))"

definition users_image :: "flags \<Rightarrow> http_request \<Rightarrow> ostore \<Rightarrow> image res" where
  "users_image fl rq s =
     bindR (image_init fl (get_argument rq ''image_id'' []) s) (\<lambda>i.
     bindR (image_owner_id fl i s) (\<lambda>ow.
     bindR (request_user fl rq s) (\<lambda>u.
     if ow \<noteq> JStr (u_id u) then Inl (HTTPError 403) else Inr i)))"

definition images_post :: "flags \<Rightarrow> http_request \<Rightarrow> http_response os_act" where
  "images_post fl rq = catch_nova_exceptions
     (bindS (ask (users_image fl rq)) (\<lambda>i.
      bindS (image_set_public fl i (get_argument rq ''operation'' [] = ''add'')) (\<lambda>_. retS (empty_response 200))))"

definition images_delete :: "flags \<Rightarrow> http_request \<Rightarrow> http_response os_act" where
  "images_delete fl rq = catch_nova_exceptions
     (bindS (ask (users_image fl rq)) (\<lambda>i.
      bindS (image_delete fl i) (\<lambda>_. retS (empty_response 204))))"

text \<open>\<^verbatim>\<open>Application.__init__\<close> checks the two directories.\<close>

definition application_init :: "flags \<Rightarrow> ostore \<Rightarrow> unit res" where
  "application_init fl s =
     (if fs_get fl (os_fs s) (abspath fl (buckets_path fl)) = None then Inl (PyException ''buckets_path does not exist'')
      else if fs_get fl (os_fs s) (abspath fl (images_path fl)) = None then Inl (PyException ''images_path does not exist'')
      else Inr ())"

end
