(* ===== verification/FsLemmas.thy ===== *)
theory FsLemmas
  imports FileSystem
begin

text \<open>
  How names in normal form, as \<^verbatim>\<open>abspath\<close> gives them, are resolved, and how names below them are.
\<close>

definition all_dirs :: "fs \<Rightarrow> string list \<Rightarrow> bool" where
  "all_dirs fs cs \<longleftrightarrow> (\<forall>k < length cs. node_at fs (take k cs) = Some Dir)"

lemma node_at_Nil [simp]: "node_at fs [] = Some Dir"
  by (simp add: node_at_def)

lemma node_at_dput: "p \<noteq> [] \<Longrightarrow> node_at (dput p x fs) q = (if q = p then Some x else node_at fs q)"
  by (simp add: node_at_def)

lemma node_at_ddel: "p \<noteq> [] \<Longrightarrow> node_at (ddel p fs) q = (if q = p then None else node_at fs q)"
  by (simp add: node_at_def)

lemma all_dirs_snoc: "all_dirs fs (cs @ [c]) \<longleftrightarrow> all_dirs fs cs \<and> node_at fs cs = Some Dir"
  by (auto simp: all_dirs_def less_Suc_eq)

lemma walk_empties [simp]: "walk fs [] (replicate n [] @ cs) = walk fs [] cs"
  by (induction n) simp_all

lemma walk_append: "walk fs acc (cs @ ds) = (case walk fs acc cs of None \<Rightarrow> None | Some q \<Rightarrow> walk fs q ds)"
  by (induction fs acc cs rule: walk.induct) auto

lemma walk_plain:
  assumes "\<forall>c \<in> set cs. plain_comp c"
  shows "walk fs [] cs = (if all_dirs fs cs then Some cs else None)"
  using assms
proof (induction cs rule: rev_induct)
  case Nil
  then show ?case by (simp add: all_dirs_def)
next
  case (snoc c cs)
  then have c: "c \<noteq> []" "c \<noteq> ''.''" "c \<noteq> ''..''" by (simp_all add: plain_comp_def)
  show ?case using snoc c by (simp add: walk_append all_dirs_snoc)
qed

lemma abs_path_starts: "n \<in> {1, 2} \<Longrightarrow> startswith (abs_path n cs) ''/''"
  by (cases "py_join ''/'' cs") (auto simp: abs_path_def numeral_2_eq_2)

lemma abs_path_nonempty: "n \<in> {1, 2} \<Longrightarrow> abs_path n cs \<noteq> []"
  by (auto simp: abs_path_def)

lemma abspath_form:
  assumes "startswith (work_dir fl) ''/''"
  obtains n cs where "abspath fl p = abs_path n cs" "n \<in> {1, 2}" "\<forall>c \<in> set cs. plain_comp c"
proof -
  have "startswith (if startswith p ''/'' then p else path_join (work_dir fl) p) ''/''"
    using assms by (auto simp: path_join_def startswith_iff)
  from normpath_abs [OF this] show ?thesis using that unfolding abspath_def by metis
qed

lemma comps_abs:
  assumes "n \<in> {1, 2}" and "\<forall>c \<in> set cs. plain_comp c"
  shows "comps fl (abs_path n cs) = replicate n [] @ (if cs = [] then [[]] else cs)"
  using split_abs_path [OF assms(2), of n] abs_path_starts [OF assms(1), of cs] by (simp add: comps_def)

lemma resolve_abs:
  assumes "n \<in> {1, 2}" and "\<forall>c \<in> set cs. plain_comp c"
  shows "resolve fl fs (abs_path n cs) = (if all_dirs fs cs then Some cs else None)"
  using comps_abs [OF assms] abs_path_nonempty [OF assms(1)] walk_plain [OF assms(2), of fs]
  by (simp add: resolve_def all_dirs_def)

lemma abs_path_snoc:
  assumes "n \<in> {1, 2}" and "\<forall>c \<in> set cs. plain_comp c" and "\<not> startswith k ''/''"
  shows "path_join (abs_path n cs) k = (if cs = [] then abs_path n [k] else abs_path n (cs @ [k]))"
proof (cases cs rule: rev_cases)
  case Nil
  then show ?thesis using assms(1,3) by (auto simp: path_join_def abs_path_def numeral_2_eq_2)
next
  case (snoc ds d)
  have d: "d \<noteq> []" "CHR ''/'' \<notin> set d" using assms(2) snoc by (auto simp: plain_comp_def)
  have last: "\<exists>t. py_join ''/'' (ds @ [d]) = t @ d" by (induction ds rule: py_join.induct) auto
  then have "py_join ''/'' cs \<noteq> []" "last (py_join ''/'' cs) = last d" using d snoc by auto
  moreover have "last d \<noteq> CHR ''/''" using last_in_set [OF d(1)] d(2) by metis
  ultimately have l: "last (abs_path n cs) \<noteq> CHR ''/''" by (simp add: abs_path_def)
  have j: "xs \<noteq> [] \<Longrightarrow> py_join ''/'' (xs @ [k]) = py_join ''/'' xs @ ''/'' @ k" for xs
    by (induction "''/''" xs rule: py_join.induct) auto
  show ?thesis using assms(3) l abs_path_nonempty [OF assms(1), of cs] j [of cs] snoc
    by (simp add: path_join_def abs_path_def)
qed

text \<open>Joining a plain name to a path, before and after the path is put in normal form.\<close>

lemma norm_comps_append: "norm_comps b acc (xs @ ys) = norm_comps b (rev (norm_comps b acc xs)) ys"
  by (induction b acc xs rule: norm_comps.induct) auto

lemma path_join_assoc:
  "\<not> startswith c ''/'' \<Longrightarrow> path_join a (path_join b c) = (if startswith b ''/'' then path_join b c else path_join (path_join a b) c)"
  by (cases b) (auto simp: path_join_def)

lemma path_join_rooted: "\<not> startswith c ''/'' \<Longrightarrow> startswith (path_join b c) ''/'' = startswith b ''/''"
  by (cases b) (auto simp: path_join_def)

lemma normpath_join:
  assumes "startswith p ''/''" and "plain_comp c"
  shows "normpath (path_join p c) = abs_path (leading_slashes p) (norm_comps True [] (py_split CHR ''/'' p) @ [c])"
proof -
  have c: "c \<noteq> []" "c \<noteq> ''.''" "c \<noteq> ''..''" "CHR ''/'' \<notin> set c" using assms(2) by (simp_all add: plain_comp_def)
  then have nc: "\<not> startswith c ''/''" by (cases c) auto
  have sl: "leading_slashes (path_join p c) = leading_slashes p"
  proof -
    obtain q where p: "p = CHR ''/'' # q" using assms(1) by (cases p) auto
    show ?thesis
    proof (cases q)
      case Nil
      then show ?thesis using nc p by (cases c) (auto simp: path_join_def leading_slashes_def)
    next
      case (Cons x r)
      then show ?thesis using nc p by (cases r; cases c) (auto simp: path_join_def leading_slashes_def)
    qed
  qed
  have n: "0 < leading_slashes p" using assms(1) by (auto simp: leading_slashes_def)
  have "norm_comps True [] (py_split CHR ''/'' (path_join p c)) = norm_comps True [] (py_split CHR ''/'' p) @ [c]"
  proof (cases "last p = CHR ''/''")
    case True
    then obtain r where r: "p = r @ ''/''" using assms(1) by (cases p rule: rev_cases) auto
    have "py_split CHR ''/'' (path_join p c) = py_split CHR ''/'' r @ [c]" "py_split CHR ''/'' p = py_split CHR ''/'' r @ [[]]"
      using py_split_append [of "CHR ''/''" r c] py_split_append [of "CHR ''/''" r "[]"] py_split_no_sep [OF c(4)] nc
      by (simp_all add: path_join_def r)
    then show ?thesis using c by (simp add: norm_comps_append hd_rev split: list.splits)
  next
    case False
    then have "py_split CHR ''/'' (path_join p c) = py_split CHR ''/'' p @ [c]"
      using py_split_append [of "CHR ''/''" p c] py_split_no_sep [OF c(4)] nc assms(1) by (auto simp: path_join_def)
    then show ?thesis using c by (simp add: norm_comps_append)
  qed
  moreover have "path_join p c \<noteq> []" using c(1) by (simp add: path_join_def)
  ultimately show ?thesis using n sl by (simp add: normpath_def abs_path_def)
qed

text \<open>A name below a directory is resolved from there.\<close>

lemma resolve_below:
  assumes "n \<in> {1, 2}" and "\<forall>c \<in> set cs. plain_comp c" and "\<not> startswith k ''/''" and "node_at fs cs = Some Dir"
    and "all_dirs fs cs"
  shows "resolve fl fs (path_join (abs_path n cs) k) = walk fs cs (py_split CHR ''/'' k)"
proof -
  have "startswith (path_join (abs_path n cs) k) ''/''"
    using abs_path_starts [OF assms(1), of cs] assms(3) by (cases "abs_path n cs") (auto simp: path_join_def)
  moreover have "py_split CHR ''/'' (path_join (abs_path n cs) k) = replicate n [] @ cs @ py_split CHR ''/'' k"
  proof (cases "cs = []")
    case True
    have "py_split CHR ''/'' (replicate n CHR ''/'' @ k) = replicate n [] @ py_split CHR ''/'' k" by (induction n) simp_all
    then show ?thesis using True abs_path_snoc [OF assms(1-3)] by (simp add: abs_path_def)
  next
    case False
    have j: "xs \<noteq> [] \<Longrightarrow> \<forall>x \<in> set xs. CHR ''/'' \<notin> set x \<Longrightarrow>
        py_split CHR ''/'' (py_join ''/'' (xs @ [k])) = xs @ py_split CHR ''/'' k" for xs
      by (induction "''/''" xs rule: py_join.induct) (auto simp: py_split_append_sep)
    have "py_split CHR ''/'' (replicate n CHR ''/'' @ py_join ''/'' (cs @ [k])) = replicate n [] @ cs @ py_split CHR ''/'' k"
      using j [OF False] assms(2) by (induction n) (simp_all add: plain_comp_def)
    then show ?thesis using False abs_path_snoc [OF assms(1-3)] by (simp add: abs_path_def)
  qed
  moreover have "path_join (abs_path n cs) k \<noteq> []"
    using abs_path_nonempty [OF assms(1)] assms(3) by (auto simp: path_join_def)
  moreover have "walk fs [] (cs @ py_split CHR ''/'' k) = walk fs cs (py_split CHR ''/'' k)"
    using walk_plain [OF assms(2), of fs] assms(5) by (simp add: walk_append)
  ultimately show ?thesis by (simp add: resolve_def comps_def)
qed

text \<open>Without \<^verbatim>\<open>..\<close> a name leads further down.\<close>

lemma walk_down:
  "walk fs acc cs = Some q \<Longrightarrow> ''..'' \<notin> set cs \<Longrightarrow> take (length acc) q = acc \<and> length acc \<le> length q"
proof (induction fs acc cs arbitrary: q rule: walk.induct)
  case (2 fs acc c cs)
  show ?case
  proof (cases "c = [] \<or> c = ''.''")
    case True
    then show ?thesis using 2 by (auto split: if_splits)
  next
    case False
    then have w: "walk fs (acc @ [c]) cs = Some q" using 2(4,5) by (auto split: if_splits)
    have "node_at fs acc = Some Dir" "c \<noteq> ''..''" using 2(4,5) by (auto split: if_splits)
    then have "take (length (acc @ [c])) q = acc @ [c] \<and> length (acc @ [c]) \<le> length q"
      using 2(3) False w 2(5) by auto
    then have "take (length acc) (take (length (acc @ [c])) q) = acc" "length acc \<le> length q" by simp_all
    then show ?thesis by (simp add: min_def)
  qed
qed simp

lemma walk_one: "plain_comp c \<Longrightarrow> node_at fs acc = Some Dir \<Longrightarrow> walk fs acc [c] = Some (acc @ [c])"
  by (simp add: plain_comp_def)

lemma walk_cong:
  assumes "\<And>q. node_at fs q = Some Dir \<longleftrightarrow> node_at fs' q = Some Dir"
  shows "walk fs' acc cs = walk fs acc cs"
  using assms by (induction fs acc cs rule: walk.induct) simp_all

lemma resolve_cong:
  "(\<And>q. node_at fs q = Some Dir \<longleftrightarrow> node_at fs' q = Some Dir) \<Longrightarrow> resolve fl fs' p = resolve fl fs p"
  using walk_cong [of fs fs'] by (simp add: resolve_def)

text \<open>Writing and removing a file changes no directory.\<close>

lemma fs_write_Inr:
  assumes "fs_write fl p t fs = (Inr x, fs')"
  obtains q where "resolve fl fs p = Some q" "node_at fs q \<noteq> Some Dir" "q \<noteq> []" "fs' = dput q (File t) fs"
    "\<And>p'. resolve fl fs' p' = resolve fl fs p'"
proof -
  obtain q where q: "resolve fl fs p = Some q" "node_at fs q \<noteq> Some Dir" "fs' = dput q (File t) fs"
    using assms by (auto simp: fs_write_def split: option.splits if_splits)
  have ne: "q \<noteq> []" using q(2) by (cases q) simp_all
  have "resolve fl fs' p' = resolve fl fs p'" for p'
    by (rule resolve_cong) (use q ne in \<open>auto simp: node_at_dput\<close>)
  then show ?thesis using that q ne by blast
qed

lemma fs_write_Inl: "fs_write fl p t fs = (Inl e, fs') \<Longrightarrow> fs' = fs"
  by (auto simp: fs_write_def split: option.splits if_splits)

lemma fs_unlink_Inr:
  assumes "fs_unlink fl p fs = (Inr x, fs')"
  obtains q t where "resolve fl fs p = Some q" "node_at fs q = Some (File t)" "q \<noteq> []" "fs' = ddel q fs"
    "\<And>p'. resolve fl fs' p' = resolve fl fs p'"
proof -
  obtain q t where q: "resolve fl fs p = Some q" "node_at fs q = Some (File t)" "fs' = ddel q fs"
    using assms by (auto simp: fs_unlink_def split: option.splits fnode.splits)
  have ne: "q \<noteq> []" using q(2) by (cases q) simp_all
  have "resolve fl fs' p' = resolve fl fs p'" for p'
    by (rule resolve_cong) (use q ne in \<open>auto simp: node_at_ddel\<close>)
  then show ?thesis using that q ne by blast
qed

lemma fs_unlink_Inl: "fs_unlink fl p fs = (Inl e, fs') \<Longrightarrow> fs' = fs"
  by (auto simp: fs_unlink_def split: option.splits fnode.splits)

text \<open>After a file was written it is there, and everything else is as it was.\<close>

lemma fs_get_written:
  assumes "fs_write fl p t fs = (Inr x, fs')"
  shows "fs_get fl fs' p = Some (File t)"
  by (rule fs_write_Inr [OF assms]) (simp add: fs_get_def node_at_dput)

lemma isdir_after_write: "fs_write fl p t fs = (Inr x, fs') \<Longrightarrow> isdir fl fs' p' = isdir fl fs p'"
  by (erule fs_write_Inr) (auto simp: isdir_def fs_get_def node_at_dput split: option.splits)

subsection \<open>Making directories\<close>

lemma make_all_dirs:
  assumes "\<forall>c \<in> set cs. plain_comp c" and "all_dirs fs acc" and "node_at fs acc = Some Dir"
    and "make_all acc cs fs = (Inr x, fs')"
  shows "all_dirs fs' (acc @ cs) \<and> node_at fs' (acc @ cs) = Some Dir \<and>
    (\<forall>q. node_at fs' q \<noteq> node_at fs q \<longrightarrow> node_at fs q = None \<and> node_at fs' q = Some Dir \<and>
       length acc < length q \<and> take (length q) (acc @ cs) = q)"
  using assms
proof (induction acc cs fs rule: make_all.induct)
  case (1 acc fs)
  then show ?case by simp
next
  case (2 acc c cs fs)
  have c: "c \<noteq> []" "c \<noteq> ''.''" "c \<noteq> ''..''" using 2(5) by (simp_all add: plain_comp_def)
  show ?case
  proof (cases "node_at fs (acc @ [c])")
    case None
    let ?fs = "dput (acc @ [c]) Dir fs"
    have d: "all_dirs ?fs (acc @ [c])" "node_at ?fs (acc @ [c]) = Some Dir"
      using 2(6,7) by (auto simp: all_dirs_def node_at_dput nth_append less_Suc_eq)
    have "make_all (acc @ [c]) cs ?fs = (Inr x, fs')" using 2(8) c None by simp
    from 2(3) [OF _ _ None _ d this] c 2(5)
    have ih: "all_dirs fs' (acc @ c # cs)" "node_at fs' (acc @ c # cs) = Some Dir"
        "\<forall>q. node_at fs' q \<noteq> node_at ?fs q \<longrightarrow> node_at ?fs q = None \<and> node_at fs' q = Some Dir \<and>
          length (acc @ [c]) < length q \<and> take (length q) (acc @ c # cs) = q"
      by simp_all
    have "node_at fs' (acc @ [c]) = Some Dir"
      using ih(3) [rule_format, of "acc @ [c]"] d(2) by (cases "node_at fs' (acc @ [c]) = node_at ?fs (acc @ [c])") auto
    have "node_at fs q = None \<and> node_at fs' q = Some Dir \<and> length acc < length q \<and> take (length q) (acc @ c # cs) = q"
      if ne: "node_at fs' q \<noteq> node_at fs q" for q
    proof (cases "q = acc @ [c]")
      case True
      then show ?thesis using None \<open>node_at fs' (acc @ [c]) = Some Dir\<close> by simp
    next
      case False
      then have "node_at ?fs q = node_at fs q" by (simp add: node_at_dput)
      then show ?thesis using ih(3) [rule_format, of q] ne by (simp del: take_append)
    qed
    then show ?thesis using ih(1,2) by blast
  next
    case (Some n)
    then have n: "n = Dir" using 2(8) c by (cases n) simp_all
    have "all_dirs fs (acc @ [c])" using 2(6,7) by (simp add: all_dirs_snoc)
    moreover have "make_all (acc @ [c]) cs fs = (Inr x, fs')" using 2(8) c Some n by simp
    ultimately have "all_dirs fs' ((acc @ [c]) @ cs) \<and> node_at fs' ((acc @ [c]) @ cs) = Some Dir \<and>
      (\<forall>q. node_at fs' q \<noteq> node_at fs q \<longrightarrow> node_at fs q = None \<and> node_at fs' q = Some Dir \<and>
       length (acc @ [c]) < length q \<and> take (length q) ((acc @ [c]) @ cs) = q)"
      using 2(4) [OF _ _ Some n] c 2(5) Some n by simp
    then show ?thesis by auto
  qed
qed

end
