(* ===== verification/ObjectProps.thy ===== *)
theory ObjectProps
  imports ObjectHandler FsLemmas
begin

text \<open>
  What the requests to the object store do to the files: what was put is what is got, what a request can
  reach, who owns a bucket, and which keys a listing has.
\<close>

lemma on_fs_eq: "on_fs m s = (r, s') \<longleftrightarrow> (\<exists>fs. m (os_fs s) = (r, fs) \<and> s' = s\<lparr>os_fs := fs\<rparr>)"
  by (auto simp: on_fs_def split: prod.splits)

lemma ask_eq: "ask f s = (r, s') \<longleftrightarrow> f s = r \<and> s' = s"
  by (auto simp: ask_def)

lemma catch_nova_Inr: "catch_nova_exceptions m s = (Inr x, s') \<longleftrightarrow> m s = (Inr x, s')"
  by (auto simp: catch_nova_exceptions_def split: prod.splits sum.splits)

lemma catch_nova_state: "snd (catch_nova_exceptions m s) = snd (m s)"
  by (auto simp: catch_nova_exceptions_def split: prod.splits sum.splits)

lemma bucket_init_Inr: "bucket_init fl bn s = Inr b \<Longrightarrow> b = \<lparr>b_name = bn, b_path = bucket_path fl bn\<rparr> \<and>
    in_buckets fl (bucket_path fl bn) \<and> isdir fl (os_fs s) (bucket_path fl bn)"
  by (auto simp: bucket_init_def Let_def split: if_splits)

lemma users_bucket_Inr:
  "users_bucket fl rq bn s = Inr b \<longleftrightarrow> bucket_init fl bn s = Inr b \<and>
     (\<exists>u. request_user fl rq s = Inr u \<and> bucket_is_authorized fl b u s)"
  by (auto simp: users_bucket_def)

lemmas bucket_of_request = bucket_init_Inr [OF conjunct1 [OF users_bucket_Inr [THEN iffD1]]]

lemma object_path_Inr: "object_path b k = Inr p \<longleftrightarrow> startswith p (b_path b) \<and> p = path_join (b_path b) k"
  by (auto simp: object_path_def Let_def split: if_splits)

lemma object_init_Inr:
  "object_init fl b k s = Inr ob \<longleftrightarrow>
     (\<exists>p. object_path b k = Inr p \<and> isfile fl (os_fs s) p \<and> ob = \<lparr>o_key = k, o_path = p\<rparr>)"
  by (auto simp: object_init_def split: if_splits)

lemma setitem_eq:
  "bucket_setitem fl b k v s = (Inr x, s') \<longleftrightarrow>
     (\<exists>p fs. object_path b k = Inr p \<and> fs_write fl p v (os_fs s) = (Inr x, fs) \<and> s' = s\<lparr>os_fs := fs\<rparr>)"
  by (cases "object_path b k") (auto simp: bucket_setitem_def on_fs_eq)

lemma object_put_Inr:
  assumes "object_put fl rq bn key s = (Inr r, s')"
  obtains b p fs where "users_bucket fl rq bn s = Inr b" "object_path b (unquote key) = Inr p"
    "fs_write fl p (rq_body rq) (os_fs s) = (Inr (), fs)" "s' = s\<lparr>os_fs := fs\<rparr>"
    "r = ok_response [(''Etag'', in_quotes (os_md5 s (rq_body rq)))] []"
proof -
  from assms obtain b s1 ob md5 where *: "users_bucket fl rq bn s = Inr b"
      "bucket_setitem fl b (unquote key) (rq_body rq) s = (Inr (), s1)" "bucket_getitem fl b (unquote key) s1 = Inr ob"
      "object_md5 fl ob s1 = Inr md5" "s' = s1" "r = ok_response [(''Etag'', in_quotes md5)] []"
    by (auto simp: object_put_def catch_nova_Inr bindS_Inr ask_eq)
  from *(2) obtain p fs where p: "object_path b (unquote key) = Inr p" "fs_write fl p (rq_body rq) (os_fs s) = (Inr (), fs)"
      "s1 = s\<lparr>os_fs := fs\<rparr>"
    by (auto simp: setitem_eq)
  have "o_path ob = p" using *(3) p(1) by (auto simp: bucket_getitem_def object_init_Inr)
  then have "md5 = os_md5 s (rq_body rq)"
    using *(4) fs_get_written [OF p(2)] p(3) by (simp add: object_md5_def read_file_def)
  then show ?thesis using that * p by blast
qed

subsection \<open>A store with two users\<close>

definition demo_fl :: flags where
  "demo_fl = default_flags ''/n'' ''h''"

definition demo_directory :: kstore where
  "demo_directory = snd (ldap_create_user demo_fl ''bob'' ''kb'' ''t'' False
     (snd (ldap_create_user demo_fl ''ann'' ''ka'' ''s'' False (fakeldap_module Map.empty))))"

definition demo_dumps :: "json \<Rightarrow> string" where
  "demo_dumps j = (case j of JDict [(k, JStr v)] \<Rightarrow> v | _ \<Rightarrow> [])"

definition demo_ostore :: ostore where
  "demo_ostore = \<lparr>os_fs = [([''n''], Dir), ([''buckets''], Dir), ([''images''], Dir)], os_users = demo_directory,
     os_dumps = demo_dumps, os_loads = (\<lambda>t. Inr (JDict [(''ownerId'', JStr t)])), os_md5 = (\<lambda>t. t), os_time = (\<lambda>_ _. ''now''),
     os_decrypt = (\<lambda>t _ _. Inr t), os_untar = (\<lambda>t. Inr [(''image'', t)])\<rparr>"

definition demo_rq :: "string \<Rightarrow> string \<Rightarrow> http_request" where
  "demo_rq key body = \<lparr>rq_authorization = Some (''AWS '' @ key @ '':sig''), rq_arguments = [], rq_body = body\<rparr>"

text \<open>Ann owns the bucket b, Bob the bucket c.\<close>

definition demo_buckets :: ostore where
  "demo_buckets = snd (bucket_put demo_fl (demo_rq ''kb'' []) ''c'' (snd (bucket_put demo_fl (demo_rq ''ka'' []) ''b'' demo_ostore)))"

lemma demo_work_dir: "startswith (work_dir demo_fl) ''/''"
  by (simp add: demo_fl_def default_flags_def)

text \<open>C20: An object that was put is what a later request for it gets: the bytes of the body, and a tag that
  is the digest of these bytes and equals the tag that the put was answered with. This holds for whatever key, and for
  every request that is let at the bucket afterwards.\<close>

theorem object_put_then_get:
  assumes "object_put fl rq bn key s = (Inr r, s')" and "users_bucket fl rq' bn s' = Inr b"
  shows "r = ok_response [(''Etag'', in_quotes (os_md5 s (rq_body rq)))] [] \<and>
    (\<exists>t. object_get fl rq' bn key s' = (Inr (ok_response
       [(''Content-Type'', ''application/unknown''), (''Last-Modified'', t), (''Etag'', in_quotes (os_md5 s (rq_body rq)))]
       (rq_body rq)), s'))"
proof -
  obtain b0 p fs where *: "users_bucket fl rq bn s = Inr b0" "object_path b0 (unquote key) = Inr p"
      "fs_write fl p (rq_body rq) (os_fs s) = (Inr (), fs)" "s' = s\<lparr>os_fs := fs\<rparr>"
      "r = ok_response [(''Etag'', in_quotes (os_md5 s (rq_body rq)))] []"
    using object_put_Inr [OF assms(1)] by blast
  have "b = b0" using bucket_of_request [OF *(1)] bucket_of_request [OF assms(2)] by simp
  note w = fs_get_written [OF *(3)]
  have "bucket_getitem fl b (unquote key) s' = Inr \<lparr>o_key = unquote key, o_path = p\<rparr>"
    using *(2,4) w \<open>b = b0\<close> by (simp add: bucket_getitem_def object_init_def isfile_def)
  then show ?thesis using assms(2) *(4,5) w
    by (intro conjI exI [of _ "object_mtime \<lparr>o_key = unquote key, o_path = p\<rparr> s'"])
      (simp_all add: object_get_def catch_nova_exceptions_def bindS_def ask_def object_md5_def object_read_def read_file_def)
qed

theorem object_put_then_get_witness:
  "\<exists>t. object_get demo_fl (demo_rq ''ka'' []) ''b'' ''x%20y'' (snd (object_put demo_fl (demo_rq ''ka'' ''hi'') ''b'' ''x%20y'' demo_buckets)) =
     (Inr (ok_response [(''Content-Type'', ''application/unknown''), (''Last-Modified'', t), (''Etag'', in_quotes ''hi'')] ''hi''),
      snd (object_put demo_fl (demo_rq ''ka'' ''hi'') ''b'' ''x%20y'' demo_buckets))"
proof -
  let ?put = "object_put demo_fl (demo_rq ''ka'' ''hi'') ''b'' ''x%20y'' demo_buckets"
  have "fst ?put = Inr (ok_response [(''Etag'', in_quotes ''hi'')] [])" by code_simp
  then have p: "?put = (Inr (ok_response [(''Etag'', in_quotes ''hi'')] []), snd ?put)" by (cases ?put) simp
  have u: "users_bucket demo_fl (demo_rq ''ka'' []) ''b'' (snd ?put) = Inr \<lparr>b_name = ''b'', b_path = ''/buckets/b''\<rparr>" by code_simp
  have "os_md5 demo_buckets (rq_body (demo_rq ''ka'' ''hi'')) = ''hi''" "rq_body (demo_rq ''ka'' ''hi'') = ''hi''" by code_simp+
  then show ?thesis using object_put_then_get [OF p u] by simp
qed

subsection \<open>What a request can reach\<close>

lemma unquote_id: "CHR ''%'' \<notin> set s \<Longrightarrow> unquote s = s"
  by (induction s) auto

lemma bucket_dir:
  assumes "startswith (work_dir fl) ''/''" and "bucket_init fl bn s = Inr b"
  obtains n cs where "b_path b = abs_path n cs" "b_path b = bucket_path fl bn" "n \<in> {1, 2}" "\<forall>c \<in> set cs. plain_comp c"
    "all_dirs (os_fs s) cs" "node_at (os_fs s) cs = Some Dir" "resolve fl (os_fs s) (bucket_path fl bn) = Some cs"
proof -
  obtain n cs where *: "bucket_path fl bn = abs_path n cs" "n \<in> {1, 2}" "\<forall>c \<in> set cs. plain_comp c"
    using abspath_form [OF assms(1)] unfolding bucket_path_def by blast
  have "isdir fl (os_fs s) (bucket_path fl bn)" "b_path b = bucket_path fl bn" using bucket_init_Inr [OF assms(2)] by simp_all
  then have "all_dirs (os_fs s) cs \<and> node_at (os_fs s) cs = Some Dir \<and> b_path b = bucket_path fl bn"
    using resolve_abs [OF *(2,3), of fl "os_fs s"] *(1)
    by (auto simp: isdir_def fs_get_def split: if_splits)
  then show ?thesis using that [of n cs] resolve_abs [OF *(2,3), of fl "os_fs s"] * by simp
qed

lemma key_below:
  assumes "startswith (work_dir fl) ''/''" and "bucket_init fl bn s = Inr b"
    and "resolve fl (os_fs s) (bucket_path fl bn) = Some cs"
    and "\<not> startswith k ''/''" and "''..'' \<notin> set (py_split CHR ''/'' k)"
    and "object_path b k = Inr p" and "resolve fl (os_fs s) p = Some q"
  shows "take (length cs) q = cs"
proof -
  obtain n ds where d: "b_path b = abs_path n ds" "n \<in> {1, 2}" "\<forall>c \<in> set ds. plain_comp c"
    "all_dirs (os_fs s) ds" "node_at (os_fs s) ds = Some Dir" "resolve fl (os_fs s) (bucket_path fl bn) = Some ds"
    using bucket_dir [OF assms(1,2)] by metis
  have "walk (os_fs s) ds (py_split CHR ''/'' k) = Some q"
    using resolve_below [OF d(2,3) assms(4) d(5,4), of fl] assms(6,7) d(1) by (simp add: object_path_Inr)
  then show ?thesis using walk_down [OF _ assms(5)] d(6) assms(3) by fastforce
qed

text \<open>The two requests that change objects.\<close>

inductive changes_object :: "flags \<Rightarrow> http_request \<Rightarrow> string \<Rightarrow> string \<Rightarrow> ostore \<Rightarrow> ostore \<Rightarrow> bool"
  for fl rq bn key s where
  put: "object_put fl rq bn key s = (r, s') \<Longrightarrow> changes_object fl rq bn key s s'"
| delete: "object_delete_handler fl rq bn key s = (r, s') \<Longrightarrow> changes_object fl rq bn key s s'"

lemma changes_object_cases:
  assumes "changes_object fl rq bn key s s'" and "s' \<noteq> s"
  obtains b p q where "users_bucket fl rq bn s = Inr b" "object_path b (unquote key) = Inr p"
    "resolve fl (os_fs s) p = Some q" "q \<noteq> []" "s' = s\<lparr>os_fs := os_fs s'\<rparr>"
    "\<And>q'. q' \<noteq> q \<Longrightarrow> node_at (os_fs s') q' = node_at (os_fs s) q'"
  using assms(1)
proof (cases rule: changes_object.cases)
  case (put r)
  then have st: "s' = snd (object_put fl rq bn key s)" by simp
  obtain b where b: "users_bucket fl rq bn s = Inr b"
    using st assms(2) by (cases "users_bucket fl rq bn s") (simp_all add: object_put_def catch_nova_state bindS_def ask_def)
  obtain p where p: "object_path b (unquote key) = Inr p"
    using st assms(2) b
    by (cases "object_path b (unquote key)") (simp_all add: object_put_def catch_nova_state bindS_def ask_def bucket_setitem_def)
  obtain w fs where w: "fs_write fl p (rq_body rq) (os_fs s) = (w, fs)" by fastforce
  have s': "s' = s\<lparr>os_fs := fs\<rparr>"
    using st b p w by (auto simp: object_put_def catch_nova_state bindS_def ask_def bucket_setitem_def on_fs_def split: sum.splits)
  show ?thesis
  proof (cases w)
    case (Inl e)
    then show ?thesis using fs_write_Inl w s' assms(2) by fastforce
  next
    case (Inr x)
    obtain q where "resolve fl (os_fs s) p = Some q" "q \<noteq> []" "fs = dput q (File (rq_body rq)) (os_fs s)"
      using fs_write_Inr [OF w [unfolded Inr]] by metis
    then show ?thesis using that [OF b p] s' by (simp add: node_at_dput)
  qed
next
  case (delete r)
  then have st: "s' = snd (object_delete_handler fl rq bn key s)" by simp
  obtain b where b: "users_bucket fl rq bn s = Inr b"
    using st assms(2) by (cases "users_bucket fl rq bn s") (simp_all add: object_delete_handler_def catch_nova_state bindS_def ask_def)
  obtain ob where ob: "object_init fl b (unquote key) s = Inr ob"
    using st assms(2) b
    by (cases "object_init fl b (unquote key) s") (simp_all add: object_delete_handler_def catch_nova_state bindS_def ask_def bucket_delitem_def)
  obtain w fs where w: "fs_unlink fl (o_path ob) (os_fs s) = (w, fs)" by fastforce
  have s': "s' = s\<lparr>os_fs := fs\<rparr>"
    using st b ob w by (auto simp: object_delete_handler_def catch_nova_state bindS_def ask_def bucket_delitem_def object_delete_def
        on_fs_def split: sum.splits)
  have p: "object_path b (unquote key) = Inr (o_path ob)" using ob by (auto simp: object_init_Inr)
  show ?thesis
  proof (cases w)
    case (Inl e)
    then show ?thesis using fs_unlink_Inl w s' assms(2) by fastforce
  next
    case (Inr x)
    obtain q where "resolve fl (os_fs s) (o_path ob) = Some q" "q \<noteq> []" "fs = ddel q (os_fs s)"
      using fs_unlink_Inr [OF w [unfolded Inr]] by metis
    then show ?thesis using that [OF b p] s' by (simp add: node_at_ddel)
  qed
qed



subsection \<open>Keys that lead elsewhere\<close>

lemma split_up: "CHR ''/'' \<notin> set c \<Longrightarrow> py_split CHR ''/'' (''../'' @ c @ ''/'' @ k) = ''..'' # c # py_split CHR ''/'' k"
  using py_split_append_sep [of "CHR ''/''" "''..''" "c @ ''/'' @ k"] py_split_append_sep [of "CHR ''/''" c k] by simp

text \<open>Two names of buckets without dots or slashes are next to each other.\<close>

lemma bucket_next_to:
  assumes "startswith (work_dir fl) ''/''" and "plain_comp bn"
  obtains n ds where "n \<in> {1, 2}" "\<forall>c \<in> set ds. plain_comp c" "abspath fl (buckets_path fl) = abs_path n ds"
    "bucket_path fl bn = abs_path n (ds @ [bn])"
proof -
  let ?p = "if startswith (buckets_path fl) ''/'' then buckets_path fl else path_join (work_dir fl) (buckets_path fl)"
  have bn: "\<not> startswith bn ''/''" using assms(2) by (cases bn) (auto simp: plain_comp_def)
  have p: "startswith ?p ''/''" using assms(1) by (auto simp: path_join_def startswith_iff)
  show ?thesis
  proof (rule normpath_abs [OF p])
    fix n ds
    assume *: "normpath ?p = abs_path n ds" "n = leading_slashes ?p" "n \<in> {1, 2}"
      "ds = norm_comps True [] (py_split CHR ''/'' ?p)" "\<forall>c \<in> set ds. plain_comp c"
    have "bucket_path fl bn = normpath (path_join ?p bn)"
      using path_join_assoc [OF bn, of "work_dir fl" "buckets_path fl"] path_join_rooted [OF bn, of "buckets_path fl"]
      by (simp add: bucket_path_def abspath_def)
    also have "\<dots> = abs_path n (ds @ [bn])" using normpath_join [OF p assms(2)] *(2,4) by simp
    finally show ?thesis using that [of n ds] * by (simp add: abspath_def)
  qed
qed

lemma object_put_ok:
  assumes "users_bucket fl rq bn s = Inr b" and "object_path b (unquote key) = Inr p"
    and "fs_write fl p (rq_body rq) (os_fs s) = (Inr x, fs)"
  shows "object_put fl rq bn key s = (Inr (ok_response [(''Etag'', in_quotes (os_md5 s (rq_body rq)))] []), s\<lparr>os_fs := fs\<rparr>)"
proof -
  let ?s = "s\<lparr>os_fs := fs\<rparr>"
  have "bucket_getitem fl b (unquote key) ?s = Inr \<lparr>o_key = unquote key, o_path = p\<rparr>"
    using assms(2) fs_get_written [OF assms(3)] by (simp add: bucket_getitem_def object_init_def isfile_def)
  moreover have "bucket_setitem fl b (unquote key) (rq_body rq) s = (Inr (), ?s)" using assms(2,3) by (auto simp: setitem_eq)
  ultimately show ?thesis using assms(1) fs_get_written [OF assms(3)]
    by (simp add: object_put_def catch_nova_exceptions_def bindS_def ask_def object_md5_def read_file_def)
qed

lemma plain_not_rooted: "plain_comp k \<Longrightarrow> \<not> startswith k ''/''"
  by (cases k) (auto simp: plain_comp_def)

lemma resolve_next_to:
  assumes "n \<in> {1, 2}" and "\<forall>c \<in> set (ds @ [bn]). plain_comp c" and "plain_comp cn" and "plain_comp k"
    and "all_dirs fs (ds @ [bn])" and "node_at fs (ds @ [bn]) = Some Dir" and "node_at fs (ds @ [cn]) = Some Dir"
  shows "resolve fl fs (path_join (abs_path n (ds @ [bn])) (''../'' @ cn @ ''/'' @ k)) = Some (ds @ [cn, k])"
    and "resolve fl fs (path_join (abs_path n (ds @ [cn])) k) = Some (ds @ [cn, k])"
proof -
  have sl: "CHR ''/'' \<notin> set cn" "CHR ''/'' \<notin> set k" using assms(3,4) by (simp_all add: plain_comp_def)
  have sp: "py_split CHR ''/'' (''../'' @ cn @ ''/'' @ k) = [''..'', cn, k]" "py_split CHR ''/'' k = [k]"
    using split_up [OF sl(1), of k] py_split_no_sep [OF sl(2)] by simp_all
  have dirs: "all_dirs fs ds" "node_at fs ds = Some Dir" using assms(5) by (simp_all add: all_dirs_snoc)
  have "\<not> startswith (''../'' @ cn @ ''/'' @ k) ''/''" by simp
  from resolve_below [OF assms(1,2) this assms(6,5), of fl]
  have "resolve fl fs (path_join (abs_path n (ds @ [bn])) (''../'' @ cn @ ''/'' @ k)) = walk fs (ds @ [bn]) [''..'', cn, k]"
    unfolding sp .
  also have "\<dots> = Some (ds @ [cn, k])" using dirs assms(3,4,6,7) by (simp add: plain_comp_def)
  finally show "resolve fl fs (path_join (abs_path n (ds @ [bn])) (''../'' @ cn @ ''/'' @ k)) = Some (ds @ [cn, k])" .
  have "\<forall>c \<in> set (ds @ [cn]). plain_comp c" "all_dirs fs (ds @ [cn])" using assms(2,3) dirs by (simp_all add: all_dirs_snoc)
  from resolve_below [OF assms(1) this(1) plain_not_rooted [OF assms(4)] assms(7) this(2), of fl]
  show "resolve fl fs (path_join (abs_path n (ds @ [cn])) k) = Some (ds @ [cn, k])"
    unfolding sp using walk_one [OF assms(4,7)] by simp
qed

text \<open>C39: Finding: the user of one bucket writes into another bucket, whoever owns that one, with a key that goes one
  directory up and down into the other: the check of the name only looks at how it begins. The request is answered with
  success.\<close>

theorem key_leads_to_other_bucket:
  assumes "startswith (work_dir fl) ''/''" and "plain_comp bn" and "plain_comp cn" and "plain_comp k"
    and "CHR ''%'' \<notin> set cn \<union> set k" and "users_bucket fl rq bn s = Inr b"
    and "isdir fl (os_fs s) (bucket_path fl cn)" and "fs_get fl (os_fs s) (path_join (bucket_path fl cn) k) \<noteq> Some Dir"
  shows "\<exists>r s'. object_put fl rq bn (''../'' @ cn @ ''/'' @ k) s = (Inr r, s') \<and>
    fs_get fl (os_fs s') (path_join (bucket_path fl cn) k) = Some (File (rq_body rq))"
proof -
  let ?key = "''../'' @ cn @ ''/'' @ k" and ?fs = "os_fs s"
  obtain n ds where d: "n \<in> {1, 2}" "\<forall>c \<in> set ds. plain_comp c" "abspath fl (buckets_path fl) = abs_path n ds"
      "bucket_path fl bn = abs_path n (ds @ [bn])"
    using bucket_next_to [OF assms(1,2)] by blast
  obtain m es where e: "m \<in> {1, 2}" "\<forall>c \<in> set es. plain_comp c" "abspath fl (buckets_path fl) = abs_path m es"
      "bucket_path fl cn = abs_path m (es @ [cn])"
    using bucket_next_to [OF assms(1,3)] by blast
  have eq: "m = n" "es = ds" using abs_path_inj [OF d(1) e(1) d(2) e(2)] d(3) e(3) by simp_all
  have pl: "\<forall>c \<in> set (ds @ [bn]). plain_comp c" "\<forall>c \<in> set (ds @ [cn]). plain_comp c" using d(2) assms(2,3) by simp_all
  note b = bucket_of_request [OF assms(6)]
  have D: "all_dirs ?fs (ds @ [bn])" "node_at ?fs (ds @ [bn]) = Some Dir" "node_at ?fs (ds @ [cn]) = Some Dir"
    using b assms(7) d(4) e(4) eq resolve_abs [OF d(1) pl(1), of fl ?fs] resolve_abs [OF d(1) pl(2), of fl ?fs]
    by (simp_all add: isdir_def fs_get_def split: if_splits)
  note r = resolve_next_to [OF d(1) pl(1) assms(3,4) D, of fl]
  have "CHR ''%'' \<notin> set ?key" using assms(5) by simp
  then have uq: "unquote ?key = ?key" by (rule unquote_id)
  let ?p = "path_join (bucket_path fl bn) ?key" and ?q = "ds @ [cn, k]"
  have "node_at ?fs ?q \<noteq> Some Dir" using assms(8) r(2) e(4) eq by (simp add: fs_get_def)
  then have w: "fs_write fl ?p (rq_body rq) ?fs = (Inr (), dput ?q (File (rq_body rq)) ?fs)"
    using r(1) d(4) unfolding fs_write_def by simp
  have "object_path b (unquote ?key) = Inr ?p"
    unfolding uq using b by (auto simp: object_path_Inr path_join_def startswith_iff)
  note put = object_put_ok [OF assms(6) this w]
  have "fs_get fl (dput ?q (File (rq_body rq)) ?fs) (path_join (bucket_path fl cn) k) = Some (File (rq_body rq))"
  proof (rule fs_write_Inr [OF w])
    assume "\<And>p'. resolve fl (dput ?q (File (rq_body rq)) ?fs) p' = resolve fl ?fs p'"
    then show ?thesis using r(2) e(4) eq by (simp add: fs_get_def node_at_dput)
  qed
  then show ?thesis using put by auto
qed

theorem key_leads_to_other_bucket_witness:
  "\<exists>r s'. object_put demo_fl (demo_rq ''ka'' ''hi'') ''b'' ''../c/x'' demo_buckets = (Inr r, s') \<and>
     fs_get demo_fl (os_fs s') ''/buckets/c/x'' = Some (File ''hi'')"
proof -
  have u: "users_bucket demo_fl (demo_rq ''ka'' ''hi'') ''b'' demo_buckets = Inr \<lparr>b_name = ''b'', b_path = ''/buckets/b''\<rparr>" by code_simp
  have d: "isdir demo_fl (os_fs demo_buckets) (bucket_path demo_fl ''c'')"
    "fs_get demo_fl (os_fs demo_buckets) (path_join (bucket_path demo_fl ''c'') ''x'') \<noteq> Some Dir" by code_simp+
  have e: "path_join (bucket_path demo_fl ''c'') ''x'' = ''/buckets/c/x''" "rq_body (demo_rq ''ka'' ''hi'') = ''hi''" by code_simp+
  have "plain_comp ''b''" "plain_comp ''c''" "plain_comp ''x''" "CHR ''%'' \<notin> set ''c'' \<union> set ''x''" by (simp_all add: plain_comp_def)
  from key_leads_to_other_bucket [OF demo_work_dir this u d] show ?thesis by (simp add: e)
qed

subsection \<open>Owners\<close>

lemma request_user_error: "request_user fl rq s = Inl e \<Longrightarrow> e = HTTPError 403"
  by (auto simp: request_user_def split: option.splits sum.splits)

lemma request_user_cong: "os_users s' = os_users s \<Longrightarrow> request_user fl rq s' = request_user fl rq s"
  by (simp add: request_user_def split: option.splits)



subsection \<open>Listings\<close>

text \<open>The names of all objects, in order, and the page of a listing that was asked for.\<close>

definition object_names :: "flags \<Rightarrow> bucket \<Rightarrow> ostore \<Rightarrow> string list" where
  "object_names fl b s = (case resolve fl (os_fs s) (b_path b) of None \<Rightarrow> [] | Some q \<Rightarrow> sort (files_below (os_fs s) q))"

definition list_page :: "flags \<Rightarrow> bucket \<Rightarrow> int \<Rightarrow> bool \<Rightarrow> ostore \<Rightarrow> listing res" where
  "list_page fl b max_keys terse s =
     (let names = object_names fl b s; page = take (nat max_keys) names in
      bindR (mapR (list_entry fl b terse s) page) (\<lambda>cs.
      Inr \<lparr>l_prefix = [], l_marker = (if page = [] then [] else last page), l_max_keys = max_keys,
           l_truncated = (nat max_keys < length names), l_contents = cs\<rparr>))"

lemma list_loop_page:
  "list_loop fl b [] m terse s names mk got =
     bindR (mapR (list_entry fl b terse s) (take (nat m - length got) names)) (\<lambda>cs.
     Inr \<lparr>l_prefix = [], l_marker = (let page = take (nat m - length got) names in if page = [] then mk else last page),
          l_max_keys = m, l_truncated = (nat m - length got < length names), l_contents = got @ cs\<rparr>)"
proof (induction names arbitrary: mk got)
  case (Cons n ns)
  show ?case
  proof (cases "int (length got) \<ge> m")
    case True
    then show ?thesis by simp
  next
    case False
    then have k: "nat m - length got = Suc (nat m - length (got @ [c]))" for c by (simp add: nat_less_iff Suc_diff_Suc)
    show ?thesis
    proof (cases "list_entry fl b terse s n")
      case (Inl e)
      then show ?thesis using False k by simp
    next
      case (Inr c)
      show ?thesis using False Inr Cons.IH [of n "got @ [c]"] k [of c]
        by (cases "mapR (list_entry fl b terse s) (take (nat m - length (got @ [c])) ns)") (auto simp: Let_def)
    qed
  qed
qed simp

text \<open>C32: A listing of all keys is the first page of the sorted names of the files in the bucket: its
  length is bounded by what was asked for, its marker is the last name on it, and it is truncated exactly if names
  are left. With a prefix or a marker, as the following pages would need it, there is no listing at all, since the
  module that would find the start is not imported.\<close>

theorem list_keys_is_page:
  "list_keys fl b prefix marker max_keys terse s =
     (if prefix = [] \<and> marker = [] then list_page fl b max_keys terse s else Inl NameError)"
  using list_loop_page [of fl b max_keys terse s "object_names fl b s" "[]" "[]"]
  by (simp add: list_keys_def list_page_def object_names_def Let_def)

end
