(* ===== verification/Server.thy ===== *)
theory Server
  imports Paths
begin

text \<open>
  Starting and stopping the daemons (\<^verbatim>\<open>server.py\<close>) and the two functions of
  \<^verbatim>\<open>utils.py\<close> that find files for them.

  The operating system answers signals: \<open>kills pid n\<close> is what the n-th signal to a process comes to. The loop
  that sends them may run for ever, so that \<open>None\<close> is a \<^verbatim>\<open>stop\<close> that does not return. What
  happens once the daemon runs belongs to the library \<^verbatim>\<open>daemon\<close> and to the program's
  \<^verbatim>\<open>main\<close>.
\<close>

datatype signal = Sent | Refused string | Fails exc

datatype ending = Returns | Exits int | Raises exc

type_synonym files = "string \<rightharpoonup> string"

text \<open>\<^verbatim>\<open>s.find(p)\<close>, without the minus one.\<close>

fun py_find :: "string \<Rightarrow> string \<Rightarrow> nat option" where
  "py_find [] p = (if p = [] then Some 0 else None)"
| "py_find (c # s) p = (if startswith (c # s) p then Some 0 else map_option Suc (py_find s p))"

text \<open>The process in the file, or none; zero counts as none.\<close>

definition read_pid :: "files \<Rightarrow> string \<Rightarrow> int res" where
  "read_pid files pidfile = (case files pidfile of
      None \<Rightarrow> Inr 0
    | Some t \<Rightarrow> py_int (strip is_space t))"

text \<open>\<^verbatim>\<open>while 1: os.kill(pid, SIGTERM)\<close>: the answer that ends it.\<close>

partial_function (option) kill_loop :: "(nat \<Rightarrow> signal) \<Rightarrow> nat \<Rightarrow> signal option" where
  "kill_loop k n = (case k n of Sent \<Rightarrow> kill_loop k (Suc n) | s \<Rightarrow> Some s)"

definition after_kill :: "string \<Rightarrow> files \<Rightarrow> signal \<Rightarrow> ending \<times> files" where
  "after_kill pidfile files s = (case s of
      Refused e \<Rightarrow>
        (case py_find e ''No such process'' of
           Some (Suc i) \<Rightarrow> (Returns, files(pidfile := None))
         | _ \<Rightarrow> (Exits 1, files))
    | Fails e \<Rightarrow> (Raises e, files)
    | Sent \<Rightarrow> (Returns, files))"

definition stop :: "(int \<Rightarrow> nat \<Rightarrow> signal) \<Rightarrow> string \<Rightarrow> files \<Rightarrow> (ending \<times> files) option" where
  "stop kills pidfile files =
     (case read_pid files pidfile of
        Inl e \<Rightarrow> Some (Raises e, files)
      | Inr pid \<Rightarrow>
          if pid = 0 then Some (Returns, files)
          else map_option (after_kill pidfile files) (kill_loop (kills pid) 0))"

text \<open>\<^verbatim>\<open>serve\<close>: the arguments that the flags leave, and the action that is the last one of them.\<close>

datatype served = Ended ending | Runs "string list" string

definition serve_action :: "string list \<Rightarrow> string \<times> string list" where
  "serve_action argv = (if length argv > 1 then (last argv, butlast argv) else (''start'', argv))"

definition serve :: "(int \<Rightarrow> nat \<Rightarrow> signal) \<Rightarrow> string \<Rightarrow> string option \<Rightarrow> string list \<Rightarrow> files \<Rightarrow> (served \<times> files) option" where
  "serve kills name pidfile_flag argv files =
     (let pidfile = (case pidfile_flag of Some (c # p) \<Rightarrow> c # p | _ \<Rightarrow> name @ ''.pid'');
          (action, argv) = serve_action argv
      in if action = ''stop'' then map_option (\<lambda>(e, fs). (Ended (if e = Returns then Exits 0 else e), fs)) (stop kills pidfile files)
         else if action = ''restart''
           then map_option (\<lambda>(e, fs). (if e = Returns then Runs argv pidfile else Ended e, fs)) (stop kills pidfile files)
         else if action = ''start'' then Some (Runs argv pidfile, files)
         else Some (Ended (Exits 1), files))"

subsection \<open>Files of the package\<close>

text \<open>\<^verbatim>\<open>utils.abspath\<close> is relative to the file of the module.\<close>

definition utils_abspath :: "string \<Rightarrow> string \<Rightarrow> string" where
  "utils_abspath module_file s = path_join (path_head module_file) s"

definition default_flagfile :: "flags \<Rightarrow> string \<Rightarrow> files \<Rightarrow> string \<Rightarrow> string list \<Rightarrow> string list" where
  "default_flagfile fl script files filename argv =
     (if \<exists>a \<in> set argv. py_find a ''flagfile'' \<noteq> None then argv
      else let filename = (if startswith filename ''/'' then filename else abspath fl (path_join (path_head script) filename))
           in if files filename \<noteq> None then take 1 argv @ [''--flagfile='' @ filename] @ drop 1 argv else argv)"

subsection \<open>When a daemon is stopped\<close>

lemma kill_loop_unfold: "kill_loop k n = (if k n = Sent then kill_loop k (Suc n) else Some (k n))"
  by (subst kill_loop.simps) (simp split: signal.splits)

lemma kill_loop_from:
  assumes "k m \<noteq> Sent" and "\<forall>i < m. n \<le> i \<longrightarrow> k i = Sent" and "n \<le> m"
  shows "kill_loop k n = Some (k m)"
  using assms
proof (induction "m - n" arbitrary: n)
  case 0
  then show ?case using kill_loop_unfold [of k n] by simp
next
  case (Suc d)
  then have "k n = Sent" by simp
  moreover have "kill_loop k (Suc n) = Some (k m)" using Suc by simp
  ultimately show ?case using kill_loop_unfold [of k n] by simp
qed

lemma kill_loop_returns: "kill_loop k n = Some s \<Longrightarrow> \<exists>i \<ge> n. k i \<noteq> Sent"
proof (rule kill_loop.raw_induct [where P = "\<lambda>k n s. \<exists>i \<ge> n. k i \<noteq> Sent"])
  fix f k n s
  assume IH: "\<And>k n s. f k n = Some s \<Longrightarrow> \<exists>i \<ge> n. k i \<noteq> Sent"
    and eq: "(case k n of Sent \<Rightarrow> f k (Suc n) | s \<Rightarrow> Some s) = Some s"
  show "\<exists>i \<ge> n. k i \<noteq> Sent"
  proof (cases "k n = Sent")
    case True
    then have "f k (Suc n) = Some s" using eq by simp
    from IH [OF this] show ?thesis using Suc_leD by blast
  qed blast
qed

lemma after_refused:
  "after_kill pidfile files (Refused e) = (if \<exists>i > 0. py_find e ''No such process'' = Some i
     then (Returns, files(pidfile := None)) else (Exits 1, files))"
proof (cases "py_find e ''No such process''")
  case (Some i)
  then show ?thesis by (cases i) (auto simp: after_kill_def)
qed (simp add: after_kill_def)

text \<open>C33: Stopping a daemon returns exactly if a signal is refused some time: with no process in the file it
  returns at once, while every signal is accepted it goes on sending them, and the first refusal decides. If the
  system then says that there is no such process, the file of the process is removed and nothing else; any other
  refusal ends the program with status one and leaves the file.\<close>

theorem stop_returns:
  "stop kills pidfile files =
     (case read_pid files pidfile of
        Inl e \<Rightarrow> Some (Raises e, files)
      | Inr pid \<Rightarrow>
          if pid = 0 then Some (Returns, files)
          else if \<forall>n. kills pid n = Sent then None
          else (case kills pid (LEAST n. kills pid n \<noteq> Sent) of
              Refused e \<Rightarrow> Some (if \<exists>i > 0. py_find e ''No such process'' = Some i
                then (Returns, files(pidfile := None)) else (Exits 1, files))
            | Fails e \<Rightarrow> Some (Raises e, files)))"
proof (cases "read_pid files pidfile")
  case (Inr pid)
  let ?k = "kills pid" and ?m = "LEAST n. kills pid n \<noteq> Sent"
  show ?thesis
  proof (cases "\<forall>n. ?k n = Sent")
    case True
    then have "kill_loop ?k 0 = None" using kill_loop_returns [of ?k 0] by (cases "kill_loop ?k 0") auto
    then show ?thesis using Inr True by (simp add: stop_def)
  next
    case False
    then have sent: "?k ?m \<noteq> Sent" using LeastI_ex [of "\<lambda>n. ?k n \<noteq> Sent"] by blast
    have "\<forall>i < ?m. 0 \<le> i \<longrightarrow> ?k i = Sent" using not_less_Least [of _ "\<lambda>n. ?k n \<noteq> Sent"] by blast
    from kill_loop_from [OF sent this le0] have "kill_loop ?k 0 = Some (?k ?m)" .
    then have stop: "stop kills pidfile files = (if pid = 0 then Some (Returns, files) else Some (after_kill pidfile files (?k ?m)))"
      using Inr by (simp add: stop_def)
    define s where "s = ?k ?m"
    show ?thesis
    proof (cases s)
      case Sent
      then show ?thesis using sent by (simp add: s_def)
    next
      case (Refused e)
      show ?thesis
        unfolding stop Inr sum.case s_def [symmetric] Refused signal.case after_refused by (simp only: False if_False)
    next
      case (Fails e)
      have "after_kill pidfile files (Fails e) = (Raises e, files)" by (simp add: after_kill_def)
      then show ?thesis
        unfolding stop Inr sum.case s_def [symmetric] Fails signal.case by (simp only: False if_False)
    qed
  qed
qed (simp add: stop_def)

end
