(* ===== verification/Gflags.thy ===== *)
theory Gflags
  imports Flags "HOL-Library.List_Lexorder" "HOL-Library.Char_ord"
begin

text \<open>
  The command line flags (\<^verbatim>\<open>flags.py\<close> and the part of
  \<^verbatim>\<open>contrib/python-gflags/gflags.py\<close> that it rests on): flags of texts, truth values and
  integers and the help flags, their registration, reading them from the command line and from files of flags, and
  writing them into such a file. Every daemon begins by calling \<^verbatim>\<open>FLAGS(sys.argv)\<close>.
  The switch to \<^verbatim>\<open>gnu_getopt\<close>, which nothing turns on, and the records of which module
  defines a flag, which only the help reads, are left out.
\<close>

abbreviation FlagsError :: exc where
  "FlagsError \<equiv> PyException ''FlagsError''"

abbreviation IllegalFlagValue :: exc where
  "IllegalFlagValue \<equiv> PyException ''IllegalFlagValue''"

abbreviation UnrecognizedFlag :: exc where
  "UnrecognizedFlag \<equiv> PyException ''UnrecognizedFlagError''"

abbreviation DuplicateFlag :: exc where
  "DuplicateFlag \<equiv> PyException ''DuplicateFlagError''"

abbreviation SystemExit :: exc where
  "SystemExit \<equiv> PyException ''SystemExit''"

subsection \<open>Values\<close>

datatype fvalue = NoValue | StrV string | BoolV bool | IntV int

datatype fkind = StringFlag | BooleanFlag | IntegerFlag "int option" "int option" | HelpFlag

definition boolean_kind :: "fkind \<Rightarrow> bool" where
  "boolean_kind k \<longleftrightarrow> k = BooleanFlag \<or> k = HelpFlag"

definition bool_convert :: "fvalue \<Rightarrow> bool res" where
  "bool_convert a = (case a of
      StrV s \<Rightarrow> if lower s \<in> {''true'', ''t'', ''1''} then Inr True
               else if lower s \<in> {''false'', ''f'', ''0''} then Inr False else Inl ValueError
    | BoolV b \<Rightarrow> Inr b
    | IntV i \<Rightarrow> if i = 0 then Inr False else if i = 1 then Inr True else Inl ValueError
    | NoValue \<Rightarrow> Inl ValueError)"

definition int_convert :: "fvalue \<Rightarrow> int res" where
  "int_convert a = (case a of
      StrV s \<Rightarrow> if 2 < length s \<and> startswith s ''0x'' then py_long16 s else py_long s
    | IntV i \<Rightarrow> Inr i
    | BoolV b \<Rightarrow> Inr (if b then 1 else 0)
    | NoValue \<Rightarrow> Inl TypeError)"

definition within :: "int option \<Rightarrow> int option \<Rightarrow> int \<Rightarrow> bool" where
  "within lo hi i \<longleftrightarrow> (case lo of None \<Rightarrow> True | Some l \<Rightarrow> l \<le> i) \<and> (case hi of None \<Rightarrow> True | Some h \<Rightarrow> i \<le> h)"

fun parse_value :: "fkind \<Rightarrow> fvalue \<Rightarrow> fvalue res" where
  "parse_value StringFlag a = Inr a"
| "parse_value (IntegerFlag lo hi) a = bindR (int_convert a) (\<lambda>i. if within lo hi i then Inr (IntV i) else Inl ValueError)"
| "parse_value _ a = bindR (bool_convert a) (\<lambda>b. Inr (BoolV b))"

subsection \<open>Flags\<close>

record gflag =
  gf_kind :: fkind
  gf_name :: string
  gf_short :: "string option"
  gf_default :: fvalue
  gf_value :: fvalue
  gf_present :: nat
  gf_override :: bool

text \<open>The help flags leave the program for every argument that is not empty, not even one that denies them.\<close>

definition argument_true :: "fvalue \<Rightarrow> bool" where
  "argument_true a = (case a of NoValue \<Rightarrow> False | StrV s \<Rightarrow> s \<noteq> [] | BoolV b \<Rightarrow> b | IntV i \<Rightarrow> i \<noteq> 0)"

definition flag_parse :: "fvalue \<Rightarrow> gflag \<Rightarrow> gflag res" where
  "flag_parse a f =
     (if gf_kind f = HelpFlag then (if argument_true a then Inl SystemExit else Inr f)
      else case parse_value (gf_kind f) a of
        Inl e \<Rightarrow> Inl (if e = ValueError then IllegalFlagValue else e)
      | Inr v \<Rightarrow> Inr (f\<lparr>gf_value := v, gf_present := Suc (gf_present f)\<rparr>))"

definition unparse :: "gflag \<Rightarrow> gflag res" where
  "unparse f = bindR (if gf_default f = NoValue then Inr (f\<lparr>gf_value := NoValue\<rparr>) else flag_parse (gf_default f) f)
     (\<lambda>f. Inr (f\<lparr>gf_present := 0\<rparr>))"

definition set_default :: "fvalue \<Rightarrow> gflag \<Rightarrow> gflag res" where
  "set_default v f = (if v = NoValue \<and> gf_override f then Inl DuplicateFlag else unparse (f\<lparr>gf_default := v\<rparr>))"

definition new_flag :: "fkind \<Rightarrow> string \<Rightarrow> fvalue \<Rightarrow> string option \<Rightarrow> bool \<Rightarrow> gflag res" where
  "new_flag kind name dflt short override = set_default dflt
     \<lparr>gf_kind = kind, gf_name = name, gf_short = short, gf_default = NoValue, gf_value = NoValue, gf_present = 0,
      gf_override = override\<rparr>"

text \<open>\<^verbatim>\<open>str\<close> of a value, and the assignment of a flag in a file of flags.\<close>

definition value_text :: "fvalue \<Rightarrow> string" where
  "value_text v = (case v of NoValue \<Rightarrow> ''None'' | StrV s \<Rightarrow> s | BoolV b \<Rightarrow> (if b then ''True'' else ''False'') | IntV i \<Rightarrow> str_int i)"

definition serialize :: "gflag \<Rightarrow> string" where
  "serialize f =
     (if gf_value f = NoValue then []
      else if boolean_kind (gf_kind f) then (if argument_true (gf_value f) then ''--'' @ gf_name f else ''--no'' @ gf_name f)
      else ''--'' @ gf_name f @ ''='' @ value_text (gf_value f))"

subsection \<open>The registry\<close>

text \<open>The names of the flags; a flag that has a short name is one object under two names.\<close>

record registry =
  rg_names :: "(string, nat) dict"
  rg_flags :: "gflag list"

definition no_flags :: registry where
  "no_flags = \<lparr>rg_names = [], rg_flags = []\<rparr>"

definition flag_of :: "registry \<Rightarrow> string \<Rightarrow> gflag option" where
  "flag_of rg n = map_option (\<lambda>i. rg_flags rg ! i) (map_of (rg_names rg) n)"

definition flag_value :: "registry \<Rightarrow> string \<Rightarrow> fvalue res" where
  "flag_value rg n = (case flag_of rg n of None \<Rightarrow> Inl AttributeError | Some f \<Rightarrow> Inr (gf_value f))"

definition name_taken :: "gflag \<Rightarrow> string \<Rightarrow> registry \<Rightarrow> bool" where
  "name_taken f n rg \<longleftrightarrow> (case flag_of rg n of None \<Rightarrow> False | Some g \<Rightarrow> \<not> gf_override f \<and> \<not> gf_override g)"

definition register_flag :: "string \<Rightarrow> gflag \<Rightarrow> registry \<Rightarrow> registry res" where
  "register_flag name f rg =
     (if name = [] then Inl FlagsError
      else if name_taken f name rg then Inl DuplicateFlag
      else let i = length (rg_flags rg); flags = rg_flags rg @ [f] in
        case gf_short f of
          None \<Rightarrow> Inr \<lparr>rg_names = dput name i (rg_names rg), rg_flags = flags\<rparr>
        | Some s \<Rightarrow> if name_taken f s rg then Inl DuplicateFlag
            else Inr \<lparr>rg_names = dput name i (dput s i (rg_names rg)), rg_flags = flags\<rparr>)"

definition define_flag :: "fkind \<Rightarrow> string \<Rightarrow> fvalue \<Rightarrow> registry \<Rightarrow> registry res" where
  "define_flag kind name dflt rg = bindR (new_flag kind name dflt None False) (\<lambda>f. register_flag name f rg)"

definition help_flags :: "registry \<Rightarrow> registry res" where
  "help_flags rg =
     bindR (bindR (new_flag HelpFlag ''help'' (IntV 0) (Some ''?'') True) (\<lambda>f. register_flag ''help'' f rg)) (\<lambda>rg.
     bindR (bindR (new_flag HelpFlag ''helpshort'' (IntV 0) None True) (\<lambda>f. register_flag ''helpshort'' f rg)) (\<lambda>rg.
     bindR (new_flag HelpFlag ''helpxml'' (BoolV False) None True) (\<lambda>f. register_flag ''helpxml'' f rg)))"

fun define_flags :: "(fkind \<times> string \<times> fvalue) list \<Rightarrow> registry \<Rightarrow> registry res" where
  "define_flags [] rg = Inr rg"
| "define_flags ((k, n, v) # ds) rg = bindR (define_flag k n v rg) (define_flags ds)"

text \<open>An attribute of \<^verbatim>\<open>FLAGS\<close> that is set takes the value as it is; the text for a
  file of flags.\<close>

definition set_value :: "string \<Rightarrow> fvalue \<Rightarrow> registry \<Rightarrow> registry res" where
  "set_value n v rg = (case map_of (rg_names rg) n of
      None \<Rightarrow> Inl KeyError
    | Some i \<Rightarrow> Inr (rg\<lparr>rg_flags := (rg_flags rg)[i := (rg_flags rg ! i)\<lparr>gf_value := v\<rparr>]\<rparr>))"

definition flags_into_string :: "registry \<Rightarrow> string" where
  "flags_into_string rg = concat (map (\<lambda>(n, i). let f = rg_flags rg ! i in
     if gf_value f = NoValue then [] else serialize f @ ''\<newline>'') (rg_names rg))"

subsection \<open>Files of flags\<close>

text \<open>\<^verbatim>\<open>readlines\<close>: the lines with their ends.\<close>

fun read_lines :: "string \<Rightarrow> string list" where
  "read_lines [] = []"
| "read_lines (c # s) = (if c = CHR ''\<newline>'' then [c] # read_lines s
     else case read_lines s of [] \<Rightarrow> [[c]] | l # ls \<Rightarrow> (c # l) # ls)"

definition is_flagfile_directive :: "string \<Rightarrow> bool" where
  "is_flagfile_directive a \<longleftrightarrow> startswith a ''--flagfile='' \<or> a = ''--flagfile'' \<or> startswith a ''-flagfile='' \<or> a = ''-flagfile''"

text \<open>\<open>home\<close> is \<^verbatim>\<open>os.path.expanduser\<close>, and \<open>files\<close> are the files that can be
  read.\<close>

definition extract_filename :: "(string \<Rightarrow> string) \<Rightarrow> string \<Rightarrow> string res" where
  "extract_filename home a =
     (if startswith a ''--flagfile='' then Inr (home (strip is_space (drop 11 a)))
      else if startswith a ''-flagfile='' then Inr (home (strip is_space (drop 10 a)))
      else Inl FlagsError)"

text \<open>
  The useful lines of a file. The lines of an included file take the place of the line that names it, so that they
  are put before the lines that are left to be read; \<open>parsed\<close> are the files that have been read.
\<close>

definition unread :: "(string, string) dict \<Rightarrow> string list \<Rightarrow> nat" where
  "unread files parsed = card (set (keys files) - set parsed)"

lemma unread_less:
  assumes "map_of files f = Some text" "f \<notin> set parsed"
  shows "unread files (f # parsed) < unread files parsed"
proof -
  have "f \<in> set (keys files)" using assms(1) by (force dest: map_of_SomeD)
  then have "set (keys files) - set (f # parsed) \<subset> set (keys files) - set parsed" using assms(2) by auto
  then show ?thesis unfolding unread_def by (intro psubset_card_mono) auto
qed

function flag_lines :: "(string \<Rightarrow> string) \<Rightarrow> (string, string) dict \<Rightarrow> string list \<Rightarrow> string list \<Rightarrow> (string list \<times> string list) res" where
  "flag_lines home files parsed [] = Inr ([], parsed)"
| "flag_lines home files parsed (l # ls) =
     (if list_all is_space l \<or> startswith l ''#'' \<or> startswith l ''//'' then flag_lines home files parsed ls
      else if is_flagfile_directive l then
        (case extract_filename home l of
           Inl e \<Rightarrow> Inl e
         | Inr sub \<Rightarrow>
             if sub \<in> set parsed then flag_lines home files parsed ls
             else (case map_of files sub of
                 None \<Rightarrow> flag_lines home files parsed ls
               | Some text \<Rightarrow> flag_lines home files (sub # parsed) (read_lines text @ ls)))
      else bindR (flag_lines home files parsed ls) (\<lambda>(out, parsed). Inr (strip is_space l # out, parsed)))"
  by pat_completeness auto
termination
  by (relation "measures [\<lambda>(home, files, parsed, ls). unread files parsed, \<lambda>(home, files, parsed, ls). length ls]")
    (auto simp: unread_less)

definition flag_file_lines :: "(string \<Rightarrow> string) \<Rightarrow> (string, string) dict \<Rightarrow> string \<Rightarrow> string list \<Rightarrow> (string list \<times> string list) res" where
  "flag_file_lines home files filename parsed = (case map_of files filename of
      None \<Rightarrow> Inr ([], parsed)
    | Some text \<Rightarrow> flag_lines home files (filename # parsed) (read_lines text))"

text \<open>What the files hold comes before the arguments, and the last file first.\<close>

function read_flags :: "(string \<Rightarrow> string) \<Rightarrow> (string, string) dict \<Rightarrow> string list \<Rightarrow> string list \<Rightarrow> string list \<Rightarrow> string list res" where
  "read_flags home files parsed new [] = Inr new"
| "read_flags home files parsed new (a # rest) =
     (if is_flagfile_directive a then
        (if a = ''--flagfile'' \<or> a = ''-flagfile'' then
           (case rest of
              [] \<Rightarrow> Inl IllegalFlagValue
            | f # rest \<Rightarrow> (case flag_file_lines home files (home f) parsed of
                  Inl e \<Rightarrow> Inl e | Inr (ls, parsed) \<Rightarrow> read_flags home files parsed (ls @ new) rest))
         else (case extract_filename home a of
              Inl e \<Rightarrow> Inl e
            | Inr f \<Rightarrow> (case flag_file_lines home files f parsed of
                  Inl e \<Rightarrow> Inl e | Inr (ls, parsed) \<Rightarrow> read_flags home files parsed (ls @ new) rest)))
      else if a = ''--'' \<or> \<not> startswith a ''-'' then Inr (new @ [a] @ rest)
      else read_flags home files parsed (new @ [a]) rest)"
  by pat_completeness auto
termination
  by (relation "measure (\<lambda>(home, files, parsed, new, rest). length rest)") auto

subsection \<open>Short forms of boolean flags\<close>

text \<open>The first place at which a text differs from the next or goes on after its end.\<close>

fun first_difference :: "string \<Rightarrow> string \<Rightarrow> nat option" where
  "first_difference [] nxt = None"
| "first_difference (c # cs) [] = Some 0"
| "first_difference (c # cs) (d # ds) = (if c \<noteq> d then Some 0 else map_option Suc (first_difference cs ds))"

fun shortest_from :: "nat \<Rightarrow> string list \<Rightarrow> (string, string) dict \<Rightarrow> (string, string) dict" where
  "shortest_from prev [] d = d"
| "shortest_from prev (cur # rest) d = (case first_difference cur (case rest of [] \<Rightarrow> [] | nxt # _ \<Rightarrow> nxt) of
      Some i \<Rightarrow> shortest_from i rest (dput cur (take (max prev i + 1) cur) d)
    | None \<Rightarrow> shortest_from (length cur) rest (dput cur cur d))"

definition flag_and_no_names :: "registry \<Rightarrow> string list" where
  "flag_and_no_names rg = concat (map (\<lambda>(n, i). if boolean_kind (gf_kind (rg_flags rg ! i)) then [n, ''no'' @ n] else [n]) (rg_names rg))"

definition shortest_unique_prefixes :: "registry \<Rightarrow> (string, string) dict" where
  "shortest_unique_prefixes rg = shortest_from 0 (sort (flag_and_no_names rg)) []"

definition correct_arg :: "string \<Rightarrow> string \<Rightarrow> string \<Rightarrow> string \<Rightarrow> string" where
  "correct_arg name prefix no_prefix arg =
     (if CHR ''='' \<in> set arg then arg
      else if startswith arg (''--'' @ prefix) \<and> startswith (''--'' @ name) arg then ''--'' @ name @ ''=true''
      else if startswith arg (''--'' @ no_prefix) \<and> startswith (''--no'' @ name) arg then ''--'' @ name @ ''=false''
      else arg)"

definition correct_booleans :: "registry \<Rightarrow> string list \<Rightarrow> string list" where
  "correct_booleans rg args =
     (let d = shortest_unique_prefixes rg in
      fold (\<lambda>(n, i) args. if boolean_kind (gf_kind (rg_flags rg ! i))
        then map (correct_arg n (the (map_of d n)) (the (map_of d (''no'' @ n)))) args else args) (rg_names rg) args)"

subsection \<open>getopt\<close>

text \<open>
  \<^verbatim>\<open>getopt.getopt\<close>: long options may be abbreviated. Its only exception names the option; it is the
  left value here.
\<close>

definition long_has_args :: "string \<Rightarrow> string list \<Rightarrow> string + bool \<times> string" where
  "long_has_args opt longopts =
     (let possibilities = filter (\<lambda>l. startswith l opt) longopts in
      case possibilities of
        [] \<Rightarrow> Inl opt
      | p # ps \<Rightarrow>
          if opt \<in> set possibilities then Inr (False, opt)
          else if opt @ ''='' \<in> set possibilities then Inr (True, opt)
          else if ps \<noteq> [] then Inl opt
          else if p \<noteq> [] \<and> last p = CHR ''='' then Inr (True, butlast p) else Inr (False, p))"

definition do_longs :: "string \<Rightarrow> string list \<Rightarrow> string list \<Rightarrow> string + (string \<times> string) \<times> string list" where
  "do_longs opt longopts args =
     (let name = takeWhile (\<lambda>c. c \<noteq> CHR ''='') opt;
          optarg = (if CHR ''='' \<in> set opt then Some (drop (Suc (length name)) opt) else None) in
      case long_has_args name longopts of
        Inl e \<Rightarrow> Inl e
      | Inr (has_arg, name) \<Rightarrow>
          if has_arg then
            (case optarg of
               Some a \<Rightarrow> Inr ((''--'' @ name, a), args)
             | None \<Rightarrow> (case args of [] \<Rightarrow> Inl name | a # args \<Rightarrow> Inr ((''--'' @ name, a), args)))
          else if optarg \<noteq> None \<and> optarg \<noteq> Some [] then Inl name
          else Inr ((''--'' @ name, []), args))"

fun short_has_arg :: "char \<Rightarrow> string \<Rightarrow> bool option" where
  "short_has_arg c [] = None"
| "short_has_arg c (x # xs) = (if c = x \<and> x \<noteq> CHR '':'' then Some (startswith xs '':'') else short_has_arg c xs)"

fun do_shorts :: "string \<Rightarrow> string \<Rightarrow> string list \<Rightarrow> string + (string \<times> string) list \<times> string list" where
  "do_shorts shortopts [] args = Inr ([], args)"
| "do_shorts shortopts (c # s) args = (case short_has_arg c shortopts of
      None \<Rightarrow> Inl [c]
    | Some True \<Rightarrow>
        if s \<noteq> [] then Inr ([(''-'' @ [c], s)], args)
        else (case args of [] \<Rightarrow> Inl [c] | a # args \<Rightarrow> Inr ([(''-'' @ [c], a)], args))
    | Some False \<Rightarrow> (case do_shorts shortopts s args of
          Inl e \<Rightarrow> Inl e
        | Inr (opts, args) \<Rightarrow> Inr ((''-'' @ [c], []) # opts, args)))"

lemma do_longs_shorter: "do_longs opt lo args = Inr (r, args') \<Longrightarrow> length args' \<le> length args"
  by (auto simp: do_longs_def Let_def split: sum.splits option.splits list.splits if_splits prod.splits)

lemma do_shorts_shorter: "do_shorts so s args = Inr (r, args') \<Longrightarrow> length args' \<le> length args"
  by (induction so s args arbitrary: r rule: do_shorts.induct)
    (auto split: sum.splits option.splits list.splits if_splits prod.splits bool.splits)

function getopt :: "string \<Rightarrow> string list \<Rightarrow> string list \<Rightarrow> string + (string \<times> string) list \<times> string list" where
  "getopt so lo [] = Inr ([], [])"
| "getopt so lo (a # args) =
     (if \<not> startswith a ''-'' \<or> a = ''-'' then Inr ([], a # args)
      else if a = ''--'' then Inr ([], args)
      else if startswith a ''--'' then
        (case do_longs (drop 2 a) lo args of
           Inl e \<Rightarrow> Inl e
         | Inr (opt, args') \<Rightarrow> (case getopt so lo args' of Inl e \<Rightarrow> Inl e | Inr (opts, rest) \<Rightarrow> Inr (opt # opts, rest)))
      else
        (case do_shorts so (drop 1 a) args of
           Inl e \<Rightarrow> Inl e
         | Inr (opt, args') \<Rightarrow> (case getopt so lo args' of Inl e \<Rightarrow> Inl e | Inr (opts, rest) \<Rightarrow> Inr (opt @ opts, rest))))"
  by pat_completeness auto
termination
  by (relation "measure (\<lambda>(so, lo, args). length args)")
    (auto dest: do_longs_shorter do_shorts_shorter simp: less_Suc_eq_le)

subsection \<open>FLAGS(argv)\<close>

definition short_options :: "registry \<Rightarrow> string" where
  "short_options rg = concat (map (\<lambda>(n, i).
     if length n = 1 then n @ (if boolean_kind (gf_kind (rg_flags rg ! i)) then [] else '':'') else []) (rg_names rg))"

definition long_options :: "registry \<Rightarrow> string list" where
  "long_options rg = map (\<lambda>n. n @ ''='') (keys (rg_names rg)) @ [''undefok='']"

text \<open>The arguments without the first one that holds an option that is not known.\<close>

fun remove_offender :: "string \<Rightarrow> string list \<Rightarrow> string list option" where
  "remove_offender opt [] = None"
| "remove_offender opt (a # args) =
     (if a = ''--'' @ opt \<or> a = ''-'' @ opt \<or> startswith a (''--'' @ opt @ ''='') then Some args
      else map_option (Cons a) (remove_offender opt args))"

lemma remove_offender_shorter: "remove_offender opt args = Some args' \<Longrightarrow> length args' < length args"
  by (induction args arbitrary: args') (auto split: if_splits)

function recognized :: "registry \<Rightarrow> string list \<Rightarrow> string list \<Rightarrow> ((string \<times> string) list \<times> string list \<times> string list) res" where
  "recognized rg unrecognized args =
     (case getopt (short_options rg) (long_options rg) args of
        Inr (opts, rest) \<Rightarrow> Inr (opts, rest, unrecognized)
      | Inl opt \<Rightarrow>
          if opt = [] \<or> has_key (rg_names rg) opt then Inl FlagsError
          else (case remove_offender opt args of
              None \<Rightarrow> Inl FlagsError
            | Some args \<Rightarrow> recognized rg (unrecognized @ [opt]) args))"
  by pat_completeness auto
termination
  by (relation "measure (\<lambda>(rg, un, args). length args)") (auto simp: remove_offender_shorter)

declare recognized.simps [simp del]

text \<open>One option that was read; an option that is no flag, which only \<^verbatim>\<open>undefok\<close> is, gives names.\<close>

definition use_option :: "string \<times> string \<Rightarrow> (registry, string list) act" where
  "use_option opt rg =
     (let (name, arg) = opt in
      if name = ''--undefok'' then (Inr (py_split CHR '','' arg @ map (\<lambda>n. ''no'' @ n) (py_split CHR '','' arg)), rg)
      else let short = \<not> startswith name ''--''; name = (if short then drop 1 name else drop 2 name) in
        case map_of (rg_names rg) name of
          None \<Rightarrow> (Inr [], rg)
        | Some i \<Rightarrow> (let f = rg_flags rg ! i in
            case flag_parse (if boolean_kind (gf_kind f) \<and> short then IntV 1 else StrV arg) f of
              Inl e \<Rightarrow> (Inl e, rg)
            | Inr f \<Rightarrow> (Inr [], rg\<lparr>rg_flags := (rg_flags rg)[i := f]\<rparr>)))"

fun use_options :: "(string \<times> string) list \<Rightarrow> (registry, string list) act" where
  "use_options [] rg = (Inr [], rg)"
| "use_options (opt # opts) rg = (case use_option opt rg of
      (Inl e, rg) \<Rightarrow> (Inl e, rg)
    | (Inr ok, rg) \<Rightarrow> (case use_options opts rg of
        (Inl e, rg) \<Rightarrow> (Inl e, rg)
      | (Inr oks, rg) \<Rightarrow> (Inr (ok @ oks), rg)))"

definition call_flags :: "(string \<Rightarrow> string) \<Rightarrow> (string, string) dict \<Rightarrow> string list \<Rightarrow> (registry, string list) act" where
  "call_flags home files argv rg =
     (case read_flags home files [] [] (drop 1 argv) of
        Inl e \<Rightarrow> (Inl e, rg)
      | Inr original \<Rightarrow>
         (case recognized rg [] (correct_booleans rg original) of
            Inl e \<Rightarrow> (Inl e, rg)
          | Inr (opts, rest, unrecognized) \<Rightarrow>
             (case use_options opts rg of
                (Inl e, rg) \<Rightarrow> (Inl e, rg)
              | (Inr undefok, rg) \<Rightarrow>
                  if \<exists>opt \<in> set unrecognized. opt \<notin> set undefok then (Inl UnrecognizedFlag, rg)
                  else (Inr (take 1 argv @ drop (length original - length rest) original), rg))))"

end
