(* ===== verification/FlagDefs.thy ===== *)
theory FlagDefs
  imports Gflags
begin

text \<open>
  The flags that the modules of the program declare, and the record of flags that the rest of the library reads: its
  default values are what the declarations give.
\<close>

subsection \<open>Declarations\<close>

type_synonym declarations = "(fkind \<times> string \<times> fvalue) list"

abbreviation str_flag :: "string \<Rightarrow> string \<Rightarrow> fkind \<times> string \<times> fvalue" where
  "str_flag n v \<equiv> (StringFlag, n, StrV v)"

abbreviation bool_flag :: "string \<Rightarrow> bool \<Rightarrow> fkind \<times> string \<times> fvalue" where
  "bool_flag n b \<equiv> (BooleanFlag, n, BoolV b)"

abbreviation int_flag :: "string \<Rightarrow> int \<Rightarrow> fkind \<times> string \<times> fvalue" where
  "int_flag n i \<equiv> (IntegerFlag None None, n, IntV i)"

definition global_flags :: "string \<Rightarrow> declarations" where
  "global_flags host =
     [str_flag ''compute_topic'' ''compute'', str_flag ''storage_topic'' ''storage'', bool_flag ''fake_libvirt'' False,
      bool_flag ''verbose'' False, bool_flag ''fake_rabbit'' False, bool_flag ''fake_network'' False,
      bool_flag ''fake_users'' False, str_flag ''rabbit_host'' ''localhost'', int_flag ''rabbit_port'' 5672,
      str_flag ''rabbit_userid'' ''guest'', str_flag ''rabbit_password'' ''guest'', str_flag ''rabbit_virtual_host'' ''/'',
      str_flag ''control_exchange'' ''nova'', str_flag ''ec2_url'' ''http://10.255.255.1:8773/services/Cloud'',
      str_flag ''default_image'' ''ami-25CB1213'', str_flag ''default_kernel'' ''aki-EAB510D9'',
      str_flag ''default_ramdisk'' ''ari-22F211EF'', str_flag ''default_instance_type'' ''m1.small'',
      str_flag ''node_availability_zone'' ''nova'', str_flag ''node_name'' host, str_flag ''vpn_image_id'' ''ami-A7370FE3'']"

definition server_flags :: declarations where
  "server_flags =
     [bool_flag ''daemonize'' False, bool_flag ''use_syslog'' True, (StringFlag, ''logfile'', NoValue),
      (StringFlag, ''pidfile'', NoValue), str_flag ''working_directory'' ''./'']"

definition users_flags :: "string \<Rightarrow> declarations" where
  "users_flags dir =
     [str_flag ''ldap_url'' ''ldap://localhost'', str_flag ''ldap_password'' ''changeme'',
      str_flag ''user_dn'' ''cn=Manager,dc=example,dc=com'', str_flag ''user_unit'' ''Users'',
      str_flag ''ldap_subtree'' ''ou=Users,dc=example,dc=com'',
      str_flag ''ldap_sysadmin'' ''cn=sysadmins,ou=Groups,dc=example,dc=com'',
      str_flag ''ldap_netadmin'' ''cn=netadmins,ou=Groups,dc=example,dc=com'',
      str_flag ''ldap_cloudadmin'' ''cn=cloudadmins,ou=Groups,dc=example,dc=com'',
      str_flag ''ldap_itsec'' ''cn=itsec,ou=Groups,dc=example,dc=com'',
      str_flag ''credentials_template'' (dir @ ''/auth/novarc.template''),
      str_flag ''vpn_client_template'' (dir @ ''/cloudpipe/client.ovpn.template''),
      str_flag ''credential_key_file'' ''pk.pem'', str_flag ''credential_cert_file'' ''cert.pem'',
      str_flag ''credential_rc_file'' ''novarc'', str_flag ''vpn_ip'' ''127.0.0.1'']"

definition network_flags :: "string \<Rightarrow> declarations" where
  "network_flags dir =
     [str_flag ''net_libvirt_xml_template'' (dir @ ''/compute/net.libvirt.xml.template''),
      str_flag ''networks_path'' (dir @ ''/../networks''), int_flag ''public_vlan'' 2000, str_flag ''bridge_dev'' ''eth2'',
      int_flag ''vlan_start'' 2020, int_flag ''vlan_end'' 2039, int_flag ''network_size'' 256,
      str_flag ''public_interface'' ''vlan124'', str_flag ''public_range'' ''198.10.124.128-198.10.124.191'',
      str_flag ''private_range'' ''10.128.0.0/12'', str_flag ''cloudpipe_ami'' ''ami-A7370FE3'',
      int_flag ''cloudpipe_start_port'' 8000]"

definition node_flags :: "string \<Rightarrow> declarations" where
  "node_flags dir =
     [str_flag ''libvirt_xml_template'' (dir @ ''/compute/libvirt.xml.template''), bool_flag ''use_s3'' True,
      str_flag ''instances_path'' (dir @ ''/../instances'')]"

definition storage_flags :: "string \<Rightarrow> declarations" where
  "storage_flags host =
     [str_flag ''storage_dev'' ''/dev/sdb'', str_flag ''volume_group'' ''nova-volumes'', str_flag ''aoe_eth_dev'' ''eth0'',
      str_flag ''storage_name'' host, str_flag ''storage_availability_zone'' ''nova'']"

definition volume_flags :: declarations where
  "volume_flags = [bool_flag ''fake_storage'' False]"

definition endpoint_flags :: declarations where
  "endpoint_flags = [str_flag ''cloud_topic'' ''cloud'']"

definition objectstore_flags :: "string \<Rightarrow> declarations" where
  "objectstore_flags dir =
     [int_flag ''s3_port'' 3333, int_flag ''s3_internal_port'' 3334, str_flag ''s3_host'' ''172.24.226.1'',
      str_flag ''buckets_path'' (dir @ ''/../buckets''), str_flag ''images_path'' (dir @ ''/../images'')]"

definition datastore_flags :: "string \<Rightarrow> declarations" where
  "datastore_flags dir = [str_flag ''datastore_path'' (dir @ ''/../keeper'')]"

definition crypto_flags :: "string \<Rightarrow> declarations" where
  "crypto_flags dir =
     [str_flag ''ca_file'' ''cacert.pem'', str_flag ''keys_path'' (dir @ ''/../keys''), str_flag ''ca_path'' (dir @ ''/../CA'')]"

definition pipelib_flags :: "string \<Rightarrow> declarations" where
  "pipelib_flags dir = [str_flag ''boot_script_template'' (dir @ ''/cloudpipe/bootscript.sh'')]"

definition api_flags :: declarations where
  "api_flags = [int_flag ''cc_port'' 8773]"

definition nova_api_flags :: declarations where
  "nova_api_flags = [int_flag ''cloudpipe_interval'' 30]"

definition nova_compute_flags :: declarations where
  "nova_compute_flags = [(IntegerFlag (Some 1) None, ''node_report_state_interval'', IntV 10)]"

definition nova_volume_flags :: declarations where
  "nova_volume_flags = [(IntegerFlag (Some 1) None, ''storage_report_state_interval'', IntV 10)]"

text \<open>The modules that may be loaded twice test for one of their flags.\<close>

fun declare_modules :: "(string option \<times> declarations) list \<Rightarrow> registry \<Rightarrow> registry res" where
  "declare_modules [] rg = Inr rg"
| "declare_modules ((guard, ds) # ms) rg =
     bindR (case guard of
         Some g \<Rightarrow> if has_key (rg_names rg) g then Inr rg else define_flags ds rg
       | None \<Rightarrow> define_flags ds rg) (declare_modules ms)"

definition nova_modules :: "string \<Rightarrow> string \<Rightarrow> (string option \<times> declarations) list" where
  "nova_modules dir host =
     [(Some ''verbose'', global_flags host), (None, server_flags), (None, datastore_flags dir), (None, crypto_flags dir),
      (Some ''s3_port'', objectstore_flags dir), (Some ''cloud_topic'', endpoint_flags), (Some ''fake_storage'', volume_flags),
      (None, users_flags dir), (None, node_flags dir), (None, network_flags dir), (None, storage_flags host),
      (None, pipelib_flags dir), (None, api_flags), (None, nova_api_flags), (None, nova_compute_flags),
      (None, nova_volume_flags)]"

definition declare_all :: "string \<Rightarrow> string \<Rightarrow> registry res" where
  "declare_all dir host = bindR (help_flags no_flags) (declare_modules (nova_modules dir host))"

text \<open>The record of flags that a program has which runs in the directory \<open>wd\<close>, and the values of a record.\<close>

definition str_of :: "registry \<Rightarrow> string \<Rightarrow> string" where
  "str_of rg n = (case flag_value rg n of Inr (StrV s) \<Rightarrow> s | _ \<Rightarrow> [])"

definition bool_of :: "registry \<Rightarrow> string \<Rightarrow> bool" where
  "bool_of rg n = (flag_value rg n = Inr (BoolV True))"

definition int_of :: "registry \<Rightarrow> string \<Rightarrow> int" where
  "int_of rg n = (case flag_value rg n of Inr (IntV i) \<Rightarrow> i | _ \<Rightarrow> 0)"

definition flags_of :: "string \<Rightarrow> registry \<Rightarrow> flags" where
  "flags_of wd rg = \<lparr>
     compute_topic = str_of rg ''compute_topic'', storage_topic = str_of rg ''storage_topic'',
      fake_libvirt = bool_of rg ''fake_libvirt'', fake_network = bool_of rg ''fake_network'',
      fake_users = bool_of rg ''fake_users'', fake_storage = bool_of rg ''fake_storage'',
      control_exchange = str_of rg ''control_exchange'', default_image = str_of rg ''default_image'',
      default_kernel = str_of rg ''default_kernel'', default_ramdisk = str_of rg ''default_ramdisk'',
      default_instance_type = str_of rg ''default_instance_type'', node_name = str_of rg ''node_name'',
      vpn_image_id = str_of rg ''vpn_image_id'', datastore_path = str_of rg ''datastore_path'',
      networks_path = str_of rg ''networks_path'', public_vlan = int_of rg ''public_vlan'',
      bridge_dev = str_of rg ''bridge_dev'', vlan_start = int_of rg ''vlan_start'',
      vlan_end = int_of rg ''vlan_end'', network_size = int_of rg ''network_size'',
      public_interface = str_of rg ''public_interface'', public_range = str_of rg ''public_range'',
      private_range = str_of rg ''private_range'', ldap_subtree = str_of rg ''ldap_subtree'',
      user_unit = str_of rg ''user_unit'', vpn_ip = str_of rg ''vpn_ip'', volume_group = str_of rg ''volume_group'',
      storage_dev = str_of rg ''storage_dev'', aoe_eth_dev = str_of rg ''aoe_eth_dev'',
      storage_name = str_of rg ''storage_name'', use_s3 = bool_of rg ''use_s3'',
      instances_path = str_of rg ''instances_path'', s3_port = int_of rg ''s3_port'',
      s3_host = str_of rg ''s3_host'', buckets_path = str_of rg ''buckets_path'',
      images_path = str_of rg ''images_path'', ca_file = str_of rg ''ca_file'', keys_path = str_of rg ''keys_path'',
      ca_path_flag = str_of rg ''ca_path'', work_dir = wd\<rparr>"

definition record_values :: "flags \<Rightarrow> (string \<times> fvalue) list" where
  "record_values fl =
     [(''compute_topic'', StrV (compute_topic fl)), (''storage_topic'', StrV (storage_topic fl)),
      (''fake_libvirt'', BoolV (fake_libvirt fl)), (''fake_network'', BoolV (fake_network fl)),
      (''fake_users'', BoolV (fake_users fl)), (''fake_storage'', BoolV (fake_storage fl)),
      (''control_exchange'', StrV (control_exchange fl)), (''default_image'', StrV (default_image fl)),
      (''default_kernel'', StrV (default_kernel fl)), (''default_ramdisk'', StrV (default_ramdisk fl)),
      (''default_instance_type'', StrV (default_instance_type fl)), (''node_name'', StrV (node_name fl)),
      (''vpn_image_id'', StrV (vpn_image_id fl)), (''datastore_path'', StrV (datastore_path fl)),
      (''networks_path'', StrV (networks_path fl)), (''public_vlan'', IntV (public_vlan fl)),
      (''bridge_dev'', StrV (bridge_dev fl)), (''vlan_start'', IntV (vlan_start fl)), (''vlan_end'', IntV (vlan_end fl)),
      (''network_size'', IntV (network_size fl)), (''public_interface'', StrV (public_interface fl)),
      (''public_range'', StrV (public_range fl)), (''private_range'', StrV (private_range fl)),
      (''ldap_subtree'', StrV (ldap_subtree fl)), (''user_unit'', StrV (user_unit fl)), (''vpn_ip'', StrV (vpn_ip fl)),
      (''volume_group'', StrV (volume_group fl)), (''storage_dev'', StrV (storage_dev fl)),
      (''aoe_eth_dev'', StrV (aoe_eth_dev fl)), (''storage_name'', StrV (storage_name fl)), (''use_s3'', BoolV (use_s3 fl)),
      (''instances_path'', StrV (instances_path fl)), (''s3_port'', IntV (s3_port fl)), (''s3_host'', StrV (s3_host fl)),
      (''buckets_path'', StrV (buckets_path fl)), (''images_path'', StrV (images_path fl)),
      (''ca_file'', StrV (ca_file fl)), (''keys_path'', StrV (keys_path fl)), (''ca_path'', StrV (ca_path_flag fl))]"

definition flags_agree :: "registry \<Rightarrow> flags \<Rightarrow> bool" where
  "flags_agree rg fl \<longleftrightarrow> (\<forall>(n, v) \<in> set (record_values fl). flag_value rg n = Inr v)"

subsection \<open>What the declarations give\<close>

definition registry_ok :: "registry \<Rightarrow> bool" where
  "registry_ok rg \<longleftrightarrow> (\<forall>i \<in> set (vals (rg_names rg)). i < length (rg_flags rg))"

text \<open>A name that no other flag shares an object with.\<close>

definition own_name :: "registry \<Rightarrow> string \<Rightarrow> bool" where
  "own_name rg n \<longleftrightarrow> has_key (rg_names rg) n \<and> (\<forall>m. map_of (rg_names rg) m = map_of (rg_names rg) n \<longrightarrow> m = n)"

text \<open>A declaration that is registered as it stands.\<close>

fun plain_decl :: "fkind \<times> string \<times> fvalue \<Rightarrow> bool" where
  "plain_decl (k, n, v) \<longleftrightarrow> n \<noteq> [] \<and> k \<noteq> HelpFlag \<and> (v = NoValue \<or> parse_value k v = Inr v)"

fun flag_made :: "fkind \<times> string \<times> fvalue \<Rightarrow> gflag" where
  "flag_made (k, n, v) = \<lparr>gf_kind = k, gf_name = n, gf_short = None, gf_default = v, gf_value = v, gf_present = 0, gf_override = False\<rparr>"

abbreviation decl_names :: "declarations \<Rightarrow> string list" where
  "decl_names ds \<equiv> map (\<lambda>(k, n, v). n) ds"

lemma new_plain: "plain_decl (k, n, v) \<Longrightarrow> new_flag k n v None False = Inr (flag_made (k, n, v))"
  by (auto simp: new_flag_def set_default_def unparse_def flag_parse_def)

lemma define_plain:
  assumes "plain_decl (k, n, v)" "n \<notin> set (keys (rg_names rg))" "registry_ok rg"
  shows "\<exists>rg'. define_flag k n v rg = Inr rg' \<and> set (keys (rg_names rg')) = insert n (set (keys (rg_names rg))) \<and> registry_ok rg' \<and>
    (\<forall>m. flag_of rg' m = (if m = n then Some (flag_made (k, n, v)) else flag_of rg m)) \<and>
    (\<forall>m. m = n \<or> own_name rg m \<longrightarrow> own_name rg' m)"
proof -
  let ?rg = "\<lparr>rg_names = dput n (length (rg_flags rg)) (rg_names rg), rg_flags = rg_flags rg @ [flag_made (k, n, v)]\<rparr>"
  have none: "map_of (rg_names rg) n = None" using assms(2) by (simp only: map_of_eq_None_iff set_map not_False_eq_True)
  then have "define_flag k n v rg = Inr ?rg"
    using assms(1) by (simp add: define_flag_def new_plain register_flag_def name_taken_def flag_of_def del: plain_decl.simps) simp
  moreover have "registry_ok ?rg" using assms(3) by (force simp: registry_ok_def dest: in_set_dput intro: less_SucI)
  moreover have "own_name ?rg m" if "m = n \<or> own_name rg m" for m
  proof -
    have "map_of (rg_names rg) x \<noteq> Some (length (rg_flags rg))" for x
      using assms(3) by (auto simp: registry_ok_def dest!: map_of_SomeD)
    then show ?thesis using that none by (auto simp: own_name_def)
  qed
  moreover have "flag_of ?rg m = (if m = n then Some (flag_made (k, n, v)) else flag_of rg m)" for m
  proof (cases "map_of (rg_names rg) m")
    case (Some i)
    then have "i \<in> set (vals (rg_names rg))" by (force dest: map_of_SomeD)
    then have "i < length (rg_flags rg)" using assms(3) by (auto simp: registry_ok_def)
    then show ?thesis using Some by (simp add: flag_of_def nth_append)
  qed (simp add: flag_of_def)
  ultimately show ?thesis by (intro exI [of _ ?rg]) simp
qed

text \<open>Declarations of new names all succeed, and each is found as it was declared.\<close>

lemma define_all_plain:
  assumes "list_all plain_decl ds" "distinct (decl_names ds)" "set (decl_names ds) \<inter> set (keys (rg_names rg)) = {}" "registry_ok rg"
  shows "\<exists>rg'. define_flags ds rg = Inr rg' \<and> set (keys (rg_names rg')) = set (decl_names ds) \<union> set (keys (rg_names rg)) \<and> registry_ok rg' \<and>
    (\<forall>d \<in> set ds. flag_of rg' (fst (snd d)) = Some (flag_made d)) \<and> (\<forall>m. m \<notin> set (decl_names ds) \<longrightarrow> flag_of rg' m = flag_of rg m) \<and>
    (\<forall>m. m \<in> set (decl_names ds) \<or> own_name rg m \<longrightarrow> own_name rg' m)"
  using assms
proof (induction ds arbitrary: rg)
  case Nil
  then show ?case by simp
next
  case (Cons d ds)
  obtain k n v where d: "d = (k, n, v)" by (cases d) auto
  obtain rg1 where rg1: "define_flag k n v rg = Inr rg1" "set (keys (rg_names rg1)) = insert n (set (keys (rg_names rg)))" "registry_ok rg1"
      "\<forall>m. flag_of rg1 m = (if m = n then Some (flag_made (k, n, v)) else flag_of rg m)"
      "\<forall>m. m = n \<or> own_name rg m \<longrightarrow> own_name rg1 m"
    using define_plain [of k n v rg] Cons.prems by (auto simp: d)
  have n: "n \<notin> set (decl_names ds)" using Cons.prems(2) by (simp only: d list.map prod.case distinct.simps) blast
  have "list_all plain_decl ds" "distinct (decl_names ds)" using Cons.prems(1,2) by simp_all
  moreover have "set (decl_names ds) \<inter> set (keys (rg_names rg1)) = {}"
    using Cons.prems(3) n unfolding rg1(2) by (simp only: d list.map list.set prod.case) blast
  ultimately obtain rg2 where rg2: "define_flags ds rg1 = Inr rg2"
      "set (keys (rg_names rg2)) = set (decl_names ds) \<union> set (keys (rg_names rg1))" "registry_ok rg2"
      "\<forall>d \<in> set ds. flag_of rg2 (fst (snd d)) = Some (flag_made d)" "\<forall>m. m \<notin> set (decl_names ds) \<longrightarrow> flag_of rg2 m = flag_of rg1 m"
      "\<forall>m. m \<in> set (decl_names ds) \<or> own_name rg1 m \<longrightarrow> own_name rg2 m"
    using Cons.IH [of rg1] rg1(3) by blast
  have "define_flags (d # ds) rg = Inr rg2" using rg1(1) rg2(1) by (simp add: d)
  moreover have "flag_of rg2 n = Some (flag_made d)" using rg2(5) n rg1(4) by (simp add: d)
  then have "\<forall>d \<in> set (d # ds). flag_of rg2 (fst (snd d)) = Some (flag_made d)" using rg2(4) by (simp add: d)
  moreover have "flag_of rg2 m = flag_of rg m" if "m \<notin> set (decl_names (d # ds))" for m
    using that rg2(5) rg1(4) by (simp add: d)
  moreover have "own_name rg2 m" if "m \<in> set (decl_names (d # ds)) \<or> own_name rg m" for m
    using that rg2(6) rg1(5) by (auto simp: d)
  ultimately show ?case using rg2(2,3) rg1(2) by (intro exI [of _ rg2]) (simp add: d insert_commute)
qed

lemma define_flags_append: "define_flags (ds @ ds') rg = bindR (define_flags ds rg) (define_flags ds')"
proof (induction ds arbitrary: rg)
  case (Cons d ds)
  obtain k n v where d: "d = (k, n, v)" by (cases d) auto
  show ?case using Cons.IH by (cases "define_flag k n v rg") (simp_all add: d)
qed simp

lemma declare_modules_plain:
  assumes "list_all plain_decl (concat (map snd ms))" "distinct (decl_names (concat (map snd ms)))"
    and "set (decl_names (concat (map snd ms))) \<inter> set (keys (rg_names rg)) = {}" "registry_ok rg"
    and "\<forall>(guard, ds) \<in> set ms. \<forall>g. guard = Some g \<longrightarrow> g \<in> set (decl_names ds)"
  shows "declare_modules ms rg = define_flags (concat (map snd ms)) rg"
  using assms
proof (induction ms arbitrary: rg)
  case (Cons m ms)
  obtain guard ds where m: "m = (guard, ds)" by (cases m) auto
  let ?more = "concat (map snd ms)"
  have plain: "list_all plain_decl ds" "list_all plain_decl ?more" using Cons.prems(1) by (simp_all add: m)
  have dist: "distinct (decl_names ds)" "distinct (decl_names ?more)" "set (decl_names ds) \<inter> set (decl_names ?more) = {}"
    using Cons.prems(2) by (simp_all add: m del: set_map)
  have new: "set (decl_names ds) \<inter> set (keys (rg_names rg)) = {}" "set (decl_names ?more) \<inter> set (keys (rg_names rg)) = {}"
    using Cons.prems(3) by (simp_all add: m Int_Un_distrib2 del: set_map)
  obtain rg1 where rg1: "define_flags ds rg = Inr rg1" "set (keys (rg_names rg1)) = set (decl_names ds) \<union> set (keys (rg_names rg))" "registry_ok rg1"
    using define_all_plain [OF plain(1) dist(1) new(1) Cons.prems(4)] by blast
  have "set (decl_names ?more) \<inter> set (keys (rg_names rg1)) = {}" using dist(3) new(2) unfolding rg1(2) by blast
  moreover have "\<forall>(guard, ds) \<in> set ms. \<forall>g. guard = Some g \<longrightarrow> g \<in> set (decl_names ds)" using Cons.prems(5) by simp
  ultimately have "declare_modules ms rg1 = define_flags ?more rg1" using Cons.IH [OF plain(2) dist(2)] rg1(3) by blast
  moreover have "\<not> has_key (rg_names rg) g" if "guard = Some g" for g
  proof -
    have "g \<in> set (decl_names ds)" using Cons.prems(5) that by (simp add: m)
    then have "g \<notin> set (keys (rg_names rg))" using new(1) by blast
    then show ?thesis by (simp only: map_of_eq_None_iff set_map not_not not_False_eq_True)
  qed
  ultimately show ?case using rg1(1) by (simp add: m define_flags_append split: option.split)
qed simp

definition nova_declarations :: "string \<Rightarrow> string \<Rightarrow> declarations" where
  "nova_declarations dir host = concat (map snd (nova_modules dir host))"

lemmas declaration_lists = nova_declarations_def nova_modules_def global_flags_def server_flags_def datastore_flags_def
  crypto_flags_def objectstore_flags_def endpoint_flags_def volume_flags_def users_flags_def node_flags_def
  network_flags_def storage_flags_def pipelib_flags_def api_flags_def nova_api_flags_def nova_compute_flags_def
  nova_volume_flags_def

lemma nova_names:
  "distinct (decl_names (nova_declarations dir host))"
  "set (decl_names (nova_declarations dir host)) \<inter> {''help'', ''?'', ''helpshort'', ''helpxml''} = {}"
  by code_simp+

lemma nova_plain: "list_all plain_decl (nova_declarations dir host)"
  by (simp add: declaration_lists int_convert_def bool_convert_def within_def)

lemma nova_guards: "\<forall>(guard, ds) \<in> set (nova_modules dir host). \<forall>g. guard = Some g \<longrightarrow> g \<in> set (decl_names ds)"
  by (simp add: declaration_lists)

lemma help_registry: "\<exists>rg. help_flags no_flags = Inr rg \<and> registry_ok rg \<and> set (keys (rg_names rg)) = {''help'', ''?'', ''helpshort'', ''helpxml''}"
  by (auto simp: help_flags_def no_flags_def new_flag_def set_default_def unparse_def flag_parse_def argument_true_def register_flag_def
      name_taken_def flag_of_def registry_ok_def)

lemma flags_of_agree: "flags_agree rg fl \<Longrightarrow> flags_of (work_dir fl) rg = fl"
  unfolding flags_agree_def record_values_def flags_of_def str_of_def bool_of_def int_of_def by simp

lemma declare_all_plain:
  "\<exists>rg. declare_all dir host = Inr rg \<and> registry_ok rg \<and>
    set (keys (rg_names rg)) = set (decl_names (nova_declarations dir host)) \<union> {''help'', ''?'', ''helpshort'', ''helpxml''} \<and>
    (\<forall>n \<in> set (decl_names (nova_declarations dir host)). own_name rg n) \<and>
    (\<forall>(k, n, v) \<in> set (nova_declarations dir host). flag_of rg n = Some (flag_made (k, n, v)))"
proof -
  obtain rg0 where rg0: "help_flags no_flags = Inr rg0" "registry_ok rg0" "set (keys (rg_names rg0)) = {''help'', ''?'', ''helpshort'', ''helpxml''}"
    using help_registry by blast
  have new: "set (decl_names (nova_declarations dir host)) \<inter> set (keys (rg_names rg0)) = {}" unfolding rg0(3) by (rule nova_names(2))
  have "declare_modules (nova_modules dir host) rg0 = define_flags (nova_declarations dir host) rg0"
    using declare_modules_plain [of "nova_modules dir host" rg0, folded nova_declarations_def, OF nova_plain nova_names(1) new rg0(2) nova_guards] .
  then show ?thesis
    using define_all_plain [OF nova_plain nova_names(1) new rg0(2)] rg0(1)
    unfolding declare_all_def rg0(3) by (fastforce simp del: set_map)
qed


end
