(* ===== verification/GflagsProps.thy ===== *)
theory GflagsProps
  imports FlagDefs
begin

text \<open>
  What a command line does to the flags: the arguments of a file of flags count as if they stood first on the command
  line, each assignment replaces those before it, and what is left over is returned.
\<close>

subsection \<open>Explicit assignments\<close>

definition assignment :: "string \<times> string \<Rightarrow> string" where
  "assignment nv = ''--'' @ fst nv @ ''='' @ snd nv"

text \<open>A flag that can be assigned: it has one name, without an equal sign, and is not one of the special ones.\<close>

definition assignable :: "registry \<Rightarrow> string \<Rightarrow> bool" where
  "assignable rg n \<longleftrightarrow> own_name rg n \<and> CHR ''='' \<notin> set n \<and> n \<noteq> ''flagfile'' \<and> n \<noteq> ''undefok''"

lemma startswith_same: "startswith (p @ s) (p @ t) \<longleftrightarrow> startswith s t"
  by (induction p) auto

lemma assignment_is_option:
  "startswith (assignment nv) ''--''" "assignment nv \<noteq> ''--''" "assignment nv \<noteq> ''-''" "CHR ''='' \<in> set (assignment nv)"
  "startswith (assignment nv) ''-''"
  by (auto simp: assignment_def)

lemma split_at_equal:
  assumes "CHR ''='' \<notin> set n"
  shows "takeWhile (\<lambda>c. c \<noteq> CHR ''='') (n @ CHR ''='' # v) = n"
  using assms by (induction n) auto

lemma append_equal_eq:
  assumes "CHR ''='' \<notin> set n" "CHR ''='' \<notin> set m" "n @ CHR ''='' # v = m @ CHR ''='' # w"
  shows "n = m \<and> v = w"
  using assms by (metis append_eq_append_conv_if same_append_eq split_at_equal list.inject)

lemma assignment_no_directive:
  assumes "CHR ''='' \<notin> set n" "n \<noteq> ''flagfile''"
  shows "\<not> is_flagfile_directive (assignment (n, v) @ s)"
proof
  assume "is_flagfile_directive (assignment (n, v) @ s)"
  then consider "startswith (n @ ''='' @ v @ s) ''flagfile=''" | "n @ ''='' @ v @ s = ''flagfile''"
    by (auto simp: is_flagfile_directive_def assignment_def)
  then show False
  proof cases
    case 1
    then obtain t where "n @ CHR ''='' # (v @ s) = ''flagfile'' @ CHR ''='' # t" by (auto simp: startswith_iff)
    then show False using append_equal_eq [OF assms(1), of "''flagfile''" "v @ s" t] assms(2) by simp
  next
    case 2
    then have "CHR ''='' \<in> set ''flagfile''" by (metis append_Cons in_set_conv_decomp append.left_neutral)
    then show False by simp
  qed
qed

lemma read_flags_assignments:
  assumes "\<forall>nv \<in> set as. CHR ''='' \<notin> set (fst nv) \<and> fst nv \<noteq> ''flagfile''" and "rest = [] \<or> \<not> startswith (hd rest) ''-''"
  shows "read_flags home files parsed new (map assignment as @ rest) = Inr (new @ map assignment as @ rest)"
  using assms
proof (induction as arbitrary: new)
  case Nil
  show ?case
  proof (cases rest)
    case (Cons a rest')
    then have "\<not> startswith a ''-''" using Nil by simp
    moreover from this have "\<not> is_flagfile_directive a" by (cases a) (auto simp: is_flagfile_directive_def)
    ultimately show ?thesis by (simp add: Cons)
  qed simp
next
  case (Cons nv as)
  have "\<not> is_flagfile_directive (assignment nv)"
    using assignment_no_directive [of "fst nv" "snd nv" "[]"] Cons.prems(1) by simp
  then show ?case using Cons assignment_is_option [of nv] by simp
qed

lemma getopt_assignment:
  assumes "CHR ''='' \<notin> set n" "n @ ''='' \<in> set lo" "\<forall>l \<in> set lo. CHR ''='' \<in> set l"
  shows "getopt so lo (assignment (n, v) # args) =
    (case getopt so lo args of Inl e \<Rightarrow> Inl e | Inr (opts, rest) \<Rightarrow> Inr ((''--'' @ n, v) # opts, rest))"
proof -
  have "startswith (n @ ''='') n" by simp
  then have poss: "n @ ''='' \<in> set (filter (\<lambda>l. startswith l n) lo)" using assms(2) by simp
  then obtain p ps where ps: "filter (\<lambda>l. startswith l n) lo = p # ps" by (cases "filter (\<lambda>l. startswith l n) lo") auto
  have "n \<notin> set (filter (\<lambda>l. startswith l n) lo)" using assms(1,3) by auto
  then have "long_has_args n lo = Inr (True, n)" using poss by (simp add: long_has_args_def ps)
  moreover have "takeWhile (\<lambda>c. c \<noteq> CHR ''='') (n @ ''='' @ v) = n" using split_at_equal [OF assms(1)] by simp
  ultimately have "do_longs (n @ ''='' @ v) lo args = Inr ((''--'' @ n, v), args)"
    by (simp add: do_longs_def Let_def)
  moreover have "drop 2 (assignment (n, v)) = n @ ''='' @ v" by (simp add: assignment_def)
  ultimately show ?thesis using assignment_is_option [of "(n, v)"] by (simp split: sum.split)
qed

lemma getopt_assignments:
  assumes "\<forall>nv \<in> set as. CHR ''='' \<notin> set (fst nv) \<and> fst nv @ ''='' \<in> set lo" "\<forall>l \<in> set lo. CHR ''='' \<in> set l"
    and "rest = [] \<or> \<not> startswith (hd rest) ''-''"
  shows "getopt so lo (map assignment as @ rest) = Inr (map (\<lambda>(n, v). (''--'' @ n, v)) as, rest)"
  using assms(1)
proof (induction as)
  case Nil
  then show ?case using assms(3) by (cases rest) auto
next
  case (Cons nv as)
  obtain n v where nv: "nv = (n, v)" by (cases nv)
  show ?case using Cons getopt_assignment [of n lo so v "map assignment as @ rest"] assms(2) by (simp add: nv)
qed

lemma correct_keeps:
  "CHR ''='' \<in> set a \<Longrightarrow> correct_arg n p q a = a" "\<not> startswith a ''-'' \<Longrightarrow> correct_arg n p q a = a"
  by (auto simp: correct_arg_def startswith_iff)

lemma correct_booleans_assignments:
  assumes "rest = [] \<or> \<not> startswith (hd rest) ''-''"
  shows "\<exists>rest'. correct_booleans rg (map assignment as @ rest) = map assignment as @ rest' \<and> length rest' = length rest \<and>
    (rest' = [] \<or> \<not> startswith (hd rest') ''-'')"
proof -
  let ?step = "\<lambda>(n, i) args. if boolean_kind (gf_kind (rg_flags rg ! i))
        then map (correct_arg n (the (map_of (shortest_unique_prefixes rg) n)) (the (map_of (shortest_unique_prefixes rg) (''no'' @ n)))) args else args"
  have "\<exists>rest'. fold ?step d (map assignment as @ rest) = map assignment as @ rest' \<and> length rest' = length rest \<and>
    (rest' = [] \<or> \<not> startswith (hd rest') ''-'')" if "rest = [] \<or> \<not> startswith (hd rest) ''-''" for d rest
    using that
  proof (induction d arbitrary: rest)
    case Nil
    then show ?case by auto
  next
    case (Cons ni d)
    obtain n i where ni: "ni = (n, i)" by (cases ni)
    define c where "c = correct_arg n (the (map_of (shortest_unique_prefixes rg) n)) (the (map_of (shortest_unique_prefixes rg) (''no'' @ n)))"
    show ?case
    proof (cases "boolean_kind (gf_kind (rg_flags rg ! i))")
      case True
      have e: "map c (map assignment as) = map assignment as" using correct_keeps(1) assignment_is_option(4) by (simp add: c_def)
      have "map c rest = [] \<or> \<not> startswith (hd (map c rest)) ''-''"
        using Cons.prems correct_keeps(2) by (cases rest) (auto simp: c_def)
      then show ?thesis using Cons.IH [of "map c rest"]
        unfolding ni fold_Cons o_apply prod.case if_P [OF True] c_def [symmetric] map_append e length_map by blast
    next
      case False
      then show ?thesis using Cons by (simp add: ni)
    qed
  qed
  then show ?thesis using assms by (simp add: correct_booleans_def Let_def)
qed

subsection \<open>A file of assignments\<close>

definition clean :: "string \<times> string \<Rightarrow> bool" where
  "clean nv \<longleftrightarrow> CHR ''\<newline>'' \<notin> set (fst nv) \<and> CHR ''\<newline>'' \<notin> set (snd nv) \<and> (snd nv = [] \<or> \<not> is_space (last (snd nv)))"

definition flag_file :: "(string \<times> string) list \<Rightarrow> string" where
  "flag_file as = concat (map (\<lambda>nv. assignment nv @ ''\<newline>'') as)"

lemma read_lines_line: "CHR ''\<newline>'' \<notin> set l \<Longrightarrow> read_lines (l @ CHR ''\<newline>'' # s) = (l @ ''\<newline>'') # read_lines s"
  by (induction l) auto

lemma strip_line:
  assumes "clean nv"
  shows "strip is_space (assignment nv @ ''\<newline>'') = assignment nv"
proof -
  let ?a = "assignment nv"
  have first: "lstrip is_space (?a @ s) = ?a @ s" for s by (simp add: assignment_def is_space_def)
  have "\<not> is_space (last ?a)" using assms by (cases "snd nv = []") (simp_all add: clean_def assignment_def is_space_def)
  moreover have ne: "?a \<noteq> []" by (simp add: assignment_def)
  ultimately have "lstrip is_space (rev ?a) = rev ?a" by (cases "rev ?a") (auto simp: last_rev [symmetric] hd_rev)
  then show ?thesis by (simp add: strip_def first is_space_def)
qed

lemma flag_lines_assignments:
  assumes "\<forall>nv \<in> set as. clean nv \<and> CHR ''='' \<notin> set (fst nv) \<and> fst nv \<noteq> ''flagfile''"
  shows "flag_lines home files parsed (read_lines (flag_file as)) = Inr (map assignment as, parsed)"
  using assms
proof (induction as)
  case Nil
  then show ?case by (simp add: flag_file_def)
next
  case (Cons nv as)
  let ?l = "assignment nv @ ''\<newline>''"
  have "CHR ''\<newline>'' \<notin> set (assignment nv)" using Cons.prems by (simp add: clean_def assignment_def)
  then have "read_lines (flag_file (nv # as)) = ?l # read_lines (flag_file as)"
    using read_lines_line [of "assignment nv" "flag_file as"] by (simp add: flag_file_def)
  moreover have "\<not> list_all is_space ?l" "\<not> startswith ?l ''#''" "\<not> startswith ?l ''//''"
    by (simp_all add: assignment_def is_space_def)
  moreover have "\<not> is_flagfile_directive ?l" using assignment_no_directive [of "fst nv" "snd nv" "''\<newline>''"] Cons.prems by simp
  moreover have "strip is_space ?l = assignment nv" using Cons.prems by (intro strip_line) simp
  ultimately show ?case using Cons by simp
qed

lemma read_flags_file:
  assumes "\<forall>nv \<in> set fas. clean nv \<and> CHR ''='' \<notin> set (fst nv) \<and> fst nv \<noteq> ''flagfile''"
    and "\<forall>nv \<in> set as. CHR ''='' \<notin> set (fst nv) \<and> fst nv \<noteq> ''flagfile''" and "rest = [] \<or> \<not> startswith (hd rest) ''-''"
    and "map_of files (home (strip is_space f)) = Some (flag_file fas)"
  shows "read_flags home files [] [] ((''--flagfile='' @ f) # map assignment as @ rest) = Inr (map assignment (fas @ as) @ rest)"
proof -
  have "is_flagfile_directive (''--flagfile='' @ f)" by (simp add: is_flagfile_directive_def)
  moreover have "extract_filename home (''--flagfile='' @ f) = Inr (home (strip is_space f))" by (simp add: extract_filename_def)
  moreover have "flag_file_lines home files (home (strip is_space f)) [] = Inr (map assignment fas, [home (strip is_space f)])"
    using assms(4) flag_lines_assignments [OF assms(1)] by (simp add: flag_file_lines_def)
  ultimately show ?thesis using read_flags_assignments [OF assms(2,3), of home files _ "map assignment fas"] by simp
qed

subsection \<open>The values\<close>

definition legal :: "registry \<Rightarrow> string \<times> string \<Rightarrow> bool" where
  "legal rg nv \<longleftrightarrow> assignable rg (fst nv) \<and> (case flag_of rg (fst nv) of None \<Rightarrow> False
     | Some f \<Rightarrow> gf_kind f \<noteq> HelpFlag \<and> (\<exists>w. parse_value (gf_kind f) (StrV (snd nv)) = Inr w))"

text \<open>What assigning a text to a flag makes of it.\<close>

definition assigned :: "registry \<Rightarrow> string \<Rightarrow> string \<Rightarrow> fvalue res" where
  "assigned rg n v = (case flag_of rg n of None \<Rightarrow> Inl AttributeError | Some f \<Rightarrow> parse_value (gf_kind f) (StrV v))"

lemma use_option_assignment:
  assumes "legal rg (n, v)" "registry_ok rg"
  shows "\<exists>rg'. use_option (''--'' @ n, v) rg = (Inr [], rg') \<and> rg_names rg' = rg_names rg \<and> registry_ok rg' \<and>
    (\<forall>m. map_option gf_kind (flag_of rg' m) = map_option gf_kind (flag_of rg m)) \<and>
    (\<forall>m. flag_value rg' m = (if m = n then assigned rg n v else flag_value rg m))"
proof -
  obtain i where i: "map_of (rg_names rg) n = Some i" using assms(1) by (auto simp: legal_def flag_of_def split: option.splits)
  let ?f = "rg_flags rg ! i"
  obtain w where w: "gf_kind ?f \<noteq> HelpFlag" "parse_value (gf_kind ?f) (StrV v) = Inr w"
    using assms(1) i by (auto simp: legal_def flag_of_def)
  have "i \<in> set (vals (rg_names rg))" using i by (force dest: map_of_SomeD)
  then have len: "i < length (rg_flags rg)" using assms(2) by (auto simp: registry_ok_def)
  have n: "n \<noteq> ''undefok''" "m = n" if "map_of (rg_names rg) m = Some i" for m
  proof -
    have a: "assignable rg n" using assms(1) by (simp add: legal_def)
    then show "n \<noteq> ''undefok''" unfolding assignable_def own_name_def by blast
    have "map_of (rg_names rg) m = map_of (rg_names rg) n \<longrightarrow> m = n" using a unfolding assignable_def own_name_def by blast
    then show "m = n" using that i by simp
  qed
  let ?g = "?f\<lparr>gf_value := w, gf_present := Suc (gf_present ?f)\<rparr>"
  let ?rg = "rg\<lparr>rg_flags := (rg_flags rg)[i := ?g]\<rparr>"
  have "use_option (''--'' @ n, v) rg = (Inr [], ?rg)"
    using n(1) [OF i] i w by (simp add: use_option_def Let_def flag_parse_def)
  moreover have "registry_ok ?rg" using assms(2) by (simp add: registry_ok_def)
  moreover have "map_option gf_kind (flag_of ?rg m) = map_option gf_kind (flag_of rg m)" for m
    using len by (cases "map_of (rg_names rg) m") (auto simp: flag_of_def nth_list_update)
  moreover have "flag_value ?rg m = (if m = n then assigned rg n v else flag_value rg m)" for m
  proof (cases "m = n")
    case True
    then show ?thesis using len i w(2) by (simp add: flag_value_def flag_of_def assigned_def)
  next
    case False
    then have "map_of (rg_names rg) m \<noteq> Some i" using n(2) by blast
    then show ?thesis using False by (cases "map_of (rg_names rg) m") (auto simp: flag_value_def flag_of_def)
  qed
  ultimately show ?thesis by (intro exI [of _ ?rg]) simp
qed

lemma use_options_assignments:
  assumes "\<forall>nv \<in> set as. legal rg nv" "registry_ok rg"
  shows "\<exists>rg'. use_options (map (\<lambda>(n, v). (''--'' @ n, v)) as) rg = (Inr [], rg') \<and>
    (\<forall>m. flag_value rg' m = (case map_of (rev as) m of None \<Rightarrow> flag_value rg m | Some v \<Rightarrow> assigned rg m v))"
  using assms
proof (induction as arbitrary: rg)
  case Nil
  then show ?case by simp
next
  case (Cons nv as)
  obtain n v where nv: "nv = (n, v)" by (cases nv)
  obtain rg1 where rg1: "use_option (''--'' @ n, v) rg = (Inr [], rg1)" "rg_names rg1 = rg_names rg" "registry_ok rg1"
      "\<forall>m. map_option gf_kind (flag_of rg1 m) = map_option gf_kind (flag_of rg m)"
      "\<forall>m. flag_value rg1 m = (if m = n then assigned rg n v else flag_value rg m)"
    using use_option_assignment [of rg n v] Cons.prems by (auto simp: nv)
  have same: "assigned rg1 m x = assigned rg m x" "legal rg1 (m, x) = legal rg (m, x)" for m x
  proof -
    have kind: "map_option gf_kind (flag_of rg1 m) = map_option gf_kind (flag_of rg m)" using rg1(4) by blast
    have "assignable rg1 m = assignable rg m" by (simp only: assignable_def own_name_def rg1(2))
    then show "assigned rg1 m x = assigned rg m x" "legal rg1 (m, x) = legal rg (m, x)"
      using kind by (cases "flag_of rg m"; cases "flag_of rg1 m"; simp add: assigned_def legal_def)+
  qed
  have "\<forall>nv \<in> set as. legal rg1 nv" using Cons.prems(1) same(2) by auto
  then obtain rg2 where rg2: "use_options (map (\<lambda>(n, v). (''--'' @ n, v)) as) rg1 = (Inr [], rg2)"
      "\<forall>m. flag_value rg2 m = (case map_of (rev as) m of None \<Rightarrow> flag_value rg1 m | Some v \<Rightarrow> assigned rg1 m v)"
    using Cons.IH rg1(3) by blast
  have "use_options (map (\<lambda>(n, v). (''--'' @ n, v)) (nv # as)) rg = (Inr [], rg2)" using rg1(1) rg2(1) by (simp add: nv)
  moreover have "flag_value rg2 m = (case map_of (rev (nv # as)) m of None \<Rightarrow> flag_value rg m | Some v \<Rightarrow> assigned rg m v)" for m
    using rg2(2) rg1(5) same(1) by (auto simp: nv map_add_def split: option.split)
  ultimately show ?case by blast
qed

lemma legal_name:
  assumes "legal rg nv"
  shows "CHR ''='' \<notin> set (fst nv)" "fst nv \<noteq> ''flagfile''" "fst nv @ ''='' \<in> set (long_options rg)"
proof -
  have a: "has_key (rg_names rg) (fst nv)" "CHR ''='' \<notin> set (fst nv)" "fst nv \<noteq> ''flagfile''"
    using assms unfolding legal_def assignable_def own_name_def by blast+
  then have "(\<lambda>n. n @ ''='') (fst nv) \<in> (\<lambda>n. n @ ''='') ` set (keys (rg_names rg))" using a(1) [unfolded has_key_iff] by (intro imageI)
  then show "fst nv @ ''='' \<in> set (long_options rg)" unfolding long_options_def set_append set_map [of _ "keys (rg_names rg)"] by blast
qed (use assms in \<open>unfold legal_def assignable_def own_name_def, blast+\<close>)

text \<open>A command line that has become assignments.\<close>

lemma call_corrected:
  assumes "registry_ok rg" "\<forall>nv \<in> set as. legal rg nv" "read_flags home files [] [] (drop 1 argv) = Inr (args @ rest)"
    and "correct_booleans rg (args @ rest) = map assignment as @ rest'" "length rest' = length rest" "rest' = [] \<or> \<not> startswith (hd rest') ''-''"
  shows "\<exists>rg'. call_flags home files argv rg = (Inr (take 1 argv @ rest), rg') \<and>
    (\<forall>n. flag_value rg' n = (case map_of (rev as) n of None \<Rightarrow> flag_value rg n | Some v \<Rightarrow> assigned rg n v))"
proof -
  have "getopt (short_options rg) (long_options rg) (map assignment as @ rest') = Inr (map (\<lambda>(n, v). (''--'' @ n, v)) as, rest')"
  proof (rule getopt_assignments [OF _ _ assms(6)])
    show "\<forall>nv \<in> set as. CHR ''='' \<notin> set (fst nv) \<and> fst nv @ ''='' \<in> set (long_options rg)"
      using legal_name assms(2) by blast
  qed (auto simp: long_options_def)
  then have rec: "recognized rg [] (correct_booleans rg (args @ rest)) = Inr (map (\<lambda>(n, v). (''--'' @ n, v)) as, rest', [])"
    unfolding assms(4) by (subst recognized.simps) simp
  obtain rg' where rg': "use_options (map (\<lambda>(n, v). (''--'' @ n, v)) as) rg = (Inr [], rg')"
      "\<forall>m. flag_value rg' m = (case map_of (rev as) m of None \<Rightarrow> flag_value rg m | Some v \<Rightarrow> assigned rg m v)"
    using use_options_assignments [OF assms(2,1)] by blast
  have "call_flags home files argv rg = (Inr (take 1 argv @ rest), rg')"
    using assms(3,5) rec rg'(1) by (simp add: call_flags_def)
  then show ?thesis using rg'(2) by blast
qed

text \<open>C19: Reading a command line that names a file of assignments, makes assignments itself and goes on with other
  arguments sets every flag to what its last assignment on the command line says, if there is none there to its last
  one in the file, and otherwise leaves it, and returns the program and the other arguments untouched.\<close>

theorem last_assignment_wins:
  assumes "registry_ok rg" and "\<forall>nv \<in> set fas. legal rg nv \<and> clean nv" and "\<forall>nv \<in> set as. legal rg nv"
    and "rest = [] \<or> \<not> startswith (hd rest) ''-''" and "map_of files (home (strip is_space f)) = Some (flag_file fas)"
  shows "\<exists>rg'. call_flags home files (prog # (''--flagfile='' @ f) # map assignment as @ rest) rg = (Inr (prog # rest), rg') \<and>
    (\<forall>n. flag_value rg' n = (case map_of (rev as) n of
       Some v \<Rightarrow> assigned rg n v
     | None \<Rightarrow> (case map_of (rev fas) n of Some v \<Rightarrow> assigned rg n v | None \<Rightarrow> flag_value rg n)))"
proof -
  let ?argv = "prog # (''--flagfile='' @ f) # map assignment as @ rest"
  have "read_flags home files [] [] ((''--flagfile='' @ f) # map assignment as @ rest) = Inr (map assignment (fas @ as) @ rest)"
    by (rule read_flags_file) (use assms legal_name in blast)+
  then have read: "read_flags home files [] [] (drop 1 ?argv) = Inr (map assignment (fas @ as) @ rest)" by simp
  obtain rest' where rest': "correct_booleans rg (map assignment (fas @ as) @ rest) = map assignment (fas @ as) @ rest'"
      "length rest' = length rest" "rest' = [] \<or> \<not> startswith (hd rest') ''-''"
    using correct_booleans_assignments [OF assms(4)] by blast
  have "\<forall>nv \<in> set (fas @ as). legal rg nv" using assms(2,3) by auto
  from call_corrected [OF assms(1) this read rest'] obtain rg' where rg': "call_flags home files ?argv rg = (Inr (prog # rest), rg')"
      "\<forall>m. flag_value rg' m = (case map_of (rev (fas @ as)) m of None \<Rightarrow> flag_value rg m | Some v \<Rightarrow> assigned rg m v)"
    by auto
  have "flag_value rg' n = (case map_of (rev as) n of
       Some v \<Rightarrow> assigned rg n v
     | None \<Rightarrow> (case map_of (rev fas) n of Some v \<Rightarrow> assigned rg n v | None \<Rightarrow> flag_value rg n))" for n
    using rg'(2) by (simp add: map_add_def split: option.split)
  then show ?thesis using rg'(1) by blast
qed

theorem last_assignment_wins_witness:
  "\<exists>rg rg'. declare_all ''/n'' ''h'' = Inr rg \<and>
    call_flags (\<lambda>x. x) [(''/n.conf'', flag_file [(''node_name'', ''n1''), (''s3_port'', ''4000'')])]
      [''nova-compute'', ''--flagfile=/n.conf'', ''--node_name=n2'', ''start''] rg = (Inr [''nova-compute'', ''start''], rg') \<and>
    flag_value rg' ''node_name'' = Inr (StrV ''n2'') \<and> flag_value rg' ''s3_port'' = Inr (IntV 4000) \<and>
    flag_value rg' ''compute_topic'' = Inr (StrV ''compute'')"
proof -
  obtain rg where rg: "declare_all ''/n'' ''h'' = Inr rg" "registry_ok rg" "\<forall>n \<in> set (decl_names (nova_declarations ''/n'' ''h'')). own_name rg n"
      "\<forall>(k, n, v) \<in> set (nova_declarations ''/n'' ''h''). flag_of rg n = Some (flag_made (k, n, v))"
    using declare_all_plain by blast
  have mem: "str_flag ''node_name'' ''h'' \<in> set (nova_declarations ''/n'' ''h'')" "int_flag ''s3_port'' 3333 \<in> set (nova_declarations ''/n'' ''h'')"
      "str_flag ''compute_topic'' ''compute'' \<in> set (nova_declarations ''/n'' ''h'')"
    by (simp_all add: declaration_lists)
  then have flags: "flag_of rg ''node_name'' = Some (flag_made (str_flag ''node_name'' ''h''))"
      "flag_of rg ''s3_port'' = Some (flag_made (int_flag ''s3_port'' 3333))"
      "flag_of rg ''compute_topic'' = Some (flag_made (str_flag ''compute_topic'' ''compute''))"
    using rg(4) by blast+
  have own: "own_name rg ''node_name''" "own_name rg ''s3_port''" using rg(3) mem by force+
  have port: "int_convert (StrV ''4000'') = Inr 4000" by code_simp
  have legal: "legal rg (''node_name'', v)" "legal rg (''s3_port'', ''4000'')" for v
    using own flags by (simp_all add: legal_def assignable_def port within_def)
  define fas where "fas = [(''node_name'', ''n1''), (''s3_port'', ''4000'')]"
  have fas: "\<forall>nv \<in> set fas. legal rg nv \<and> clean nv"
    using legal by (simp add: fas_def clean_def is_space_def)
  have as: "\<forall>nv \<in> set [(''node_name'', ''n2'')]. legal rg nv" using legal by simp
  have rest: "[''start''] = [] \<or> \<not> startswith (hd [''start'']) ''-''" by simp
  have strip: "strip is_space ''/n.conf'' = ''/n.conf''" by (simp add: strip_def is_space_def)
  have conf: "map_of [(''/n.conf'', flag_file fas)] (strip is_space ''/n.conf'') = Some (flag_file fas)"
    unfolding strip by simp
  obtain rg' where rg': "call_flags (\<lambda>x. x) [(''/n.conf'', flag_file fas)]
      (''nova-compute'' # (''--flagfile='' @ ''/n.conf'') # map assignment [(''node_name'', ''n2'')] @ [''start'']) rg = (Inr [''nova-compute'', ''start''], rg')"
      "\<forall>n. flag_value rg' n = (case map_of (rev [(''node_name'', ''n2'')]) n of Some v \<Rightarrow> assigned rg n v
        | None \<Rightarrow> (case map_of (rev fas) n of Some v \<Rightarrow> assigned rg n v | None \<Rightarrow> flag_value rg n))"
    using last_assignment_wins [where home = "\<lambda>x. x" and prog = "''nova-compute''", OF rg(2) fas as rest conf] by blast
  have assign: "flag_value rg ''compute_topic'' = Inr (StrV ''compute'')" "assigned rg ''node_name'' ''n2'' = Inr (StrV ''n2'')"
      "assigned rg ''s3_port'' ''4000'' = Inr (IntV 4000)"
    using flags by (simp_all add: flag_value_def assigned_def port within_def)
  have "flag_value rg' ''node_name'' = Inr (StrV ''n2'')" "flag_value rg' ''s3_port'' = Inr (IntV 4000)"
      "flag_value rg' ''compute_topic'' = Inr (StrV ''compute'')"
    by (simp_all add: rg'(2) fas_def assign)
  then show ?thesis using rg(1) rg'(1) by (intro exI [of _ rg] exI [of _ rg']) (simp add: assignment_def fas_def)
qed

subsection \<open>Unique prefixes\<close>

lemma sandwich:
  fixes x y z :: string
  assumes "x \<le> y" "y \<le> z" "startswith x p" "startswith z p"
  shows "startswith y p"
  using assms
proof (induction p arbitrary: x y z)
  case (Cons c p)
  then obtain x' z' where xz: "x = c # x'" "z = c # z'" by (cases x; cases z; auto)
  then obtain d y' where y: "y = d # y'" using Cons.prems(1) by (cases y) auto
  then have "d = c" "x' \<le> y'" "y' \<le> z'" using Cons.prems xz by auto
  then show ?case using Cons.IH [of x' y' z'] Cons.prems(3,4) xz y by simp
qed (simp add: startswith_iff)

lemma first_difference_Some:
  "first_difference x y = Some i \<Longrightarrow> i < length x \<and> \<not> startswith y (take (Suc i) x)"
  "first_difference x y = Some i \<Longrightarrow> startswith x (take (Suc i) y) \<Longrightarrow> take (Suc i) y = y"
  by (induction x y arbitrary: i rule: first_difference.induct) (auto split: if_splits)

lemma first_difference_None: "first_difference x y = None \<Longrightarrow> startswith y x"
  by (induction x y rule: first_difference.induct) (auto simp: startswith_iff split: if_splits)

lemma startswith_take_less:
  "startswith y (take n x) \<Longrightarrow> m \<le> n \<Longrightarrow> startswith y (take m x)"
  by (metis append_assoc min.absorb1 startswith_iff take_take append_take_drop_id)

lemma startswith_length: "startswith s p \<Longrightarrow> length p \<le> length s"
  by (auto simp: startswith_iff)

lemma shortest_from_spec:
  assumes "sorted (ys @ xs)" "distinct xs"
    and "case xs of [] \<Rightarrow> True | x # _ \<Rightarrow> \<forall>y \<in> set ys. startswith y (take (Suc prev) x) \<longrightarrow> take (Suc prev) x = x"
  shows "(z \<notin> set xs \<longrightarrow> map_of (shortest_from prev xs d) z = map_of d z) \<and>
    (z \<in> set xs \<longrightarrow> (\<exists>p. map_of (shortest_from prev xs d) z = Some p \<and> startswith z p \<and>
      (\<forall>y \<in> set (ys @ xs). y \<noteq> z \<and> startswith y p \<longrightarrow> p = z)))"
  using assms
proof (induction xs arbitrary: prev ys d z)
  case (Cons x rest)
  define nxt where "nxt = (case rest of [] \<Rightarrow> [] | n # _ \<Rightarrow> n)"
  define p where "p = (case first_difference x nxt of Some i \<Rightarrow> take (Suc (max prev i)) x | None \<Rightarrow> x)"
  define i where "i = (case first_difference x nxt of Some i \<Rightarrow> i | None \<Rightarrow> length x)"
  have step: "shortest_from prev (x # rest) d = shortest_from i rest (dput x p d)"
    by (simp add: nxt_def p_def i_def split: option.split)
  have sorted: "sorted ((ys @ [x]) @ rest)" "distinct rest" using Cons.prems(1,2) by simp_all
  have le: "y \<le> x" if "y \<in> set ys" for y using Cons.prems(1) that by (simp add: sorted_append)
  have inv: "case rest of [] \<Rightarrow> True | n # _ \<Rightarrow> \<forall>y \<in> set (ys @ [x]). startswith y (take (Suc i) n) \<longrightarrow> take (Suc i) n = n"
  proof (cases rest)
    case (Cons n ns)
    have "take (Suc i) n = n" if y: "y \<in> set (ys @ [x])" "startswith y (take (Suc i) n)" for y
    proof -
      have "y \<le> x" "x \<le> n" using y(1) le sorted(1) Cons by (auto simp: sorted_append)
      moreover have "startswith n (take (Suc i) n)" by (metis append_take_drop_id startswith_iff)
      ultimately have s: "startswith x (take (Suc i) n)" using sandwich [OF _ _ y(2)] by blast
      show ?thesis
      proof (cases "first_difference x n")
        case None
        then have "length (take (Suc (length x)) n) \<le> length x" using s startswith_length Cons by (fastforce simp: i_def nxt_def)
        then show ?thesis using None Cons by (simp add: i_def nxt_def)
      next
        case (Some j)
        then show ?thesis using first_difference_Some(2) [OF Some] s Cons by (simp add: i_def nxt_def)
      qed
    qed
    then show ?thesis by (simp add: Cons)
  qed simp
  have own: "startswith x p" unfolding p_def startswith_iff by (metis append_Nil2 append_take_drop_id option.case_eq_if)
  have unique: "p = x" if y: "y \<in> set (ys @ x # rest)" "y \<noteq> x" "startswith y p" for y
  proof (cases "first_difference x nxt")
    case None
    then show ?thesis by (simp add: p_def)
  next
    case (Some j)
    then have p: "p = take (Suc (max prev j)) x" by (simp add: p_def)
    consider "y \<in> set ys" | "y \<in> set rest" using y(1,2) by auto
    then show ?thesis
    proof cases
      case 1
      have "startswith y (take (Suc prev) x)" using y(3) unfolding p by (rule startswith_take_less) simp
      then have "take (Suc prev) x = x" using Cons.prems(3) 1 by auto
      then show ?thesis unfolding p by (metis max.cobounded1 Suc_le_mono min.absorb1 take_all_iff take_take le_trans)
    next
      case 2
      then obtain n ns where rest: "rest = n # ns" by (cases rest) auto
      then have "n \<le> y" "x \<le> n" using 2 sorted(1) by (auto simp: sorted_append)
      moreover have "startswith y (take (Suc j) x)" using y(3) unfolding p by (rule startswith_take_less) simp
      moreover have "startswith x (take (Suc j) x)" by (metis append_take_drop_id startswith_iff)
      ultimately have "startswith n (take (Suc j) x)" using sandwich by blast
      then show ?thesis using first_difference_Some(1) [OF Some] rest by (simp add: nxt_def)
    qed
  qed
  show ?case
  proof (cases "z = x")
    case True
    have "x \<notin> set rest" using Cons.prems(2) by simp
    then have "map_of (shortest_from i rest (dput x p d)) x = Some p" using Cons.IH [OF sorted inv, of x "dput x p d"] by simp
    then show ?thesis unfolding step True using own unique by auto
  next
    case False
    then show ?thesis unfolding step using Cons.IH [OF sorted inv, of z "dput x p d"] by simp
  qed
qed simp

text \<open>The shortest unique prefix of each name of a flag, and of its negation for a boolean one, is a prefix of the name
  and of no other name, unless the name itself is a prefix of another and is then its own prefix.\<close>

lemma unique_prefixes:
  assumes "distinct (flag_and_no_names rg)" and "z \<in> set (flag_and_no_names rg)"
  shows "\<exists>p. map_of (shortest_unique_prefixes rg) z = Some p \<and> startswith z p \<and>
    (\<forall>y \<in> set (flag_and_no_names rg). y \<noteq> z \<and> startswith y p \<longrightarrow> p = z)"
proof -
  let ?xs = "sort (flag_and_no_names rg)"
  have "case ?xs of [] \<Rightarrow> True | x # _ \<Rightarrow> \<forall>y \<in> set []. startswith y (take (Suc 0) x) \<longrightarrow> take (Suc 0) x = x" by (simp split: list.split)
  from shortest_from_spec [of "[]" ?xs 0 z "[]", OF _ _ this] show ?thesis
    using assms unfolding shortest_unique_prefixes_def by simp
qed

subsection \<open>Writing the flags and reading them\<close>

lemma py_long_str_int: "py_long (str_int i) = Inr i"
proof (cases "0 \<le> i")
  case True
  then show ?thesis by (simp add: str_int_nonneg)
next
  case False
  define ds where "ds = str_nat (nat (- i))"
  have digit: "is_digit c" if "c \<in> set ds" for c using that str_nat_digits by (simp add: ds_def)
  have ne: "ds \<noteq> []" by (simp add: ds_def)
  have s: "str_int i = CHR ''-'' # ds" using False by (simp add: str_int_def ds_def)
  have strip: "strip is_space (CHR ''-'' # ds) = CHR ''-'' # ds"
    by (rule strip_none) (use digit digit_not_special(1) in \<open>auto simp: is_space_def\<close>)
  have "drop_L (CHR ''-'' # ds) = CHR ''-'' # ds"
    using digit_not_special(4,5) [OF digit, of "last ds"] ne by (simp add: drop_L_def)
  moreover have "lstrip is_space ds = ds" by (rule lstrip_none) (use digit digit_not_special(1) in blast)
  moreover have "digits_val 0 ds = Some (nat (- i))" by (simp add: ds_def digits_val_str_nat)
  ultimately show ?thesis using strip ne False by (simp add: s py_long_def py_int_def py_sign_def)
qed

lemma int_convert_str_int: "int_convert (StrV (str_int i)) = Inr i"
proof -
  have "\<not> startswith (str_int i) ''0x''"
    using str_nat_chars(4) [of "nat i"] by (auto simp: str_int_def startswith_iff)
  then show ?thesis by (simp add: int_convert_def py_long_str_int)
qed

text \<open>The values that a file of flags can hold.\<close>

fun storable :: "fkind \<Rightarrow> fvalue \<Rightarrow> bool" where
  "storable StringFlag (StrV s) \<longleftrightarrow> CHR ''\<newline>'' \<notin> set s \<and> (s = [] \<or> \<not> is_space (last s))"
| "storable BooleanFlag (BoolV b) \<longleftrightarrow> True"
| "storable (IntegerFlag lo hi) (IntV i) \<longleftrightarrow> within lo hi i"
| "storable k v \<longleftrightarrow> v = NoValue"

fun stored_text :: "fvalue \<Rightarrow> string" where
  "stored_text (BoolV b) = (if b then ''true'' else ''false'')"
| "stored_text v = value_text v"

lemma stored_is_read:
  assumes "storable k v" "v \<noteq> NoValue"
  shows "parse_value k (StrV (stored_text v)) = Inr v" "k \<noteq> HelpFlag"
proof -
  have b: "bool_convert (StrV ''true'') = Inr True" "bool_convert (StrV ''false'') = Inr False" by code_simp+
  show "parse_value k (StrV (stored_text v)) = Inr v"
    using assms by (cases "(k, v)" rule: storable.cases) (auto simp: value_text_def int_convert_str_int b)
  show "k \<noteq> HelpFlag" using assms by (cases "(k, v)" rule: storable.cases) auto
qed

lemma str_int_clean: "c \<in> set (str_int i) \<Longrightarrow> is_digit c \<or> c = CHR ''-''"
  using str_nat_digits by (auto simp: str_int_def split: if_splits)

lemma stored_clean:
  assumes "storable k v" "v \<noteq> NoValue"
  shows "CHR ''\<newline>'' \<notin> set (stored_text v) \<and> (stored_text v = [] \<or> \<not> is_space (last (stored_text v)))"
proof -
  have "\<not> is_space c \<and> c \<noteq> CHR ''\<newline>''" if "c \<in> set (str_int i)" for c i
    using str_int_clean [OF that] by (auto simp: is_digit_def is_space_def)
  moreover have "str_int i \<noteq> []" for i by (simp add: str_int_def)
  ultimately have "CHR ''\<newline>'' \<notin> set (str_int i) \<and> \<not> is_space (last (str_int i))" for i using last_in_set by blast
  then show ?thesis
    using assms by (cases "(k, v)" rule: storable.cases) (auto simp: value_text_def is_space_def)
qed

text \<open>A registry whose flags are written under their own names.\<close>

definition tidy :: "registry \<Rightarrow> bool" where
  "tidy rg \<longleftrightarrow> registry_ok rg \<and> distinct (keys (rg_names rg)) \<and> distinct (flag_and_no_names rg) \<and>
     (\<forall>(n, i) \<in> set (rg_names rg). gf_value (rg_flags rg ! i) \<noteq> NoValue \<longrightarrow>
        gf_name (rg_flags rg ! i) = n \<and> assignable rg n \<and> n \<noteq> [] \<and> (\<forall>c \<in> set n. \<not> is_space c) \<and>
        storable (gf_kind (rg_flags rg ! i)) (gf_value (rg_flags rg ! i)))"

text \<open>The flags that are written, with their texts.\<close>

definition written :: "registry \<Rightarrow> (string \<times> gflag) list" where
  "written rg = filter (\<lambda>(n, f). gf_value f \<noteq> NoValue) (map (\<lambda>(n, i). (n, rg_flags rg ! i)) (rg_names rg))"

definition written_as :: "registry \<Rightarrow> (string \<times> string) list" where
  "written_as rg = map (\<lambda>(n, f). (n, stored_text (gf_value f))) (written rg)"

lemma flags_into_string_lines:
  "flags_into_string rg = concat (map (\<lambda>(n, f). serialize f @ ''\<newline>'') (written rg))"
proof -
  have "concat (map (\<lambda>(n, i). let f = rg_flags rg ! i in if gf_value f = NoValue then [] else serialize f @ ''\<newline>'') d) =
      concat (map (\<lambda>(n, f). serialize f @ ''\<newline>'') (filter (\<lambda>(n, f). gf_value f \<noteq> NoValue) (map (\<lambda>(n, i). (n, rg_flags rg ! i)) d)))" for d
    by (induction d) (auto simp: Let_def)
  then show ?thesis by (simp add: flags_into_string_def written_def)
qed

lemma written_entry:
  assumes "tidy rg" "(n, f) \<in> set (written rg)"
  obtains i where "(n, i) \<in> set (rg_names rg)" "f = rg_flags rg ! i" "gf_value f \<noteq> NoValue" "gf_name f = n" "assignable rg n"
    "n \<noteq> []" "\<forall>c \<in> set n. \<not> is_space c" "storable (gf_kind f) (gf_value f)"
proof -
  obtain i where i: "(n, i) \<in> set (rg_names rg)" "f = rg_flags rg ! i" "gf_value f \<noteq> NoValue"
    using assms(2) by (auto simp: written_def)
  then show ?thesis using that [OF i] assms(1) unfolding tidy_def by fastforce
qed

text \<open>A line is an assignment, or the short form of one.\<close>

lemma serialize_cases:
  assumes "gf_value f \<noteq> NoValue" "storable (gf_kind f) (gf_value f)"
  shows "(boolean_kind (gf_kind f) \<and> serialize f = ''--'' @ gf_name f \<and> stored_text (gf_value f) = ''true'') \<or>
    (boolean_kind (gf_kind f) \<and> serialize f = ''--no'' @ gf_name f \<and> stored_text (gf_value f) = ''false'') \<or>
    (\<not> boolean_kind (gf_kind f) \<and> serialize f = assignment (gf_name f, stored_text (gf_value f)))"
  using assms by (cases "(gf_kind f, gf_value f)" rule: storable.cases)
    (auto simp: serialize_def boolean_kind_def argument_true_def assignment_def value_text_def)

lemma no_directive: "CHR ''='' \<notin> set x \<Longrightarrow> x \<noteq> ''flagfile'' \<Longrightarrow> \<not> is_flagfile_directive (''--'' @ x)"
  by (auto simp: is_flagfile_directive_def startswith_iff)

lemma strip_end:
  assumes "startswith l ''--''" "\<not> is_space (last l)"
  shows "strip is_space (l @ ''\<newline>'') = l"
proof -
  obtain t where t: "l = ''--'' @ t" using assms(1) by (auto simp: startswith_iff)
  have first: "lstrip is_space (l @ s) = l @ s" for s by (simp add: t is_space_def)
  have "hd (rev l) = last l" by (simp add: hd_rev)
  then have "lstrip is_space (rev l) = rev l" using assms(2) by (intro lstrip_id) auto
  then show ?thesis by (simp add: strip_def first is_space_def)
qed

lemma serialize_line:
  assumes "tidy rg" "(n, f) \<in> set (written rg)"
  shows "startswith (serialize f) ''--''" "serialize f \<noteq> ''--''" "\<not> is_flagfile_directive (serialize f)"
    "\<not> is_flagfile_directive (serialize f @ ''\<newline>'')" "CHR ''\<newline>'' \<notin> set (serialize f)" "\<not> is_space (last (serialize f))"
proof -
  obtain i where w: "gf_value f \<noteq> NoValue" "gf_name f = n" "assignable rg n" "n \<noteq> []" "\<forall>c \<in> set n. \<not> is_space c" "storable (gf_kind f) (gf_value f)"
    using written_entry [OF assms] by metis
  have n: "CHR ''='' \<notin> set n" "n \<noteq> ''flagfile''" "CHR ''\<newline>'' \<notin> set n" "\<not> is_space (last n)"
    using w(3,4,5) by (auto simp: assignable_def is_space_def)
  note good = stored_clean [OF w(6,1)]
  consider "serialize f = ''--'' @ n" | "serialize f = ''--no'' @ n" | "serialize f = assignment (n, stored_text (gf_value f))"
    using serialize_cases [OF w(1,6)] w(2) by blast
  then have "startswith (serialize f) ''--'' \<and> serialize f \<noteq> ''--'' \<and> \<not> is_flagfile_directive (serialize f) \<and>
    \<not> is_flagfile_directive (serialize f @ ''\<newline>'') \<and> CHR ''\<newline>'' \<notin> set (serialize f) \<and> \<not> is_space (last (serialize f))"
  proof cases
    case 1
    have "last (n @ ''\<newline>'') \<noteq> last ''flagfile''" by simp
    then have "n @ ''\<newline>'' \<noteq> ''flagfile''" by metis
    then show ?thesis using n w(4) no_directive [of n] no_directive [of "n @ ''\<newline>''"] by (simp add: 1)
  next
    case 2
    then show ?thesis using n w(4) no_directive [of "''no'' @ n"] no_directive [of "''no'' @ n @ ''\<newline>''"] by simp
  next
    case 3
    have "last (assignment (n, v)) = (if v = [] then CHR ''='' else last v)" for v by (simp add: assignment_def)
    then show ?thesis using good n assignment_is_option [of "(n, stored_text (gf_value f))"]
        assignment_no_directive [OF n(1,2), of _ "[]"] assignment_no_directive [OF n(1,2), of _ "''\<newline>''"]
      by (auto simp: 3 assignment_def is_space_def)
  qed
  then show "startswith (serialize f) ''--''" "serialize f \<noteq> ''--''" "\<not> is_flagfile_directive (serialize f)"
    "\<not> is_flagfile_directive (serialize f @ ''\<newline>'')" "CHR ''\<newline>'' \<notin> set (serialize f)" "\<not> is_space (last (serialize f))" by blast+
qed

lemma written_file:
  assumes "tidy rg"
  shows "flag_lines home files parsed (read_lines (flags_into_string rg)) = Inr (map (\<lambda>(n, f). serialize f) (written rg), parsed)"
proof -
  have "flag_lines home files parsed (read_lines (concat (map (\<lambda>(n, f). serialize f @ ''\<newline>'') d))) = Inr (map (\<lambda>(n, f). serialize f) d, parsed)"
    if "set d \<subseteq> set (written rg)" for d
    using that
  proof (induction d)
    case Nil
    then show ?case by simp
  next
    case (Cons nf d)
    obtain n f where nf: "nf = (n, f)" by (cases nf)
    let ?l = "serialize f @ ''\<newline>''"
    note line = serialize_line [OF assms, of n f]
    have w: "(n, f) \<in> set (written rg)" using Cons.prems by (simp add: nf)
    obtain t where t: "serialize f = ''--'' @ t" using line(1) [OF w] by (auto simp: startswith_iff)
    have "read_lines (concat (map (\<lambda>(n, f). serialize f @ ''\<newline>'') (nf # d))) = ?l # read_lines (concat (map (\<lambda>(n, f). serialize f @ ''\<newline>'') d))"
      using read_lines_line [OF line(5) [OF w], of "concat (map (\<lambda>(n, f). serialize f @ ''\<newline>'') d)"] by (simp add: nf)
    moreover have "\<not> list_all is_space ?l" "\<not> startswith ?l ''#''" "\<not> startswith ?l ''//''" by (simp_all add: t is_space_def)
    moreover have "strip is_space ?l = serialize f" by (rule strip_end [OF line(1,6) [OF w]])
    ultimately show ?case using Cons line(4) [OF w] by (simp add: nf)
  qed
  then show ?thesis by (simp add: flags_into_string_lines)
qed

text \<open>Correcting is done for each argument on its own.\<close>

definition correct_step :: "registry \<Rightarrow> string \<times> nat \<Rightarrow> string \<Rightarrow> string" where
  "correct_step rg = (\<lambda>(n, i) a. if boolean_kind (gf_kind (rg_flags rg ! i))
     then correct_arg n (the (map_of (shortest_unique_prefixes rg) n)) (the (map_of (shortest_unique_prefixes rg) (''no'' @ n))) a else a)"

lemma correct_booleans_each: "correct_booleans rg args = map (fold (correct_step rg) (rg_names rg)) args"
proof -
  have "fold (\<lambda>(n, i) args. if boolean_kind (gf_kind (rg_flags rg ! i))
        then map (correct_arg n (the (map_of (shortest_unique_prefixes rg) n)) (the (map_of (shortest_unique_prefixes rg) (''no'' @ n)))) args else args) d args =
      map (fold (correct_step rg) d) args" for d
    by (induction d arbitrary: args) (auto simp: correct_step_def map_idI)
  then show ?thesis by (simp add: correct_booleans_def Let_def)
qed

lemma correct_step_equal: "CHR ''='' \<in> set a \<Longrightarrow> fold (correct_step rg) d a = a"
  by (induction d) (auto simp: correct_step_def correct_keeps)

definition with_negation :: "registry \<Rightarrow> string \<times> nat \<Rightarrow> string list" where
  "with_negation rg = (\<lambda>(n, i). if boolean_kind (gf_kind (rg_flags rg ! i)) then [n, ''no'' @ n] else [n])"

lemma flag_and_no_names_each: "flag_and_no_names rg = concat (map (with_negation rg) (rg_names rg))"
  by (simp add: flag_and_no_names_def with_negation_def)

lemma in_flag_and_no_names: "ni \<in> set (rg_names rg) \<Longrightarrow> set (with_negation rg ni) \<subseteq> set (flag_and_no_names rg)"
  by (auto simp: flag_and_no_names_each)

text \<open>The names of two flags, and their negations, have nothing in common.\<close>

lemma names_apart:
  assumes "distinct (flag_and_no_names rg)" "(n, i) \<in> set (rg_names rg)" "(m, j) \<in> set (rg_names rg)" "n \<noteq> m"
    and "boolean_kind (gf_kind (rg_flags rg ! i))" "boolean_kind (gf_kind (rg_flags rg ! j))"
  shows "{n, ''no'' @ n} \<inter> {m, ''no'' @ m} = {}" "n \<noteq> ''no'' @ n"
    "{n, ''no'' @ n, m, ''no'' @ m} \<subseteq> set (flag_and_no_names rg)"
proof -
  have f: "with_negation rg (n, i) = [n, ''no'' @ n]" "with_negation rg (m, j) = [m, ''no'' @ m]" using assms(5,6) by (simp_all add: with_negation_def)
  have "[n, ''no'' @ n] \<in> set (map (with_negation rg) (rg_names rg))" "[m, ''no'' @ m] \<in> set (map (with_negation rg) (rg_names rg))"
    using imageI [OF assms(2), of "with_negation rg"] imageI [OF assms(3), of "with_negation rg"] unfolding f set_map by blast+
  moreover have "[n, ''no'' @ n] \<noteq> [m, ''no'' @ m]" using assms(4) by simp
  ultimately have "set [n, ''no'' @ n] \<inter> set [m, ''no'' @ m] = {}"
    using assms(1) unfolding flag_and_no_names_each distinct_concat_iff by blast
  then show "{n, ''no'' @ n} \<inter> {m, ''no'' @ m} = {}" by simp
  show "n \<noteq> ''no'' @ n" by (metis append_self_conv2 list.distinct(1))
  show "{n, ''no'' @ n, m, ''no'' @ m} \<subseteq> set (flag_and_no_names rg)"
    using in_flag_and_no_names [OF assms(2)] in_flag_and_no_names [OF assms(3)] by (simp add: f)
qed

lemma own_prefix:
  assumes "distinct (flag_and_no_names rg)" "z \<in> set (flag_and_no_names rg)"
  shows "startswith z (the (map_of (shortest_unique_prefixes rg) z))"
    and "x \<in> set (flag_and_no_names rg) \<Longrightarrow> x \<noteq> z \<Longrightarrow>
      \<not> (startswith (''--'' @ x) (''--'' @ the (map_of (shortest_unique_prefixes rg) z)) \<and> startswith (''--'' @ z) (''--'' @ x))"
proof -
  obtain p where p: "map_of (shortest_unique_prefixes rg) z = Some p" "startswith z p"
      "\<forall>y \<in> set (flag_and_no_names rg). y \<noteq> z \<and> startswith y p \<longrightarrow> p = z"
    using unique_prefixes [OF assms] by blast
  show "startswith z (the (map_of (shortest_unique_prefixes rg) z))" using p by simp
  assume x: "x \<in> set (flag_and_no_names rg)" "x \<noteq> z"
  show "\<not> (startswith (''--'' @ x) (''--'' @ the (map_of (shortest_unique_prefixes rg) z)) \<and> startswith (''--'' @ z) (''--'' @ x))"
  proof
    assume "startswith (''--'' @ x) (''--'' @ the (map_of (shortest_unique_prefixes rg) z)) \<and> startswith (''--'' @ z) (''--'' @ x)"
    then have "startswith x p" "startswith z x" using p(1) by simp_all
    moreover from this have "p = z" using p(3) x by blast
    ultimately show False using x(2) by (auto simp: startswith_iff)
  qed
qed

lemma correct_other:
  assumes "distinct (flag_and_no_names rg)" "(n, i) \<in> set (rg_names rg)" "(m, j) \<in> set (rg_names rg)" "n \<noteq> m"
    and "boolean_kind (gf_kind (rg_flags rg ! i))" "x \<in> {n, ''no'' @ n}"
  shows "correct_step rg (m, j) (''--'' @ x) = ''--'' @ x"
proof (cases "boolean_kind (gf_kind (rg_flags rg ! j))")
  case True
  note apart = names_apart [OF assms(1-5) True]
  have mem: "x \<in> set (flag_and_no_names rg)" "m \<in> set (flag_and_no_names rg)" "''no'' @ m \<in> set (flag_and_no_names rg)"
    using apart(3) assms(6) by auto
  have ne: "x \<noteq> m" "x \<noteq> ''no'' @ m" using apart(1) assms(6) by auto
  have "''--no'' @ m = ''--'' @ (''no'' @ m)" by simp
  then show ?thesis
    using own_prefix(2) [OF assms(1) mem(2) mem(1) ne(1)] own_prefix(2) [OF assms(1) mem(3) mem(1) ne(2)] True
    unfolding correct_step_def prod.case correct_arg_def by (simp only: if_True if_False if_cancel simp_thms)
qed (simp add: correct_step_def)

lemma correct_own:
  assumes "distinct (flag_and_no_names rg)" "(n, i) \<in> set (rg_names rg)" "boolean_kind (gf_kind (rg_flags rg ! i))" "CHR ''='' \<notin> set n"
  shows "correct_step rg (n, i) (''--'' @ n) = assignment (n, ''true'')" "correct_step rg (n, i) (''--no'' @ n) = assignment (n, ''false'')"
proof -
  have mem: "n \<in> set (flag_and_no_names rg)" "''no'' @ n \<in> set (flag_and_no_names rg)"
    using in_flag_and_no_names [OF assms(2)] assms(3) by (simp_all add: with_negation_def)
  note p = own_prefix(1) [OF assms(1) mem(1)] and q = own_prefix(1) [OF assms(1) mem(2)]
  show "correct_step rg (n, i) (''--'' @ n) = assignment (n, ''true'')"
    using p assms(3,4) by (simp add: correct_step_def correct_arg_def assignment_def startswith_iff)
  have "\<not> startswith (''--'' @ n) (''--no'' @ n)"
    using startswith_length [of "''--'' @ n" "''--no'' @ n"] by auto
  then show "correct_step rg (n, i) (''--no'' @ n) = assignment (n, ''false'')"
    using q assms(3,4) by (simp add: correct_step_def correct_arg_def assignment_def startswith_iff)
qed

lemma correct_short:
  assumes "distinct (flag_and_no_names rg)" "distinct (keys (rg_names rg))" "(n, i) \<in> set (rg_names rg)" "boolean_kind (gf_kind (rg_flags rg ! i))" "CHR ''='' \<notin> set n"
  shows "fold (correct_step rg) (rg_names rg) (''--'' @ n) = assignment (n, ''true'')"
    and "fold (correct_step rg) (rg_names rg) (''--no'' @ n) = assignment (n, ''false'')"
proof -
  have one: "fold (correct_step rg) d (''--'' @ x) = assignment (n, v)"
    if x: "x \<in> {n, ''no'' @ n}" "correct_step rg (n, i) (''--'' @ x) = assignment (n, v)" and d: "(n, i) \<in> set d" "set d \<subseteq> set (rg_names rg)" for d x v
    using d
  proof (induction d)
    case (Cons mj d)
    obtain m j where mj: "mj = (m, j)" by (cases mj)
    show ?case
    proof (cases "m = n")
      case True
      then have "j = i" using Cons.prems(2) assms(2,3) mj by (auto dest: eq_key_imp_eq_value)
      then show ?thesis using x(2) True correct_step_equal [of "assignment (n, v)"] assignment_is_option(4) by (simp add: mj)
    next
      case False
      have "correct_step rg (m, j) (''--'' @ x) = ''--'' @ x"
        using correct_other [OF assms(1,3) _ _ assms(4) x(1), of m j] False Cons.prems(2) mj by auto
      then show ?thesis using Cons False by (simp add: mj)
    qed
  qed simp
  show "fold (correct_step rg) (rg_names rg) (''--'' @ n) = assignment (n, ''true'')"
    by (rule one) (use correct_own [OF assms(1,3-5)] assms(3) in auto)
  show "fold (correct_step rg) (rg_names rg) (''--no'' @ n) = assignment (n, ''false'')"
    using one [of "''no'' @ n" "''false''" "rg_names rg"] correct_own(2) [OF assms(1,3-5)] assms(3) by simp
qed

text \<open>Two registries of the same flags.\<close>

definition same_flags :: "registry \<Rightarrow> registry \<Rightarrow> bool" where
  "same_flags rg rg0 \<longleftrightarrow> rg_names rg0 = rg_names rg \<and> map gf_kind (rg_flags rg0) = map gf_kind (rg_flags rg)"

lemma same_flags_kind:
  assumes "same_flags rg rg0" "registry_ok rg" "(n, i) \<in> set (rg_names rg)"
  shows "gf_kind (rg_flags rg0 ! i) = gf_kind (rg_flags rg ! i)"
proof -
  have i: "i < length (rg_flags rg)" using assms(2,3) by (force simp: registry_ok_def)
  have e: "map gf_kind (rg_flags rg0) = map gf_kind (rg_flags rg)" using assms(1) unfolding same_flags_def by blast
  then have len: "length (rg_flags rg0) = length (rg_flags rg)" by (rule map_eq_imp_length_eq)
  have "gf_kind (rg_flags rg0 ! i) = map gf_kind (rg_flags rg0) ! i" using i len by simp
  also have "\<dots> = gf_kind (rg_flags rg ! i)" unfolding e using i by simp
  finally show ?thesis .
qed

lemma corrected_written:
  assumes "tidy rg" "same_flags rg rg0"
  shows "correct_booleans rg0 (map (\<lambda>(n, f). serialize f) (written rg)) = map assignment (written_as rg)"
proof -
  have rok: "registry_ok rg" "distinct (keys (rg_names rg))" "distinct (flag_and_no_names rg)" using assms(1) by (simp_all add: tidy_def)
  have names: "rg_names rg0 = rg_names rg" using assms(2) by (simp add: same_flags_def)
  have "map (with_negation rg0) (rg_names rg) = map (with_negation rg) (rg_names rg)"
    using same_flags_kind [OF assms(2) rok(1)] by (auto simp: with_negation_def)
  then have "flag_and_no_names rg0 = flag_and_no_names rg" unfolding flag_and_no_names_each names by (rule arg_cong)
  then have dist: "distinct (flag_and_no_names rg0)" using rok(3) by (simp only:)
  have "fold (correct_step rg0) (rg_names rg0) (serialize f) = assignment (n, stored_text (gf_value f))" if w: "(n, f) \<in> set (written rg)" for n f
  proof -
    obtain i where i: "(n, i) \<in> set (rg_names rg)" "f = rg_flags rg ! i" "gf_value f \<noteq> NoValue" "gf_name f = n" "assignable rg n"
        "storable (gf_kind f) (gf_value f)"
      using written_entry [OF assms(1) w] by metis
    have eq: "CHR ''='' \<notin> set n" using i(5) by (simp add: assignable_def)
    have kind: "gf_kind (rg_flags rg0 ! i) = gf_kind f" using same_flags_kind [OF assms(2) rok(1) i(1)] i(2) by simp
    have i0: "(n, i) \<in> set (rg_names rg0)" "distinct (keys (rg_names rg0))" using i(1) rok(2) names by simp_all
    note short = correct_short [OF dist i0(2,1) _ eq, unfolded kind]
    show ?thesis using serialize_cases [OF i(3,6)] short correct_step_equal assignment_is_option(4) by (auto simp: i(4))
  qed
  then show ?thesis unfolding correct_booleans_each by (auto simp: written_as_def)
qed

lemma written_distinct:
  assumes "distinct (keys (rg_names rg))"
  shows "distinct (keys (written_as rg))"
proof -
  have "keys (written_as rg) = keys (written rg)" by (simp add: written_as_def case_prod_beta)
  moreover have "distinct (keys (filter P (map (\<lambda>(n, i). (n, g i)) d)))" if "distinct (keys d)" for P g and d :: "(string, nat) dict"
  proof (rule distinct_map_filter)
    show "distinct (keys (map (\<lambda>(n, i). (n, g i)) d))" using that by (simp add: case_prod_beta comp_def)
  qed
  ultimately show ?thesis using assms by (simp add: written_def)
qed

lemma map_of_rev: "distinct (keys d) \<Longrightarrow> map_of (rev d) = map_of d"
  by (subst map_of_inject_set) (simp_all add: rev_map [symmetric])

text \<open>C22: What a registry writes into a file of flags is read back: a program with the same flags that is called with
  this file gets each value that was set, and keeps its own value of each flag that had none, if every value is of the
  kind of its flag and no text has a line end or ends with a blank.\<close>

theorem flagfile_roundtrip:
  assumes "tidy rg" and "same_flags rg rg0" and "map_of files (home (strip is_space f)) = Some (flags_into_string rg)"
  shows "\<exists>rg'. call_flags home files [prog, ''--flagfile='' @ f] rg0 = (Inr [prog], rg') \<and>
    (\<forall>n. flag_value rg' n = (case flag_value rg n of
       Inr v \<Rightarrow> if v = NoValue then flag_value rg0 n else Inr v
     | Inl _ \<Rightarrow> flag_value rg0 n))"
proof -
  let ?lines = "map (\<lambda>(n, f). serialize f) (written rg)"
  have rok: "registry_ok rg" "distinct (keys (rg_names rg))" using assms(1) by (simp_all add: tidy_def)
  have names: "rg_names rg0 = rg_names rg" "length (rg_flags rg0) = length (rg_flags rg)"
    using assms(2) unfolding same_flags_def by (blast, blast dest: map_eq_imp_length_eq)
  have rok0: "registry_ok rg0" using rok(1) names by (simp add: registry_ok_def)
  have entry: "flag_of rg n = Some f \<and> assignable rg0 n \<and> (\<exists>g. flag_of rg0 n = Some g \<and> gf_kind g = gf_kind f) \<and> gf_value f \<noteq> NoValue \<and>
      storable (gf_kind f) (gf_value f)" if w: "(n, f) \<in> set (written rg)" for n f
  proof -
    obtain i where i: "(n, i) \<in> set (rg_names rg)" "f = rg_flags rg ! i" "gf_value f \<noteq> NoValue" "assignable rg n" "storable (gf_kind f) (gf_value f)"
      using written_entry [OF assms(1) w] by metis
    have "map_of (rg_names rg) n = Some i" using i(1) rok(2) by simp
    moreover have "assignable rg0 n" using i(4) unfolding assignable_def own_name_def names .
    ultimately show ?thesis using i same_flags_kind [OF assms(2) rok(1) i(1)] by (simp add: flag_of_def names)
  qed
  have legal: "\<forall>nv \<in> set (written_as rg). legal rg0 nv"
    using entry stored_is_read by (fastforce simp: written_as_def legal_def)
  have read: "read_flags home files [] [] (drop 1 [prog, ''--flagfile='' @ f]) = Inr (?lines @ [])"
  proof -
    have "is_flagfile_directive (''--flagfile='' @ f)" by (simp add: is_flagfile_directive_def)
    moreover have "extract_filename home (''--flagfile='' @ f) = Inr (home (strip is_space f))" by (simp add: extract_filename_def)
    moreover have "flag_file_lines home files (home (strip is_space f)) [] = Inr (?lines, [home (strip is_space f)])"
      using assms(3) written_file [OF assms(1)] by (simp add: flag_file_lines_def)
    ultimately show ?thesis by simp
  qed
  have correct: "correct_booleans rg0 (?lines @ []) = map assignment (written_as rg) @ []" using corrected_written [OF assms(1,2)] by simp
  obtain rg' where rg': "call_flags home files [prog, ''--flagfile='' @ f] rg0 = (Inr [prog], rg')"
      "\<forall>n. flag_value rg' n = (case map_of (rev (written_as rg)) n of None \<Rightarrow> flag_value rg0 n | Some v \<Rightarrow> assigned rg0 n v)"
    using call_corrected [OF rok0 legal read correct] by auto
  have "flag_value rg' n = (case flag_value rg n of Inr v \<Rightarrow> if v = NoValue then flag_value rg0 n else Inr v | Inl _ \<Rightarrow> flag_value rg0 n)" for n
  proof (cases "\<exists>f. (n, f) \<in> set (written rg)")
    case True
    then obtain f where f: "(n, f) \<in> set (written rg)" by blast
    then have "(n, stored_text (gf_value f)) \<in> set (written_as rg)" by (force simp: written_as_def)
    then have "map_of (rev (written_as rg)) n = Some (stored_text (gf_value f))"
      using written_distinct [OF rok(2)] by (simp add: map_of_rev)
    moreover have "assigned rg0 n (stored_text (gf_value f)) = Inr (gf_value f)"
      using entry [OF f] stored_is_read [of "gf_kind f" "gf_value f"] by (auto simp: assigned_def)
    ultimately show ?thesis using rg'(2) entry [OF f] by (simp add: flag_value_def)
  next
    case False
    then have "map_of (written_as rg) n = None" by (auto simp: written_as_def map_of_eq_None_iff)
    then have "flag_value rg' n = flag_value rg0 n" using rg'(2) written_distinct [OF rok(2)] by (simp add: map_of_rev)
    moreover have "flag_value rg n = Inl AttributeError \<or> flag_value rg n = Inr NoValue"
    proof (cases "map_of (rg_names rg) n")
      case (Some i)
      then have "(n, rg_flags rg ! i) \<notin> set (written rg)" "(n, i) \<in> set (rg_names rg)" using False by (auto dest: map_of_SomeD)
      then have "gf_value (rg_flags rg ! i) = NoValue" by (force simp: written_def)
      then show ?thesis using Some by (simp add: flag_value_def flag_of_def)
    qed (simp add: flag_value_def flag_of_def)
    ultimately show ?thesis by auto
  qed
  then show ?thesis using rg'(1) by blast
qed

definition three_flags :: "string \<Rightarrow> bool \<Rightarrow> int \<Rightarrow> registry" where
  "three_flags name v port = \<lparr>rg_names = [(''node_name'', 0), (''verbose'', 1), (''s3_port'', 2)],
     rg_flags = map flag_made [str_flag ''node_name'' name, bool_flag ''verbose'' v, int_flag ''s3_port'' port]\<rparr>"

theorem flagfile_roundtrip_witness:
  "\<exists>rg'. call_flags (\<lambda>x. x) [(''/f'', flags_into_string (three_flags ''n1'' True (-5)))] [''p'', ''--flagfile=/f''] (three_flags ''h'' False 3333) =
      (Inr [''p''], rg') \<and> flag_value rg' ''node_name'' = Inr (StrV ''n1'') \<and> flag_value rg' ''verbose'' = Inr (BoolV True) \<and>
    flag_value rg' ''s3_port'' = Inr (IntV (-5))"
proof -
  let ?rg = "three_flags ''n1'' True (-5)" and ?other = "three_flags ''h'' False 3333"
  have own: "own_name ?rg ''node_name''" "own_name ?rg ''verbose''" "own_name ?rg ''s3_port''"
    unfolding own_name_def three_flags_def registry.simps by (auto split: if_splits)
  have names: "distinct (keys (rg_names ?rg))" "distinct (flag_and_no_names ?rg)"
    by (simp_all add: three_flags_def flag_and_no_names_def boolean_kind_def)
  have "registry_ok ?rg" by (simp add: registry_ok_def three_flags_def)
  moreover have "\<forall>(n, i) \<in> set (rg_names ?rg). gf_value (rg_flags ?rg ! i) \<noteq> NoValue \<longrightarrow>
        gf_name (rg_flags ?rg ! i) = n \<and> assignable ?rg n \<and> n \<noteq> [] \<and> (\<forall>c \<in> set n. \<not> is_space c) \<and>
        storable (gf_kind (rg_flags ?rg ! i)) (gf_value (rg_flags ?rg ! i))"
    using own by (simp add: three_flags_def assignable_def is_space_def within_def)
  ultimately have tidy: "tidy ?rg" using names unfolding tidy_def by blast
  have same: "same_flags ?rg ?other" by (simp add: same_flags_def three_flags_def)
  have strip: "strip is_space ''/f'' = ''/f''" by (simp add: strip_def is_space_def)
  have conf: "map_of [(''/f'', flags_into_string ?rg)] (strip is_space ''/f'') = Some (flags_into_string ?rg)" unfolding strip by simp
  obtain rg' where rg': "call_flags (\<lambda>x. x) [(''/f'', flags_into_string ?rg)] [''p'', ''--flagfile='' @ ''/f''] ?other = (Inr [''p''], rg')"
      "\<forall>n. flag_value rg' n = (case flag_value ?rg n of Inr v \<Rightarrow> if v = NoValue then flag_value ?other n else Inr v | Inl _ \<Rightarrow> flag_value ?other n)"
    using flagfile_roundtrip [where home = "\<lambda>x. x" and prog = "''p''", OF tidy same conf] by blast
  have "flag_value ?rg ''node_name'' = Inr (StrV ''n1'')" "flag_value ?rg ''verbose'' = Inr (BoolV True)" "flag_value ?rg ''s3_port'' = Inr (IntV (-5))"
    unfolding flag_value_def flag_of_def three_flags_def by simp_all
  then show ?thesis using rg' by (intro exI [of _ rg']) simp
qed

end
