(* ===== verification/Crypto.thy ===== *)
theory Crypto
  imports Users Paths
begin

text \<open>
  \<^verbatim>\<open>nova/crypto.py\<close>: keys and certificates, which are made by \<^verbatim>\<open>ssh-keygen\<close> and
  \<^verbatim>\<open>openssl\<close> in temporary directories, and the credentials of a user
  (\<^verbatim>\<open>User.get_credentials\<close> of \<^verbatim>\<open>auth/users.py\<close>), which are read back from there and packed.
  What a file holds after a command is the answer of the outside world, \<open>read_back\<close>. The functions that
  build certificates with the library M2Crypto, which no code calls, are left out.
\<close>

definition ca_path :: "flags \<Rightarrow> string option \<Rightarrow> string" where
  "ca_path fl username = (case username of
      Some (c # cs) \<Rightarrow> ca_path_flag fl @ ''/INTER/'' @ (c # cs) @ ''/cacert.pem''
    | _ \<Rightarrow> ca_path_flag fl @ ''/cacert.pem'')"

definition fetch_ca :: "flags \<Rightarrow> string option \<Rightarrow> bool \<Rightarrow> (world, string) act" where
  "fetch_ca fl username chain =
     bindS (read_back (ca_path fl username)) (\<lambda>own.
     let buffer = own @ ''\<newline>'' in
     if username \<noteq> None \<and> username \<noteq> Some [] \<and> \<not> chain then retS buffer
     else bindS (read_back (ca_path fl None)) (\<lambda>root. retS (buffer @ root)))"

definition rmtree :: "string \<Rightarrow> (world, unit) act" where
  "rmtree p = os_call (Rmtree p) OSError"

definition run_cmd :: "string \<Rightarrow> string option \<Rightarrow> (world, string \<times> string) act" where
  "run_cmd cmd inp w = (let (a, w) = execute cmd inp w in (Inr a, w))"

text \<open>The private key, the public key and the second word of what the key's digest is printed with.\<close>

definition crypto_key_pair :: "int \<Rightarrow> (world, string \<times> string \<times> string) act" where
  "crypto_key_pair bits =
     bindS mkdtemp (\<lambda>tmpdir.
     let keyfile = path_join tmpdir ''temp'' in
     bindS (run_cmd (''ssh-keygen -q -b '' @ str_int bits @ '' -N '' @ [CHR 0x22, CHR 0x22] @ '' -f '' @ keyfile) None) (\<lambda>_.
     bindS (run_cmd (''ssh-keygen -q -l -f '' @ keyfile @ ''.pub'') None) (\<lambda>(out, err).
     bindS (case py_split CHR '' '' out of a # b # _ \<Rightarrow> retS b | _ \<Rightarrow> raiseS IndexError) (\<lambda>fingerprint.
     bindS (read_back keyfile) (\<lambda>private_key.
     bindS (read_back (keyfile @ ''.pub'')) (\<lambda>public_key.
     bindS (rmtree tmpdir) (\<lambda>_. retS (private_key, public_key, fingerprint))))))))"

definition ssl_pub_to_ssh_pub :: "string \<Rightarrow> string \<Rightarrow> string \<Rightarrow> (world, string) act" where
  "ssl_pub_to_ssh_pub ssl_public_key name suffix =
     bindS (run_cmd (''sed -e'' @ [CHR 0x27] @ ''1d'' @ [CHR 0x27] @ '' -e'' @ [CHR 0x27] @ ''$d'' @ [CHR 0x27] @
         '' |  pkcs1-conv --public-key-info --base-64 | sexp-conv |  sed -e'' @ [CHR 0x27] @
         ''1s/(rsa-pkcs1/(rsa-pkcs1-sha1/'' @ [CHR 0x27] @ '' |  sexp-conv -s transport | lsh-export-key --openssh'')
       (Some ssl_public_key)) (\<lambda>(out, err). retS (strip is_space out @ '' '' @ name @ ''@'' @ suffix @ ''\<newline>''))"

definition generate_x509_cert :: "flags \<Rightarrow> string \<Rightarrow> int \<Rightarrow> (world, string \<times> string) act" where
  "generate_x509_cert fl subject bits =
     bindS mkdtemp (\<lambda>tmpdir.
     let keyfile = abspath fl (path_join tmpdir ''temp.key''); csrfile = path_join tmpdir ''temp.csr'' in
     bindS (\<lambda>w. (Inr (), runthis (''openssl genrsa -out '' @ keyfile @ '' '' @ str_int bits) w)) (\<lambda>_.
     bindS (\<lambda>w. (Inr (), runthis (''openssl req -new -key '' @ keyfile @ '' -out '' @ csrfile @ '' -batch -subj '' @ subject) w)) (\<lambda>_.
     bindS (read_back keyfile) (\<lambda>private_key.
     bindS (read_back csrfile) (\<lambda>csr.
     bindS (rmtree tmpdir) (\<lambda>_. retS (private_key, csr)))))))"

text \<open>\<^verbatim>\<open>_sign_csr\<close>: the working directory is changed for the command.\<close>

definition sign_in_folder :: "flags \<Rightarrow> string \<Rightarrow> string \<Rightarrow> (world, string) act" where
  "sign_in_folder fl csr_text ca_folder =
     bindS mkdtemp (\<lambda>tmpfolder.
     bindS (os_call (Write_File (tmpfolder @ ''/inbound.csr'') csr_text) IOError) (\<lambda>_.
     bindS (os_call (Chdir ca_folder) OSError) (\<lambda>_.
     bindS (\<lambda>w. (Inr (), runthis (''openssl ca -batch -out '' @ tmpfolder @ ''/outbound.crt -config ./openssl.cnf -infiles '' @
         tmpfolder @ ''/inbound.csr'') w)) (\<lambda>_.
     bindS (os_call (Chdir (work_dir fl)) OSError) (\<lambda>_.
       read_back (tmpfolder @ ''/outbound.crt''))))))"

definition sign_csr :: "flags \<Rightarrow> string \<Rightarrow> string option \<Rightarrow> (world, string) act" where
  "sign_csr fl csr_text intermediate = (case intermediate of
      Some (c # cs) \<Rightarrow>
        (let user_ca = ca_path_flag fl @ ''/INTER/'' @ (c # cs) in
         bindS (\<lambda>w. if path_exists user_ca w then (Inr (), w)
                else bindS (os_call (Chdir (ca_path_flag fl)) OSError) (\<lambda>_.
                     bindS (\<lambda>w. (Inr (), runthis (''sh geninter.sh '' @ (c # cs)) w)) (\<lambda>_.
                       os_call (Chdir (work_dir fl)) OSError)) w) (\<lambda>_.
           sign_in_folder fl csr_text user_ca))
    | _ \<Rightarrow> sign_in_folder fl csr_text (ca_path_flag fl))"

subsection \<open>Credentials\<close>

text \<open>\<open>moment\<close> is the time in the subject of a certificate.\<close>

definition cert_subject :: "string \<Rightarrow> string \<Rightarrow> string" where
  "cert_subject uid moment = ''/C=US/ST=California/L=NASA_Ames/O=NebulaDev/OU=NOVA/CN='' @ uid @ ''-'' @ moment"

definition users_x509_cert :: "flags \<Rightarrow> string \<Rightarrow> (world, string \<times> string) act" where
  "users_x509_cert fl uid =
     bindS (\<lambda>w. (Inr (clock w (trace w)), w)) (\<lambda>moment.
     bindS (generate_x509_cert fl (cert_subject uid moment) 1024) (\<lambda>(private_key, csr).
     bindS (sign_csr fl csr (Some uid)) (\<lambda>signed_cert. retS (private_key, signed_cert))))"

text \<open>The values that the template of the shell variables gets; filling a template and packing an archive
  are functions of the libraries.\<close>

definition rc_values :: "flags \<Rightarrow> string \<Rightarrow> string \<Rightarrow> string \<Rightarrow> user \<Rightarrow> (string, string) dict" where
  "rc_values fl ec2_url cert_file key_file u =
     [(''access'', u_access u), (''secret'', u_secret u), (''ec2'', ec2_url),
      (''s3'', ''http://'' @ s3_host fl @ '':'' @ str_int (s3_port fl)), (''nova'', ca_file fl), (''cert'', cert_file), (''key'', key_file)]"

record credential_flags =
  cr_template :: string
  cr_vpn_template :: string
  cr_ec2_url :: string
  cr_rc_file :: string
  cr_key_file :: string
  cr_cert_file :: string

record credential_tools =
  ct_format :: "string \<Rightarrow> (string, string) dict \<Rightarrow> string res"
  ct_substitute :: "string \<Rightarrow> (string, string) dict \<Rightarrow> string res"
  ct_zip :: "(string \<times> string) list \<Rightarrow> string"

definition generate_rc :: "flags \<Rightarrow> credential_flags \<Rightarrow> credential_tools \<Rightarrow> user \<Rightarrow> (world, string) act" where
  "generate_rc fl cf ct u =
     bindS (read_back (cr_template cf)) (\<lambda>rc.
       liftR (ct_format ct rc (rc_values fl (cr_ec2_url cf) (cr_cert_file cf) (cr_key_file cf) u)))"

definition get_credentials :: "flags \<Rightarrow> credential_flags \<Rightarrow> credential_tools \<Rightarrow> user \<Rightarrow> (world, string) act" where
  "get_credentials fl cf ct u =
     bindS (generate_rc fl cf ct u) (\<lambda>rc.
     bindS (users_x509_cert fl (u_id u)) (\<lambda>(private_key, signed_cert).
     bindS (read_back (cr_vpn_template cf)) (\<lambda>s.
     bindS (\<lambda>w. let (r, K) = vpn_port (u_id u) (store w) in (r, w\<lparr>store := K\<rparr>)) (\<lambda>port.
     bindS (liftR (ct_substitute ct s [(''keyfile'', cr_key_file cf), (''certfile'', cr_cert_file cf), (''ip'', vpn_ip fl), (''port'', str_int port)])) (\<lambda>config.
     bindS mkdtemp (\<lambda>tmpdir.
     bindS (fetch_ca fl (Some (u_id u)) True) (\<lambda>ca.
     bindS (rmtree tmpdir) (\<lambda>_.
       retS (ct_zip ct [(cr_rc_file cf, rc), (cr_key_file cf, private_key), (cr_cert_file cf, signed_cert),
         (''nebula-client.conf'', config), (ca_file fl, ca)])))))))))"

definition get_signed_zip :: "flags \<Rightarrow> credential_flags \<Rightarrow> credential_tools \<Rightarrow> string \<Rightarrow> (world, string) act" where
  "get_signed_zip fl cf ct uid =
     bindS (\<lambda>w. (get_user fl (store w) uid, w)) (\<lambda>u. case u of
         None \<Rightarrow> raiseS AttributeError
       | Some u \<Rightarrow> get_credentials fl cf ct u)"

subsection \<open>The command line\<close>

text \<open>\<^verbatim>\<open>nova-manage\<close>: what the user commands print.\<close>

definition print_export :: "user \<Rightarrow> string list" where
  "print_export u = [''export EC2_ACCESS_KEY='' @ u_access u, ''export EC2_SECRET_KEY='' @ u_secret u]"

definition manage_create :: "flags \<Rightarrow> string \<times> string \<Rightarrow> bool \<Rightarrow> string \<Rightarrow> string option \<Rightarrow> string option \<Rightarrow> (kstore, string list) act" where
  "manage_create fl uuids admin name access secret =
     bindS (create_user fl uuids name access secret admin) (\<lambda>u. retS (print_export u))"

definition manage_delete :: "flags \<Rightarrow> string \<Rightarrow> (kstore, string list) act" where
  "manage_delete fl name = bindS (delete_user fl name) (\<lambda>_. retS [])"

definition manage_exports :: "flags \<Rightarrow> string \<Rightarrow> kstore \<Rightarrow> string list res" where
  "manage_exports fl name K = bindR (get_user fl K name) (\<lambda>u. Inr (case u of
      None \<Rightarrow> [''User '' @ name @ '' doesn't exist'']
    | Some u \<Rightarrow> print_export u))"

definition manage_list :: "flags \<Rightarrow> kstore \<Rightarrow> string list res" where
  "manage_list fl K = bindR (get_users fl K) (\<lambda>us. Inr (map u_name us))"

definition manage_zip :: "flags \<Rightarrow> credential_flags \<Rightarrow> credential_tools \<Rightarrow> string \<Rightarrow> string \<Rightarrow> (world, string list) act" where
  "manage_zip fl cf ct name filename =
     bindS (\<lambda>w. (get_user fl (store w) name, w)) (\<lambda>u. case u of
         None \<Rightarrow> retS [''User '' @ name @ '' doesn't exist'']
       | Some u \<Rightarrow>
           bindS (os_call (Write_File filename []) IOError) (\<lambda>_.
           bindS (get_credentials fl cf ct u) (\<lambda>z.
           bindS (os_call (Write_File filename z) IOError) (\<lambda>_. retS []))))"

text \<open>\<^verbatim>\<open>lazy_match\<close>: the entries whose name begins with the text, whatever the case.\<close>

definition lazy_match :: "string \<Rightarrow> (string \<times> 'a) list \<Rightarrow> (string \<times> 'a) list" where
  "lazy_match name kvs = filter (\<lambda>(k, v). startswith (lower k) (lower name)) kvs"

end
