(* ===== verification/Manage.thy ===== *)
theory Manage
  imports Crypto Server FlagDefs
begin

text \<open>
  The command \<^verbatim>\<open>nova-manage\<close>: from the command line to the operation on the directory
  of users, with what it prints and how it ends.
\<close>

subsection \<open>The command line\<close>

definition usage :: "string \<Rightarrow> string list" where
  "usage script_name = [script_name @ '' category action [<args>]'']"

definition categories :: "string list" where
  "categories = [''user'']"

text \<open>What \<^verbatim>\<open>methods_of\<close> finds in \<^verbatim>\<open>UserCommands\<close>, in the order of
  \<^verbatim>\<open>dir\<close>.\<close>

definition action_names :: "string list" where
  "action_names = [''admin'', ''create'', ''delete'', ''exports'', ''list'', ''zip'']"

definition action_doc :: "string \<Rightarrow> string" where
  "action_doc a = (let nl = ''\<newline>        '' in
     if a = ''admin'' then ''creates a new admin and prints exports'' @ nl @ ''arguments: name [access] [secret]''
     else if a = ''create'' then ''creates a new user and prints exports'' @ nl @ ''arguments: name [access] [secret]''
     else if a = ''delete'' then ''deletes an existing user'' @ nl @ ''arguments: name''
     else if a = ''exports'' then ''prints access and secrets for user in export format'' @ nl @ ''arguments: name''
     else if a = ''list'' then ''lists all users'' @ nl @ ''arguments: <none>''
     else ''exports credentials for user to a zip file'' @ nl @ ''arguments: name [filename='' @ [CHR 0x27] @ ''nova.zip]'')"

definition tabbed :: "string list \<Rightarrow> string list" where
  "tabbed ks = map (\<lambda>k. [CHR 9] @ k) ks"

text \<open>The call of an action with the rest of the command line.\<close>

definition call_action :: "flags \<Rightarrow> credential_flags \<Rightarrow> credential_tools \<Rightarrow> string \<times> string \<Rightarrow> string \<Rightarrow> string list \<Rightarrow> (world, string list) act" where
  "call_action fl cf ct uuids action args =
     (if action = ''admin'' \<or> action = ''create'' then
        let make = (\<lambda>name access secret. on_store (manage_create fl uuids (action = ''admin'') name access secret)) in
        (case args of
           [name] \<Rightarrow> make name None None
         | [name, access] \<Rightarrow> make name (Some access) None
         | [name, access, secret] \<Rightarrow> make name (Some access) (Some secret)
         | _ \<Rightarrow> raiseS TypeError)
      else if action = ''delete'' then
        (case args of [name] \<Rightarrow> on_store (manage_delete fl name) | _ \<Rightarrow> raiseS TypeError)
      else if action = ''exports'' then
        (case args of [name] \<Rightarrow> (\<lambda>w. (manage_exports fl name (store w), w)) | _ \<Rightarrow> raiseS TypeError)
      else if action = ''list'' then
        (case args of [] \<Rightarrow> (\<lambda>w. (manage_list fl (store w), w)) | _ \<Rightarrow> raiseS TypeError)
      else
        (case args of
           [name] \<Rightarrow> manage_zip fl cf ct name ''nova.zip''
         | [name, filename] \<Rightarrow> manage_zip fl cf ct name filename
         | _ \<Rightarrow> raiseS TypeError))"

text \<open>
  The program after the flags have been read. Every \<^verbatim>\<open>TypeError\<close> of a command is taken for a wrong
  number of arguments, and does not make the program fail.
\<close>

definition manage_run :: "flags \<Rightarrow> credential_flags \<Rightarrow> credential_tools \<Rightarrow> string \<times> string \<Rightarrow> string list \<Rightarrow> world \<Rightarrow>
    (string list \<times> ending) \<times> world" where
  "manage_run fl cf ct uuids argv w =
     (case argv of
        [] \<Rightarrow> (([], Raises IndexError), w)
      | [script] \<Rightarrow> ((usage script @ [''Available categories:''] @ tabbed categories, Exits 2), w)
      | script # category # args \<Rightarrow>
         (case lazy_match category (map (\<lambda>k. (k, k)) categories) of
            [] \<Rightarrow> (([category @ '' does not match any categories:''] @ tabbed categories, Exits 2), w)
          | (category', _) # others \<Rightarrow>
              if others \<noteq> [] then (([category @ '' matched multiple categories:''] @ tabbed (category' # map fst others), Exits 2), w)
              else let w = w\<lparr>store := user_manager_init fl (store w)\<rparr> in
                (case args of
                   [] \<Rightarrow> ((usage script @ [''Available actions for '' @ category' @ '' category:''] @ tabbed action_names, Exits 2), w)
                 | action # args \<Rightarrow>
                    (case lazy_match action (map (\<lambda>k. (k, k)) action_names) of
                       [] \<Rightarrow> (([action @ '' does not match any actions''] @ tabbed action_names, Exits 2), w)
                     | (action', _) # others \<Rightarrow>
                         if others \<noteq> [] then (([action @ '' matched multiple actions:''] @ tabbed (action' # map fst others), Exits 2), w)
                         else (case call_action fl cf ct uuids action' args w of
                            (Inr printed, w) \<Rightarrow> ((printed, Returns), w)
                          | (Inl e, w) \<Rightarrow>
                              if e = TypeError
                              then (([''Wrong number of arguments supplied'', category' @ '' '' @ action' @ '': '' @ action_doc action'], Returns), w)
                              else (([], Raises e), w))))))"

text \<open>The whole program: a default file of flags is looked for beside the script, and the flags of the registry are read.\<close>

definition manage_main :: "(string \<Rightarrow> string) \<Rightarrow> (string, string) dict \<Rightarrow> credential_flags \<Rightarrow> credential_tools \<Rightarrow> string \<times> string \<Rightarrow>
    string \<Rightarrow> string \<Rightarrow> registry \<Rightarrow> string list \<Rightarrow> world \<Rightarrow> (string list \<times> ending) \<times> world" where
  "manage_main home conf cf ct uuids wd script rg argv w =
     (case call_flags home conf (default_flagfile (flags_of wd rg) script (map_of conf) ''nova.conf'' argv) rg of
        (Inl e, rg) \<Rightarrow> (([], Raises e), w)
      | (Inr argv, rg) \<Rightarrow> manage_run (flags_of wd rg) cf ct uuids argv w)"

subsection \<open>Managing users\<close>

text \<open>A word abbreviates a name, whatever its case.\<close>

definition abbreviates :: "string \<Rightarrow> string \<Rightarrow> bool" where
  "abbreviates a name \<longleftrightarrow> a \<noteq> [] \<and> startswith name (lower a)"

lemma lower_names: "map lower action_names = action_names" "lower ''user'' = ''user''"
  by code_simp+

lemma lower_action: "act \<in> set action_names \<Longrightarrow> lower act = act"
  using lower_names(1) by (metis map_idI map_eq_conv list.map_ident)

text \<open>No action is a prefix of another, nor do two of them begin with the same letter.\<close>

lemma first_letters: "distinct (map hd action_names)" "[] \<notin> set action_names"
  by (simp_all add: action_names_def)

text \<open>The actions begin with different letters, so that every abbreviation is enough.\<close>

lemma same_first_letter:
  assumes "b \<in> set action_names" "act \<in> set action_names" "startswith act (x # r)" "startswith b (x # r)"
  shows "b = act"
proof -
  have "hd b = hd act" using assms(3,4) by (cases b; cases act) auto
  then show ?thesis using first_letters(1) assms(1,2) by (simp add: distinct_map inj_on_def)
qed

lemma match_action:
  assumes "act \<in> set action_names" "abbreviates a act"
  shows "lazy_match a (map (\<lambda>k. (k, k)) action_names) = [(act, act)]"
proof -
  obtain c r where a: "lower a = c # r" using assms(2) by (cases "lower a") (simp_all add: abbreviates_def)
  have s: "startswith act (c # r)" using assms(2) a by (simp add: abbreviates_def)
  have "startswith (lower k) (lower a) \<longleftrightarrow> k = act" if "k \<in> set action_names" for k
    using same_first_letter [OF that assms(1) s] s unfolding a lower_action [OF that] by blast
  then have "filter (\<lambda>k. startswith (lower k) (lower a)) action_names = filter (\<lambda>k. k = act) action_names"
    by (rule filter_cong [OF refl])
  also have "\<dots> = [act]" using assms(1) unfolding action_names_def list.set by (elim insertE) simp_all
  finally show ?thesis by (simp add: lazy_match_def filter_map comp_def)
qed

lemma match_category: "abbreviates c ''user'' \<Longrightarrow> lazy_match c (map (\<lambda>k. (k, k)) categories) = [(''user'', ''user'')]"
  by (simp add: lazy_match_def categories_def abbreviates_def lower_names(2) [unfolded list.map] del: startswith.simps)

lemma manage_action:
  assumes "abbreviates c ''user''" "act \<in> set action_names" "abbreviates a act" "\<not> fake_users fl"
  shows "manage_run fl cf ct uuids (script # c # a # args) w = (case call_action fl cf ct uuids act args w of
      (Inr printed, w) \<Rightarrow> ((printed, Returns), w)
    | (Inl e, w) \<Rightarrow>
        if e = TypeError then (([''Wrong number of arguments supplied'', ''user'' @ '' '' @ act @ '': '' @ action_doc act], Returns), w)
        else (([], Raises e), w))"
proof -
  have "w\<lparr>store := user_manager_init fl (store w)\<rparr> = w" using assms(4) by (simp add: user_manager_init_def)
  then show ?thesis
    unfolding manage_run_def list.case match_category [OF assms(1)] match_action [OF assms(2,3)] prod.case Let_def
    by (simp only: match_action [OF assms(2,3)] list.map list.case prod.case simp_thms if_False)
qed


text \<open>The declared names of the credentials, and formats that leave a template as it is.\<close>

definition declared_credentials :: credential_flags where
  "declared_credentials = \<lparr>cr_template = ''/nova/auth/novarc.template'', cr_vpn_template = ''/nova/cloudpipe/client.ovpn.template'',
     cr_ec2_url = ''http://10.255.255.1:8773/services/Cloud'', cr_rc_file = ''novarc'', cr_key_file = ''pk.pem'', cr_cert_file = ''cert.pem''\<rparr>"

definition plain_tools :: credential_tools where
  "plain_tools = \<lparr>ct_format = (\<lambda>t _. Inr t), ct_substitute = (\<lambda>t _. Inr t), ct_zip = (\<lambda>fs. concat (map snd fs))\<rparr>"


end
