(* ===== verification/Spec2Isabelle.thy ===== *)
theory Spec2Isabelle
  imports NodeProps NetNode IPyLaws AdminProps CloudProps CloudLaunch ApiProps ObjectProps Workers Server GflagsProps Manage
begin

text \<open>
  Nova, the cloud controller of the repository (src/nova, in Python): a verification library.

  The program. Four daemons work on one cloud. The endpoint (bin/nova-api) takes signed requests over HTTP, and the
  cloud controller behind it decides who may do what and sends messages; each compute node (bin/nova-compute) runs
  instances through libvirt and watches them; each volume node (bin/nova-volume) keeps volumes in a volume group;
  the object store (bin/nova-objectstore) keeps buckets, objects and images as files. They share a datastore (one
  JSON file for each key), a directory of users (LDAP, or its replacement over the datastore) and a message broker
  (AMQP, or its replacement in memory).

  Which theory models what (all paths are under src/nova).

    Shared. Prelude: results, actions, dictionaries, JSON values and the exceptions of exception.py. PyStr: the
    operations on texts that the code uses (split, strip, find, int, str, the percent operator). Flags: the values
    of the command line flags as a record, with their defaults. World: the state outside of the
    interpreter and utils.py. Paths: os.path and the parts of it the code rests on. Base64 and Xml: those codecs.

    Flags. Gflags: contrib/python-gflags/gflags.py, from the registration of a flag to FLAGS(sys.argv) with files of
    flags, boolean flags in short form and getopt. FlagDefs: what flags.py and the other modules declare, and that
    this gives the record of Flags. GflagsProps: what a command line and a file of flags mean.

    Users and access. Datastore: datastore.py. FakeLdap: auth/fakeldap.py. Access: auth/access.py.
    Users: auth/users.py (User, KeyPair, LDAPWrapper, UserManager). Signer: auth/signer.py and the
    authentication of requests. Crypto: crypto.py, credentials of users.py, and the commands of bin/nova-manage.
    Manage: the program bin/nova-manage, from its command line to what it prints and how it ends.

    Networks. IPy: the addresses of contrib/IPy.py, and IPyOps the rest of its class (texts in other forms, the order,
    sums, overlaps, reverse names), with IPyLaws on both. Network: Network, DHCPNetwork, BridgedNetwork, PublicNetwork,
    NetworkPool and VlanPool of compute/network.py. NetController: its NetworkController. NetNode: its NetworkNode.

    The compute node. Instance: the states and attributes of an Instance of compute/node.py. InstanceXml: toXml
    over the template, fromXml. Hypervisor: compute/fakevirt.py and the interface to a hypervisor. Disk:
    compute/disk.py. Node: the operations of Instance and Node one by one. NodeLife: the steps of a whole
    node (requests, timers, reports) and the invariant they keep. NodeProps: what follows for the requests.

    Volumes. Volume: volume/storage.py with its fake variant.

    The endpoint. Images: endpoint/images.py. Cloud and CloudRun: endpoint/cloud.py, in its order, and
    cloudpipe/pipelib.py. CloudLaunch and CloudProps: what starting instances does to the networks, and who is
    touched by a request. Api: endpoint/api.py, endpoint/admin.py and UserInfo of adminclient.py. ApiProps: what
    a request must be to reach an action.

    The clients. BotoClient: how contrib/boto/boto/connection.py builds, signs, sends and repeats a query, and how tornado
    reads it. BotoProps: client and server agree. AdminClient: adminclient.py over it, with the readers of answers of
    boto (handler.py, resultset.py), and the administration controller as the server calls it. AdminProps: what the
    client of the administration gets is what the directory of users holds.

    The object store. FileSystem: a tree of files and directories. ObjectStore: objectstore/bucket.py, object.py
    and image.py. ObjectHandler: objectstore/handler.py. FsLemmas, ObjectProps: paths, and what they mean for buckets.

    Messages and daemons. Rpc: rpc.py, fakerabbit.py, and what they use of carrot. RpcProps: delivery and answers.
    Workers: how a message becomes a call of an object. Server: server.py. This theory: properties in which a
    message of one daemon changes another.

  How the code is read. A method is a function with the name of the method; the object it works on is a record
  that is passed and returned. Its result is an element of the sum type: Inl with the exception, which keeps
  class and text where some code looks at them, or Inr with the value, and the state after it in both cases, so that what a raising
  method has already done stays done. bindR and bindS sequence such values; try_except, finally and for_each are the
  statements of Python. A dictionary is an association list in the order of insertion, dput
  and ddel update it as Python does, and the lookup is map_of. Integers are unbounded as in Python.
  References that the code shares (the instances of a node, which timers and jobs also hold) are addresses in a
  heap. Everything that happens outside (shell commands, messages, HTTP requests) is recorded by emit in the world,
  in order; what comes back from outside (the output and exit status of a command, random numbers, the answer of
  a library) is a field of the world or an argument and arbitrary in every theorem. Sets and dictionaries whose
  order Python leaves open are lists in an arbitrary order that the theorems do not rely on.

  Loops are structural recursion, or recursion on a number that the loop decreases (the termination proofs are in
  IPy and Gflags). Two loops need not end and are partial functions, whose value is then None: the signals of stop in server.py,
  where stop_returns states exactly when it ends, and the redirections that _mexe of boto follows, where mexe_returns
  says that a server without redirections is left after a bounded number of tries, and the theorems on the clients
  that an answer comes. Nothing in the library has fuel.

  What the lemmas show. Each theory of a component has its invariant (state_ok of a network, users_inv, node_inv,
  bs_ok), its preservation by every operation, and the value of every operation on every branch the code has. The
  contracts between components are locales, interpreted on the definitions of the model where these are provided:
  keeper (a dictionary that survives; the files of Datastore), address_pool (allocation of addresses; Network),
  user_directory (lookups of users; Users), virt_host (what a node relies on of a hypervisor; the fake one in
  Hypervisor), volume_backend (the steps in which real and fake volumes differ; both of them in Volume).
  The properties themselves are stated over the definitions, outside of the locales, and numbered by importance:
  addresses (fresh, reversible, in order, disjoint blocks), the life of an instance on its node, the way of a report
  and of an attachment between daemons, who may act, delivery of messages, what a launch does to the networks, isolation of
  users and buckets, the commands of nova-manage, what the flags of a command line mean, the round trips of the formats, clean-up after errors, and bounds of counters.
  Where the code fails by its own mistake the theorem says so: disassociate_address fails in every case
  (public_release_fails), a second user gets the VLAN of a deleted one (deleted_users_vlan_is_shared), a key with two dots leads to another bucket
  (key_leads_to_other_bucket), and an instance whose launch failed can never be removed (lost_for_ever).

  Not modelled. The libraries that are called but not in the repository (libvirt, M2Crypto, ldap, daemon,
  the shell's programs) are the world's or parameters. Of the vendored libraries only the code that the program's own
  behaviour rests on is modelled (IPy, the consumers and publishers of carrot, PeriodicCallback, get_argument and
  xhtml_escape, the arguments of a request and the handling of exceptions of tornado, the query interface of boto,
  the flags of gflags but for help texts, XML, floats, enumerations, lists and gnu_getopt); amqplib, pymox, and the rest of boto and tornado are third-party code,
  and most of the lines of the repository are theirs. Out of the program's own code: the main functions of the daemons (they build objects and start the event loop of tornado; the dispatch of messages
  they set up is in Workers), set-up of logging, mkreq and mkcacert of crypto.py, which nothing calls,
  and the tests. The printed XML is read as xml.sax reads it for documents without
  comments, document types and character references, which the server never writes.
\<close>

section \<open>Properties that span components\<close>

subsection \<open>A report of a node reaches the cloud controller\<close>

lemma dput_map: "dput k (f v) (map (\<lambda>(i, x). (i, f x)) d) = map (\<lambda>(i, x). (i, f x)) (dput k v d)"
  by (induction d) auto

text \<open>The instances of a node by their names.\<close>

definition node_items_of :: "'c node \<Rightarrow> (string, attributes) dict" where
  "node_items_of nd = fold (\<lambda>r. dput (inst_name (obj r nd)) (obj r nd)) (vals (nd_instances nd)) []"

lemma described_items: "describe_instances nd = (Inr (JDict (map (\<lambda>(i, x). (i, JDict x)) (node_items_of nd))), nd)"
proof -
  have "fold (\<lambda>r d. dput (inst_name (obj r nd)) (JDict (obj r nd)) d) rs (map (\<lambda>(i, x). (i, JDict x)) d) =
      map (\<lambda>(i, x). (i, JDict x)) (fold (\<lambda>r. dput (inst_name (obj r nd)) (obj r nd)) rs d)" for rs d
    by (induction rs arbitrary: d) (simp_all add: dput_map)
  from this [of _ "[]"] show ?thesis by (simp add: describe_instances_def node_items_of_def)
qed

lemma as_items_map: "as_items (JDict (map (\<lambda>(i, x). (i, JDict x)) d)) = Inr d"
  unfolding as_items_def by (simp, rule mapR_id) auto

lemma map_of_items:
  assumes "\<forall>(i, r) \<in> set xs. inst_name (f r) = i" and "distinct (keys xs)"
  shows "map_of (fold (\<lambda>r. dput (inst_name (f r)) (f r)) (vals xs) d) i =
    (case map_of xs i of None \<Rightarrow> map_of d i | Some r \<Rightarrow> Some (f r))"
  using assms
proof (induction xs arbitrary: d)
  case (Cons x xs)
  obtain j r where x: "x = (j, r)" by fastforce
  have r: "inst_name (f r) = j" and xs: "\<forall>(i, r) \<in> set xs. inst_name (f r) = i" "distinct (keys xs)"
    using Cons.prems x by simp_all
  have "j \<notin> set (keys xs)" using Cons.prems(2) x by simp
  then have none: "map_of xs j = None" by (simp only: map_of_eq_None_iff set_map not_False_eq_True)
  have "map_of (fold (\<lambda>r. dput (inst_name (f r)) (f r)) (vals (x # xs)) d) i =
      (case map_of xs i of None \<Rightarrow> map_of (dput j (f r) d) i | Some r \<Rightarrow> Some (f r))"
    using Cons.IH [OF xs, of "dput j (f r) d"] by (simp add: x r)
  then show ?case using none by (cases "map_of xs i") (auto simp: x)
qed simp

lemma node_items_lookup:
  assumes "insts_ok nd"
  shows "map_of (node_items_of nd) i = (case map_of (nd_instances nd) i of None \<Rightarrow> None | Some r \<Rightarrow> Some (obj r nd))"
proof -
  have d: "distinct (keys (nd_instances nd))" using assms by (simp add: insts_ok_def)
  have "inst_name (obj r nd) = i" if "(i, r) \<in> set (nd_instances nd)" for i r
    using assms map_of_is_SomeI [OF d that] by (auto simp: insts_ok_def named_def inst_name_eq)
  then have "\<forall>(i, r) \<in> set (nd_instances nd). inst_name (obj r nd) = i" by blast
  from map_of_items [OF this d, of "[]" i] show ?thesis unfolding node_items_of_def by (simp only: map_of.simps(1))
qed


text \<open>A broker with one consumer.\<close>

definition one_consumer :: "flags \<Rightarrow> string \<Rightarrow> broker" where
  "one_consumer fl t = snd (consumer_init (topic_consumer fl t) broker_init)"

lemma one_consumer_listens:
  assumes "control_exchange fl \<noteq> []" and "t \<noteq> []"
  shows "listening fl t 1 (one_consumer fl t)" "queue_of (one_consumer fl t) t = []"
proof -
  have "one_consumer fl t = \<lparr>bk_exchanges = [(control_exchange fl, \<lparr>ex_type = ''topic'', ex_routes = [(t, [t])]\<rparr>)], bk_queues = [(t, [])]\<rparr>"
    using assms
    by (simp add: one_consumer_def consumer_init_def consumer_declare_def topic_consumer_def bindS_def broker_init_def
        queue_declare_def exchange_declare_def queue_bind_def exchange_bind_def)
  then show "listening fl t 1 (one_consumer fl t)" "queue_of (one_consumer fl t) t = []"
    by (simp_all add: listening_def has_queue_def has_exchange_def routes_def queue_of_def)
qed


subsection \<open>Attaching a volume through the broker\<close>

lemma cast_eq:
  "cast t m a cl = (Inr (), cl\<lparr>cl_network := (cl_network cl)\<lparr>c_world := emit (Cast t (message m a)) (cloud_world cl)\<rparr>\<rparr>)"
  by (simp add: cast_def on_cloud_world_eq)

lemma attach_messages:
  assumes "cloud_attach_volume fl u v i d cl = (Inr r, cl')"
    and "get_by_id (cl_volumes cl) v = Inr (sn, vol)" and "get_by_id (cl_instances cl) i = Inr (cn, inst)"
  obtains aoe where "new_effects (cloud_world cl) (cloud_world cl') =
    [Cast (node_topic (compute_topic fl) cn) (message ''attach_volume'' [(''aoe_device'', aoe), (''instance_id'', JStr i), (''mountpoint'', d)]),
     Cast (node_topic (storage_topic fl) sn) (message ''attach_volume''
       [(''volume_id'', JStr v), (''instance_id'', JStr i), (''mountpoint'', d)])]"
proof -
  have a: "is_authorized u (owner_text (get0 vol ''user_id'')) None = Inr True"
    using assms by (cases "is_authorized u (owner_text (get0 vol ''user_id'')) None")
      (auto simp: cloud_attach_volume_def bindS_def get_cloud_volume_def authorized_eq split: if_splits)
  have b: "is_authorized u (owner_text (get0 inst ''owner_id'')) None = Inr True"
    using assms a by (cases "is_authorized u (owner_text (get0 inst ''owner_id'')) None")
      (auto simp: cloud_attach_volume_def bindS_def get_cloud_volume_def get_instance_def authorized_eq split: if_splits)
  obtain aoe where c: "dget vol ''aoe_device'' = Inr aoe"
    using assms a b by (cases "dget vol ''aoe_device''")
      (auto simp: cloud_attach_volume_def bindS_def get_cloud_volume_def get_instance_def authorized_eq)
  show ?thesis
    by (rule that [of aoe]) (use assms a b c in \<open>auto simp: cloud_attach_volume_def bindS_def get_cloud_volume_def
        get_instance_def authorized_eq cast_eq new_effects_def\<close>)
qed

text \<open>C12: When the cloud controller grants the attachment of a volume, its messages go through the broker, and
  the store that holds the volume and listens to its topic records the instance, the mount point and the new status
  of exactly this volume, in the datastore, with all other volumes as they were.\<close>

theorem attach_reaches_store:
  assumes "cloud_attach_volume fl u v i (JStr d) cl = (Inr (Ready (JBool True)), cl')"
    and "get_by_id (cl_volumes cl) v = Inr (sn, vol)" and "get_by_id (cl_instances cl) i = Inr (cn, inst)"
    and "node_topic (compute_topic fl) cn \<noteq> node_topic (storage_topic fl) sn"
    and "listening fl (node_topic (storage_topic fl) sn) 1 b" and "queue_of b (node_topic (storage_topic fl) sn) = []"
    and "control_exchange fl \<noteq> []"
    and "bs_ok fl bs" and "stored_volume (bs_world bs) v x" and "v \<noteq> ''None''"
  shows "let b' = forward_all fl (new_effects (cloud_world cl) (cloud_world cl')) b;
      bs' = fst (poll str_e (volume_worker fl) (topic_consumer fl (node_topic (storage_topic fl) sn)) (bs, b')) in
    stored_volume (bs_world bs') v (x\<lparr>v_instance_id := Some i, v_mountpoint := Some d, v_status := ''attached''\<rparr>) \<and>
    (\<forall>j y. j \<noteq> v \<longrightarrow> j \<noteq> ''None'' \<longrightarrow> stored_volume (bs_world bs) j y \<longrightarrow> stored_volume (bs_world bs') j y)"
proof (rule attach_messages [OF assms(1-3)])
  fix aoe
  let ?t1 = "node_topic (compute_topic fl) cn" and ?t2 = "node_topic (storage_topic fl) sn"
  define m1 where "m1 = message ''attach_volume'' [(''aoe_device'', aoe), (''instance_id'', JStr i), (''mountpoint'', JStr d)]"
  define args where "args = [(''volume_id'', JStr v), (''instance_id'', JStr i), (''mountpoint'', JStr d)]"
  assume "new_effects (cloud_world cl) (cloud_world cl') = [Cast ?t1 (message ''attach_volume''
      [(''aoe_device'', aoe), (''instance_id'', JStr i), (''mountpoint'', JStr d)]),
    Cast ?t2 (message ''attach_volume'' [(''volume_id'', JStr v), (''instance_id'', JStr i), (''mountpoint'', JStr d)])]"
  then have eff: "new_effects (cloud_world cl) (cloud_world cl') = [Cast ?t1 m1, Cast ?t2 (message ''attach_volume'' args)]"
    by (simp only: m1_def args_def)
  define b1 where "b1 = snd (rpc_cast fl ?t1 m1 b)"
  have b1: "listening fl ?t2 1 b1" "queue_of b1 ?t2 = []"
    using cast_other [OF assms(5,7,4), of m1] assms(6) by (simp_all add: b1_def)
  define f where "f = the (volume_worker fl ''attach_volume'')"
  obtain r bs' where a: "attach_volume fl v i d bs = (r, bs')" by fastforce
  obtain r' where f: "volume_worker fl ''attach_volume'' = Some f" "f args bs = (r', bs')"
  proof
    show "volume_worker fl ''attach_volume'' = Some f" by (simp add: f_def volume_worker_def)
    show "f args bs = (bindR r (\<lambda>x. Inr (none_answer x)), bs')"
      using a by (cases r) (simp_all add: f_def volume_worker_def args_def text_arg_def bindS_def)
  qed
  have "fst (poll str_e (volume_worker fl) (topic_consumer fl ?t2) (bs, snd (rpc_cast fl ?t2 (message ''attach_volume'' args) b1))) = bs'"
    using poll_cast [OF b1 assms(7), of "''attach_volume''" "volume_worker fl" f args bs r' bs' str_e] f by simp
  then show ?thesis
    using attach_volume_spec [OF assms(8-10), of i d] a by (simp add: eff forward_all_def b1_def Let_def)
qed

definition anns_cloud :: cloud where
  "anns_cloud = \<lparr>cl_volumes = [(''s1'', [(''vol-1'', [(''user_id'', JStr ''ann''), (''aoe_device'', JStr ''e0.1'')])])],
     cl_instances = [(''n1'', [(''i-1'', [(''owner_id'', JStr ''ann'')])])], cl_network = empty_net\<rparr>"

theorem attach_reaches_store_witness:
  "\<exists>bs' :: block_store. stored_volume (bs_world bs') ''vol-1'' (demo_volume\<lparr>v_instance_id := Some ''i-1'', v_mountpoint := Some ''/dev/vdb''\<rparr>)"
proof -
  let ?fl = demo_flags and ?t = "node_topic (storage_topic demo_flags) ''s1''"
  define cl' where "cl' = snd (cloud_attach_volume ?fl demo_user ''vol-1'' ''i-1'' (JStr ''/dev/vdb'') anns_cloud)"
  have g: "get_by_id (cl_volumes anns_cloud) ''vol-1'' = Inr (''s1'', [(''user_id'', JStr ''ann''), (''aoe_device'', JStr ''e0.1'')])"
    "get_by_id (cl_instances anns_cloud) ''i-1'' = Inr (''n1'', [(''owner_id'', JStr ''ann'')])"
    by (simp_all add: anns_cloud_def)
  have ann: "is_authorized demo_user (Some ''ann'') None = Inr True" by (simp add: is_authorized_def demo_user_def)
  have a: "cloud_attach_volume ?fl demo_user ''vol-1'' ''i-1'' (JStr ''/dev/vdb'') anns_cloud = (Inr (Ready (JBool True)), cl')"
    unfolding cl'_def using g by (simp add: cloud_attach_volume_def bindS_def get_cloud_volume_def get_instance_def
        authorized_eq get0_def owner_text_def ann cast_eq dget_def)
  have t: "node_topic (compute_topic ?fl) ''n1'' \<noteq> ?t" "?t \<noteq> []" "control_exchange ?fl \<noteq> []"
    by (simp_all add: node_topic_def default_flags_def)
  have v: "''vol-1'' \<noteq> ''None''" by simp
  note st = attach_reaches_store [OF a g t(1) one_consumer_listens [OF t(3,2)] t(3) demo_store_ok v, of "\<lambda>_. []",
      unfolded Let_def, THEN conjunct1]
  have "demo_volume\<lparr>v_instance_id := Some ''i-1'', v_mountpoint := Some ''/dev/vdb'', v_status := ''attached''\<rparr> =
      demo_volume\<lparr>v_instance_id := Some ''i-1'', v_mountpoint := Some ''/dev/vdb''\<rparr>"
    by (simp add: demo_volume_def)
  note st' = st [unfolded this]
  show ?thesis by (rule exI, rule st')
qed

end
